(* ===== verification/Bridge_Prelude.thy ===== *)
theory Bridge_Prelude
  imports Main "HOL-Library.Sublist" "HOL-Library.Monad_Syntax"
begin

text \<open>
  The shared layer of the development.  It holds the lemma collections the component theories
  extend (\<open>step_simps\<close> for state transformers, \<open>codec_simps\<close> for encoders and decoders,
  \<open>frame_simps\<close> for fields an operation leaves alone), the state-and-error operations every
  component is written in, positional numerals in an arbitrary base (the decimal, hexadecimal,
  base-58 and byte encodings of the program are instances), and the generic list lemmas the
  components share.
\<close>

named_theorems step_simps
named_theorems codec_simps
named_theorems frame_simps

section \<open>Outcomes and state passing\<close>

text \<open>
  A computation that may throw and that reads and writes a state \<open>'s\<close> is a function from the
  state to an outcome and the next state.  \<open>Inl\<close> carries the thrown error.  The state survives a
  throw, as assignments made before a \<open>throw\<close> do in the program.
\<close>

type_synonym ('s, 'e, 'a) op = "'s \<Rightarrow> ('e + 'a) \<times> 's"

definition give :: "'a \<Rightarrow> ('s, 'e, 'a) op" where
  "give a s = (Inr a, s)"

definition throw :: "'e \<Rightarrow> ('s, 'e, 'a) op" where
  "throw e s = (Inl e, s)"

definition and_then :: "('s, 'e, 'a) op \<Rightarrow> ('a \<Rightarrow> ('s, 'e, 'b) op) \<Rightarrow> ('s, 'e, 'b) op" where
  "and_then m f s = (case m s of (Inl e, s') \<Rightarrow> (Inl e, s') | (Inr a, s') \<Rightarrow> f a s')"

definition catching :: "('s, 'e, 'a) op \<Rightarrow> ('e \<Rightarrow> ('s, 'e, 'a) op) \<Rightarrow> ('s, 'e, 'a) op" where
  "catching m h s = (case m s of (Inl e, s') \<Rightarrow> h e s' | (Inr a, s') \<Rightarrow> (Inr a, s'))"

lemma give_apply [simp, step_simps]: "give a s = (Inr a, s)"
  by (simp add: give_def)

lemma throw_apply [simp, step_simps]: "throw e s = (Inl e, s)"
  by (simp add: throw_def)

lemma and_then_Inr [simp, step_simps]: "m s = (Inr a, s') \<Longrightarrow> and_then m f s = f a s'"
  by (simp add: and_then_def)

lemma and_then_Inl [simp, step_simps]: "m s = (Inl e, s') \<Longrightarrow> and_then m f s = (Inl e, s')"
  by (simp add: and_then_def)

lemma catching_Inr [simp, step_simps]: "m s = (Inr a, s') \<Longrightarrow> catching m h s = (Inr a, s')"
  by (simp add: catching_def)

lemma catching_Inl [simp, step_simps]: "m s = (Inl e, s') \<Longrightarrow> catching m h s = h e s'"
  by (simp add: catching_def)

lemma and_then_split:
  "P (and_then m f s) \<longleftrightarrow>
     (\<forall>e s'. m s = (Inl e, s') \<longrightarrow> P (Inl e, s')) \<and> (\<forall>a s'. m s = (Inr a, s') \<longrightarrow> P (f a s'))"
  by (auto simp: and_then_def split: prod.splits sum.splits)

text \<open>A pure check that may throw, and the first failure of a list of checks.\<close>

fun first_error :: "('e + unit) list \<Rightarrow> 'e + unit" where
  "first_error [] = Inr ()"
| "first_error (Inl e # cs) = Inl e"
| "first_error (Inr u # cs) = first_error cs"

lemma first_error_Inr_iff: "first_error cs = Inr u \<longleftrightarrow> (\<forall>c \<in> set cs. c = Inr ())"
  by (induction cs rule: first_error.induct) auto

lemma first_error_append:
  "first_error (cs @ ds) = (case first_error cs of Inl e \<Rightarrow> Inl e | Inr u \<Rightarrow> first_error ds)"
  by (induction cs rule: first_error.induct) auto

definition bind_sum :: "'e + 'a \<Rightarrow> ('a \<Rightarrow> 'e + 'b) \<Rightarrow> 'e + 'b" where
  "bind_sum m f = (case m of Inl e \<Rightarrow> Inl e | Inr a \<Rightarrow> f a)"

lemma bind_sum_simps [simp]: "bind_sum (Inl e) f = Inl e" "bind_sum (Inr a) f = f a"
  by (simp_all add: bind_sum_def)

lemma bind_sum_eq_Inr: "bind_sum m f = Inr b \<longleftrightarrow> (\<exists>a. m = Inr a \<and> f a = Inr b)"
  by (cases m) auto

lemma bind_sum_eq_Inl: "bind_sum m f = Inl e \<longleftrightarrow> m = Inl e \<or> (\<exists>a. m = Inr a \<and> f a = Inl e)"
  by (cases m) auto

text \<open>Mapping a function that may throw over a list, stopping at the first throw.\<close>

fun map_sum_list :: "('a \<Rightarrow> 'e + 'b) \<Rightarrow> 'a list \<Rightarrow> 'e + 'b list" where
  "map_sum_list f [] = Inr []"
| "map_sum_list f (x # xs) =
     bind_sum (f x) (\<lambda>y. bind_sum (map_sum_list f xs) (\<lambda>ys. Inr (y # ys)))"

lemma map_sum_list_Inr:
  "map_sum_list f xs = Inr ys \<longleftrightarrow> length ys = length xs \<and> (\<forall>i < length xs. f (xs ! i) = Inr (ys ! i))"
proof (induction xs arbitrary: ys)
  case Nil
  then show ?case by auto
next
  case (Cons x xs)
  show ?case
  proof (cases ys)
    case Nil
    then show ?thesis by (auto simp: bind_sum_eq_Inr)
  next
    case (Cons y zs)
    then show ?thesis
      by (auto simp: bind_sum_eq_Inr Cons.IH nth_Cons less_Suc_eq_0_disj split: nat.splits)
  qed
qed

section \<open>Positional numerals\<close>

text \<open>\<open>from_digits b ds\<close> reads digits most significant first; \<open>to_digits b n\<close> writes them without
  leading zeros (one digit for zero); \<open>pad_digits b w n\<close> writes exactly \<open>w\<close> of them.\<close>

definition from_digits :: "nat \<Rightarrow> nat list \<Rightarrow> nat" where
  "from_digits b ds = foldl (\<lambda>a d. a * b + d) 0 ds"

fun to_digits :: "nat \<Rightarrow> nat \<Rightarrow> nat list" where
  "to_digits b n = (if b < 2 \<or> n < b then [n] else to_digits b (n div b) @ [n mod b])"

fun pad_digits :: "nat \<Rightarrow> nat \<Rightarrow> nat \<Rightarrow> nat list" where
  "pad_digits b 0 n = []"
| "pad_digits b (Suc w) n = pad_digits b w (n div b) @ [n mod b]"

declare to_digits.simps [simp del]

lemma from_digits_Nil [simp]: "from_digits b [] = 0"
  by (simp add: from_digits_def)

lemma from_digits_snoc [simp]: "from_digits b (ds @ [d]) = from_digits b ds * b + d"
  by (simp add: from_digits_def)

lemma foldl_digits:
  "foldl (\<lambda>a d. a * b + d) a ds = a * b ^ length ds + from_digits b ds" for a b :: nat
proof (induction ds arbitrary: a rule: rev_induct)
  case Nil
  then show ?case by simp
next
  case (snoc d ds)
  then show ?case by (simp add: algebra_simps)
qed

lemma from_digits_append:
  "from_digits b (ds @ es) = from_digits b ds * b ^ length es + from_digits b es"
proof -
  have "from_digits b (ds @ es) = foldl (\<lambda>a d. a * b + d) (from_digits b ds) es"
    by (simp add: from_digits_def)
  then show ?thesis by (simp only: foldl_digits)
qed

lemma from_digits_Cons: "from_digits b (d # ds) = d * b ^ length ds + from_digits b ds"
  using from_digits_append [of b "[d]" ds] by (simp add: from_digits_def)

lemma from_digits_less: "\<forall>d \<in> set ds. d < b \<Longrightarrow> from_digits b ds < b ^ length ds"
proof (induction ds rule: rev_induct)
  case Nil
  then show ?case by simp
next
  case (snoc d ds)
  then have "from_digits b ds + 1 \<le> b ^ length ds" and "d < b" by auto
  then have "(from_digits b ds + 1) * b \<le> b ^ length ds * b" by (intro mult_right_mono) auto
  with \<open>d < b\<close> show ?case by (simp add: algebra_simps)
qed

lemma length_pad_digits [simp]: "length (pad_digits b w n) = w"
  by (induction b w n rule: pad_digits.induct) auto

lemma pad_digits_less: "0 < b \<Longrightarrow> d \<in> set (pad_digits b w n) \<Longrightarrow> d < b"
  by (induction b w n rule: pad_digits.induct) auto

lemma from_pad_digits [simp]: "0 < b \<Longrightarrow> from_digits b (pad_digits b w n) = n mod b ^ w"
proof (induction b w n rule: pad_digits.induct)
  case (1 b n)
  then show ?case by simp
next
  case (2 b w n)
  then show ?case by (simp add: mod_mult2_eq algebra_simps)
qed

lemma pad_digits_from_digits:
  "0 < b \<Longrightarrow> \<forall>d \<in> set ds. d < b \<Longrightarrow> pad_digits b (length ds) (from_digits b ds) = ds"
  by (induction ds rule: rev_induct) auto

lemma pad_digits_eq_iff:
  "0 < b \<Longrightarrow> pad_digits b w m = pad_digits b w n \<longleftrightarrow> m mod b ^ w = n mod b ^ w"
proof
  assume b: "0 < b" and "pad_digits b w m = pad_digits b w n"
  then show "m mod b ^ w = n mod b ^ w" by (metis from_pad_digits)
next
  assume b: "0 < b" and eq: "m mod b ^ w = n mod b ^ w"
  have "pad_digits b w k = pad_digits b w (k mod b ^ w)" for k
    using pad_digits_from_digits [of b "pad_digits b w k"] b by (simp add: pad_digits_less)
  with eq show "pad_digits b w m = pad_digits b w n" by metis
qed

lemma from_to_digits [simp]: "2 \<le> b \<Longrightarrow> from_digits b (to_digits b n) = n"
proof (induction b n rule: to_digits.induct)
  case (1 b n)
  show ?case
  proof (cases "n < b")
    case True
    then show ?thesis by (simp add: to_digits.simps [of b n] from_digits_def)
  next
    case False
    with 1 show ?thesis by (simp add: to_digits.simps [of b n])
  qed
qed

lemma to_digits_less: "2 \<le> b \<Longrightarrow> d \<in> set (to_digits b n) \<Longrightarrow> d < b"
proof (induction b n rule: to_digits.induct)
  case (1 b n)
  then show ?case
    by (cases "n < b") (auto simp: to_digits.simps [of b n])
qed

lemma to_digits_nonempty [simp]: "to_digits b n \<noteq> []"
  by (subst to_digits.simps) simp

lemma from_digits_pos: "0 < b \<Longrightarrow> ds \<noteq> [] \<Longrightarrow> hd ds \<noteq> 0 \<Longrightarrow> 0 < from_digits b ds"
  by (cases ds) (simp_all add: from_digits_Cons)

lemma from_digits_zeros [simp]: "from_digits b (replicate k 0 @ ds) = from_digits b ds"
  by (induction k) (simp_all add: from_digits_Cons)

lemma to_from_digits:
  "2 \<le> b \<Longrightarrow> \<forall>d \<in> set ds. d < b \<Longrightarrow> ds \<noteq> [] \<Longrightarrow> hd ds \<noteq> 0 \<Longrightarrow> to_digits b (from_digits b ds) = ds"
proof (induction ds rule: rev_induct)
  case Nil
  then show ?case by simp
next
  case (snoc d ds)
  show ?case
  proof (cases "ds = []")
    case True
    with snoc.prems show ?thesis by (simp add: from_digits_Cons to_digits.simps [of b d])
  next
    case False
    with snoc.prems have hd: "hd ds \<noteq> 0" by simp
    with False snoc.prems(1) have "0 < from_digits b ds" by (intro from_digits_pos) auto
    then have "b \<le> from_digits b ds * b + d" by (cases "from_digits b ds") auto
    with snoc False hd show ?thesis
      by (simp add: to_digits.simps [of b "from_digits b ds * b + d"])
  qed
qed

lemma hd_to_digits: "2 \<le> b \<Longrightarrow> 0 < n \<Longrightarrow> hd (to_digits b n) \<noteq> 0"
proof (induction b n rule: to_digits.induct)
  case (1 b n)
  show ?case
  proof (cases "n < b")
    case True
    with 1 show ?thesis by (simp add: to_digits.simps [of b n])
  next
    case False
    with 1 have "0 < n div b" by (simp add: div_greater_zero_iff)
    with 1 False show ?thesis by (simp add: to_digits.simps [of b n] hd_append)
  qed
qed

section \<open>Lists\<close>

lemma list_all_map_filter_conv: "list_all P xs \<longleftrightarrow> (\<forall>x \<in> set xs. P x)"
  by (simp add: list_all_iff)

lemma take_drop_append_exact:
  "length xs = n \<Longrightarrow> take n (xs @ ys) = xs" "length xs = n \<Longrightarrow> drop n (xs @ ys) = ys"
  by simp_all

text \<open>\<open>slice a b xs\<close> is the source's \<open>xs.slice(a, b)\<close> for non-negative bounds: both bounds are
  clamped to the length.\<close>

definition slice :: "nat \<Rightarrow> nat \<Rightarrow> 'a list \<Rightarrow> 'a list" where
  "slice a b xs = take (b - a) (drop a xs)"

lemma length_slice [simp]: "length (slice a b xs) = min (b - a) (length xs - a)"
  by (simp add: slice_def)

lemma slice_append_mid:
  "length xs = a \<Longrightarrow> b = a + length ys \<Longrightarrow> slice a b (xs @ ys @ zs) = ys"
  by (simp add: slice_def)

text \<open>Keeping the first element of each key, as a \<open>filter\<close> with a set of keys already seen does.\<close>

fun keep_first :: "('a \<Rightarrow> 'k) \<Rightarrow> 'k set \<Rightarrow> 'a list \<Rightarrow> 'a list" where
  "keep_first k seen [] = []"
| "keep_first k seen (x # xs) =
     (if k x \<in> seen then keep_first k seen xs else x # keep_first k (insert (k x) seen) xs)"

lemma keep_first_subset: "set (keep_first k seen xs) \<subseteq> set xs"
  by (induction k seen xs rule: keep_first.induct) auto

lemma keep_first_fresh: "x \<in> set (keep_first k seen xs) \<Longrightarrow> k x \<notin> seen"
  by (induction k seen xs rule: keep_first.induct) (auto split: if_splits)

lemma keep_first_distinct: "distinct (map k (keep_first k seen xs))"
  by (induction k seen xs rule: keep_first.induct) (auto dest: keep_first_fresh)

lemma keep_first_keys: "k ` set (keep_first k seen xs) = k ` set xs - seen"
  by (induction k seen xs rule: keep_first.induct) auto

lemma keep_first_length: "length (keep_first k seen xs) = card (k ` set xs - seen)"
  by (metis keep_first_distinct keep_first_keys distinct_card length_map set_map)

end
