(* ===== verification/Js_Runtime.thy ===== *)
theory Js_Runtime
  imports Bridge_Prelude
begin

text \<open>
  The part of the JavaScript language and of Node's \<open>Buffer\<close> that the program uses: regular
  expressions over hexadecimal and decimal strings, \<open>parseInt\<close>, \<open>BigInt(string)\<close>,
  \<open>toString(16)\<close>, \<open>Buffer.from(_, 'hex')\<close>, \<open>writeUInt32BE\<close>, \<open>trim\<close>, \<open>split\<close> and
  UTF-8 decoding.

  A JavaScript string is held as its UTF-8 byte sequence, a \<open>string\<close> of HOL (whose characters are
  exactly the 256 byte values), so that \<open>Buffer.from(s, 'utf8')\<close> is the identity.  Every length the
  program takes is of an ASCII string, where code units and bytes agree.  Numbers are exact
  integers: \<open>parseInt\<close> gives \<open>None\<close> for \<open>NaN\<close> and for values too large for a double
  (\<open>Infinity\<close>, which every caller rejects with \<open>Number.isFinite\<close>); the rounding of doubles above
  \<open>2 ^ 53\<close> is not modelled.
\<close>

type_synonym byte = char

section \<open>Digits\<close>

definition hex_val :: "char \<Rightarrow> nat option" where
  "hex_val c =
     (let n = of_char c :: nat in
      if 48 \<le> n \<and> n \<le> 57 then Some (n - 48)
      else if 97 \<le> n \<and> n \<le> 102 then Some (n - 87)
      else if 65 \<le> n \<and> n \<le> 70 then Some (n - 55)
      else None)"

definition is_hex :: "char \<Rightarrow> bool" where
  "is_hex c = (hex_val c \<noteq> None)"

definition is_lower_hex :: "char \<Rightarrow> bool" where
  "is_lower_hex c = (is_hex c \<and> \<not> (65 \<le> (of_char c :: nat) \<and> (of_char c :: nat) \<le> 70))"

definition is_dec :: "char \<Rightarrow> bool" where
  "is_dec c = (48 \<le> (of_char c :: nat) \<and> (of_char c :: nat) \<le> 57)"

definition hex_char :: "nat \<Rightarrow> char" where
  "hex_char d = (if d < 10 then char_of (48 + d) else char_of (87 + d))"

definition to_lower_char :: "char \<Rightarrow> char" where
  "to_lower_char c =
     (if 65 \<le> (of_char c :: nat) \<and> (of_char c :: nat) \<le> 90 then char_of ((of_char c :: nat) + 32) else c)"

definition to_lower :: "string \<Rightarrow> string" where
  "to_lower s = map to_lower_char s"

lemma hex_val_hex_char [simp, codec_simps]: "d < 16 \<Longrightarrow> hex_val (hex_char d) = Some d"
  by (simp add: hex_val_def hex_char_def)

lemma hex_val_less: "hex_val c = Some d \<Longrightarrow> d < 16"
  by (auto simp: hex_val_def Let_def split: if_splits)

lemma is_hex_hex_char [simp]: "d < 16 \<Longrightarrow> is_hex (hex_char d)"
  by (simp add: is_hex_def)

lemma is_dec_hex_val: "is_dec c \<Longrightarrow> hex_val c = Some (of_char c - 48)"
  by (simp add: is_dec_def hex_val_def)

lemma is_dec_hex_char [simp]: "d < 10 \<Longrightarrow> is_dec (hex_char d)"
  by (simp add: is_dec_def hex_char_def)

lemma is_lower_hex_hex_char [simp]: "d < 16 \<Longrightarrow> is_lower_hex (hex_char d)"
  by (simp add: is_lower_hex_def) (simp add: hex_char_def)

text \<open>The regular expressions \<open>/^[0-9a-fA-F]{n}$/\<close> (or with the flag \<open>i\<close>) and \<open>/^\d+$/\<close>.\<close>

definition matches_hex :: "nat \<Rightarrow> string \<Rightarrow> bool" where
  "matches_hex n s = (length s = n \<and> list_all is_hex s)"

definition matches_digits :: "string \<Rightarrow> bool" where
  "matches_digits s = (s \<noteq> [] \<and> list_all is_dec s)"

section \<open>Numbers and strings\<close>

definition digit_vals :: "string \<Rightarrow> nat list" where
  "digit_vals s = map (\<lambda>c. case hex_val c of Some d \<Rightarrow> d | None \<Rightarrow> 0) s"

definition num_of_string :: "nat \<Rightarrow> string \<Rightarrow> nat" where
  "num_of_string b s = from_digits b (digit_vals s)"

definition string_of_num :: "nat \<Rightarrow> nat \<Rightarrow> string" where
  "string_of_num b n = map hex_char (to_digits b n)"

abbreviation dec_of_nat :: "nat \<Rightarrow> string" where
  "dec_of_nat \<equiv> string_of_num 10"

abbreviation hex_of_nat :: "nat \<Rightarrow> string" where
  "hex_of_nat \<equiv> string_of_num 16"

definition dec_of_int :: "int \<Rightarrow> string" where
  "dec_of_int i = (if i < 0 then ''-'' @ dec_of_nat (nat (- i)) else dec_of_nat (nat i))"

lemma num_of_string_of_num [simp, codec_simps]:
  "2 \<le> b \<Longrightarrow> b \<le> 16 \<Longrightarrow> num_of_string b (string_of_num b n) = n"
proof -
  assume b: "2 \<le> b" "b \<le> 16"
  have "digit_vals (string_of_num b n) = to_digits b n"
    unfolding digit_vals_def string_of_num_def
    using to_digits_less [OF b(1)] b(2) by (fastforce intro!: map_idI)
  with b show ?thesis by (simp add: num_of_string_def)
qed

lemma matches_digits_dec_of_nat [simp]: "matches_digits (dec_of_nat n)"
  using to_digits_less [of 10 _ n] by (auto simp: matches_digits_def string_of_num_def list_all_iff)

lemma string_of_num_inject:
  assumes "2 \<le> b" "b \<le> 16"
  shows "string_of_num b m = string_of_num b n \<longleftrightarrow> m = n"
proof
  assume "string_of_num b m = string_of_num b n"
  then have "num_of_string b (string_of_num b m) = num_of_string b (string_of_num b n)"
    by (rule arg_cong)
  then show "m = n" by (simp only: num_of_string_of_num [OF assms])
qed simp

lemma dec_of_nat_inject [simp]: "dec_of_nat m = dec_of_nat n \<longleftrightarrow> m = n"
  by (rule string_of_num_inject) simp_all

text \<open>
  White space of the language (\<open>WhiteSpace\<close> and \<open>LineTerminator\<close>), as the number of bytes the
  white-space character at the front of the string takes; 0 when there is none.
\<close>

definition ws_len :: "string \<Rightarrow> nat" where
  "ws_len s =
     (case map of_char (take 3 s) :: nat list of
        a # rest \<Rightarrow>
          (if a \<in> {9, 10, 11, 12, 13, 32} then 1
           else case rest of
             b # rest' \<Rightarrow>
               (if a = 194 \<and> b = 160 then 2
                else case rest' of
                  c # _ \<Rightarrow>
                    (if (a = 239 \<and> b = 187 \<and> c = 191) \<or> (a = 225 \<and> b = 154 \<and> c = 128)
                        \<or> (a = 226 \<and> b = 128 \<and> (128 \<le> c \<and> c \<le> 138 \<or> c \<in> {168, 169, 175}))
                        \<or> (a = 226 \<and> b = 129 \<and> c = 159) \<or> (a = 227 \<and> b = 128 \<and> c = 128)
                     then 3 else 0)
                | [] \<Rightarrow> 0)
           | [] \<Rightarrow> 0)
      | [] \<Rightarrow> 0)"

lemma ws_len_Nil [simp]: "ws_len [] = 0"
  by (simp add: ws_len_def)

lemma ws_len_ascii:
  "(of_char c :: nat) < 128 \<Longrightarrow>
     ws_len (c # s) = (if of_char c \<in> {9, 10, 11, 12, 13, 32 :: nat} then 1 else 0)"
  by (auto simp: ws_len_def numeral_3_eq_3 split: list.splits)

function trim_start :: "string \<Rightarrow> string" where
  "trim_start s = (if ws_len s = 0 then s else trim_start (drop (ws_len s) s))"
  by pat_completeness auto
termination
proof (relation "measure length")
  fix s :: string
  assume "ws_len s \<noteq> 0"
  then have "s \<noteq> []" by auto
  with \<open>ws_len s \<noteq> 0\<close> show "(drop (ws_len s) s, s) \<in> measure length" by simp
qed simp

declare trim_start.simps [simp del]

fun trim_end :: "string \<Rightarrow> string" where
  "trim_end [] = []"
| "trim_end (c # s) = (if trim_start (c # s) = [] then [] else c # trim_end s)"

definition trim :: "string \<Rightarrow> string" where
  "trim s = trim_end (trim_start s)"

text \<open>The longest prefix without white space: what \<open>\S+\<close> matches when white space follows.\<close>

fun token :: "string \<Rightarrow> string" where
  "token [] = []"
| "token (c # s) = (if ws_len (c # s) = 0 then c # token s else [])"

fun has_line_terminator :: "string \<Rightarrow> bool" where
  "has_line_terminator [] = False"
| "has_line_terminator (c # s) =
     (of_char c \<in> {10, 13 :: nat}
      \<or> (map of_char (take 3 (c # s)) \<in> {[226, 128, 168], [226, 128, 169 :: nat]})
      \<or> has_line_terminator s)"

fun split_on :: "char \<Rightarrow> string \<Rightarrow> string list" where
  "split_on d [] = [[]]"
| "split_on d (c # s) =
     (if c = d then [] # split_on d s
      else case split_on d s of [] \<Rightarrow> [[c]] | p # ps \<Rightarrow> (c # p) # ps)"

fun replace_first :: "string \<Rightarrow> string \<Rightarrow> string \<Rightarrow> string" where
  "replace_first p r [] = (if p = [] then r else [])"
| "replace_first p r (c # s) =
     (if prefix p (c # s) then r @ drop (length p) (c # s) else c # replace_first p r s)"

lemma split_on_nonempty [simp]: "split_on d s \<noteq> []"
  by (induction d s rule: split_on.induct) (auto split: list.splits)

lemma split_on_no_sep: "d \<notin> set s \<Longrightarrow> split_on d s = [s]"
  by (induction s) auto

lemma split_on_append_sep: "d \<notin> set p \<Longrightarrow> split_on d (p @ d # s) = p # split_on d s"
  by (induction p) auto

lemma split_on_parts: "p \<in> set (split_on d s) \<Longrightarrow> d \<notin> set p"
  by (induction d s arbitrary: p rule: split_on.induct) (auto split: list.splits if_splits)

lemma replace_first_prefix: "p \<noteq> [] \<Longrightarrow> replace_first p r (p @ s) = r @ s"
  by (cases p) auto

text \<open>\<open>parseInt(s, radix)\<close>: leading white space, an optional sign, for radix 16 an optional
  \<open>0x\<close>, then the longest run of digits.\<close>

definition js_finite :: "int \<Rightarrow> int option" where
  "js_finite i = (if \<bar>i\<bar> < 2 ^ 1024 - 2 ^ 970 then Some i else None)"

definition is_digit_of :: "nat \<Rightarrow> char \<Rightarrow> bool" where
  "is_digit_of b c = (case hex_val c of Some d \<Rightarrow> d < b | None \<Rightarrow> False)"

definition split_sign :: "string \<Rightarrow> bool \<times> string" where
  "split_sign s = (case s of c # r \<Rightarrow> if c = CHR ''-'' then (True, r)
                                     else if c = CHR ''+'' then (False, r) else (False, s)
                   | [] \<Rightarrow> (False, []))"

definition strip_0x :: "string \<Rightarrow> string" where
  "strip_0x s = (if prefix ''0x'' s \<or> prefix ''0X'' s then drop 2 s else s)"

definition parse_int :: "nat \<Rightarrow> string \<Rightarrow> int option" where
  "parse_int b s =
     (let (neg, r) = split_sign (trim_start s);
          ds = takeWhile (is_digit_of b) (if b = 16 then strip_0x r else r)
      in if ds = [] then None
         else js_finite (if neg then - int (num_of_string b ds) else int (num_of_string b ds)))"

text \<open>\<open>BigInt(string)\<close>: \<open>None\<close> is the \<open>SyntaxError\<close> it throws.\<close>

definition bigint_of_string :: "string \<Rightarrow> int option" where
  "bigint_of_string s0 =
     (let s = trim s0 in
      if s = [] then Some 0
      else if prefix ''0x'' s \<or> prefix ''0X'' s then
        (if length s > 2 \<and> list_all (is_digit_of 16) (drop 2 s) then Some (int (num_of_string 16 (drop 2 s))) else None)
      else if prefix ''0o'' s \<or> prefix ''0O'' s then
        (if length s > 2 \<and> list_all (is_digit_of 8) (drop 2 s) then Some (int (num_of_string 8 (drop 2 s))) else None)
      else if prefix ''0b'' s \<or> prefix ''0B'' s then
        (if length s > 2 \<and> list_all (is_digit_of 2) (drop 2 s) then Some (int (num_of_string 2 (drop 2 s))) else None)
      else
        (case split_sign s of (neg, r) \<Rightarrow>
           if matches_digits r
           then Some (if neg then - int (num_of_string 10 r) else int (num_of_string 10 r))
           else None))"

lemma is_dec_ascii: "is_dec c \<Longrightarrow> (of_char c :: nat) < 128"
  by (simp add: is_dec_def)

lemma is_hex_ascii: "is_hex c \<Longrightarrow> (of_char c :: nat) < 128"
  by (auto simp: is_hex_def hex_val_def Let_def split: if_splits)

lemma is_hex_not_ws: "is_hex c \<Longrightarrow> of_char c \<notin> {9, 10, 11, 12, 13, 32 :: nat}"
  by (auto simp: is_hex_def hex_val_def Let_def split: if_splits)

lemma is_dec_is_hex: "is_dec c \<Longrightarrow> is_hex c"
  by (simp add: is_hex_def is_dec_hex_val)

lemma ws_len_hex [simp]: "is_hex c \<Longrightarrow> ws_len (c # s) = 0"
  using is_hex_ascii is_hex_not_ws by (simp add: ws_len_ascii)

lemma trim_start_hex [simp]: "is_hex c \<Longrightarrow> trim_start (c # s) = c # s"
  by (subst trim_start.simps) simp

lemma trim_end_hex: "list_all is_hex s \<Longrightarrow> trim_end s = s"
  by (induction s) auto

lemma trim_hex: "list_all is_hex s \<Longrightarrow> trim s = s"
  by (cases s) (auto simp: trim_def trim_end_hex trim_start.simps [of "[]"])

lemma trim_plain:
  "list_all (\<lambda>c. (of_char c :: nat) < 128 \<and> of_char c \<notin> {9, 10, 11, 12, 13, 32 :: nat}) s \<Longrightarrow> trim s = s"
proof -
  have start: "trim_start (c # s) = c # s"
    if "(of_char c :: nat) < 128" "of_char c \<notin> {9, 10, 11, 12, 13, 32 :: nat}" for c s
    using that by (subst trim_start.simps) (simp add: ws_len_ascii)
  assume s: "list_all (\<lambda>c. (of_char c :: nat) < 128 \<and> of_char c \<notin> {9, 10, 11, 12, 13, 32 :: nat}) s"
  then have "trim_end s = s" by (induction s) (simp_all add: start)
  with s show ?thesis by (cases s) (simp_all add: trim_def start trim_start.simps [of "[]"])
qed

lemma trim_digits [simp]: "matches_digits s \<Longrightarrow> trim s = s"
  by (rule trim_hex) (auto simp: matches_digits_def list_all_iff is_dec_is_hex)

lemma split_sign_hex [simp]: "is_hex c \<Longrightarrow> split_sign (c # s) = (False, c # s)"
  by (auto simp: split_sign_def is_hex_def hex_val_def)

text \<open>On a string of decimal digits, \<open>BigInt\<close> is the number it writes.\<close>

lemma js_finite_small [simp]: "\<bar>i\<bar> < 2 ^ 256 \<Longrightarrow> js_finite i = Some i"
proof -
  assume "\<bar>i\<bar> < 2 ^ 256"
  moreover have "(2 :: int) ^ 256 \<le> 2 ^ 1024 - 2 ^ 970" by simp
  ultimately have "\<bar>i\<bar> < 2 ^ 1024 - 2 ^ 970" by linarith
  then show ?thesis by (simp only: js_finite_def if_True)
qed

lemma is_digit_of_16: "is_digit_of 16 c \<longleftrightarrow> is_hex c"
  by (auto simp: is_digit_of_def is_hex_def dest: hex_val_less split: option.splits)

lemma is_digit_of_10: "is_digit_of 10 c \<longleftrightarrow> is_dec c"
  by (auto simp: is_digit_of_def is_dec_def hex_val_def Let_def split: if_splits)

lemma not_is_hex_x [simp]: "\<not> is_hex CHR ''x''" "\<not> is_hex CHR ''X''"
  by (simp_all add: is_hex_def hex_val_def)

lemma strip_0x_hex: "list_all is_hex s \<Longrightarrow> strip_0x s = s"
  by (auto simp: strip_0x_def list_all_iff prefix_def)

lemma takeWhile_hex: "list_all is_hex s \<Longrightarrow> takeWhile (is_digit_of 16) s = s"
  by (induction s) (auto simp: is_digit_of_16)

lemma parse_int_hex:
  assumes "list_all is_hex s" "s \<noteq> []"
  shows "parse_int 16 s = js_finite (int (num_of_string 16 s))"
  using assms by (cases s) (simp_all add: parse_int_def strip_0x_hex takeWhile_hex is_digit_of_16)

lemma parse_int_0x_hex:
  assumes "list_all is_hex s" "s \<noteq> []"
  shows "parse_int 16 (''0x'' @ s) = js_finite (int (num_of_string 16 s))"
proof -
  have "is_hex CHR ''0''" by (simp add: is_hex_def hex_val_def)
  with assms show ?thesis by (simp add: parse_int_def strip_0x_def takeWhile_hex)
qed

lemma list_all_is_hex_string_of_num [simp]: "2 \<le> b \<Longrightarrow> b \<le> 16 \<Longrightarrow> list_all is_hex (string_of_num b n)"
  using to_digits_less [of b] by (fastforce simp: string_of_num_def list_all_iff)

lemma string_of_num_nonempty [simp]: "string_of_num b n \<noteq> []"
  by (simp add: string_of_num_def)

lemma parse_int_dec_of_nat: "parse_int 10 (dec_of_nat n) = js_finite (int n)"
proof -
  have "list_all (is_digit_of 10) (dec_of_nat n)"
    using matches_digits_dec_of_nat [of n] by (simp add: matches_digits_def is_digit_of_10 list_all_iff)
  then have "takeWhile (is_digit_of 10) (dec_of_nat n) = dec_of_nat n"
    by (simp add: list_all_iff)
  moreover obtain c r where c: "dec_of_nat n = c # r" by (cases "dec_of_nat n") auto
  moreover have "is_hex c"
    using list_all_is_hex_string_of_num [of 10 n] by (simp add: c)
  ultimately show ?thesis
    using num_of_string_of_num [of 10 n] by (simp add: parse_int_def)
qed

lemma bigint_of_digits:
  assumes "matches_digits s"
  shows "bigint_of_string s = Some (int (num_of_string 10 s))"
proof -
  from assms obtain c r where s: "s = c # r" and c: "is_dec c" and r: "list_all is_dec r"
    by (cases s) (auto simp: matches_digits_def)
  have no: "\<not> prefix [y, x] s" if "\<not> is_dec x" for x y
    using that r by (cases r) (auto simp: s)
  have "\<not> is_dec CHR ''x''" "\<not> is_dec CHR ''X''" "\<not> is_dec CHR ''o''"
    "\<not> is_dec CHR ''O''" "\<not> is_dec CHR ''b''" "\<not> is_dec CHR ''B''"
    by (simp_all add: is_dec_def)
  note no_radix = this [THEN no]
  have "split_sign s = (False, s)" using c by (simp add: s is_dec_is_hex)
  moreover have "trim s = s" "s \<noteq> []" using assms by (simp_all add: s)
  ultimately show ?thesis
    using assms by (simp only: bigint_of_string_def Let_def no_radix) simp
qed

lemma trim_0x_hex:
  assumes "list_all is_hex s"
  shows "trim (''0x'' @ s) = ''0x'' @ s"
proof -
  have "ws_len (CHR ''x'' # s) = 0" "ws_len (CHR ''0'' # CHR ''x'' # s) = 0"
    by (simp_all add: ws_len_ascii)
  then have "trim_start (CHR ''x'' # s) = CHR ''x'' # s"
    "trim_start (CHR ''0'' # CHR ''x'' # s) = CHR ''0'' # CHR ''x'' # s"
    by (subst trim_start.simps; simp)+
  with assms show ?thesis by (simp add: trim_def trim_end_hex)
qed

lemma bigint_of_0x_hex:
  assumes "list_all is_hex s" "s \<noteq> []"
  shows "bigint_of_string (''0x'' @ s) = Some (int (num_of_string 16 s))"
proof -
  have "list_all (is_digit_of 16) s" using assms(1) by (simp add: list_all_iff is_digit_of_16)
  with assms trim_0x_hex [OF assms(1)] show ?thesis by (simp add: bigint_of_string_def)
qed

lemma bigint_of_dec_of_nat [simp]: "bigint_of_string (dec_of_nat n) = Some (int n)"
  by (simp add: bigint_of_digits)

section \<open>Buffers\<close>

text \<open>\<open>Buffer.from(s, 'hex')\<close> reads pairs of digits and stops at the first pair that is not
  hexadecimal (or is incomplete).\<close>

fun bytes_of_hex :: "string \<Rightarrow> byte list" where
  "bytes_of_hex (a # b # s) =
     (case (hex_val a, hex_val b) of
        (Some x, Some y) \<Rightarrow> char_of (16 * x + y) # bytes_of_hex s
      | _ \<Rightarrow> [])"
| "bytes_of_hex _ = []"

definition hex_of_bytes :: "byte list \<Rightarrow> string" where
  "hex_of_bytes bs =
     concat (map (\<lambda>b. [hex_char (of_char b div 16), hex_char (of_char b mod 16)]) bs)"

lemma of_char_div_16 [simp]: "(of_char (c :: char) :: nat) div 16 < 16"
  using nat_of_char_less_256 [of c] by linarith

lemma hex_of_bytes_simps [simp]:
  "hex_of_bytes [] = []"
  "hex_of_bytes (b # bs) = hex_char (of_char b div 16) # hex_char (of_char b mod 16) # hex_of_bytes bs"
  by (simp_all add: hex_of_bytes_def)

lemma hex_of_bytes_append [simp]: "hex_of_bytes (as @ bs) = hex_of_bytes as @ hex_of_bytes bs"
  by (simp add: hex_of_bytes_def)

lemma length_hex_of_bytes [simp]: "length (hex_of_bytes bs) = 2 * length bs"
  by (induction bs) auto

lemma list_all_is_hex_hex_of_bytes [simp]: "list_all is_hex (hex_of_bytes bs)"
  by (induction bs) auto

lemma bytes_of_hex_of_bytes [simp, codec_simps]: "bytes_of_hex (hex_of_bytes bs) = bs"
  by (induction bs) auto

lemma hex_of_bytes_inject [simp]: "hex_of_bytes as = hex_of_bytes bs \<longleftrightarrow> as = bs"
  by (metis bytes_of_hex_of_bytes)

lemma matches_hex_hex_of_bytes [simp]: "matches_hex n (hex_of_bytes bs) \<longleftrightarrow> n = 2 * length bs"
  by (auto simp: matches_hex_def)

lemma length_bytes_of_hex: "list_all is_hex s \<Longrightarrow> length (bytes_of_hex s) = length s div 2"
  by (induction s rule: bytes_of_hex.induct) (auto simp: is_hex_def split: option.splits)

lemma length_bytes_of_matches_hex [simp]: "matches_hex (2 * n) s \<Longrightarrow> length (bytes_of_hex s) = n"
  by (simp add: matches_hex_def length_bytes_of_hex)

text \<open>Strings of one repeated hex digit, as the concrete examples use.\<close>

lemma bytes_of_hex_replicate [simp]:
  "hex_val c = Some d \<Longrightarrow> bytes_of_hex (replicate (2 * n) c) = replicate n (char_of (16 * d + d))"
  by (induction n) auto

lemma matches_hex_replicate [simp]: "is_hex c \<Longrightarrow> matches_hex n (replicate n c)"
  by (simp add: matches_hex_def list_all_iff)

text \<open>Big-endian integers of a fixed width.  \<open>writeUInt32BE\<close> throws a \<open>RangeError\<close> outside 32 bits.\<close>

definition be_bytes :: "nat \<Rightarrow> nat \<Rightarrow> byte list" where
  "be_bytes w n = map char_of (pad_digits 256 w n)"

definition be_value :: "byte list \<Rightarrow> nat" where
  "be_value bs = from_digits 256 (map of_char bs)"

definition write_uint32_be :: "int \<Rightarrow> string + byte list" where
  "write_uint32_be n =
     (if 0 \<le> n \<and> n < 2 ^ 32 then Inr (be_bytes 4 (nat n))
      else Inl ''RangeError: value is out of range'')"

lemma length_be_bytes [simp]: "length (be_bytes w n) = w"
  by (simp add: be_bytes_def)

lemma be_value_be_bytes [simp, codec_simps]: "be_value (be_bytes w n) = n mod 256 ^ w"
proof -
  have "map (of_char \<circ> char_of) (pad_digits 256 w n) = pad_digits 256 w n"
    by (rule map_idI) (simp add: pad_digits_less)
  then show ?thesis by (simp add: be_value_def be_bytes_def)
qed

lemma be_bytes_be_value [simp, codec_simps]: "be_bytes (length bs) (be_value bs) = bs"
proof -
  have "pad_digits 256 (length (map of_char bs)) (from_digits 256 (map of_char bs)) = map of_char bs"
    using pad_digits_from_digits [of 256 "map of_char bs"] by auto
  then show ?thesis by (simp add: be_value_def be_bytes_def comp_def)
qed

lemma be_bytes_inject: "m < 256 ^ w \<Longrightarrow> n < 256 ^ w \<Longrightarrow> be_bytes w m = be_bytes w n \<longleftrightarrow> m = n"
  by (metis be_value_be_bytes mod_less)

lemma be_value_append: "be_value (as @ bs) = be_value as * 256 ^ length bs + be_value bs"
  by (simp add: be_value_def from_digits_append)

lemma be_value_less: "be_value bs < 256 ^ length bs"
  using from_digits_less [of "map of_char bs" 256] by (auto simp: be_value_def)

text \<open>A wide value is the bytes of its high part followed by those of its low part.\<close>

lemma be_bytes_split: "be_bytes u (n div 256 ^ v) @ be_bytes v (n mod 256 ^ v) = be_bytes (u + v) n"
proof -
  let ?bs = "be_bytes u (n div 256 ^ v) @ be_bytes v (n mod 256 ^ v)"
  have "n mod 256 ^ (u + v) = n mod (256 ^ v * 256 ^ u)"
    by (simp add: power_add mult.commute)
  then have "be_value ?bs = n mod 256 ^ (u + v)"
    by (simp add: be_value_append mod_mult2_eq)
  then have "be_bytes (length ?bs) (be_value ?bs) = be_bytes (u + v) (n mod 256 ^ (u + v))"
    by simp
  then have "?bs = be_bytes (u + v) (n mod 256 ^ (u + v))" by (simp only: be_bytes_be_value)
  also have "\<dots> = be_bytes (u + v) n"
    by (simp only: be_bytes_def, rule arg_cong [where f = "map char_of"]) (simp add: pad_digits_eq_iff)
  finally show ?thesis .
qed

text \<open>\<open>Buffer.toString('utf8')\<close>: ill-formed input is replaced by U+FFFD, one replacement for each
  maximal ill-formed subpart; the result is again held as UTF-8 bytes.\<close>

definition is_cont :: "nat \<Rightarrow> bool" where
  "is_cont n = (128 \<le> n \<and> n < 192)"

definition replacement :: "nat list" where
  "replacement = [239, 191, 189]"

definition second_ok :: "nat \<Rightarrow> nat \<Rightarrow> bool" where
  "second_ok a b =
     (if a = 224 then 160 \<le> b \<and> b < 192
      else if a = 237 then 128 \<le> b \<and> b < 160
      else if a = 240 then 144 \<le> b \<and> b < 192
      else if a = 244 then 128 \<le> b \<and> b < 144
      else is_cont b)"

fun utf8_repair :: "nat list \<Rightarrow> nat list" where
  "utf8_repair [] = []"
| "utf8_repair (a # s) =
     (if a < 128 then a # utf8_repair s
      else if 194 \<le> a \<and> a < 224 then
        (case s of
           b # t \<Rightarrow> if is_cont b then a # b # utf8_repair t else replacement @ utf8_repair s
         | [] \<Rightarrow> replacement)
      else if 224 \<le> a \<and> a < 240 then
        (case s of
           b # t \<Rightarrow>
             (if second_ok a b then
                (case t of
                   c # u \<Rightarrow> if is_cont c then a # b # c # utf8_repair u else replacement @ utf8_repair t
                 | [] \<Rightarrow> replacement)
              else replacement @ utf8_repair s)
         | [] \<Rightarrow> replacement)
      else if 240 \<le> a \<and> a < 245 then
        (case s of
           b # t \<Rightarrow>
             (if second_ok a b then
                (case t of
                   c # u \<Rightarrow>
                     (if is_cont c then
                        (case u of
                           d # v \<Rightarrow> if is_cont d then a # b # c # d # utf8_repair v
                                      else replacement @ utf8_repair u
                         | [] \<Rightarrow> replacement)
                      else replacement @ utf8_repair t)
                 | [] \<Rightarrow> replacement)
              else replacement @ utf8_repair s)
         | [] \<Rightarrow> replacement)
      else replacement @ utf8_repair s)"

definition utf8_to_string :: "byte list \<Rightarrow> string" where
  "utf8_to_string bs = map char_of (utf8_repair (map of_char bs))"

definition is_ascii :: "string \<Rightarrow> bool" where
  "is_ascii s = list_all (\<lambda>c. (of_char c :: nat) < 128) s"

lemma utf8_repair_ascii: "\<forall>n \<in> set ns. n < 128 \<Longrightarrow> utf8_repair ns = ns"
  by (induction ns) auto

lemma utf8_to_string_ascii [simp, codec_simps]: "is_ascii s \<Longrightarrow> utf8_to_string s = s"
  by (simp add: utf8_to_string_def utf8_repair_ascii is_ascii_def list_all_iff comp_def)

section \<open>Joining, and \<open>JSON.stringify\<close> of a text\<close>

text \<open>\<open>parts.join(sep)\<close>.\<close>

fun join_with :: "string \<Rightarrow> string list \<Rightarrow> string" where
  "join_with sep [] = []"
| "join_with sep [s] = s"
| "join_with sep (s # ss) = s @ sep @ join_with sep ss"

lemma join_with_snoc: "ss \<noteq> [] \<Longrightarrow> join_with sep (ss @ [s]) = join_with sep ss @ sep @ s"
  by (induction sep ss rule: join_with.induct) simp_all

lemma split_join_with: "ss \<noteq> [] \<Longrightarrow> \<forall>s \<in> set ss. c \<notin> set s \<Longrightarrow> split_on c (join_with [c] ss) = ss"
  by (induction "[c]" ss rule: join_with.induct) (simp_all add: split_on_no_sep split_on_append_sep)

text \<open>\<open>JSON.stringify\<close> of a text.\<close>

definition json_char :: "char \<Rightarrow> string" where
  "json_char c =
     (let n = of_char c :: nat; bs = CHR 0x5C in
      if n = 34 then [bs, c] else if n = 92 then [bs, bs]
      else if n = 8 then [bs, CHR ''b''] else if n = 9 then [bs, CHR ''t''] else if n = 10 then [bs, CHR ''n'']
      else if n = 12 then [bs, CHR ''f''] else if n = 13 then [bs, CHR ''r'']
      else if n < 32 then bs # ''u00'' @ [hex_char (n div 16), hex_char (n mod 16)] else [c])"

definition json_text :: "string \<Rightarrow> string" where
  "json_text s = CHR 0x22 # concat (map json_char s) @ [CHR 0x22]"

end
