(* ===== verification/Bridge_Event.thy ===== *)
theory Bridge_Event
  imports Js_Runtime
begin

text \<open>
  The event the listeners hand to the relayer and the hash the relayer signs
  (\<open>relayer/index.ts\<close>: \<open>BridgeEvent\<close>, \<open>validateBridgeEvent\<close>, \<open>computeNonce\<close>,
  \<open>encodeAddress\<close>, \<open>computePayloadHash\<close>), next to the hash the contract recomputes in
  \<open>fund_c_address_crosschain\<close> (\<open>lib.rs\<close>).  Cryptography and address checksums come from
  packages outside the repository; they are the fields of a record \<open>platform\<close> that every
  definition using them takes as an argument.
\<close>

section \<open>Primitives from outside the repository\<close>

text \<open>
  \<open>sha256\<close> is Node's hash, \<open>is_account\<close> and \<open>is_contract\<close> are \<open>StrKey.isValidEd25519PublicKey\<close>
  and \<open>StrKey.isValidContract\<close>, \<open>seed_pubkey\<close> and \<open>seed_sign\<close> are \<open>Keypair.fromRawEd25519Seed\<close>
  with \<open>rawPublicKey\<close> and \<open>sign\<close> (the first throws on a seed of the wrong size), and
  \<open>ed_verify\<close> is \<open>crypto.createPublicKey\<close> with \<open>crypto.verify\<close>.
\<close>

record platform =
  sha256 :: "byte list \<Rightarrow> byte list"
  is_account :: "string \<Rightarrow> bool"
  is_contract :: "string \<Rightarrow> bool"
  seed_pubkey :: "byte list \<Rightarrow> string + byte list"
  seed_sign :: "byte list \<Rightarrow> byte list \<Rightarrow> byte list"
  ed_verify :: "byte list \<Rightarrow> byte list \<Rightarrow> byte list \<Rightarrow> string + bool"

definition digest_32 :: "platform \<Rightarrow> bool" where
  "digest_32 K = (\<forall>bs. length (sha256 K bs) = 32)"

definition signing_sound :: "platform \<Rightarrow> bool" where
  "signing_sound K =
     (\<forall>seed pub msg. seed_pubkey K seed = Inr pub \<longrightarrow>
        length pub = 32 \<and> length (seed_sign K seed msg) = 64
        \<and> ed_verify K pub msg (seed_sign K seed msg) = Inr True)"

text \<open>A concrete platform on which the hypotheses above hold, for evaluating examples: the digest
  keeps the last 32 bytes of the zero-padded input, addresses are recognised by their first
  letter, and a signature is the public key followed by the digest of the message.\<close>

definition last_32 :: "byte list \<Rightarrow> byte list" where
  "last_32 bs = drop (length bs) (replicate 32 (char_of (0 :: nat)) @ bs)"

definition sample_platform :: platform where
  "sample_platform =
     \<lparr>sha256 = last_32,
      is_account = (\<lambda>s. prefix ''G'' s),
      is_contract = (\<lambda>s. prefix ''C'' s),
      seed_pubkey = (\<lambda>seed. if length seed = 32 then Inr seed else Inl ''bad seed size''),
      seed_sign = (\<lambda>seed msg. take 32 (seed @ replicate 32 (char_of (0 :: nat))) @ last_32 msg),
      ed_verify = (\<lambda>pub msg sg. Inr (sg = pub @ last_32 msg))\<rparr>"

lemma length_last_32 [simp]: "length (last_32 bs) = 32"
  by (simp add: last_32_def)

lemma sample_platform_simps [simp]:
  "sha256 sample_platform = last_32"
  "is_account sample_platform s = prefix ''G'' s"
  "is_contract sample_platform s = prefix ''C'' s"
  "seed_pubkey sample_platform seed = (if length seed = 32 then Inr seed else Inl ''bad seed size'')"
  "seed_sign sample_platform seed msg = take 32 (seed @ replicate 32 (char_of (0 :: nat))) @ last_32 msg"
  "ed_verify sample_platform pub msg sg = Inr (sg = pub @ last_32 msg)"
  by (simp_all add: sample_platform_def)

lemma sample_digest_32 [simp]: "digest_32 sample_platform"
  by (simp add: digest_32_def)

lemma sample_signing_sound [simp]: "signing_sound sample_platform"
  by (simp add: signing_sound_def)

section \<open>Events\<close>

record bridge_event =
  ev_chainId :: int
  ev_txHash :: string
  ev_target :: string
  ev_asset :: string
  ev_amount :: string

text \<open>The map key \<open>`${chainId}:${txHash}`\<close> under which the relayer files an event.\<close>

definition event_key :: "int \<Rightarrow> string \<Rightarrow> string" where
  "event_key chain tx = dec_of_int chain @ '':'' @ tx"

abbreviation key_of :: "bridge_event \<Rightarrow> string" where
  "key_of e \<equiv> event_key (ev_chainId e) (ev_txHash e)"

definition u32_max :: int where "u32_max = 2 ^ 32 - 1"
definition i128_max :: int where "i128_max = 2 ^ 127 - 1"

text \<open>\<open>Number.isInteger(chainId)\<close> holds of every \<open>int\<close>.  \<open>BigInt(amount)\<close> runs before the digits are
  checked, so a malformed amount is a \<open>SyntaxError\<close>.\<close>

definition validateBridgeEvent :: "platform \<Rightarrow> bridge_event \<Rightarrow> string + unit" where
  "validateBridgeEvent K e =
     (if ev_chainId e < 0 \<or> ev_chainId e > u32_max then Inl ''chainId must be a u32''
      else if \<not> matches_hex 64 (ev_txHash e) then Inl ''txHash must be 32-byte hex''
      else case bigint_of_string (ev_amount e) of
        None \<Rightarrow> Inl (''Cannot convert '' @ ev_amount e @ '' to a BigInt'')
      | Some amount \<Rightarrow>
          if \<not> matches_digits (ev_amount e) \<or> amount \<le> 0 \<or> amount > i128_max
          then Inl ''amount must be a positive i128 decimal''
          else if \<not> is_account K (ev_target e) \<and> \<not> is_contract K (ev_target e)
          then Inl ''target must be a valid G or C address''
          else if \<not> is_contract K (ev_asset e) then Inl ''asset must be a valid C address''
          else Inr ())"

section \<open>The payload hash\<close>

definition computeNonce :: "platform \<Rightarrow> int \<Rightarrow> string \<Rightarrow> string + byte list" where
  "computeNonce K chain tx =
     bind_sum (write_uint32_be chain) (\<lambda>chainIdBuf.
       Inr (sha256 K (chainIdBuf @ bytes_of_hex tx)))"

definition encodeAddress :: "platform \<Rightarrow> string \<Rightarrow> byte list" where
  "encodeAddress K address = sha256 K address"

definition write_biguint64_be :: "int \<Rightarrow> string + byte list" where
  "write_biguint64_be n =
     (if 0 \<le> n \<and> n < 2 ^ 64 then Inr (be_bytes 8 (nat n)) else Inl ''RangeError: value is out of range'')"

text \<open>The bytes the relayer hashes, in the order of the \<open>update\<close> calls.\<close>

definition payload_preimage :: "platform \<Rightarrow> bridge_event \<Rightarrow> string + byte list" where
  "payload_preimage K e =
     bind_sum (write_uint32_be (ev_chainId e)) (\<lambda>chainIdBuf.
     bind_sum (case bigint_of_string (ev_amount e) of
                 None \<Rightarrow> Inl (''Cannot convert '' @ ev_amount e @ '' to a BigInt'')
               | Some a \<Rightarrow> Inr a) (\<lambda>amountBig.
     bind_sum (write_biguint64_be (amountBig div 2 ^ 64)) (\<lambda>hi.
     bind_sum (write_biguint64_be (amountBig mod 2 ^ 64)) (\<lambda>lo.
     bind_sum (computeNonce K (ev_chainId e) (ev_txHash e)) (\<lambda>nonce.
       Inr (chainIdBuf @ bytes_of_hex (ev_txHash e) @ encodeAddress K (ev_target e)
            @ encodeAddress K (ev_asset e) @ (hi @ lo) @ nonce))))))"

definition computePayloadHash :: "platform \<Rightarrow> bridge_event \<Rightarrow> string + byte list" where
  "computePayloadHash K e = bind_sum (payload_preimage K e) (\<lambda>p. Inr (sha256 K p))"

text \<open>
  The contract's side: \<open>chain_id\<close> a \<open>u32\<close>, \<open>tx_hash\<close> 32 bytes, the addresses as their strkey
  bytes, \<open>amount\<close> an \<open>i128\<close> written big-endian in two's complement.
\<close>

definition i128_be_bytes :: "int \<Rightarrow> byte list" where
  "i128_be_bytes a = be_bytes 16 (nat (a mod 2 ^ 128))"

definition onchain_nonce :: "platform \<Rightarrow> nat \<Rightarrow> byte list \<Rightarrow> byte list" where
  "onchain_nonce K chain_id tx_hash = sha256 K (be_bytes 4 chain_id @ tx_hash)"

definition onchain_payload_hash ::
  "platform \<Rightarrow> nat \<Rightarrow> byte list \<Rightarrow> string \<Rightarrow> string \<Rightarrow> int \<Rightarrow> byte list" where
  "onchain_payload_hash K chain_id tx_hash target asset amount =
     sha256 K (be_bytes 4 chain_id @ tx_hash @ sha256 K target @ sha256 K asset
               @ i128_be_bytes amount @ onchain_nonce K chain_id tx_hash)"

section \<open>Lemmas\<close>

lemma validateBridgeEvent_Inr_iff:
  "validateBridgeEvent K e = Inr u \<longleftrightarrow>
     0 \<le> ev_chainId e \<and> ev_chainId e \<le> u32_max \<and> matches_hex 64 (ev_txHash e)
     \<and> matches_digits (ev_amount e)
     \<and> 0 < num_of_string 10 (ev_amount e) \<and> int (num_of_string 10 (ev_amount e)) \<le> i128_max
     \<and> (is_account K (ev_target e) \<or> is_contract K (ev_target e)) \<and> is_contract K (ev_asset e)"
  by (cases "matches_digits (ev_amount e)")
     (auto simp: validateBridgeEvent_def bigint_of_digits split: option.splits)

text \<open>The amount of a well-formed event as a number.\<close>

abbreviation amount_of :: "bridge_event \<Rightarrow> nat" where
  "amount_of e \<equiv> num_of_string 10 (ev_amount e)"

lemma write_uint32_be_valid [simp]:
  "0 \<le> n \<Longrightarrow> n \<le> u32_max \<Longrightarrow> write_uint32_be n = Inr (be_bytes 4 (nat n))"
  by (simp add: write_uint32_be_def u32_max_def)

lemma amount_halves:
  assumes "a \<le> nat i128_max"
  shows "write_biguint64_be (int a div 2 ^ 64) = Inr (be_bytes 8 (a div 256 ^ 8))"
    and "write_biguint64_be (int a mod 2 ^ 64) = Inr (be_bytes 8 (a mod 256 ^ 8))"
proof -
  have [simp]: "(256 :: nat) ^ 8 = 2 ^ 64" by simp
  have "a div 2 ^ 64 < 2 ^ 64"
    using assms by (simp add: i128_max_def nat_diff_distrib less_mult_imp_div_less)
  moreover have hi: "int a div 2 ^ 64 = int (a div 2 ^ 64)" by (simp add: zdiv_int)
  ultimately show "write_biguint64_be (int a div 2 ^ 64) = Inr (be_bytes 8 (a div 256 ^ 8))"
    by (simp add: write_biguint64_be_def)
  have "int a mod 2 ^ 64 = int (a mod 2 ^ 64)" by (simp add: zmod_int)
  then show "write_biguint64_be (int a mod 2 ^ 64) = Inr (be_bytes 8 (a mod 256 ^ 8))"
    by (simp add: write_biguint64_be_def)
qed

lemma i128_be_bytes_halves:
  assumes "a \<le> nat i128_max"
  shows "be_bytes 8 (a div 256 ^ 8) @ be_bytes 8 (a mod 256 ^ 8) = i128_be_bytes (int a)"
proof -
  have "int a mod 2 ^ 128 = int a"
    using assms by (simp add: i128_max_def nat_diff_distrib mod_pos_pos_trivial)
  then show ?thesis using be_bytes_split [of 8 a 8] by (simp add: i128_be_bytes_def)
qed

lemma payload_preimage_valid:
  assumes "validateBridgeEvent K e = Inr u"
  shows "payload_preimage K e =
    Inr (be_bytes 4 (nat (ev_chainId e)) @ bytes_of_hex (ev_txHash e) @ sha256 K (ev_target e)
         @ sha256 K (ev_asset e) @ i128_be_bytes (int (amount_of e))
         @ onchain_nonce K (nat (ev_chainId e)) (bytes_of_hex (ev_txHash e)))"
proof -
  from assms have v: "0 \<le> ev_chainId e" "ev_chainId e \<le> u32_max" "matches_digits (ev_amount e)"
    "amount_of e \<le> nat i128_max"
    by (auto simp: validateBridgeEvent_Inr_iff)
  then show ?thesis
    by (simp add: payload_preimage_def computeNonce_def onchain_nonce_def encodeAddress_def
        bigint_of_digits amount_halves [simplified] i128_be_bytes_halves [symmetric])
qed

section \<open>Properties\<close>

definition sample_event :: bridge_event where
  "sample_event = \<lparr>ev_chainId = 1, ev_txHash = replicate 64 CHR ''a'', ev_target = ''GA'',
     ev_asset = ''CA'', ev_amount = ''5''\<rparr>"

lemma sample_event_valid: "validateBridgeEvent sample_platform sample_event = Inr ()"
  by code_simp

text \<open>C9: Every event the relayer accepts is hashed to the value the contract recomputes from the
  chain id, the transaction hash bytes, the two addresses and the amount: hashing never throws
  there, and the two constructions agree byte for byte.\<close>

theorem relayer_hash_is_contract_hash:
  assumes "validateBridgeEvent K e = Inr u"
  shows "computePayloadHash K e =
    Inr (onchain_payload_hash K (nat (ev_chainId e)) (bytes_of_hex (ev_txHash e))
           (ev_target e) (ev_asset e) (int (amount_of e)))"
  using payload_preimage_valid [OF assms] by (simp add: computePayloadHash_def onchain_payload_hash_def)

lemma relayer_hash_is_contract_hash_witness:
  "computePayloadHash sample_platform sample_event =
     Inr (onchain_payload_hash sample_platform 1 (bytes_of_hex (replicate 64 CHR ''a'')) ''GA'' ''CA'' 5)"
proof -
  have "int (amount_of sample_event) = 5" by code_simp
  with relayer_hash_is_contract_hash [OF sample_event_valid] show ?thesis
    by (simp add: sample_event_def)
qed

text \<open>C10: The signed bytes bind the payment: if two accepted events have the same signed preimage, they
  name the same chain, the same source transaction, the same amount, and targets and assets with
  the same SHA-256 digest.\<close>

theorem payload_preimage_binds:
  assumes "digest_32 K" "validateBridgeEvent K e = Inr u" "validateBridgeEvent K e' = Inr u'"
    and "payload_preimage K e = payload_preimage K e'"
  shows "ev_chainId e = ev_chainId e' \<and> bytes_of_hex (ev_txHash e) = bytes_of_hex (ev_txHash e')
    \<and> amount_of e = amount_of e' \<and> sha256 K (ev_target e) = sha256 K (ev_target e')
    \<and> sha256 K (ev_asset e) = sha256 K (ev_asset e')"
proof -
  have v: "0 \<le> ev_chainId d" "ev_chainId d \<le> u32_max" "matches_hex 64 (ev_txHash d)"
    "int (amount_of d) \<le> i128_max" if "validateBridgeEvent K d = Inr w" for d w
    using that by (auto simp: validateBridgeEvent_Inr_iff)
  note ve = v [OF assms(2)] and ve' = v [OF assms(3)]
  have len: "length (bytes_of_hex (ev_txHash e)) = length (bytes_of_hex (ev_txHash e'))"
    using ve(3) ve'(3) by (simp add: length_bytes_of_hex matches_hex_def)
  have "be_bytes 4 (nat (ev_chainId e)) = be_bytes 4 (nat (ev_chainId e'))
    \<and> bytes_of_hex (ev_txHash e) = bytes_of_hex (ev_txHash e')
    \<and> sha256 K (ev_target e) = sha256 K (ev_target e')
    \<and> sha256 K (ev_asset e) = sha256 K (ev_asset e')
    \<and> i128_be_bytes (int (amount_of e)) = i128_be_bytes (int (amount_of e'))"
    using assms(1,4) len
    by (simp add: payload_preimage_valid [OF assms(2)] payload_preimage_valid [OF assms(3)]
        digest_32_def i128_be_bytes_def)
  moreover from this have "nat (ev_chainId e) = nat (ev_chainId e')"
    using ve(1,2) ve'(1,2) be_bytes_inject [of "nat (ev_chainId e)" 4 "nat (ev_chainId e')"] by (simp add: u32_max_def)
  moreover have "amount_of e = amount_of e'"
    using calculation(1) ve(4) ve'(4) be_bytes_inject [of "amount_of e" 16 "amount_of e'"]
    by (simp add: i128_be_bytes_def i128_max_def mod_pos_pos_trivial)
  ultimately show ?thesis using ve(1) ve'(1) by simp
qed

lemma payload_preimage_binds_witness:
  "ev_chainId sample_event = ev_chainId (sample_event\<lparr>ev_txHash := replicate 64 CHR ''A''\<rparr>)
   \<and> bytes_of_hex (ev_txHash sample_event) = bytes_of_hex (replicate 64 CHR ''A'')"
proof -
  have v: "validateBridgeEvent sample_platform (sample_event\<lparr>ev_txHash := replicate 64 CHR ''A''\<rparr>) = Inr ()"
    by code_simp
  have "hex_val CHR ''a'' = Some 10" "hex_val CHR ''A'' = Some 10" by code_simp+
  then have "bytes_of_hex (replicate 64 CHR ''a'') = bytes_of_hex (replicate 64 CHR ''A'')"
    using bytes_of_hex_replicate [of _ 10 32] by simp
  then have "payload_preimage sample_platform sample_event
      = payload_preimage sample_platform (sample_event\<lparr>ev_txHash := replicate 64 CHR ''A''\<rparr>)"
    using payload_preimage_valid [OF sample_event_valid] payload_preimage_valid [OF v]
    by (simp add: sample_event_def)
  from payload_preimage_binds [OF sample_digest_32 sample_event_valid v this] show ?thesis by simp
qed

end
