(* ===== verification/Sdk_Types.thy ===== *)
theory Sdk_Types
  imports Js_Runtime
begin

text \<open>
  The data the SDK's methods exchange with their callers (\<open>sdk/src/types.ts\<close>): options, results, and
  the union \<open>string | number | bigint\<close> with its conversion \<open>BigInt(_)\<close>.  An interface that extends
  another is a record that extends its record.
\<close>

section \<open>Integers of a caller\<close>

text \<open>A number that is not an integer is \<open>IntNumber None\<close>.\<close>

datatype js_int = IntString string | IntNumber "int option" | IntBig int

definition BigInt :: "js_int \<Rightarrow> string + int" where
  "BigInt x =
     (case x of
        IntString s \<Rightarrow> (case bigint_of_string s of Some n \<Rightarrow> Inr n | None \<Rightarrow> Inl ''SyntaxError: Cannot convert to a BigInt'')
      | IntNumber (Some n) \<Rightarrow> Inr n
      | IntNumber None \<Rightarrow> Inl ''RangeError: The number cannot be converted to a BigInt''
      | IntBig n \<Rightarrow> Inr n)"

section \<open>Results\<close>

datatype tx_status = Pending | Failed

record tx_result =
  tr_hash :: string
  tr_status :: tx_status
  tr_error :: "string option"

text \<open>\<open>ConfirmedTransactionResult\<close>.\<close>

datatype 'a confirmed = Confirmed string 'a | Unconfirmed string "string option"

section \<open>Options\<close>

record fund_options =
  fo_source :: string
  fo_target :: string
  fo_asset :: string
  fo_amount :: string
  fo_nonce :: "js_int option"
  fo_deadline :: "js_int option"

record referral_options = fund_options +
  fo_referrer :: "string option"

record timelock_options = fund_options +
  fo_releaseTime :: int
  fo_cliffTime :: "int option"

record commit_options =
  co_source :: string
  co_target :: string
  co_asset :: string
  co_amountHash :: string
  co_deadline :: js_int

record reveal_options =
  rv_commitmentId :: js_int
  rv_source :: string
  rv_target :: string
  rv_asset :: string
  rv_amount :: string
  rv_nonce :: js_int

record swap_options =
  sw_source :: string
  sw_target :: string
  sw_sourceAsset :: string
  sw_targetAsset :: string
  sw_sourceAmount :: string
  sw_minTargetAmount :: string
  sw_swapRoute :: "string list"
  sw_nonce :: "js_int option"
  sw_deadline :: "js_int option"

record batch_options =
  ba_source :: string
  ba_targets :: "string list"
  ba_amounts :: "string list"
  ba_asset :: string
  ba_nonce :: "js_int option"
  ba_deadline :: "js_int option"

record withdraw_options =
  wd_asset :: string
  wd_amount :: string
  wd_nonce :: "js_int option"

record reclaim_options =
  rc_asset :: string
  rc_amount :: string
  rc_to :: string
  rc_nonce :: "js_int option"

record upgrade_options =
  ug_newWasmHash :: string
  ug_nonce :: "js_int option"

record execute_upgrade_options =
  ex_expectedHash :: string
  ex_nonce :: "js_int option"

record cancel_upgrade_options =
  cu_nonce :: "js_int option"

record meta_fund_params =
  mf_networkId :: string
  mf_source :: string
  mf_target :: string
  mf_asset :: string
  mf_amount :: js_int
  mf_nonce :: js_int
  mf_deadline :: js_int

record meta_fund_options =
  mo_params :: meta_fund_params
  mo_pubkey :: string
  mo_signature :: string

record fee_tier =
  ft_min_volume :: js_int
  ft_max_volume :: js_int
  ft_fee_bps :: int

record relayer_sig =
  sig_pubkey :: string
  sig_signature :: string

record crosschain_request =
  cr_chainId :: int
  cr_txHash :: string
  cr_target :: string
  cr_asset :: string
  cr_amount :: string
  cr_sigs :: "relayer_sig list"

record relayer_options =
  ro_pubkey :: string
  ro_nonce :: "js_int option"

section \<open>Values handed to the observability hooks\<close>

datatype js_value = VUndefined | VString string | VNumber int | VBigInt int | VNaN

type_synonym hook_params = "(string \<times> js_value) list"

definition js_of_int :: "js_int \<Rightarrow> js_value" where
  "js_of_int x = (case x of IntString s \<Rightarrow> VString s | IntNumber (Some n) \<Rightarrow> VNumber n
                  | IntNumber None \<Rightarrow> VNaN | IntBig n \<Rightarrow> VBigInt n)"

definition js_of_opt_int :: "js_int option \<Rightarrow> js_value" where
  "js_of_opt_int x = (case x of None \<Rightarrow> VUndefined | Some i \<Rightarrow> js_of_int i)"

definition js_of_opt_string :: "string option \<Rightarrow> js_value" where
  "js_of_opt_string x = (case x of None \<Rightarrow> VUndefined | Some s \<Rightarrow> VString s)"

section \<open>Native values\<close>

text \<open>The values \<open>scValToNative\<close> makes of contract values: integers as numbers or bigints, byte strings as
  buffers, maps as objects in the order of their entries.\<close>

datatype js_native =
    NNull
  | NBool bool
  | NNum int
  | NBig int
  | NText string
  | NBytes "byte list"
  | NList "js_native list"
  | NDict "(string \<times> js_native) list"

fun join_comma :: "string list \<Rightarrow> string" where
  "join_comma [] = []"
| "join_comma [s] = s"
| "join_comma (s # ss) = s @ '','' @ join_comma ss"

text \<open>\<open>String(v)\<close>, which is \<open>v.toString()\<close> for a value that is not null.\<close>

fun native_text :: "js_native \<Rightarrow> string" where
  "native_text NNull = ''null''"
| "native_text (NBool b) = (if b then ''true'' else ''false'')"
| "native_text (NNum n) = dec_of_int n"
| "native_text (NBig n) = dec_of_int n"
| "native_text (NText s) = s"
| "native_text (NBytes bs) = utf8_to_string bs"
| "native_text (NList vs) = join_comma (map (\<lambda>v. if v = NNull then [] else native_text v) vs)"
| "native_text (NDict _) = ''[object Object]''"

text \<open>\<open>Boolean(v)\<close> and \<open>Number(v)\<close>; a text that is not an integer, and an array, count as \<open>NaN\<close>.\<close>

fun native_truthy :: "js_native \<Rightarrow> bool" where
  "native_truthy NNull = False"
| "native_truthy (NBool b) = b"
| "native_truthy (NNum n) = (n \<noteq> 0)"
| "native_truthy (NBig n) = (n \<noteq> 0)"
| "native_truthy (NText s) = (s \<noteq> [])"
| "native_truthy _ = True"

fun native_number :: "js_native \<Rightarrow> int option" where
  "native_number NNull = Some 0"
| "native_number (NBool b) = Some (if b then 1 else 0)"
| "native_number (NNum n) = Some n"
| "native_number (NBig n) = js_finite n"
| "native_number (NText s) = Option.bind (bigint_of_string s) js_finite"
| "native_number _ = None"

text \<open>A property of a value: \<open>None\<close> is \<open>undefined\<close>.\<close>

fun native_field :: "js_native \<Rightarrow> string \<Rightarrow> js_native option" where
  "native_field (NDict fs) k = map_of fs k"
| "native_field _ k = None"

text \<open>\<open>a ?? b\<close>.\<close>

definition nullish_or :: "js_native option \<Rightarrow> js_native option \<Rightarrow> js_native option" where
  "nullish_or a b = (case a of None \<Rightarrow> b | Some NNull \<Rightarrow> b | _ \<Rightarrow> a)"

end
