(* ===== verification/Signers.thy ===== *)
theory Signers
  imports Bridge_Event Sdk_Types
begin

text \<open>
  Key custody: how the relayer obtains signatures over a payload hash
  (\<open>relayer/index.ts\<close>: \<open>requestRemoteSignature\<close>, \<open>signWithNode\<close>, \<open>signPayload\<close>,
  \<open>verifyRelayerSignature\<close>, and the collection loop of \<open>processEvent\<close>), and the per-operator
  service that answers the remote requests (\<open>relayer/signer-service.ts\<close>).  HTTP bodies are held
  as the JSON value they encode, with the length of their text.
\<close>

datatype json =
    JNull
  | JBool bool
  | JNum int
  | JStr string
  | JArr "json list"
  | JObj "(string \<times> json) list"

fun json_field :: "json \<Rightarrow> string \<Rightarrow> json option" where
  "json_field (JObj fs) k = map_of fs k"
| "json_field _ k = None"

record http_request =
  req_method :: string
  req_url :: string
  req_headers :: "(string \<times> string) list"
  req_body :: "json option"
  req_body_length :: nat

record http_response =
  resp_status :: int
  resp_json :: "json option"

text \<open>The network between two processes: \<open>fetch\<close> rejects (\<open>Inl\<close>, also for the abort of the
  5 s timeout) or yields a response.\<close>

type_synonym network = "http_request \<Rightarrow> string + http_response"

datatype node_config = PrivateKeyNode string | SignerNode string string

section \<open>The relayer's side\<close>

definition strip_trailing_slash :: "string \<Rightarrow> string" where
  "strip_trailing_slash url = (if url \<noteq> [] \<and> last url = CHR ''/'' then butlast url else url)"

definition remote_sign_request :: "string \<Rightarrow> byte list \<Rightarrow> http_request" where
  "remote_sign_request signerUrl payloadHash =
     \<lparr>req_method = ''POST'',
      req_url = strip_trailing_slash signerUrl @ ''/sign'',
      req_headers = [(''content-type'', ''application/json'')],
      req_body = Some (JObj [(''payloadHash'', JStr (hex_of_bytes payloadHash))]),
      req_body_length = length ''{\"payloadHash\":\"\"}'' + length (hex_of_bytes payloadHash)\<rparr>"

definition requestRemoteSignature ::
  "network \<Rightarrow> string \<Rightarrow> string \<Rightarrow> byte list \<Rightarrow> string + relayer_sig" where
  "requestRemoteSignature net signerUrl expectedPubkey payloadHash =
     (if \<not> matches_hex 64 expectedPubkey
      then Inl (''signer at '' @ signerUrl @ '' has an invalid expectedPubkey configuration'')
      else case net (remote_sign_request signerUrl payloadHash) of
        Inl err \<Rightarrow> Inl err
      | Inr res \<Rightarrow>
          if \<not> (200 \<le> resp_status res \<and> resp_status res \<le> 299)
          then Inl (''signer at '' @ signerUrl @ '' responded '' @ dec_of_int (resp_status res))
          else case resp_json res of
            None \<Rightarrow> Inl ''SyntaxError: response is not JSON''
          | Some js \<Rightarrow>
              (case (json_field js ''pubkey'', json_field js ''signature'') of
                 (Some (JStr pubkey), Some (JStr signature)) \<Rightarrow>
                   if to_lower pubkey \<noteq> to_lower expectedPubkey
                   then Inl (''signer at '' @ signerUrl @ '' returned an unexpected public key'')
                   else Inr \<lparr>sig_pubkey = pubkey, sig_signature = signature\<rparr>
               | _ \<Rightarrow> Inl (''signer at '' @ signerUrl @ '' returned a malformed response'')))"

definition signPayload :: "platform \<Rightarrow> string \<Rightarrow> byte list \<Rightarrow> string + relayer_sig" where
  "signPayload K privateKeyHex payloadHash =
     (let seed = bytes_of_hex privateKeyHex in
      bind_sum (seed_pubkey K seed) (\<lambda>pub.
        Inr \<lparr>sig_pubkey = hex_of_bytes pub,
             sig_signature = hex_of_bytes (seed_sign K seed payloadHash)\<rparr>))"

fun signWithNode :: "platform \<Rightarrow> network \<Rightarrow> node_config \<Rightarrow> byte list \<Rightarrow> string + relayer_sig" where
  "signWithNode K net (SignerNode signerUrl expectedPubkey) payloadHash =
     requestRemoteSignature net signerUrl expectedPubkey payloadHash"
| "signWithNode K net (PrivateKeyNode privateKey) payloadHash = signPayload K privateKey payloadHash"

definition verifyRelayerSignature :: "platform \<Rightarrow> relayer_sig \<Rightarrow> byte list \<Rightarrow> bool" where
  "verifyRelayerSignature K sg payloadHash =
     (if \<not> matches_hex 64 (sig_pubkey sg) \<or> \<not> matches_hex 128 (sig_signature sg) then False
      else case ed_verify K (bytes_of_hex (sig_pubkey sg)) payloadHash (bytes_of_hex (sig_signature sg)) of
             Inl _ \<Rightarrow> False
           | Inr ok \<Rightarrow> ok)"

text \<open>One node's contribution: a signer that fails, or whose signature does not verify, gives
  nothing.  Then duplicates by public key (compared in lower case) are removed.\<close>

definition node_signature ::
  "platform \<Rightarrow> network \<Rightarrow> node_config \<Rightarrow> byte list \<Rightarrow> relayer_sig option" where
  "node_signature K net node payloadHash =
     (case signWithNode K net node payloadHash of
        Inl _ \<Rightarrow> None
      | Inr sg \<Rightarrow> if verifyRelayerSignature K sg payloadHash then Some sg else None)"

definition pubkey_key :: "relayer_sig \<Rightarrow> string" where
  "pubkey_key sg = to_lower (sig_pubkey sg)"

definition collect_signatures ::
  "platform \<Rightarrow> network \<Rightarrow> node_config list \<Rightarrow> byte list \<Rightarrow> relayer_sig list" where
  "collect_signatures K net nodes payloadHash =
     keep_first pubkey_key {} (List.map_filter (\<lambda>node. node_signature K net node payloadHash) nodes)"

section \<open>The signer service\<close>

definition signHex :: "platform \<Rightarrow> string \<Rightarrow> string \<Rightarrow> string + relayer_sig" where
  "signHex K privateKeyHex payloadHashHex =
     (if \<not> matches_hex 64 payloadHashHex then Inl ''payloadHash must be a 32-byte hex string''
      else let seed = bytes_of_hex privateKeyHex in
        bind_sum (seed_pubkey K seed) (\<lambda>pub.
          Inr \<lparr>sig_pubkey = hex_of_bytes pub,
               sig_signature = hex_of_bytes (seed_sign K seed (bytes_of_hex payloadHashHex))\<rparr>))"

text \<open>The handler gives a response or destroys the connection (a body over 10 000 characters).  The
  request target is the path the server sees.  A \<open>payloadHash\<close> that is not a string is answered
  like a malformed one.\<close>

datatype served = Responded int "json option" | Destroyed

definition error_body :: "string \<Rightarrow> json option" where
  "error_body msg = Some (JObj [(''error'', JStr msg)])"

definition signer_handler ::
  "platform \<Rightarrow> string \<Rightarrow> string \<Rightarrow> string \<Rightarrow> http_request \<Rightarrow> served" where
  "signer_handler K privateKeyHex authToken path req =
     (if req_method req \<noteq> ''POST'' \<or> path \<noteq> ''/sign'' then Responded 404 None
      else if map_of (req_headers req) ''authorization'' \<noteq> Some (''Bearer '' @ authToken)
      then Responded 401 None
      else if req_body_length req > 10000 then Destroyed
      else case req_body req of
        None \<Rightarrow> Responded 400 (error_body ''SyntaxError: body is not JSON'')
      | Some js \<Rightarrow>
          (case json_field js ''payloadHash'' of
             Some (JStr h) \<Rightarrow>
               (case signHex K privateKeyHex h of
                  Inl err \<Rightarrow> Responded 400 (error_body err)
                | Inr sg \<Rightarrow>
                    Responded 200
                      (Some (JObj [(''pubkey'', JStr (sig_pubkey sg)), (''signature'', JStr (sig_signature sg))])))
           | _ \<Rightarrow> Responded 400 (error_body ''payloadHash must be a 32-byte hex string'')))"

definition startSignerService :: "platform \<Rightarrow> string \<Rightarrow> string \<Rightarrow> string + (string \<Rightarrow> http_request \<Rightarrow> served)" where
  "startSignerService K privateKeyHex authToken =
     (if authToken = [] then Inl ''SIGNER_AUTH_TOKEN is required''
      else Inr (signer_handler K privateKeyHex authToken))"

text \<open>A network on which every request reaches one signer service; \<open>path_of\<close> is the path a URL names.\<close>

definition service_network ::
  "(string \<Rightarrow> string) \<Rightarrow> (string \<Rightarrow> http_request \<Rightarrow> served) \<Rightarrow> network" where
  "service_network path_of serve req =
     (case serve (path_of (req_url req)) req of
        Destroyed \<Rightarrow> Inl ''socket hang up''
      | Responded st js \<Rightarrow> Inr \<lparr>resp_status = st, resp_json = js\<rparr>)"

section \<open>Sources of signatures\<close>

text \<open>
  What the relayer needs of its signers, whatever their custody mode: a signature it gets has
  been accepted by the verifier.  The counting lemmas are proved from this contract alone.
\<close>

locale signature_source =
  fixes produce :: "'n \<Rightarrow> byte list \<Rightarrow> relayer_sig option"
    and accepts :: "relayer_sig \<Rightarrow> byte list \<Rightarrow> bool"
  assumes produced_accepted: "produce n h = Some s \<Longrightarrow> accepts s h"
begin

definition collect :: "'n list \<Rightarrow> byte list \<Rightarrow> relayer_sig list" where
  "collect ns h = keep_first pubkey_key {} (List.map_filter (\<lambda>n. produce n h) ns)"

lemma collect_accepted: "s \<in> set (collect ns h) \<Longrightarrow> accepts s h"
proof -
  assume "s \<in> set (collect ns h)"
  then have "s \<in> set (List.map_filter (\<lambda>n. produce n h) ns)"
    using keep_first_subset by (fastforce simp: collect_def)
  then show ?thesis by (auto simp: List.map_filter_def dest: produced_accepted)
qed

lemma collect_distinct: "distinct (map pubkey_key (collect ns h))"
  by (simp add: collect_def keep_first_distinct)

lemma collect_keys:
  "pubkey_key ` set (collect ns h) = {pubkey_key s | s n. n \<in> set ns \<and> produce n h = Some s}"
  by (force simp: collect_def keep_first_keys List.map_filter_def image_iff)

lemma collect_count:
  "length (collect ns h) = card {pubkey_key s | s n. n \<in> set ns \<and> produce n h = Some s}"
  by (metis collect_keys collect_distinct distinct_card length_map set_map)

end

interpretation node_sigs: signature_source "node_signature K net" "verifyRelayerSignature K" for K net
  by unfold_locales (auto simp: node_signature_def split: sum.splits if_splits)

lemma node_sigs_collect [simp]: "node_sigs.collect K net nodes h = collect_signatures K net nodes h"
  by (simp add: node_sigs.collect_def collect_signatures_def)

lemmas collected_accepted = node_sigs.collect_accepted [unfolded node_sigs_collect]
  and collected_distinct = node_sigs.collect_distinct [unfolded node_sigs_collect]
  and collected_count = node_sigs.collect_count [unfolded node_sigs_collect]

section \<open>Lemmas\<close>

lemma verify_shape:
  "verifyRelayerSignature K sg h \<Longrightarrow> matches_hex 64 (sig_pubkey sg) \<and> matches_hex 128 (sig_signature sg)"
  by (auto simp: verifyRelayerSignature_def split: if_splits)

lemma signPayload_verifies:
  assumes "signing_sound K" "signPayload K sk h = Inr sg"
  shows "verifyRelayerSignature K sg h"
  using assms
  by (auto simp: signPayload_def Let_def bind_sum_eq_Inr signing_sound_def verifyRelayerSignature_def)

lemma signHex_is_signPayload:
  "matches_hex 64 hh \<Longrightarrow> signHex K sk hh = signPayload K sk (bytes_of_hex hh)"
  by (simp add: signHex_def signPayload_def)

lemma requestRemoteSignature_pubkey:
  "requestRemoteSignature net url pk h = Inr sg \<Longrightarrow> to_lower (sig_pubkey sg) = to_lower pk"
  by (auto simp: requestRemoteSignature_def Let_def
      split: if_splits sum.splits option.splits json.splits)

section \<open>Properties\<close>

text \<open>C11: The signatures the relayer collects for a payload all verify over it, come from pairwise
  distinct public keys (compared without case), and there are exactly as many as there are distinct
  keys among the verified answers: a node configured twice is not counted twice, and no distinct
  signer is dropped.\<close>

theorem collected_signatures_count_distinct_keys:
  "(\<forall>sg \<in> set (collect_signatures K net nodes h). verifyRelayerSignature K sg h)
   \<and> distinct (map pubkey_key (collect_signatures K net nodes h))
   \<and> length (collect_signatures K net nodes h)
      = card {pubkey_key sg | sg n. n \<in> set nodes \<and> node_signature K net n h = Some sg}"
  using collected_accepted collected_distinct collected_count by blast

lemma collected_signatures_count_distinct_keys_witness:
  "distinct (map pubkey_key (collect_signatures sample_platform (\<lambda>_. Inl ''down'')
      [PrivateKeyNode (replicate 64 CHR ''1''), PrivateKeyNode (replicate 64 CHR ''1''), SignerNode ''u'' []] (replicate 32 CHR ''h'')))
   \<and> length (collect_signatures sample_platform (\<lambda>_. Inl ''down'')
      [PrivateKeyNode (replicate 64 CHR ''1''), PrivateKeyNode (replicate 64 CHR ''1''), SignerNode ''u'' []] (replicate 32 CHR ''h'')) = 1"
proof -
  have "hex_val CHR ''1'' = Some 1" by code_simp
  then have hex: "bytes_of_hex (replicate 64 CHR ''1'') = replicate 32 (char_of (17 :: nat))"
    using bytes_of_hex_replicate [of _ 1 32] by simp
  obtain sg where sg: "signPayload sample_platform (replicate 64 CHR ''1'') (replicate 32 CHR ''h'') = Inr sg"
    by (simp add: signPayload_def hex Let_def)
  have "node_signature sample_platform (\<lambda>_. Inl ''down'') (PrivateKeyNode (replicate 64 CHR ''1'')) (replicate 32 CHR ''h'') \<noteq> None"
    using signPayload_verifies [OF sample_signing_sound sg] sg by (simp add: node_signature_def)
  moreover have "node_signature sample_platform (\<lambda>_. Inl ''down'') (SignerNode ''u'' []) (replicate 32 CHR ''h'') = None"
    by (simp add: node_signature_def requestRemoteSignature_def matches_hex_def)
  ultimately show ?thesis
    using collected_signatures_count_distinct_keys
    by (auto simp: collect_signatures_def List.map_filter_simps)
qed

text \<open>The signer service answers a well-formed, authorised \<open>POST /sign\<close> with status 200 and a
  signature that the relayer's own verifier accepts over the hash that was asked for.\<close>

theorem signer_service_answers_verify:
  assumes "signing_sound K" "seed_pubkey K (bytes_of_hex privateKeyHex) = Inr pub"
    and "req_method req = ''POST''" "map_of (req_headers req) ''authorization'' = Some (''Bearer '' @ authToken)"
    and "req_body_length req \<le> 10000" "req_body req = Some (JObj [(''payloadHash'', JStr h)])"
    and "matches_hex 64 h"
  shows "\<exists>sg. signer_handler K privateKeyHex authToken ''/sign'' req
      = Responded 200 (Some (JObj [(''pubkey'', JStr (sig_pubkey sg)), (''signature'', JStr (sig_signature sg))]))
    \<and> sig_pubkey sg = hex_of_bytes pub \<and> verifyRelayerSignature K sg (bytes_of_hex h)"
proof -
  from assms(2,7) obtain sg where sg: "signHex K privateKeyHex h = Inr sg"
    and pub: "sig_pubkey sg = hex_of_bytes pub"
    by (auto simp: signHex_def Let_def)
  then have "verifyRelayerSignature K sg (bytes_of_hex h)"
    using signPayload_verifies [OF assms(1)] by (simp add: signHex_is_signPayload [OF assms(7)])
  with sg pub assms(3-6) show ?thesis
    by (intro exI [of _ sg]) (simp add: signer_handler_def)
qed

lemma signer_service_answers_verify_witness:
  "\<exists>sg. signer_handler sample_platform (replicate 64 CHR ''1'') ''tok'' ''/sign''
      \<lparr>req_method = ''POST'', req_url = ''/sign'', req_headers = [(''authorization'', ''Bearer tok'')],
       req_body = Some (JObj [(''payloadHash'', JStr (replicate 64 CHR ''a''))]), req_body_length = 82\<rparr>
      = Responded 200 (Some (JObj [(''pubkey'', JStr (sig_pubkey sg)), (''signature'', JStr (sig_signature sg))]))
    \<and> sig_pubkey sg = hex_of_bytes (bytes_of_hex (replicate 64 CHR ''1''))
    \<and> verifyRelayerSignature sample_platform sg (bytes_of_hex (replicate 64 CHR ''a''))"
proof (rule signer_service_answers_verify)
  have "hex_val CHR ''1'' = Some 1" by code_simp
  then show "seed_pubkey sample_platform (bytes_of_hex (replicate 64 CHR ''1''))
      = Inr (bytes_of_hex (replicate 64 CHR ''1''))"
    using bytes_of_hex_replicate [of _ 1 32] by simp
  have "is_hex CHR ''a''" by code_simp
  then show "matches_hex 64 (replicate 64 CHR ''a'')" by simp
qed simp_all

text \<open>The relayer cannot obtain a signature from the repository's own signer service: the request
  it sends carries no \<open>Authorization\<close> header, so the service refuses it, whatever its token is,
  and the relayer's request throws.\<close>

theorem relayer_request_refused_by_signer_service:
  "\<exists>err. requestRemoteSignature (service_network path_of (signer_handler K privateKeyHex authToken))
      signerUrl expectedPubkey h = Inl err"
proof -
  have "map_of (req_headers (remote_sign_request signerUrl h)) ''authorization'' = None"
    by (simp add: remote_sign_request_def)
  then have "signer_handler K privateKeyHex authToken path (remote_sign_request signerUrl h)
      \<in> {Responded 404 None, Responded 401 None}" for path
    by (simp add: signer_handler_def)
  from this [of "path_of (req_url (remote_sign_request signerUrl h))"]
  have "service_network path_of (signer_handler K privateKeyHex authToken) (remote_sign_request signerUrl h)
      \<in> {Inr \<lparr>resp_status = 404, resp_json = None\<rparr>, Inr \<lparr>resp_status = 401, resp_json = None\<rparr>}"
    by (auto simp: service_network_def)
  then show ?thesis by (auto simp: requestRemoteSignature_def)
qed

end
