(* ===== verification/Stores.thy ===== *)
theory Stores
  imports Bridge_Event
begin

text \<open>
  The relayer's durable state (\<open>relayer/index.ts\<close>): \<open>readJsonFile\<close> and
  \<open>writeJsonFileAtomic\<close>, the nonce store, the dead-letter queue, and the two listener cursors
  (\<open>BlockStore\<close>, \<open>SolanaSignatureStore\<close>).  A JSON file is held as the value it encodes; a write
  either replaces the contents or throws and leaves them alone (temporary file and rename).
  Whether each write succeeds is not under the program's control: the file carries the outcomes
  of the writes to come.
\<close>

section \<open>Files\<close>

datatype 'a json_file = Missing | Unreadable string | NotJson | OtherJson | Holds 'a

text \<open>What \<open>readJsonFile\<close> returns: \<open>null\<close>, a value of another shape, or the value expected.\<close>

datatype 'a loaded = LNull | LOther | LValue 'a

fun readJsonFile :: "'a json_file \<Rightarrow> string + 'a loaded" where
  "readJsonFile Missing = Inr LNull"
| "readJsonFile (Unreadable err) = Inl err"
| "readJsonFile NotJson = Inl ''SyntaxError: Unexpected token''"
| "readJsonFile OtherJson = Inr LOther"
| "readJsonFile (Holds v) = Inr (LValue v)"

record 'a store_file =
  contents :: "'a json_file"
  write_results :: "bool list"

definition next_write :: "'a store_file \<Rightarrow> bool" where
  "next_write f = (case write_results f of [] \<Rightarrow> True | ok # _ \<Rightarrow> ok)"

definition writeJsonFileAtomic :: "'a \<Rightarrow> ('a store_file, string, unit) op" where
  "writeJsonFileAtomic v f =
     (if next_write f
      then (Inr (), f\<lparr>contents := Holds v, write_results := tl (write_results f)\<rparr>)
      else (Inl ''write failed'', f\<lparr>write_results := tl (write_results f)\<rparr>))"

section \<open>NonceStore\<close>

text \<open>The set \<open>seen\<close> in insertion order; \<open>ns_backed\<close> says whether a file path was given.\<close>

record nonce_store =
  ns_seen :: "string list"
  ns_backed :: bool
  ns_file :: "string list store_file"

definition set_add :: "'a \<Rightarrow> 'a list \<Rightarrow> 'a list" where
  "set_add x xs = (if x \<in> set xs then xs else xs @ [x])"

definition nonce_open :: "bool \<Rightarrow> string list store_file \<Rightarrow> string + nonce_store" where
  "nonce_open backed f =
     (if \<not> backed then Inr \<lparr>ns_seen = [], ns_backed = False, ns_file = f\<rparr>
      else bind_sum (readJsonFile (contents f)) (\<lambda>loaded.
        Inr \<lparr>ns_seen = (case loaded of LValue ks \<Rightarrow> fold set_add ks [] | _ \<Rightarrow> []),
             ns_backed = True, ns_file = f\<rparr>))"

definition nonce_persist :: "(nonce_store, string, unit) op" where
  "nonce_persist s =
     (if ns_backed s
      then case writeJsonFileAtomic (ns_seen s) (ns_file s) of (r, f) \<Rightarrow> (r, s\<lparr>ns_file := f\<rparr>)
      else (Inr (), s))"

definition nonce_has :: "nonce_store \<Rightarrow> int \<Rightarrow> string \<Rightarrow> bool" where
  "nonce_has s chain tx = (event_key chain tx \<in> set (ns_seen s))"

definition nonce_mark :: "int \<Rightarrow> string \<Rightarrow> (nonce_store, string, unit) op" where
  "nonce_mark chain tx s = nonce_persist (s\<lparr>ns_seen := set_add (event_key chain tx) (ns_seen s)\<rparr>)"

section \<open>DeadLetterQueue\<close>

text \<open>Times are milliseconds.  \<open>attempts\<close> and \<open>nextRetryAt\<close> may be absent in a file an older
  version wrote, which the code provides for.\<close>

record dead_letter =
  dl_event :: bridge_event
  dl_enqueuedAt :: int
  dl_available :: nat
  dl_required :: nat
  dl_reason :: string
  dl_attempts :: "nat option"
  dl_nextRetryAt :: "int option"
  dl_terminal :: bool

record dlq =
  dq_entries :: "dead_letter list"
  dq_backed :: bool
  dq_file :: "dead_letter list store_file"

definition same_event :: "int \<Rightarrow> string \<Rightarrow> dead_letter \<Rightarrow> bool" where
  "same_event chain tx d = (ev_chainId (dl_event d) = chain \<and> ev_txHash (dl_event d) = tx)"

definition dlq_open :: "bool \<Rightarrow> dead_letter list store_file \<Rightarrow> string + dlq" where
  "dlq_open backed f =
     (if \<not> backed then Inr \<lparr>dq_entries = [], dq_backed = False, dq_file = f\<rparr>
      else bind_sum (readJsonFile (contents f)) (\<lambda>loaded.
        Inr \<lparr>dq_entries = (case loaded of LValue ds \<Rightarrow> ds | _ \<Rightarrow> []), dq_backed = True, dq_file = f\<rparr>))"

definition dlq_persist :: "(dlq, string, unit) op" where
  "dlq_persist q =
     (if dq_backed q
      then case writeJsonFileAtomic (dq_entries q) (dq_file q) of (r, f) \<Rightarrow> (r, q\<lparr>dq_file := f\<rparr>)
      else (Inr (), q))"

definition dlq_remove :: "int \<Rightarrow> string \<Rightarrow> (dlq, string, unit) op" where
  "dlq_remove chain tx q =
     dlq_persist (q\<lparr>dq_entries := filter (\<lambda>d. \<not> same_event chain tx d) (dq_entries q)\<rparr>)"

definition retry_delay :: "nat \<Rightarrow> int" where
  "retry_delay attempts = min (60000 * 2 ^ (attempts - 1)) 3600000"

definition previous_attempts :: "int \<Rightarrow> string \<Rightarrow> dlq \<Rightarrow> nat" where
  "previous_attempts chain tx q =
     (case find (same_event chain tx) (dq_entries q) of
        None \<Rightarrow> 0
      | Some d \<Rightarrow> (case dl_attempts d of None \<Rightarrow> 0 | Some n \<Rightarrow> n))"

definition new_entry :: "int \<Rightarrow> bridge_event \<Rightarrow> nat \<Rightarrow> nat \<Rightarrow> string \<Rightarrow> bool \<Rightarrow> nat \<Rightarrow> dead_letter" where
  "new_entry now e available required reason terminal attempts =
     \<lparr>dl_event = e, dl_enqueuedAt = now, dl_available = available, dl_required = required,
      dl_reason = reason, dl_attempts = Some attempts,
      dl_nextRetryAt = Some (now + retry_delay attempts), dl_terminal = terminal\<rparr>"

definition dlq_push :: "dead_letter \<Rightarrow> (dlq, string, unit) op" where
  "dlq_push d q = dlq_persist (q\<lparr>dq_entries := dq_entries q @ [d]\<rparr>)"

definition dlq_enqueue ::
  "int \<Rightarrow> bridge_event \<Rightarrow> nat \<Rightarrow> nat \<Rightarrow> string \<Rightarrow> bool \<Rightarrow> (dlq, string, unit) op" where
  "dlq_enqueue now e available required reason terminal q =
     (let attempts = previous_attempts (ev_chainId e) (ev_txHash e) q + 1
      in and_then (dlq_remove (ev_chainId e) (ev_txHash e))
           (\<lambda>_. dlq_push (new_entry now e available required reason terminal attempts)) q)"

definition dlq_size :: "dlq \<Rightarrow> nat" where
  "dlq_size q = length (dq_entries q)"

section \<open>Cursors\<close>

text \<open>\<open>BlockStore\<close> and \<open>SolanaSignatureStore\<close> differ only in the name of the JSON field.\<close>

definition block_load :: "string store_file \<Rightarrow> string + string option" where
  "block_load f = bind_sum (readJsonFile (contents f)) (\<lambda>loaded.
     Inr (case loaded of LValue fromBlock \<Rightarrow> Some fromBlock | _ \<Rightarrow> None))"

definition block_save :: "string \<Rightarrow> (string store_file, string, unit) op" where
  "block_save fromBlock = writeJsonFileAtomic fromBlock"

definition signature_load :: "string store_file \<Rightarrow> string + string option" where
  "signature_load f = bind_sum (readJsonFile (contents f)) (\<lambda>loaded.
     Inr (case loaded of LValue signature \<Rightarrow> Some signature | _ \<Rightarrow> None))"

definition signature_save :: "string \<Rightarrow> (string store_file, string, unit) op" where
  "signature_save signature = writeJsonFileAtomic signature"

section \<open>Durability\<close>

text \<open>
  The contract of a durable cell: a successful \<open>put\<close> leaves the new value in the file, a failed
  one leaves the file as it was, and opening a file that holds a (well-formed) value yields it.
\<close>

locale durable =
  fixes put :: "'v \<Rightarrow> 's \<Rightarrow> (string + unit) \<times> 's"
    and cell :: "'s \<Rightarrow> 'v store_file"
    and backed :: "'s \<Rightarrow> bool"
    and reopen :: "'v store_file \<Rightarrow> string + 'r"
    and view :: "'r \<Rightarrow> 'v option"
    and ok :: "'v \<Rightarrow> bool"
  assumes put_writes: "put v s = (Inr (), s') \<Longrightarrow> backed s \<Longrightarrow> contents (cell s') = Holds v"
    and put_fails: "put v s = (Inl err, s') \<Longrightarrow> contents (cell s') = contents (cell s)"
    and reopen_view: "contents f = Holds v \<Longrightarrow> ok v \<Longrightarrow> \<exists>r. reopen f = Inr r \<and> view r = Some v"
begin

lemma put_reopen:
  assumes "put v s = (Inr (), s')" "backed s" "ok v"
  shows "\<exists>r. reopen (cell s') = Inr r \<and> view r = Some v"
  using put_writes [OF assms(1,2)] reopen_view assms(3) by blast

lemma put_atomic:
  assumes "put v s = (res, s')" "backed s"
  shows "contents (cell s') \<in> {contents (cell s), Holds v}"
  using assms by (cases res) (auto dest: put_writes put_fails)

end

lemma writeJsonFileAtomic_cases:
  "writeJsonFileAtomic v f = (r, f') \<Longrightarrow>
     (r = Inr () \<and> contents f' = Holds v) \<or> (r = Inl ''write failed'' \<and> contents f' = contents f)"
  by (auto simp: writeJsonFileAtomic_def split: if_splits)

lemma set_add_set [simp]: "set (set_add x xs) = insert x (set xs)"
  by (auto simp: set_add_def)

lemma fold_set_add_set [simp]: "set (fold set_add ks xs) = set xs \<union> set ks"
  by (induction ks arbitrary: xs) auto

lemma fold_set_add_distinct: "distinct (xs @ ks) \<Longrightarrow> fold set_add ks xs = xs @ ks"
  by (induction ks arbitrary: xs) (auto simp: set_add_def)

definition nonce_put :: "string list \<Rightarrow> (nonce_store, string, unit) op" where
  "nonce_put ks s = nonce_persist (s\<lparr>ns_seen := ks\<rparr>)"

definition dlq_put :: "dead_letter list \<Rightarrow> (dlq, string, unit) op" where
  "dlq_put ds q = dlq_persist (q\<lparr>dq_entries := ds\<rparr>)"

lemma nonce_mark_put:
  "nonce_mark chain tx s = nonce_put (set_add (event_key chain tx) (ns_seen s)) s"
  by (simp add: nonce_mark_def nonce_put_def)

lemma dlq_remove_put:
  "dlq_remove chain tx q = dlq_put (filter (\<lambda>d. \<not> same_event chain tx d) (dq_entries q)) q"
  by (simp add: dlq_remove_def dlq_put_def)

lemma dlq_push_put: "dlq_push d q = dlq_put (dq_entries q @ [d]) q"
  by (simp add: dlq_push_def dlq_put_def)

interpretation nonce_disk: durable nonce_put ns_file ns_backed "nonce_open True" "\<lambda>r. Some (ns_seen r)" distinct
  by unfold_locales
    (auto simp: nonce_put_def nonce_persist_def nonce_open_def fold_set_add_distinct
      split: prod.splits if_splits dest!: writeJsonFileAtomic_cases)

interpretation dlq_disk: durable dlq_put dq_file dq_backed "dlq_open True" "\<lambda>r. Some (dq_entries r)" "\<lambda>_. True"
  by unfold_locales
    (auto simp: dlq_put_def dlq_persist_def dlq_open_def
      split: prod.splits if_splits dest!: writeJsonFileAtomic_cases)

interpretation block_disk: durable block_save "\<lambda>f. f" "\<lambda>_. True" block_load "\<lambda>r. r" "\<lambda>_. True"
  by unfold_locales (auto simp: block_save_def block_load_def dest: writeJsonFileAtomic_cases)

interpretation signature_disk: durable signature_save "\<lambda>f. f" "\<lambda>_. True" signature_load "\<lambda>r. r" "\<lambda>_. True"
  by unfold_locales (auto simp: signature_save_def signature_load_def dest: writeJsonFileAtomic_cases)

section \<open>Keys\<close>

lemma colon_not_in_dec: "CHR '':'' \<notin> set (dec_of_int i)"
proof -
  have "CHR '':'' \<notin> set (dec_of_nat n)" for n
    using matches_digits_dec_of_nat [of n] by (auto simp: matches_digits_def list_all_iff is_dec_def)
  then show ?thesis by (simp add: dec_of_int_def)
qed

lemma dec_of_int_inject [simp]: "dec_of_int i = dec_of_int j \<longleftrightarrow> i = j"
proof -
  have "CHR ''-'' \<notin> set (dec_of_nat n)" for n
    using matches_digits_dec_of_nat [of n] by (auto simp: matches_digits_def list_all_iff is_dec_def)
  then have ne: "CHR ''-'' # xs \<noteq> dec_of_nat n" for xs n
    by (metis list.set_intros(1))
  show ?thesis
    using ne ne [symmetric] by (auto simp: dec_of_int_def)
qed

lemma event_key_inject [simp]: "event_key c t = event_key c' t' \<longleftrightarrow> c = c' \<and> t = t'"
proof
  assume "event_key c t = event_key c' t'"
  then have eq: "dec_of_int c @ CHR '':'' # t = dec_of_int c' @ CHR '':'' # t'"
    by (simp add: event_key_def)
  have "takeWhile (\<lambda>x. x \<noteq> CHR '':'') (dec_of_int i @ CHR '':'' # u) = dec_of_int i" for i u
    using colon_not_in_dec [of i] by (auto simp: takeWhile_append)
  with eq have "dec_of_int c = dec_of_int c'" by metis
  with eq show "c = c' \<and> t = t'" by simp
qed simp

section \<open>The nonce store\<close>

lemma nonce_persist_seen [frame_simps]: "nonce_persist s = (r, s') \<Longrightarrow> ns_seen s' = ns_seen s \<and> ns_backed s' = ns_backed s"
  by (auto simp: nonce_persist_def split: if_splits prod.splits)

lemma nonce_mark_seen:
  "nonce_mark chain tx s = (r, s') \<Longrightarrow> set (ns_seen s') = insert (event_key chain tx) (set (ns_seen s))"
  by (auto simp: nonce_mark_def dest: nonce_persist_seen)

lemma nonce_has_mark:
  "nonce_mark chain tx s = (r, s') \<Longrightarrow> nonce_has s' c t \<longleftrightarrow> nonce_has s c t \<or> (c = chain \<and> t = tx)"
  by (auto simp: nonce_has_def nonce_mark_seen)

lemma nonce_mark_distinct:
  "nonce_mark chain tx s = (r, s') \<Longrightarrow> distinct (ns_seen s) \<Longrightarrow> distinct (ns_seen s')"
  by (auto simp: nonce_mark_def set_add_def dest!: nonce_persist_seen split: if_splits)

text \<open>A submission the relayer recorded survives a restart: once \<open>mark\<close> has returned, a store
  opened on the same file reports the event as seen, and everything that was seen before.\<close>

theorem nonce_mark_survives_restart:
  assumes "nonce_mark chain tx s = (Inr (), s')" "ns_backed s" "distinct (ns_seen s)"
    and "nonce_has s c t \<or> (c = chain \<and> t = tx)"
  shows "\<exists>r. nonce_open True (ns_file s') = Inr r \<and> nonce_has r c t"
proof -
  have "distinct (set_add (event_key chain tx) (ns_seen s))"
    using assms(3) by (simp add: set_add_def)
  with nonce_disk.put_reopen [OF assms(1) [unfolded nonce_mark_put] assms(2)]
  obtain r where "nonce_open True (ns_file s') = Inr r"
    and "ns_seen r = set_add (event_key chain tx) (ns_seen s)" by auto
  with assms(4) show ?thesis by (auto simp: nonce_has_def)
qed

definition empty_nonces :: "bool list \<Rightarrow> nonce_store" where
  "empty_nonces ws = \<lparr>ns_seen = [], ns_backed = True, ns_file = \<lparr>contents = Missing, write_results = ws\<rparr>\<rparr>"

lemma nonce_mark_survives_restart_witness:
  "\<exists>r. nonce_open True (ns_file (snd (nonce_mark 1 ''ab'' (empty_nonces [])))) = Inr r \<and> nonce_has r 1 ''ab''"
proof (rule nonce_mark_survives_restart)
  show "nonce_mark 1 ''ab'' (empty_nonces []) = (Inr (), snd (nonce_mark 1 ''ab'' (empty_nonces [])))"
    by (simp add: nonce_mark_def nonce_persist_def writeJsonFileAtomic_def empty_nonces_def next_write_def)
qed (simp_all add: empty_nonces_def)

section \<open>The dead-letter queue\<close>

definition dl_key :: "dead_letter \<Rightarrow> int \<times> string" where
  "dl_key d = (ev_chainId (dl_event d), ev_txHash (dl_event d))"

definition dlq_unique :: "dlq \<Rightarrow> bool" where
  "dlq_unique q = distinct (map dl_key (dq_entries q))"

lemma same_event_key: "same_event chain tx d \<longleftrightarrow> dl_key d = (chain, tx)"
  by (auto simp: same_event_def dl_key_def)

lemma dlq_persist_entries [frame_simps]: "dlq_persist q = (r, q') \<Longrightarrow> dq_entries q' = dq_entries q \<and> dq_backed q' = dq_backed q"
  by (auto simp: dlq_persist_def split: if_splits prod.splits)

lemma dlq_remove_entries:
  "dlq_remove chain tx q = (r, q') \<Longrightarrow>
     dq_entries q' = filter (\<lambda>d. \<not> same_event chain tx d) (dq_entries q) \<and> dq_backed q' = dq_backed q"
  by (auto simp: dlq_remove_def dest: dlq_persist_entries)

lemma dlq_push_entries:
  "dlq_push d q = (r, q') \<Longrightarrow> dq_entries q' = dq_entries q @ [d] \<and> dq_backed q' = dq_backed q"
  by (auto simp: dlq_push_def dest: dlq_persist_entries)

abbreviation others :: "bridge_event \<Rightarrow> dead_letter list \<Rightarrow> dead_letter list" where
  "others e \<equiv> filter (\<lambda>d. \<not> same_event (ev_chainId e) (ev_txHash e) d)"

text \<open>What \<open>enqueue\<close> leaves in memory: with the removal's write failing, the other entries only;
  otherwise those and the new entry, whether or not the second write succeeds.\<close>

lemma dlq_enqueue_cases:
  assumes "dlq_enqueue now e av rq reason term q = (r, q')"
  shows "(\<exists>err. r = Inl err \<and> dq_entries q' = others e (dq_entries q))
     \<or> dq_entries q' = others e (dq_entries q)
         @ [new_entry now e av rq reason term (previous_attempts (ev_chainId e) (ev_txHash e) q + 1)]"
proof (cases "dlq_remove (ev_chainId e) (ev_txHash e) q")
  case (Pair r1 q1)
  note rem = dlq_remove_entries [OF Pair]
  show ?thesis
  proof (cases r1)
    case (Inl err)
    with Pair assms rem show ?thesis by (auto simp: dlq_enqueue_def)
  next
    case (Inr u)
    with Pair assms have "dlq_push (new_entry now e av rq reason term
        (previous_attempts (ev_chainId e) (ev_txHash e) q + 1)) q1 = (r, q')"
      by (simp add: dlq_enqueue_def)
    from dlq_push_entries [OF this] rem show ?thesis by simp
  qed
qed

lemma dlq_enqueue_Inr:
  assumes "dlq_enqueue now e av rq reason term q = (Inr (), q')"
  shows "dq_entries q' = others e (dq_entries q)
         @ [new_entry now e av rq reason term (previous_attempts (ev_chainId e) (ev_txHash e) q + 1)]"
  using dlq_enqueue_cases [OF assms] by simp

lemma distinct_map_filter_key: "distinct (map f xs) \<Longrightarrow> distinct (map f (filter P xs))"
  by (induction xs) auto

lemma dlq_remove_unique: "dlq_unique q \<Longrightarrow> dlq_unique (snd (dlq_remove chain tx q))"
proof (cases "dlq_remove chain tx q")
  case (Pair r q')
  assume "dlq_unique q"
  with Pair dlq_remove_entries [OF Pair] show ?thesis
    by (simp add: dlq_unique_def distinct_map_filter_key)
qed

lemma dlq_enqueue_unique:
  assumes "dlq_unique q"
  shows "dlq_unique (snd (dlq_enqueue now e av rq reason term q))"
proof -
  obtain r q' where q': "dlq_enqueue now e av rq reason term q = (r, q')" by force
  have d: "distinct (map dl_key (others e (dq_entries q)))"
    using assms by (simp add: dlq_unique_def distinct_map_filter_key)
  have "dl_key (new_entry now e av rq reason term n) \<notin> dl_key ` set (others e (dq_entries q))" for n
    by (auto simp: same_event_key new_entry_def dl_key_def)
  with d dlq_enqueue_cases [OF q'] q' show ?thesis by (auto simp: dlq_unique_def)
qed

section \<open>What is on disk\<close>

definition readable :: "'a store_file \<Rightarrow> bool" where
  "readable f = (\<exists>v. readJsonFile (contents f) = Inr v)"

lemma readable_Holds [simp]: "contents f = Holds v \<Longrightarrow> readable f"
  by (simp add: readable_def)

lemma nonce_mark_disk:
  "nonce_mark chain tx s = (Inr (), s') \<Longrightarrow> ns_backed s \<Longrightarrow>
     contents (ns_file s') = Holds (set_add (event_key chain tx) (ns_seen s))"
  by (simp add: nonce_mark_put nonce_disk.put_writes)

lemma nonce_mark_readable:
  "nonce_mark chain tx s = (r, s') \<Longrightarrow> ns_backed s \<Longrightarrow> readable (ns_file s) \<Longrightarrow> readable (ns_file s')"
  using nonce_disk.put_atomic [of "set_add (event_key chain tx) (ns_seen s)" s r s'] by (auto simp: nonce_mark_put readable_def)

lemma nonce_mark_backed: "nonce_mark chain tx s = (r, s') \<Longrightarrow> ns_backed s' = ns_backed s"
  by (auto simp: nonce_mark_def dest: nonce_persist_seen)

lemma dlq_put_readable:
  "dlq_put ds q = (r, q') \<Longrightarrow> dq_backed q \<Longrightarrow> readable (dq_file q) \<Longrightarrow> readable (dq_file q')"
  using dlq_disk.put_atomic [of ds q r q'] by (auto simp: readable_def)

lemma dlq_remove_readable:
  assumes "dlq_remove chain tx q = (r, q')" "dq_backed q" "readable (dq_file q)"
  shows "readable (dq_file q') \<and> dq_backed q'"
  using dlq_put_readable [OF assms(1) [unfolded dlq_remove_put]] dlq_remove_entries [OF assms(1)] assms(2,3)
  by simp

lemma dlq_enqueue_Inr_split:
  assumes "dlq_enqueue now e av rq reason term q = (Inr (), q')"
  obtains q1 where "dlq_remove (ev_chainId e) (ev_txHash e) q = (Inr (), q1)"
    and "dlq_push (new_entry now e av rq reason term (previous_attempts (ev_chainId e) (ev_txHash e) q + 1)) q1
         = (Inr (), q')"
proof -
  obtain r1 q1 where rem: "dlq_remove (ev_chainId e) (ev_txHash e) q = (r1, q1)" by force
  with assms that show ?thesis by (cases r1) (auto simp: dlq_enqueue_def)
qed

lemma dlq_enqueue_disk:
  assumes "dlq_enqueue now e av rq reason term q = (Inr (), q')" "dq_backed q"
  shows "contents (dq_file q') = Holds (dq_entries q')"
proof -
  from dlq_enqueue_Inr_split [OF assms(1)] obtain q1
    where q1: "dlq_remove (ev_chainId e) (ev_txHash e) q = (Inr (), q1)"
      and push: "dlq_push (new_entry now e av rq reason term
        (previous_attempts (ev_chainId e) (ev_txHash e) q + 1)) q1 = (Inr (), q')" .
  from dlq_remove_entries [OF q1] assms(2) have "dq_backed q1" by simp
  with push dlq_push_entries [OF push] show ?thesis
    by (simp add: dlq_push_put dlq_disk.put_writes)
qed

lemma dlq_enqueue_readable:
  assumes "dlq_enqueue now e av rq reason term q = (r, q')" "dq_backed q" "readable (dq_file q)"
  shows "readable (dq_file q')"
proof -
  obtain r1 q1 where q1: "dlq_remove (ev_chainId e) (ev_txHash e) q = (r1, q1)" by force
  then have 1: "readable (dq_file q1)" and 2: "dq_backed q1"
    using assms dlq_put_readable dlq_remove_entries [OF q1] by (auto simp: dlq_remove_put)
  show ?thesis
  proof (cases r1)
    case (Inl err)
    with q1 assms(1) 1 show ?thesis by (auto simp: dlq_enqueue_def)
  next
    case (Inr u)
    with q1 assms(1) have "dlq_push (new_entry now e av rq reason term
        (previous_attempts (ev_chainId e) (ev_txHash e) q + 1)) q1 = (r, q')"
      by (simp add: dlq_enqueue_def)
    with 1 2 dlq_put_readable show ?thesis by (simp add: dlq_push_put)
  qed
qed

lemma dlq_enqueue_backed: "dlq_enqueue now e av rq reason term q = (r, q') \<Longrightarrow> dq_backed q' = dq_backed q"
proof -
  assume enq: "dlq_enqueue now e av rq reason term q = (r, q')"
  obtain r1 q1 where q1: "dlq_remove (ev_chainId e) (ev_txHash e) q = (r1, q1)" by force
  from dlq_remove_entries [OF q1] q1 enq show ?thesis
    by (cases r1) (auto simp: dlq_enqueue_def dest!: dlq_push_entries)
qed

lemma open_readable_nonces: "readable f \<Longrightarrow> \<exists>r. nonce_open True f = Inr r"
  by (auto simp: nonce_open_def readable_def)

lemma open_readable_dlq: "readable f \<Longrightarrow> \<exists>r. dlq_open True f = Inr r"
  by (auto simp: dlq_open_def readable_def)

lemma open_held_nonces:
  "contents f = Holds ks \<Longrightarrow> k \<in> set ks \<Longrightarrow> nonce_open True f = Inr r \<Longrightarrow> k \<in> set (ns_seen r)"
  by (auto simp: nonce_open_def)

lemma open_held_dlq: "contents f = Holds ds \<Longrightarrow> dlq_open True f = Inr r \<Longrightarrow> dq_entries r = ds"
  by (auto simp: dlq_open_def)

section \<open>Properties\<close>

text \<open>A second entry for one source event never appears: \<open>enqueue\<close> and \<open>remove\<close> keep the entries'
  \<open>(chainId, txHash)\<close> pairs pairwise distinct, also when their writes fail.\<close>

theorem dlq_operations_keep_unique:
  assumes "dlq_unique q"
  shows "dlq_unique (snd (dlq_enqueue now e av rq reason term q)) \<and> dlq_unique (snd (dlq_remove chain tx q))"
  using assms by (simp add: dlq_enqueue_unique dlq_remove_unique)

definition empty_dlq :: "bool list \<Rightarrow> dlq" where
  "empty_dlq ws = \<lparr>dq_entries = [], dq_backed = True, dq_file = \<lparr>contents = Missing, write_results = ws\<rparr>\<rparr>"

lemma dlq_operations_keep_unique_witness:
  "dlq_unique (snd (dlq_enqueue 0 sample_event 1 2 ''r'' False (empty_dlq [True, False])))
   \<and> dlq_unique (snd (dlq_remove 1 ''ab'' (empty_dlq [True, False])))"
  using dlq_operations_keep_unique [of "empty_dlq [True, False]"]
  by (simp add: empty_dlq_def dlq_unique_def)

text \<open>A new entry is scheduled between one minute and one hour ahead, later (or equally late) for
  each further failed attempt, and at the hour from the seventh attempt on.\<close>

theorem retry_delay_bounds:
  assumes "1 \<le> n" "n \<le> m"
  shows "60000 \<le> retry_delay n \<and> retry_delay n \<le> retry_delay m \<and> retry_delay m \<le> 3600000
    \<and> (7 \<le> m \<longrightarrow> retry_delay m = 3600000)"
proof -
  have mono: "(2 :: int) ^ a \<le> 2 ^ b" if "a \<le> b" for a b :: nat
    using that by (simp add: power_increasing)
  define a b :: int where "a = 2 ^ (n - 1)" and "b = 2 ^ (m - 1)"
  have "1 \<le> a" "a \<le> b" "7 \<le> m \<Longrightarrow> 64 \<le> b"
    using mono [of 0 "n - 1"] mono [of "n - 1" "m - 1"] mono [of 6 "m - 1"] assms
    by (simp_all add: a_def b_def)
  moreover have "retry_delay n = min (60000 * a) 3600000" "retry_delay m = min (60000 * b) 3600000"
    by (simp_all add: retry_delay_def a_def b_def)
  ultimately show ?thesis by auto
qed

lemma retry_delay_bounds_witness: "60000 \<le> retry_delay 3 \<and> retry_delay 8 = 3600000"
  using retry_delay_bounds [of 3 8] by simp

text \<open>Re-queueing an event that is already queued writes the file twice, the first time without the
  event: when the second write fails, the queue on disk no longer holds the event that was there
  before, although the queue in memory does.\<close>

theorem dlq_requeue_can_lose_entry:
  assumes "dq_backed q" "write_results (dq_file q) = [True, False]"
    and "dlq_enqueue now e av rq reason term q = (r, q')"
  shows "r = Inl ''write failed'' \<and> contents (dq_file q') = Holds (others e (dq_entries q))
    \<and> e \<in> dl_event ` set (dq_entries q')"
  using assms
  by (auto simp: dlq_enqueue_def dlq_remove_def dlq_push_def dlq_persist_def and_then_def
      writeJsonFileAtomic_def next_write_def Let_def new_entry_def)

lemma dlq_requeue_can_lose_entry_witness:
  "fst (dlq_enqueue 0 sample_event 1 2 ''r'' False (empty_dlq [True, False])) = Inl ''write failed''"
  using dlq_requeue_can_lose_entry [of "empty_dlq [True, False]"]
  by (metis (no_types, lifting) dlq.select_convs empty_dlq_def prod.collapse store_file.select_convs(2))

end
