(* ===== verification/Relayer_Service.thy ===== *)
theory Relayer_Service
  imports Signers Stores
begin

text \<open>
  The relayer service (\<open>RelayerService\<close> of \<open>relayer/index.ts\<close>).  First the handlers as
  state transformers: \<open>handleEvent\<close> with the two halves of \<open>processEvent\<close> (before and after the
  awaited submission), the dead-letter sweep and the health snapshot.  \<open>Relayer_Concurrency\<close> has the same code as a
  step relation in which deliveries interleave at the \<open>await\<close>s.
  The SDK's \<open>fundCrosschain\<close> enters as the outcome of one submission: it rejects, or resolves to
  a \<open>TransactionResult\<close>.
\<close>

section \<open>State\<close>

record relayer_config =
  rc_nodes :: "node_config list"
  rc_threshold :: nat

record relayer =
  rl_nonces :: nonce_store
  rl_dlq :: dlq
  rl_inflight :: "string list"
  rl_last_event :: "(int \<times> int) list"
  rl_sweeping :: bool

definition on_nonces :: "(nonce_store, string, 'a) op \<Rightarrow> (relayer, string, 'a) op" where
  "on_nonces m st = (case m (rl_nonces st) of (r, s) \<Rightarrow> (r, st\<lparr>rl_nonces := s\<rparr>))"

definition on_dlq :: "(dlq, string, 'a) op \<Rightarrow> (relayer, string, 'a) op" where
  "on_dlq m st = (case m (rl_dlq st) of (r, q) \<Rightarrow> (r, st\<lparr>rl_dlq := q\<rparr>))"

definition openRelayer ::
  "string list store_file \<Rightarrow> dead_letter list store_file \<Rightarrow> string + relayer" where
  "openRelayer nonceFile dlqFile =
     bind_sum (nonce_open True nonceFile) (\<lambda>ns. bind_sum (dlq_open True dlqFile) (\<lambda>q.
       Inr \<lparr>rl_nonces = ns, rl_dlq = q, rl_inflight = [], rl_last_event = [], rl_sweeping = False\<rparr>))"

section \<open>processEvent\<close>

definition contains :: "string \<Rightarrow> string \<Rightarrow> bool" where
  "contains pat s = sublist pat s"

definition fail_event ::
  "int \<Rightarrow> relayer_config \<Rightarrow> bridge_event \<Rightarrow> nat \<Rightarrow> string \<Rightarrow> bool \<Rightarrow> (relayer, string, unit) op" where
  "fail_event now cfg e available reason terminal =
     on_dlq (dlq_enqueue now e available (rc_threshold cfg) reason terminal)"

definition caught_event ::
  "int \<Rightarrow> relayer_config \<Rightarrow> bridge_event \<Rightarrow> nat \<Rightarrow> string \<Rightarrow> (relayer, string, unit) op" where
  "caught_event now cfg e available err =
     fail_event now cfg e available (''event processing failed: '' @ err) False"

text \<open>Up to the first awaited result: the payload hash and the signatures of all nodes.\<close>

definition gather_signatures ::
  "platform \<Rightarrow> network \<Rightarrow> relayer_config \<Rightarrow> bridge_event \<Rightarrow> string + relayer_sig list" where
  "gather_signatures K net cfg e =
     bind_sum (computePayloadHash K e) (\<lambda>h. Inr (collect_signatures K net (rc_nodes cfg) h))"

definition crosschain_request_of :: "relayer_config \<Rightarrow> bridge_event \<Rightarrow> relayer_sig list \<Rightarrow> crosschain_request" where
  "crosschain_request_of cfg e sigs =
     \<lparr>cr_chainId = ev_chainId e, cr_txHash = ev_txHash e, cr_target = ev_target e,
      cr_asset = ev_asset e, cr_amount = ev_amount e, cr_sigs = take (rc_threshold cfg) sigs\<rparr>"

text \<open>The request the event leads to, if enough distinct keys signed.\<close>

definition request_for :: "relayer_config \<Rightarrow> bridge_event \<Rightarrow> relayer_sig list \<Rightarrow> crosschain_request option" where
  "request_for cfg e sigs =
     (if length sigs < rc_threshold cfg then None else Some (crosschain_request_of cfg e sigs))"

definition last_event_set :: "int \<Rightarrow> int \<Rightarrow> (int \<times> int) list \<Rightarrow> (int \<times> int) list" where
  "last_event_set c t ts =
     (if c \<in> fst ` set ts then map (\<lambda>(c', t'). (c', if c' = c then t else t')) ts else ts @ [(c, t)])"

definition mark_and_clear :: "bridge_event \<Rightarrow> (relayer \<Rightarrow> relayer) \<Rightarrow> (relayer, string, unit) op" where
  "mark_and_clear e note =
     and_then (on_nonces (nonce_mark (ev_chainId e) (ev_txHash e)))
       (\<lambda>_ st. on_dlq (dlq_remove (ev_chainId e) (ev_txHash e)) (note st))"

text \<open>From the resolved submission to the end of the \<open>try\<close> block.\<close>

definition settle_result ::
  "int \<Rightarrow> relayer_config \<Rightarrow> bridge_event \<Rightarrow> nat \<Rightarrow> tx_result \<Rightarrow> (relayer, string, unit) op" where
  "settle_result now cfg e available result =
     (if tr_status result = Failed
      then let message = (case tr_error result of None \<Rightarrow> ''unknown contract error'' | Some m \<Rightarrow> m) in
        if contains ''ReplayedNonce'' message then mark_and_clear e (\<lambda>st. st)
        else fail_event now cfg e available (''submission failed: '' @ message)
               (contains ''InvalidAmount'' message \<or> contains ''AssetNotWhitelisted'' message
                \<or> contains ''AddressBlocked'' message)
      else mark_and_clear e
             (\<lambda>st. st\<lparr>rl_last_event := last_event_set (ev_chainId e) now (rl_last_event st)\<rparr>))"

definition settle_submission ::
  "int \<Rightarrow> relayer_config \<Rightarrow> bridge_event \<Rightarrow> nat \<Rightarrow> string + tx_result \<Rightarrow> (relayer, string, unit) op" where
  "settle_submission now cfg e available outcome =
     (case outcome of
        Inl err \<Rightarrow> caught_event now cfg e available err
      | Inr result \<Rightarrow>
          catching (settle_result now cfg e available result) (caught_event now cfg e available))"

definition reject_unsigned ::
  "int \<Rightarrow> relayer_config \<Rightarrow> bridge_event \<Rightarrow> nat \<Rightarrow> (relayer, string, unit) op" where
  "reject_unsigned now cfg e available =
     catching (fail_event now cfg e available ''insufficient signers after dedup'' False)
       (caught_event now cfg e available)"

definition processEvent ::
  "platform \<Rightarrow> network \<Rightarrow> relayer_config \<Rightarrow> (crosschain_request \<Rightarrow> string + tx_result) \<Rightarrow> int
    \<Rightarrow> bridge_event \<Rightarrow> (relayer, string, unit) op" where
  "processEvent K net cfg fundCrosschain now e =
     (case gather_signatures K net cfg e of
        Inl err \<Rightarrow> caught_event now cfg e 0 err
      | Inr sigs \<Rightarrow>
          (case request_for cfg e sigs of
             None \<Rightarrow> reject_unsigned now cfg e (length sigs)
           | Some req \<Rightarrow> settle_submission now cfg e (length sigs) (fundCrosschain req)))"

section \<open>handleEvent, the dead-letter sweep, health\<close>

definition inflight_add :: "string \<Rightarrow> relayer \<Rightarrow> relayer" where
  "inflight_add k st = st\<lparr>rl_inflight := set_add k (rl_inflight st)\<rparr>"

definition inflight_delete :: "string \<Rightarrow> relayer \<Rightarrow> relayer" where
  "inflight_delete k st = st\<lparr>rl_inflight := filter (\<lambda>k'. k' \<noteq> k) (rl_inflight st)\<rparr>"

text \<open>A delivery is ignored, joins the processing already in flight, or starts one.\<close>

datatype admission = Duplicate | Invalid string | Joined | Fresh

definition admit :: "platform \<Rightarrow> bridge_event \<Rightarrow> relayer \<Rightarrow> admission" where
  "admit K e st =
     (if nonce_has (rl_nonces st) (ev_chainId e) (ev_txHash e) then Duplicate
      else case validateBridgeEvent K e of
        Inl err \<Rightarrow> Invalid err
      | Inr _ \<Rightarrow> if key_of e \<in> set (rl_inflight st) then Joined else Fresh)"

definition handleEvent ::
  "platform \<Rightarrow> network \<Rightarrow> relayer_config \<Rightarrow> (crosschain_request \<Rightarrow> string + tx_result) \<Rightarrow> int
    \<Rightarrow> bridge_event \<Rightarrow> (relayer, string, unit) op" where
  "handleEvent K net cfg fundCrosschain now e st =
     (if admit K e st \<noteq> Fresh then (Inr (), st)
      else case processEvent K net cfg fundCrosschain now e (inflight_add (key_of e) st) of
        (r, st') \<Rightarrow> (r, inflight_delete (key_of e) st'))"

definition start_callback ::
  "platform \<Rightarrow> network \<Rightarrow> relayer_config \<Rightarrow> (crosschain_request \<Rightarrow> string + tx_result) \<Rightarrow> int
    \<Rightarrow> bridge_event \<Rightarrow> (relayer, string, unit) op" where
  "start_callback K net cfg fundCrosschain now e =
     catching (handleEvent K net cfg fundCrosschain now e) (\<lambda>_. give ())"

definition retry_due :: "int \<Rightarrow> dead_letter \<Rightarrow> bool" where
  "retry_due now d =
     (\<not> dl_terminal d
      \<and> (case dl_attempts d of None \<Rightarrow> 0 | Some n \<Rightarrow> n) < 5
      \<and> (case dl_nextRetryAt d of None \<Rightarrow> dl_enqueuedAt d | Some t \<Rightarrow> t) \<le> now)"

fun for_each_op :: "('a \<Rightarrow> ('s, 'e, unit) op) \<Rightarrow> 'a list \<Rightarrow> ('s, 'e, unit) op" where
  "for_each_op f [] s = (Inr (), s)"
| "for_each_op f (x # xs) s = and_then (f x) (\<lambda>_. for_each_op f xs) s"

definition retryDeadLetters ::
  "platform \<Rightarrow> network \<Rightarrow> relayer_config \<Rightarrow> (crosschain_request \<Rightarrow> string + tx_result) \<Rightarrow> int
    \<Rightarrow> (relayer, string, unit) op" where
  "retryDeadLetters K net cfg fundCrosschain now st =
     (if rl_sweeping st then (Inr (), st)
      else let pending = filter (retry_due now) (dq_entries (rl_dlq st)) in
        case for_each_op (\<lambda>d. handleEvent K net cfg fundCrosschain now (dl_event d)) pending
               (st\<lparr>rl_sweeping := True\<rparr>) of
          (r, st') \<Rightarrow> (r, st'\<lparr>rl_sweeping := False\<rparr>))"

record health_status =
  hs_uptime_seconds :: int
  hs_threshold :: nat
  hs_node_count :: nat
  hs_last_event_per_chain :: "(string \<times> int) list"
  hs_dead_letter_queue_size :: nat

definition healthStatus :: "relayer_config \<Rightarrow> int \<Rightarrow> int \<Rightarrow> relayer \<Rightarrow> health_status" where
  "healthStatus cfg startedAt now st =
     \<lparr>hs_uptime_seconds = (now - startedAt) div 1000, hs_threshold = rc_threshold cfg,
      hs_node_count = length (rc_nodes cfg),
      hs_last_event_per_chain = map (\<lambda>(c, t). (dec_of_int c, t)) (rl_last_event st),
      hs_dead_letter_queue_size = dlq_size (rl_dlq st)\<rparr>"

section \<open>What the handlers leave alone\<close>

definition seen_keys :: "relayer \<Rightarrow> string set" where
  "seen_keys st = set (ns_seen (rl_nonces st))"

definition queued :: "relayer \<Rightarrow> bridge_event \<Rightarrow> bool" where
  "queued st e = (\<exists>d \<in> set (dq_entries (rl_dlq st)). dl_event d = e)"

lemma nonce_has_seen_keys: "nonce_has (rl_nonces st) (ev_chainId e) (ev_txHash e) \<longleftrightarrow> key_of e \<in> seen_keys st"
  by (simp add: nonce_has_def seen_keys_def)

lemma on_dlq_frame [frame_simps]:
  "on_dlq m st = (r, st') \<Longrightarrow>
     rl_nonces st' = rl_nonces st \<and> rl_inflight st' = rl_inflight st \<and> rl_sweeping st' = rl_sweeping st
     \<and> rl_last_event st' = rl_last_event st"
  by (auto simp: on_dlq_def split: prod.splits)

lemma on_nonces_frame [frame_simps]:
  "on_nonces m st = (r, st') \<Longrightarrow>
     rl_dlq st' = rl_dlq st \<and> rl_inflight st' = rl_inflight st \<and> rl_sweeping st' = rl_sweeping st
     \<and> rl_last_event st' = rl_last_event st"
  by (auto simp: on_nonces_def split: prod.splits)

lemma on_nonces_mark_seen:
  "on_nonces (nonce_mark (ev_chainId e) (ev_txHash e)) st = (r, st') \<Longrightarrow>
     seen_keys st' = insert (key_of e) (seen_keys st)"
  by (auto simp: on_nonces_def seen_keys_def dest: nonce_mark_seen split: prod.splits)

lemma fail_event_frame:
  "fail_event now cfg e n reason term st = (r, st') \<Longrightarrow>
     seen_keys st' = seen_keys st \<and> rl_inflight st' = rl_inflight st \<and> rl_sweeping st' = rl_sweeping st"
  by (auto simp: fail_event_def seen_keys_def dest: on_dlq_frame)

lemma caught_event_frame:
  "caught_event now cfg e n err st = (r, st') \<Longrightarrow>
     seen_keys st' = seen_keys st \<and> rl_inflight st' = rl_inflight st \<and> rl_sweeping st' = rl_sweeping st"
  by (simp add: caught_event_def fail_event_frame)

text \<open>\<open>mark\<close> and \<open>remove\<close>: the key is in memory whether or not a write throws.  The updates
  in between touch neither store.\<close>

definition harmless :: "(relayer \<Rightarrow> relayer) \<Rightarrow> bool" where
  "harmless note = (\<forall>st. rl_nonces (note st) = rl_nonces st \<and> rl_dlq (note st) = rl_dlq st
     \<and> rl_inflight (note st) = rl_inflight st \<and> rl_sweeping (note st) = rl_sweeping st)"

lemma harmless_notes [simp]: "harmless (\<lambda>st. st)" "harmless (\<lambda>st. st\<lparr>rl_last_event := f st\<rparr>)"
  by (simp_all add: harmless_def)

lemma mark_and_clear_frame:
  assumes "mark_and_clear e note st = (r, st')" and "harmless note"
  shows "seen_keys st' = insert (key_of e) (seen_keys st) \<and> rl_inflight st' = rl_inflight st
    \<and> rl_sweeping st' = rl_sweeping st"
proof (cases "on_nonces (nonce_mark (ev_chainId e) (ev_txHash e)) st")
  case (Pair r1 st1)
  note frame1 = on_nonces_frame [OF Pair] on_nonces_mark_seen [OF Pair]
  show ?thesis
  proof (cases r1)
    case (Inl err)
    with Pair assms frame1 show ?thesis by (auto simp: mark_and_clear_def)
  next
    case (Inr u)
    with Pair assms(1) have "on_dlq (dlq_remove (ev_chainId e) (ev_txHash e)) (note st1) = (r, st')"
      by (simp add: mark_and_clear_def)
    from on_dlq_frame [OF this] frame1 assms(2) show ?thesis
      by (simp add: harmless_def seen_keys_def)
  qed
qed

text \<open>A submission succeeded when the SDK's result is not \<open>failed\<close>.\<close>

fun submitted :: "string + tx_result \<Rightarrow> bool" where
  "submitted (Inl _) = False"
| "submitted (Inr result) = (tr_status result \<noteq> Failed)"

lemma settle_result_frame:
  assumes "settle_result now cfg e n result st = (r, st')"
  shows "(seen_keys st' = seen_keys st \<and> \<not> submitted (Inr result) \<or> seen_keys st' = insert (key_of e) (seen_keys st))
    \<and> rl_inflight st' = rl_inflight st \<and> rl_sweeping st' = rl_sweeping st"
  using assms
  by (auto simp: settle_result_def Let_def split: if_splits
      dest!: mark_and_clear_frame fail_event_frame)

lemma settle_submission_frame:
  assumes "settle_submission now cfg e n outcome st = (r, st')"
  shows "(seen_keys st' = seen_keys st \<and> \<not> submitted outcome \<or> seen_keys st' = insert (key_of e) (seen_keys st))
    \<and> rl_inflight st' = rl_inflight st \<and> rl_sweeping st' = rl_sweeping st"
proof (cases outcome)
  case (Inl err)
  with assms show ?thesis by (auto simp: settle_submission_def dest!: caught_event_frame)
next
  case (Inr result)
  obtain r1 st1 where r1: "settle_result now cfg e n result st = (r1, st1)" by force
  note frame1 = settle_result_frame [OF r1]
  show ?thesis
  proof (cases r1)
    case (Inl err)
    with Inr r1 assms have "caught_event now cfg e n err st1 = (r, st')"
      by (simp add: settle_submission_def)
    from caught_event_frame [OF this] frame1 Inr show ?thesis by auto
  next
    case (Inr u)
    with \<open>outcome = Inr result\<close> r1 assms frame1 show ?thesis by (auto simp: settle_submission_def)
  qed
qed

lemma reject_unsigned_frame:
  assumes "reject_unsigned now cfg e n st = (r, st')"
  shows "seen_keys st' = seen_keys st \<and> rl_inflight st' = rl_inflight st \<and> rl_sweeping st' = rl_sweeping st"
proof -
  obtain r1 st1 where r1: "fail_event now cfg e n ''insufficient signers after dedup'' False st = (r1, st1)"
    by force
  with assms fail_event_frame [OF r1] show ?thesis
    by (cases r1) (auto simp: reject_unsigned_def dest!: caught_event_frame)
qed

section \<open>What the handlers record\<close>

definition durable_wf :: "relayer \<Rightarrow> bool" where
  "durable_wf st \<longleftrightarrow> ns_backed (rl_nonces st) \<and> dq_backed (rl_dlq st)
     \<and> readable (ns_file (rl_nonces st)) \<and> readable (dq_file (rl_dlq st))"

text \<open>The event is on disk: its key among the submitted ones, or an entry for it in the queue.\<close>

definition on_disk :: "relayer \<Rightarrow> bridge_event \<Rightarrow> bool" where
  "on_disk st e \<longleftrightarrow>
     (\<exists>ks. contents (ns_file (rl_nonces st)) = Holds ks \<and> key_of e \<in> set ks)
     \<or> (\<exists>ds. contents (dq_file (rl_dlq st)) = Holds ds \<and> e \<in> dl_event ` set ds)"

lemma fail_event_durable:
  "fail_event now cfg e n reason term st = (r, st') \<Longrightarrow> durable_wf st \<Longrightarrow> durable_wf st'"
  by (auto simp: fail_event_def on_dlq_def durable_wf_def
      dest: dlq_enqueue_readable dlq_enqueue_backed split: prod.splits)

lemma fail_event_recorded:
  assumes "fail_event now cfg e n reason term st = (Inr (), st')" "durable_wf st"
  shows "on_disk st' e"
proof -
  from assms(1) obtain q' where q': "dlq_enqueue now e n (rc_threshold cfg) reason term (rl_dlq st) = (Inr (), q')"
    and st': "st' = st\<lparr>rl_dlq := q'\<rparr>"
    by (auto simp: fail_event_def on_dlq_def split: prod.splits)
  have "e \<in> dl_event ` set (dq_entries q')"
    by (auto simp: dlq_enqueue_Inr [OF q'] new_entry_def)
  with dlq_enqueue_disk [OF q'] assms(2) st' show ?thesis
    by (auto simp: durable_wf_def on_disk_def)
qed

lemma caught_event_durable:
  "caught_event now cfg e n err st = (r, st') \<Longrightarrow> durable_wf st \<Longrightarrow> durable_wf st'"
  by (simp add: caught_event_def fail_event_durable)

lemma caught_event_recorded:
  "caught_event now cfg e n err st = (Inr (), st') \<Longrightarrow> durable_wf st \<Longrightarrow> on_disk st' e"
  by (simp add: caught_event_def fail_event_recorded)

lemma on_nonces_mark_durable:
  "on_nonces (nonce_mark (ev_chainId e) (ev_txHash e)) st = (r, st') \<Longrightarrow> durable_wf st \<Longrightarrow> durable_wf st'"
  by (auto simp: on_nonces_def durable_wf_def dest: nonce_mark_readable nonce_mark_backed split: prod.splits)

lemma on_nonces_mark_recorded:
  assumes "on_nonces (nonce_mark (ev_chainId e) (ev_txHash e)) st = (Inr (), st')" "durable_wf st"
  shows "\<exists>ks. contents (ns_file (rl_nonces st')) = Holds ks \<and> key_of e \<in> set ks"
proof -
  from assms(1) obtain s' where mark: "nonce_mark (ev_chainId e) (ev_txHash e) (rl_nonces st) = (Inr (), s')"
    and st': "st' = st\<lparr>rl_nonces := s'\<rparr>"
    by (auto simp: on_nonces_def split: prod.splits)
  have "contents (ns_file s') = Holds (set_add (key_of e) (ns_seen (rl_nonces st)))"
    using nonce_mark_disk [OF mark] assms(2) by (simp add: durable_wf_def)
  with st' show ?thesis by simp
qed

lemma on_dlq_remove_durable:
  "on_dlq (dlq_remove chain tx) st = (r, st') \<Longrightarrow> durable_wf st \<Longrightarrow> durable_wf st'"
  by (auto simp: on_dlq_def durable_wf_def dest: dlq_remove_readable split: prod.splits)

lemma mark_and_clear_durable:
  assumes "mark_and_clear e note st = (r, st')" "harmless note" "durable_wf st"
  shows "durable_wf st' \<and> (r = Inr () \<longrightarrow> on_disk st' e)"
proof (cases "on_nonces (nonce_mark (ev_chainId e) (ev_txHash e)) st")
  case (Pair r1 st1)
  note wf1 = on_nonces_mark_durable [OF Pair assms(3)]
  show ?thesis
  proof (cases r1)
    case (Inl err)
    with Pair assms wf1 show ?thesis by (auto simp: mark_and_clear_def)
  next
    case (Inr u)
    with Pair assms(1) have rem: "on_dlq (dlq_remove (ev_chainId e) (ev_txHash e)) (note st1) = (r, st')"
      by (simp add: mark_and_clear_def)
    from wf1 assms(2) have "durable_wf (note st1)" by (simp add: durable_wf_def harmless_def)
    moreover from on_dlq_frame [OF rem] assms(2) have "rl_nonces st' = rl_nonces st1"
      by (simp add: harmless_def)
    ultimately show ?thesis
      using on_dlq_remove_durable [OF rem] on_nonces_mark_recorded [of e st st1] Pair Inr assms(3)
      by (auto simp: on_disk_def)
  qed
qed

lemma settle_result_durable:
  assumes "settle_result now cfg e n result st = (r, st')" "durable_wf st"
  shows "durable_wf st' \<and> (r = Inr () \<longrightarrow> on_disk st' e)"
  using assms
  by (auto simp: settle_result_def Let_def split: if_splits
      dest: mark_and_clear_durable fail_event_durable fail_event_recorded)

lemma settle_submission_durable:
  assumes "settle_submission now cfg e n outcome st = (r, st')" "durable_wf st"
  shows "durable_wf st' \<and> (r = Inr () \<longrightarrow> on_disk st' e)"
proof (cases outcome)
  case (Inl err)
  with assms show ?thesis
    by (auto simp: settle_submission_def dest: caught_event_durable caught_event_recorded)
next
  case (Inr result)
  obtain r1 st1 where r1: "settle_result now cfg e n result st = (r1, st1)" by force
  note wf1 = settle_result_durable [OF r1 assms(2)]
  show ?thesis
  proof (cases r1)
    case (Inl err)
    with Inr r1 assms(1) have "caught_event now cfg e n err st1 = (r, st')"
      by (simp add: settle_submission_def)
    with wf1 show ?thesis by (auto dest: caught_event_durable caught_event_recorded)
  next
    case (Inr u)
    with \<open>outcome = Inr result\<close> r1 assms(1) wf1 show ?thesis by (auto simp: settle_submission_def)
  qed
qed

lemma reject_unsigned_durable:
  assumes "reject_unsigned now cfg e n st = (r, st')" "durable_wf st"
  shows "durable_wf st' \<and> (r = Inr () \<longrightarrow> on_disk st' e)"
proof -
  obtain r1 st1 where r1: "fail_event now cfg e n ''insufficient signers after dedup'' False st = (r1, st1)"
    by force
  with assms fail_event_durable [OF r1] fail_event_recorded [of now cfg e n _ False st st1] show ?thesis
    by (cases r1) (auto simp: reject_unsigned_def dest: caught_event_durable caught_event_recorded)
qed

lemma processEvent_durable:
  assumes "processEvent K net cfg submit now e st = (r, st')" "durable_wf st"
  shows "durable_wf st' \<and> (r = Inr () \<longrightarrow> on_disk st' e)"
  using assms
  by (auto simp: processEvent_def split: sum.splits option.splits
      dest: settle_submission_durable reject_unsigned_durable caught_event_durable caught_event_recorded)

lemma on_disk_reopens:
  assumes "durable_wf st" "on_disk st e"
  shows "\<exists>r. openRelayer (ns_file (rl_nonces st)) (dq_file (rl_dlq st)) = Inr r
    \<and> (key_of e \<in> seen_keys r \<or> queued r e)"
proof -
  from assms(1) obtain n q where n: "nonce_open True (ns_file (rl_nonces st)) = Inr n"
    and q: "dlq_open True (dq_file (rl_dlq st)) = Inr q"
    unfolding durable_wf_def by (blast dest: open_readable_nonces open_readable_dlq)
  then show ?thesis
    using assms(2) open_held_nonces [OF _ _ n] open_held_dlq [OF _ q]
    by (auto simp: openRelayer_def on_disk_def seen_keys_def queued_def)
qed

section \<open>What the handlers do to other entries\<close>

text \<open>Handling an event keeps the queue's entries for other events.\<close>

definition keeps_others :: "bridge_event \<Rightarrow> relayer \<Rightarrow> relayer \<Rightarrow> bool" where
  "keeps_others e st st' \<longleftrightarrow>
     (\<forall>d \<in> set (dq_entries (rl_dlq st)). key_of (dl_event d) \<noteq> key_of e \<longrightarrow> d \<in> set (dq_entries (rl_dlq st')))"

lemma same_event_key_of: "same_event (ev_chainId e) (ev_txHash e) d \<longleftrightarrow> key_of (dl_event d) = key_of e"
  by (auto simp: same_event_def)

lemma keeps_others_refl [simp]: "keeps_others e st st"
  by (simp add: keeps_others_def)

lemma keeps_others_trans: "keeps_others e st st1 \<Longrightarrow> keeps_others e st1 st2 \<Longrightarrow> keeps_others e st st2"
  by (auto simp: keeps_others_def)

lemma keeps_others_dlq:
  "keeps_others e st st' \<Longrightarrow> rl_dlq sa = rl_dlq st \<Longrightarrow> rl_dlq sb = rl_dlq st' \<Longrightarrow> keeps_others e sa sb"
  by (simp add: keeps_others_def)

lemma fail_event_keeps: "fail_event now cfg e n reason term st = (r, st') \<Longrightarrow> keeps_others e st st'"
  by (auto simp: fail_event_def on_dlq_def keeps_others_def same_event_key_of
      dest!: dlq_enqueue_cases split: prod.splits)

lemma caught_event_keeps: "caught_event now cfg e n err st = (r, st') \<Longrightarrow> keeps_others e st st'"
  by (simp add: caught_event_def fail_event_keeps)

lemma on_dlq_remove_keeps:
  assumes "on_dlq (dlq_remove (ev_chainId e) (ev_txHash e)) st = (r, st')"
  shows "keeps_others e st st'"
proof -
  from assms obtain q where q: "dlq_remove (ev_chainId e) (ev_txHash e) (rl_dlq st) = (r, q)"
    and "st' = st\<lparr>rl_dlq := q\<rparr>"
    by (auto simp: on_dlq_def split: prod.splits)
  with dlq_remove_entries [OF q] show ?thesis by (simp add: keeps_others_def same_event_key_of)
qed

lemma mark_and_clear_keeps:
  assumes "mark_and_clear e note st = (r, st')" "harmless note"
  shows "keeps_others e st st'"
proof (cases "on_nonces (nonce_mark (ev_chainId e) (ev_txHash e)) st")
  case (Pair r1 st1)
  note frame1 = on_nonces_frame [OF Pair]
  show ?thesis
  proof (cases r1)
    case (Inl err)
    with Pair assms frame1 show ?thesis by (auto simp: mark_and_clear_def keeps_others_def)
  next
    case (Inr u)
    with Pair assms(1) have "on_dlq (dlq_remove (ev_chainId e) (ev_txHash e)) (note st1) = (r, st')"
      by (simp add: mark_and_clear_def)
    from keeps_others_dlq [OF on_dlq_remove_keeps [OF this]] frame1 assms(2) show ?thesis
      by (simp add: harmless_def)
  qed
qed

lemma settle_result_keeps:
  "settle_result now cfg e n result st = (r, st') \<Longrightarrow> keeps_others e st st'"
  by (auto simp: settle_result_def Let_def split: if_splits
      dest: mark_and_clear_keeps fail_event_keeps)

lemma settle_submission_keeps:
  assumes "settle_submission now cfg e n outcome st = (r, st')"
  shows "keeps_others e st st'"
proof (cases outcome)
  case (Inl err)
  with assms show ?thesis by (auto simp: settle_submission_def dest: caught_event_keeps)
next
  case (Inr result)
  obtain r1 st1 where r1: "settle_result now cfg e n result st = (r1, st1)" by force
  with Inr assms settle_result_keeps [OF r1] show ?thesis
    by (cases r1) (auto simp: settle_submission_def dest: caught_event_keeps keeps_others_trans)
qed

lemma reject_unsigned_keeps: "reject_unsigned now cfg e n st = (r, st') \<Longrightarrow> keeps_others e st st'"
proof -
  assume rej: "reject_unsigned now cfg e n st = (r, st')"
  obtain r1 st1 where r1: "fail_event now cfg e n ''insufficient signers after dedup'' False st = (r1, st1)"
    by force
  with rej fail_event_keeps [OF r1] show ?thesis
    by (cases r1) (auto simp: reject_unsigned_def dest: caught_event_keeps keeps_others_trans)
qed

lemma processEvent_keeps: "processEvent K net cfg submit now e st = (r, st') \<Longrightarrow> keeps_others e st st'"
  by (auto simp: processEvent_def split: sum.splits option.splits
      dest: settle_submission_keeps reject_unsigned_keeps caught_event_keeps)

lemma processEvent_frame:
  "processEvent K net cfg submit now e st = (r, st') \<Longrightarrow>
     seen_keys st \<subseteq> seen_keys st' \<and> rl_inflight st' = rl_inflight st \<and> rl_sweeping st' = rl_sweeping st"
  by (auto simp: processEvent_def split: sum.splits option.splits
      dest: settle_submission_frame reject_unsigned_frame caught_event_frame)

lemma handleEvent_cases:
  assumes "handleEvent K net cfg submit now e st = (r, st')"
  obtains "admit K e st \<noteq> Fresh" "r = Inr ()" "st' = st"
  | st1 where "admit K e st = Fresh"
    "processEvent K net cfg submit now e (inflight_add (key_of e) st) = (r, st1)"
    "st' = inflight_delete (key_of e) st1"
  using assms by (auto simp: handleEvent_def split: if_splits prod.splits)

lemma inflight_fields [simp]:
  "rl_dlq (inflight_add k st) = rl_dlq st" "rl_dlq (inflight_delete k st) = rl_dlq st"
  "rl_nonces (inflight_add k st) = rl_nonces st" "rl_nonces (inflight_delete k st) = rl_nonces st"
  "rl_inflight (inflight_add k st) = set_add k (rl_inflight st)"
  "rl_inflight (inflight_delete k st) = filter (\<lambda>k'. k' \<noteq> k) (rl_inflight st)"
  "seen_keys (inflight_add k st) = seen_keys st" "seen_keys (inflight_delete k st) = seen_keys st"
  "durable_wf (inflight_add k st) = durable_wf st" "durable_wf (inflight_delete k st) = durable_wf st"
  "on_disk (inflight_delete k st) e = on_disk st e"
  by (simp_all add: inflight_add_def inflight_delete_def seen_keys_def durable_wf_def on_disk_def)

lemma admit_Duplicate: "key_of e \<in> seen_keys st \<Longrightarrow> admit K e st = Duplicate"
  by (simp add: admit_def nonce_has_seen_keys)

text \<open>An entry whose event is not delivered, or is already recorded as submitted, stays.\<close>

lemma handleEvent_entry_stays:
  assumes "handleEvent K net cfg submit now e st = (r, st')"
    and "d \<in> set (dq_entries (rl_dlq st))"
    and "key_of (dl_event d) \<noteq> key_of e \<or> key_of (dl_event d) \<in> seen_keys st"
  shows "d \<in> set (dq_entries (rl_dlq st')) \<and> seen_keys st \<subseteq> seen_keys st'"
  using assms(1)
proof (cases rule: handleEvent_cases)
  case 1
  with assms(2) show ?thesis by simp
next
  case (2 st1)
  then have "key_of (dl_event d) \<noteq> key_of e"
    using assms(3) admit_Duplicate [of e st K] by auto
  with 2 assms(2) processEvent_keeps [OF 2(2)] processEvent_frame [OF 2(2)] show ?thesis
    by (auto simp: keeps_others_def)
qed

lemma deliveries_entry_stays:
  assumes "for_each_op (\<lambda>d. handleEvent K net cfg submit now (dl_event d)) ps st = (r, st')"
    and "d \<in> set (dq_entries (rl_dlq st))"
    and "\<forall>p \<in> set ps. key_of (dl_event d) \<noteq> key_of (dl_event p) \<or> key_of (dl_event d) \<in> seen_keys st"
  shows "d \<in> set (dq_entries (rl_dlq st'))"
  using assms
proof (induction ps arbitrary: st)
  case Nil
  then show ?case by simp
next
  case (Cons p ps)
  obtain r1 st1 where h: "handleEvent K net cfg submit now (dl_event p) st = (r1, st1)" by force
  with Cons.prems have stays: "d \<in> set (dq_entries (rl_dlq st1)) \<and> seen_keys st \<subseteq> seen_keys st1"
    using handleEvent_entry_stays by (metis list.set_intros(1))
  show ?case
  proof (cases r1)
    case (Inl err)
    with h Cons.prems stays show ?thesis by simp
  next
    case (Inr u)
    with h Cons.prems(1) have "for_each_op (\<lambda>d. handleEvent K net cfg submit now (dl_event d)) ps st1 = (r, st')"
      by simp
    with Cons.IH [OF this] stays Cons.prems(3) show ?thesis by auto
  qed
qed

lemma sweep_entry_stays:
  assumes "retryDeadLetters K net cfg submit now st = (r, st')"
    and "d \<in> set (dq_entries (rl_dlq st))"
    and "\<forall>p \<in> set (dq_entries (rl_dlq st)). retry_due now p \<longrightarrow>
           key_of (dl_event d) \<noteq> key_of (dl_event p) \<or> key_of (dl_event d) \<in> seen_keys st"
  shows "d \<in> set (dq_entries (rl_dlq st'))"
proof (cases "rl_sweeping st")
  case True
  with assms show ?thesis by (simp add: retryDeadLetters_def)
next
  case False
  with assms(1) obtain st1 where
    "for_each_op (\<lambda>d. handleEvent K net cfg submit now (dl_event d))
       (filter (retry_due now) (dq_entries (rl_dlq st))) (st\<lparr>rl_sweeping := True\<rparr>) = (r, st1)"
    and "rl_dlq st' = rl_dlq st1"
    by (auto simp: retryDeadLetters_def Let_def split: prod.splits)
  with deliveries_entry_stays [OF this(1), of d] assms(2,3) show ?thesis
    by (auto simp: seen_keys_def)
qed

section \<open>Properties\<close>

text \<open>What a delivery leaves behind when its handler returns normally.  An event that was taken on (it is valid, its key is
  not recorded as submitted and not in flight) is in the files: a service opened on them now either
  knows it as submitted or holds it in its dead-letter queue, whichever branch the processing took and whichever writes failed.  Every other
  delivery changes nothing.  Either way the files stay such that the next delivery has the same guarantee; \<open>Relayer_Recovery\<close>
  draws the conclusion for whole runs.\<close>

theorem handled_event_survives_restart:
  assumes "handleEvent K net cfg submit now e st = (Inr (), st')" "durable_wf st"
  shows "durable_wf st'
    \<and> (case admit K e st of
         Fresh \<Rightarrow> \<exists>r. openRelayer (ns_file (rl_nonces st')) (dq_file (rl_dlq st')) = Inr r \<and> (key_of e \<in> seen_keys r \<or> queued r e)
       | Invalid err \<Rightarrow> validateBridgeEvent K e = Inl err \<and> st' = st
       | Duplicate \<Rightarrow> key_of e \<in> seen_keys st \<and> st' = st
       | Joined \<Rightarrow> key_of e \<in> set (rl_inflight st) \<and> st' = st)"
  using assms(1)
proof (cases rule: handleEvent_cases)
  case 1
  with assms(2) show ?thesis
    by (auto simp: admit_def nonce_has_seen_keys split: sum.splits if_splits)
next
  case (2 st1)
  with processEvent_durable [OF 2(2)] assms(2) have "durable_wf st' \<and> on_disk st' e" by simp
  with 2(1) show ?thesis by (auto dest: on_disk_reopens)
qed

definition sample_relayer :: "bool list \<Rightarrow> bool list \<Rightarrow> relayer" where
  "sample_relayer ws vs = \<lparr>rl_nonces = empty_nonces ws, rl_dlq = empty_dlq vs, rl_inflight = [],
     rl_last_event = [], rl_sweeping = False\<rparr>"

definition sample_config :: relayer_config where
  "sample_config = \<lparr>rc_nodes = [], rc_threshold = 1\<rparr>"

abbreviation "no_network \<equiv> (\<lambda>_ :: http_request. Inl ''down'' :: string + http_response)"
abbreviation "no_submit \<equiv> (\<lambda>_ :: crosschain_request. Inl ''down'' :: string + tx_result)"

lemma sample_relayer_simps [simp]:
  "durable_wf (sample_relayer ws vs)" "admit sample_platform sample_event (sample_relayer ws vs) = Fresh"
  "dq_entries (rl_dlq (sample_relayer ws vs)) = []" "seen_keys (sample_relayer ws vs) = {}"
  using sample_event_valid
  by (simp_all add: durable_wf_def sample_relayer_def empty_nonces_def empty_dlq_def admit_def
      readable_def nonce_has_def seen_keys_def)

lemma sample_unsigned:
  "processEvent sample_platform no_network sample_config no_submit now sample_event st
   = reject_unsigned now sample_config sample_event 0 st"
proof -
  obtain h where "computePayloadHash sample_platform sample_event = Inr h"
    using payload_preimage_valid [OF sample_event_valid] by (simp add: computePayloadHash_def)
  then show ?thesis
    by (simp add: processEvent_def gather_signatures_def collect_signatures_def sample_config_def
        request_for_def)
qed

definition sample_run :: relayer where
  "sample_run = snd (handleEvent sample_platform no_network sample_config no_submit 0 sample_event
     (sample_relayer [] []))"

lemma handled_event_survives_restart_witness:
  "\<exists>r. openRelayer (ns_file (rl_nonces sample_run)) (dq_file (rl_dlq sample_run)) = Inr r
    \<and> (key_of sample_event \<in> seen_keys r \<or> queued r sample_event)"
proof -
  have "fst (handleEvent sample_platform no_network sample_config no_submit 0 sample_event (sample_relayer [] [])) = Inr ()"
    by (simp add: handleEvent_def sample_unsigned reject_unsigned_def fail_event_def on_dlq_def
        catching_def dlq_enqueue_def dlq_remove_def dlq_push_def dlq_persist_def and_then_def
        writeJsonFileAtomic_def next_write_def Let_def inflight_add_def sample_relayer_def empty_dlq_def
        sample_relayer_simps [unfolded sample_relayer_def empty_dlq_def] split: prod.splits)
  then have "handleEvent sample_platform no_network sample_config no_submit 0 sample_event
      (sample_relayer [] []) = (Inr (), sample_run)"
    by (simp add: sample_run_def prod_eq_iff)
  from handled_event_survives_restart [OF this] show ?thesis by simp
qed

text \<open>The guarantee stops where writing fails twice: if neither attempt to dead-letter an unsigned
  event can write, the callback that \<open>start\<close> gives the listeners still resolves, so the listener
  moves on, and the files hold no trace of the event.\<close>

theorem start_callback_can_lose_event:
  assumes "admit K e st = Fresh" "gather_signatures K net cfg e = Inr sigs" "request_for cfg e sigs = None"
    and "dq_backed (rl_dlq st)" "write_results (dq_file (rl_dlq st)) = [False, False]"
    and "\<not> on_disk st e"
  shows "\<exists>st'. start_callback K net cfg submit now e st = (Inr (), st') \<and> \<not> on_disk st' e"
proof -
  have fails: "\<exists>q'. dlq_enqueue now e n m reason False q = (Inl ''write failed'', q') \<and> dq_backed q'
      \<and> contents (dq_file q') = contents (dq_file q) \<and> write_results (dq_file q') = tl (write_results (dq_file q))"
    if "dq_backed q" "\<not> next_write (dq_file q)" for q n m reason
    using that
    by (simp add: dlq_enqueue_def dlq_remove_def dlq_persist_def and_then_def writeJsonFileAtomic_def Let_def)
  let ?st = "inflight_add (key_of e) st"
  from fails [of "rl_dlq st" "length sigs" "rc_threshold cfg" "''insufficient signers after dedup''"] assms(4,5)
  obtain q1 where q1: "dlq_enqueue now e (length sigs) (rc_threshold cfg) ''insufficient signers after dedup'' False
      (rl_dlq st) = (Inl ''write failed'', q1)"
    and c1: "dq_backed q1" "contents (dq_file q1) = contents (dq_file (rl_dlq st))"
      "write_results (dq_file q1) = [False]"
    by (auto simp: next_write_def)
  from fails [of q1 "length sigs" "rc_threshold cfg" "''event processing failed: '' @ ''write failed''"] c1
  obtain q2 where q2: "dlq_enqueue now e (length sigs) (rc_threshold cfg)
      (''event processing failed: '' @ ''write failed'') False q1 = (Inl ''write failed'', q2)"
    and c2: "contents (dq_file q2) = contents (dq_file (rl_dlq st))"
    by (auto simp: next_write_def)
  have "handleEvent K net cfg submit now e st
      = (Inl ''write failed'', inflight_delete (key_of e) (?st\<lparr>rl_dlq := q2\<rparr>))"
    using q1 q2
    by (simp add: handleEvent_def assms(1-3) processEvent_def reject_unsigned_def caught_event_def
        fail_event_def on_dlq_def catching_def)
  moreover have "\<not> on_disk (inflight_delete (key_of e) (?st\<lparr>rl_dlq := q2\<rparr>)) e"
    using assms(6) c2 by (simp add: on_disk_def)
  ultimately show ?thesis by (simp add: start_callback_def)
qed

lemma start_callback_can_lose_event_witness:
  "\<exists>st'. start_callback sample_platform no_network sample_config no_submit 0 sample_event
      (sample_relayer [] [False, False]) = (Inr (), st') \<and> \<not> on_disk st' sample_event"
proof (rule start_callback_can_lose_event)
  obtain h where "computePayloadHash sample_platform sample_event = Inr h"
    using payload_preimage_valid [OF sample_event_valid] by (simp add: computePayloadHash_def)
  then show "gather_signatures sample_platform no_network sample_config sample_event = Inr []"
    by (simp add: gather_signatures_def collect_signatures_def sample_config_def)
qed (simp_all add: request_for_def sample_config_def on_disk_def sample_relayer_def empty_nonces_def
    empty_dlq_def sample_relayer_simps [unfolded sample_relayer_def empty_nonces_def empty_dlq_def])


definition exhausted_entry :: dead_letter where
  "exhausted_entry = (new_entry 0 sample_event 0 1 ''r'' False 5)"


text \<open>A submission that succeeds while the nonce file cannot be written leaves a dead letter that no
  sweep ever removes: the event is queued although its key is recorded in memory, so every later
  delivery is ignored as a duplicate and the entry stays.\<close>

theorem submitted_event_stuck_in_queue:
  assumes "settle_submission now cfg e n (Inr result) st = (Inr (), st')" "tr_status result \<noteq> Failed"
    and "ns_backed (rl_nonces st)" "\<not> next_write (ns_file (rl_nonces st))"
  shows "key_of e \<in> seen_keys st' \<and> (\<exists>d \<in> set (dq_entries (rl_dlq st')). dl_event d = e \<and> \<not> dl_terminal d
    \<and> (\<forall>net submit now' r st''. retryDeadLetters K net cfg submit now' st' = (r, st'') \<longrightarrow>
         d \<in> set (dq_entries (rl_dlq st''))))"
proof -
  obtain st1 where "settle_result now cfg e n result st = (Inl ''write failed'', st1)"
    using assms(2-4)
    by (auto simp: settle_result_def mark_and_clear_def on_nonces_def nonce_mark_def nonce_persist_def
        writeJsonFileAtomic_def next_write_def and_then_def)
  with assms(1) have caught: "caught_event now cfg e n ''write failed'' st1 = (Inr (), st')"
    by (simp add: settle_submission_def)
  then obtain q' where q': "dlq_enqueue now e n (rc_threshold cfg) (''event processing failed: '' @ ''write failed'') False
      (rl_dlq st1) = (Inr (), q')" and st': "rl_dlq st' = q'"
    by (auto simp: caught_event_def fail_event_def on_dlq_def split: prod.splits)
  let ?d = "new_entry now e n (rc_threshold cfg) (''event processing failed: '' @ ''write failed'') False
    (previous_attempts (ev_chainId e) (ev_txHash e) (rl_dlq st1) + 1)"
  have "?d \<in> set (dq_entries (rl_dlq st'))"
    unfolding st' dlq_enqueue_Inr [OF q'] by (simp only: set_append) simp
  moreover have "dl_event ?d = e" "\<not> dl_terminal ?d" by (simp_all add: new_entry_def)
  ultimately obtain d where d: "d \<in> set (dq_entries (rl_dlq st'))" "dl_event d = e" "\<not> dl_terminal d"
    by blast
  have seen: "key_of e \<in> seen_keys st'"
    using settle_submission_frame [OF assms(1)] assms(2) by auto
  then have "d \<in> set (dq_entries (rl_dlq st''))"
    if "retryDeadLetters K net cfg submit now' st' = (r, st'')" for net submit now' r st''
    using sweep_entry_stays [OF that d(1)] d(2) by blast
  with d seen show ?thesis by blast
qed

lemma submitted_event_stuck_in_queue_witness:
  "key_of sample_event \<in> seen_keys (snd (settle_submission 0 sample_config sample_event 1
     (Inr \<lparr>tr_hash = ''h'', tr_status = Pending, tr_error = None\<rparr>) (sample_relayer [False] [])))"
proof -
  let ?run = "settle_submission 0 sample_config sample_event 1
     (Inr \<lparr>tr_hash = ''h'', tr_status = Pending, tr_error = None\<rparr>) (sample_relayer [False] [])"
  have "fst ?run = Inr ()"
    by (simp add: settle_submission_def settle_result_def mark_and_clear_def on_nonces_def nonce_mark_def
        nonce_persist_def writeJsonFileAtomic_def next_write_def and_then_def sample_relayer_def
        empty_nonces_def empty_dlq_def catching_def caught_event_def fail_event_def on_dlq_def
        dlq_enqueue_def dlq_remove_def dlq_push_def dlq_persist_def Let_def split: prod.splits)
  then have "?run = (Inr (), snd ?run)" by (simp add: prod_eq_iff)
  from submitted_event_stuck_in_queue [OF this] show ?thesis
    by (simp add: sample_relayer_def empty_nonces_def next_write_def)
qed

end
