(* ===== verification/Relayer_Concurrency.thy ===== *)
theory Relayer_Concurrency
  imports Relayer_Service
begin

text \<open>
  The relayer service while deliveries interleave.  JavaScript runs \<open>handleEvent\<close> and
  \<open>processEvent\<close> without interruption between two \<open>await\<close>s, so one step is one such run: a
  delivery up to the awaited signatures, the signatures up to the awaited submission, the
  submission's outcome up to the end.  Any listener and the retry sweep may deliver any event at
  any time.  Removing the key from \<open>inFlight\<close> happens one microtask after \<open>processEvent\<close> ends and
  is taken with it.
\<close>

section \<open>Steps\<close>

datatype progress = Signing | Submitting nat

record world =
  wd_relayer :: relayer
  wd_tasks :: "(bridge_event \<times> progress) list"
  wd_sent :: "(string \<times> crosschain_request) list"
  wd_funded :: "string list"

definition initial_world :: "relayer \<Rightarrow> world" where
  "initial_world st = \<lparr>wd_relayer = st, wd_tasks = [], wd_sent = [], wd_funded = []\<rparr>"

definition finish_task :: "bridge_event \<Rightarrow> relayer \<Rightarrow> world \<Rightarrow> world" where
  "finish_task e st w =
     w\<lparr>wd_relayer := inflight_delete (key_of e) st,
       wd_tasks := filter (\<lambda>t. key_of (fst t) \<noteq> key_of e) (wd_tasks w)\<rparr>"

definition begin_task :: "bridge_event \<Rightarrow> world \<Rightarrow> world" where
  "begin_task e w =
     w\<lparr>wd_relayer := inflight_add (key_of e) (wd_relayer w), wd_tasks := wd_tasks w @ [(e, Signing)]\<rparr>"

definition send_task :: "bridge_event \<Rightarrow> nat \<Rightarrow> crosschain_request \<Rightarrow> world \<Rightarrow> world" where
  "send_task e n req w =
     w\<lparr>wd_tasks := map (\<lambda>t. if key_of (fst t) = key_of e then (e, Submitting n) else t) (wd_tasks w),
       wd_sent := wd_sent w @ [(key_of e, req)]\<rparr>"

inductive relayer_step :: "platform \<Rightarrow> relayer_config \<Rightarrow> world \<Rightarrow> world \<Rightarrow> bool"
  for K :: platform and cfg :: relayer_config where
  ignored: "admit K e (wd_relayer w) \<noteq> Fresh \<Longrightarrow> relayer_step K cfg w w"
| admitted: "admit K e (wd_relayer w) = Fresh \<Longrightarrow> relayer_step K cfg w (begin_task e w)"
| unhashable: "(e, Signing) \<in> set (wd_tasks w) \<Longrightarrow> gather_signatures K net cfg e = Inl err \<Longrightarrow>
    caught_event now cfg e 0 err (wd_relayer w) = (r, st) \<Longrightarrow>
    relayer_step K cfg w (finish_task e st w)"
| unsigned: "(e, Signing) \<in> set (wd_tasks w) \<Longrightarrow> gather_signatures K net cfg e = Inr sigs \<Longrightarrow>
    request_for cfg e sigs = None \<Longrightarrow>
    reject_unsigned now cfg e (length sigs) (wd_relayer w) = (r, st) \<Longrightarrow>
    relayer_step K cfg w (finish_task e st w)"
| sent: "(e, Signing) \<in> set (wd_tasks w) \<Longrightarrow> gather_signatures K net cfg e = Inr sigs \<Longrightarrow>
    request_for cfg e sigs = Some req \<Longrightarrow>
    relayer_step K cfg w (send_task e (length sigs) req w)"
| settled: "(e, Submitting n) \<in> set (wd_tasks w) \<Longrightarrow>
    settle_submission now cfg e n outcome (wd_relayer w) = (r, st) \<Longrightarrow>
    relayer_step K cfg w
      ((finish_task e st w)\<lparr>wd_funded := wd_funded w @ (if submitted outcome then [key_of e] else [])\<rparr>)"

inductive_cases relayer_stepE: "relayer_step K cfg w w'"

definition reachable_world :: "platform \<Rightarrow> relayer_config \<Rightarrow> world \<Rightarrow> bool" where
  "reachable_world K cfg w =
     (\<exists>st. rl_inflight st = [] \<and> rtranclp (relayer_step K cfg) (initial_world st) w)"

section \<open>The invariant\<close>

text \<open>One task per key in flight, no task for a submitted key, every funded key recorded once, and
  every request that left carries an allowed set of signatures.\<close>

definition task_keys :: "world \<Rightarrow> string list" where
  "task_keys w = map (\<lambda>t. key_of (fst t)) (wd_tasks w)"

definition event_of_request :: "crosschain_request \<Rightarrow> bridge_event" where
  "event_of_request req =
     \<lparr>ev_chainId = cr_chainId req, ev_txHash = cr_txHash req,
      ev_target = cr_target req, ev_asset = cr_asset req, ev_amount = cr_amount req\<rparr>"

lemma event_of_crosschain_request [simp]: "event_of_request (crosschain_request_of cfg e sigs) = e"
  by (cases e) (simp add: event_of_request_def crosschain_request_of_def)

definition well_signed :: "platform \<Rightarrow> relayer_config \<Rightarrow> crosschain_request \<Rightarrow> bool" where
  "well_signed K cfg req \<longleftrightarrow>
     length (cr_sigs req) = rc_threshold cfg
     \<and> distinct (map pubkey_key (cr_sigs req))
     \<and> (\<exists>h. computePayloadHash K (event_of_request req) = Inr h
            \<and> (\<forall>sg \<in> set (cr_sigs req). verifyRelayerSignature K sg h))"

definition world_inv :: "platform \<Rightarrow> relayer_config \<Rightarrow> world \<Rightarrow> bool" where
  "world_inv K cfg w \<longleftrightarrow>
     distinct (task_keys w)
     \<and> set (task_keys w) = set (rl_inflight (wd_relayer w))
     \<and> set (task_keys w) \<inter> seen_keys (wd_relayer w) = {}
     \<and> distinct (wd_funded w) \<and> set (wd_funded w) \<subseteq> seen_keys (wd_relayer w)
     \<and> (\<forall>(k, req) \<in> set (wd_sent w). well_signed K cfg req)"

lemma request_well_signed:
  assumes "gather_signatures K net cfg e = Inr sigs" "request_for cfg e sigs = Some req"
  shows "well_signed K cfg req"
proof -
  from assms(1) obtain h where h: "computePayloadHash K e = Inr h"
    and sigs: "sigs = collect_signatures K net (rc_nodes cfg) h"
    by (auto simp: gather_signatures_def bind_sum_eq_Inr)
  from assms(2) have req: "req = crosschain_request_of cfg e sigs" and len: "rc_threshold cfg \<le> length sigs"
    by (auto simp: request_for_def split: if_splits)
  have "distinct (map pubkey_key (take (rc_threshold cfg) sigs))"
    using collected_distinct [of K net "rc_nodes cfg" h] by (simp add: sigs take_map [symmetric])
  moreover have "\<forall>sg \<in> set (take (rc_threshold cfg) sigs). verifyRelayerSignature K sg h"
    using collected_accepted sigs by (auto dest: in_set_takeD)
  ultimately show ?thesis
    using h len by (simp add: req well_signed_def) (simp add: crosschain_request_of_def)
qed

lemma admit_Fresh:
  "admit K e st = Fresh \<longleftrightarrow>
     key_of e \<notin> seen_keys st \<and> (\<exists>u. validateBridgeEvent K e = Inr u) \<and> key_of e \<notin> set (rl_inflight st)"
  by (auto simp: admit_def nonce_has_seen_keys split: sum.splits)

lemma task_keys_simps:
  "task_keys (begin_task e w) = task_keys w @ [key_of e]"
  "task_keys (finish_task e st w) = filter (\<lambda>k. k \<noteq> key_of e) (task_keys w)"
  "task_keys (send_task e n req w) = task_keys w"
  "task_keys (w\<lparr>wd_funded := f\<rparr>) = task_keys w"
  by (auto simp: task_keys_def begin_task_def finish_task_def send_task_def filter_map comp_def)

text \<open>Ending a task: whatever the handler did, it only added the task's own key to the seen ones.\<close>

lemma finish_task_inv:
  assumes "world_inv K cfg w"
    and "seen_keys st = seen_keys (wd_relayer w) \<or> seen_keys st = insert (key_of e) (seen_keys (wd_relayer w))"
    and "rl_inflight st = rl_inflight (wd_relayer w)"
  shows "world_inv K cfg (finish_task e st w)"
  using assms by (auto simp: world_inv_def task_keys_simps) (auto simp: finish_task_def)

lemma in_task_keys: "(e, p) \<in> set (wd_tasks w) \<Longrightarrow> key_of e \<in> set (task_keys w)"
  by (force simp: task_keys_def)

lemma world_inv_step:
  assumes "relayer_step K cfg w w'" "world_inv K cfg w"
  shows "world_inv K cfg w'"
  using assms(1)
proof (cases rule: relayer_step.cases)
  case (ignored e)
  with assms(2) show ?thesis by simp
next
  case (admitted e)
  with assms(2) show ?thesis
    by (auto simp: world_inv_def task_keys_simps admit_Fresh) (auto simp: begin_task_def)
next
  case (unhashable e net err now r st)
  with assms(2) show ?thesis by (auto intro!: finish_task_inv dest!: caught_event_frame)
next
  case (unsigned e net sigs now r st)
  with assms(2) show ?thesis by (auto intro!: finish_task_inv dest!: reject_unsigned_frame)
next
  case (sent e net sigs req)
  with assms(2) request_well_signed show ?thesis
    by (auto simp: world_inv_def task_keys_simps) (auto simp: send_task_def)
next
  case (settled e n now outcome r st)
  note frame = settle_submission_frame [OF settled(3)]
  from frame have inv: "world_inv K cfg (finish_task e st w)"
    using assms(2) by (auto intro!: finish_task_inv)
  have fresh: "key_of e \<notin> seen_keys (wd_relayer w)"
    using assms(2) in_task_keys [OF settled(2)] by (auto simp: world_inv_def)
  have funded: "wd_funded (finish_task e st w) = wd_funded w"
    by (simp add: finish_task_def)
  show ?thesis
    using inv fresh frame assms(2) settled(1)
    by (auto simp: world_inv_def task_keys_simps funded) (auto simp: finish_task_def)
qed

lemma world_inv_reachable: "reachable_world K cfg w \<Longrightarrow> world_inv K cfg w"
proof -
  assume "reachable_world K cfg w"
  then obtain st where init: "rl_inflight st = []"
    and steps: "rtranclp (relayer_step K cfg) (initial_world st) w"
    by (auto simp: reachable_world_def)
  from steps show ?thesis
  proof (induction rule: rtranclp_induct)
    case base
    from init show ?case by (simp add: world_inv_def initial_world_def task_keys_def)
  next
    case (step y z)
    then show ?case by (blast intro: world_inv_step)
  qed
qed

section \<open>Properties\<close>

text \<open>C1: However deliveries interleave, the relayer has at most one successful submission per source
  event: in every reachable state the funded keys are pairwise distinct and all recorded as seen,
  no seen key has work in flight, and no key has two tasks in flight.\<close>

theorem funded_at_most_once:
  assumes "reachable_world K cfg w"
  shows "distinct (wd_funded w) \<and> set (wd_funded w) \<subseteq> seen_keys (wd_relayer w)
    \<and> distinct (task_keys w) \<and> set (task_keys w) \<inter> seen_keys (wd_relayer w) = {}"
  using world_inv_reachable [OF assms] unfolding world_inv_def by blast

text \<open>C6: Every submission the relayer sends carries exactly the threshold number of signatures, from
  pairwise distinct public keys, each of which verifies over the hash of the very event the
  submission names.\<close>

theorem every_submission_is_well_signed:
  assumes "reachable_world K cfg w" "(k, req) \<in> set (wd_sent w)"
  shows "length (cr_sigs req) = rc_threshold cfg \<and> distinct (map pubkey_key (cr_sigs req))
    \<and> (\<exists>h. computePayloadHash K (event_of_request req) = Inr h
         \<and> (\<forall>sg \<in> set (cr_sigs req). verifyRelayerSignature K sg h))"
  using world_inv_reachable [OF assms(1)] assms(2) by (auto simp: world_inv_def well_signed_def)

text \<open>A run that admits an event, collects one signature and funds it.\<close>

definition one_key_config :: relayer_config where
  "one_key_config = \<lparr>rc_nodes = [PrivateKeyNode (replicate 64 CHR ''1'')], rc_threshold = 1\<rparr>"

definition sample_sigs :: "relayer_sig list" where
  "sample_sigs = (case gather_signatures sample_platform no_network one_key_config sample_event of
     Inl _ \<Rightarrow> [] | Inr sigs \<Rightarrow> sigs)"

lemma sample_sigs:
  "gather_signatures sample_platform no_network one_key_config sample_event = Inr sample_sigs"
  "length sample_sigs = 1"
proof -
  obtain h where h: "computePayloadHash sample_platform sample_event = Inr h"
    using payload_preimage_valid [OF sample_event_valid] by (simp add: computePayloadHash_def)
  have "hex_val CHR ''1'' = Some 1" by code_simp
  then have hex: "bytes_of_hex (replicate 64 CHR ''1'') = replicate 32 (char_of (17 :: nat))"
    using bytes_of_hex_replicate [of _ 1 32] by simp
  obtain sg where sg: "signPayload sample_platform (replicate 64 CHR ''1'') h = Inr sg"
    by (simp add: signPayload_def hex Let_def)
  then show "gather_signatures sample_platform no_network one_key_config sample_event = Inr sample_sigs"
    "length sample_sigs = 1"
    using signPayload_verifies [OF sample_signing_sound sg]
    by (simp_all add: sample_sigs_def gather_signatures_def h one_key_config_def collect_signatures_def
        node_signature_def List.map_filter_simps)
qed

definition sent_world :: world where
  "sent_world = send_task sample_event 1 (crosschain_request_of one_key_config sample_event sample_sigs)
     (begin_task sample_event (initial_world (sample_relayer [] [])))"

lemma sent_world_reachable: "reachable_world sample_platform one_key_config sent_world"
proof -
  let ?w = "initial_world (sample_relayer [] [])"
  have 1: "relayer_step sample_platform one_key_config ?w (begin_task sample_event ?w)"
    by (rule relayer_step.admitted) (simp add: initial_world_def)
  have req: "request_for one_key_config sample_event sample_sigs
      = Some (crosschain_request_of one_key_config sample_event sample_sigs)"
    by (simp add: request_for_def sample_sigs(2)) (simp add: one_key_config_def)
  have "relayer_step sample_platform one_key_config (begin_task sample_event ?w) sent_world"
    unfolding sent_world_def
    by (rule relayer_step.sent [OF _ sample_sigs(1) req, unfolded sample_sigs(2)])
      (simp add: begin_task_def)
  with 1 have "rtranclp (relayer_step sample_platform one_key_config) ?w sent_world"
    by (meson rtranclp.simps)
  moreover have "rl_inflight (sample_relayer [] []) = []" by (simp add: sample_relayer_def)
  ultimately show ?thesis unfolding reachable_world_def by blast
qed

lemma funded_at_most_once_witness: "distinct (task_keys sent_world)"
  using funded_at_most_once [OF sent_world_reachable] by simp

lemma every_submission_is_well_signed_witness:
  "length (cr_sigs (crosschain_request_of one_key_config sample_event sample_sigs)) = 1"
proof -
  have "(key_of sample_event, crosschain_request_of one_key_config sample_event sample_sigs) \<in> set (wd_sent sent_world)"
    by (simp add: sent_world_def send_task_def)
  from every_submission_is_well_signed [OF sent_world_reachable this]
  show ?thesis by (simp add: one_key_config_def)
qed

end
