(* ===== verification/Relayer_Recovery.thy ===== *)
theory Relayer_Recovery
  imports Relayer_Concurrency
begin

text \<open>
  What a restart of the relayer finds (\<open>RelayerService\<close> of \<open>relayer/index.ts\<close>): over the interleaved runs of
  \<open>Relayer_Concurrency\<close>, as long as no handler rejects, every key that is recorded in memory or whose processing has
  ended is in one of the two files, whichever writes failed on the way.
\<close>

section \<open>Keys that are in memory and in a file\<close>

abbreviation letter_key :: "dead_letter \<Rightarrow> string" where
  "letter_key d \<equiv> key_of (dl_event d)"

definition nonce_kept :: "nonce_store \<Rightarrow> string \<Rightarrow> bool" where
  "nonce_kept s k \<longleftrightarrow> k \<in> set (ns_seen s) \<and> (\<exists>ks. contents (ns_file s) = Holds ks \<and> k \<in> set ks)"

definition letter_kept :: "dlq \<Rightarrow> string \<Rightarrow> bool" where
  "letter_kept q k \<longleftrightarrow> k \<in> letter_key ` set (dq_entries q)
     \<and> (\<exists>ds. contents (dq_file q) = Holds ds \<and> k \<in> letter_key ` set ds)"

definition kept :: "relayer \<Rightarrow> string \<Rightarrow> bool" where
  "kept st k \<longleftrightarrow> nonce_kept (rl_nonces st) k \<or> letter_kept (rl_dlq st) k"

lemma nonce_mark_kept:
  assumes "nonce_mark chain tx s = (r, s')" "ns_backed s" "nonce_kept s k"
  shows "nonce_kept s' k"
  using nonce_disk.put_atomic [OF assms(1) [unfolded nonce_mark_put] assms(2)] nonce_mark_seen [OF assms(1)] assms(3)
  by (auto simp: nonce_kept_def)

lemma dlq_put_kept:
  assumes "dlq_put ds q = (r, q')" "dq_backed q" "letter_kept q k" "k \<in> letter_key ` set ds"
  shows "letter_kept q' k \<and> dq_backed q'"
proof -
  from assms(1) have "dq_entries q' = ds \<and> dq_backed q' = dq_backed q" by (auto simp: dlq_put_def dest: dlq_persist_entries)
  with dlq_disk.put_atomic [OF assms(1,2)] assms(2-4) show ?thesis by (auto simp: letter_kept_def)
qed

lemma dlq_remove_kept:
  assumes "dlq_remove (ev_chainId e) (ev_txHash e) q = (r, q')" "dq_backed q" "letter_kept q k" "k \<noteq> key_of e"
  shows "letter_kept q' k \<and> dq_backed q'"
  using assms(3,4)
  by (intro dlq_put_kept [OF assms(1) [unfolded dlq_remove_put] assms(2,3)]) (auto simp: letter_kept_def same_event_key_of)

lemma dlq_enqueue_kept:
  assumes "dlq_enqueue now e av rq reason term q = (r, q')" "dq_backed q" "letter_kept q k" "k \<noteq> key_of e"
  shows "letter_kept q' k"
proof -
  obtain r1 q1 where q1: "dlq_remove (ev_chainId e) (ev_txHash e) q = (r1, q1)" by (rule prod.exhaust)
  note rem = dlq_remove_kept [OF q1 assms(2-4)]
  show ?thesis
  proof (cases r1)
    case (Inl err)
    with q1 assms(1) rem show ?thesis by (simp add: dlq_enqueue_def)
  next
    case (Inr u)
    with q1 assms(1) have "dlq_push (new_entry now e av rq reason term
        (previous_attempts (ev_chainId e) (ev_txHash e) q + 1)) q1 = (r, q')" by (simp add: dlq_enqueue_def)
    from dlq_put_kept [OF this [unfolded dlq_push_put], of k] rem show ?thesis by (auto simp: letter_kept_def)
  qed
qed

lemma dlq_enqueue_keeps_own:
  assumes "dlq_enqueue now e av rq reason term q = (Inr (), q')" "dq_backed q"
  shows "letter_kept q' (key_of e)"
  using dlq_enqueue_disk [OF assms] dlq_enqueue_Inr [OF assms(1)]
  by (auto simp: letter_kept_def new_entry_def)

section \<open>What the ends of a handler keep\<close>

text \<open>Handling \<open>e\<close> keeps what is kept of other events, and its own key if it returns normally.\<close>

definition keeps_kept :: "bridge_event \<Rightarrow> string + unit \<Rightarrow> relayer \<Rightarrow> relayer \<Rightarrow> bool" where
  "keeps_kept e r st st' \<longleftrightarrow> (\<forall>k. kept st k \<longrightarrow> k \<noteq> key_of e \<longrightarrow> kept st' k) \<and> (r = Inr () \<longrightarrow> kept st' (key_of e))"

lemma keeps_kept_trans: "keeps_kept e r1 st st1 \<Longrightarrow> keeps_kept e r2 st1 st2 \<Longrightarrow> keeps_kept e r2 st st2"
  by (auto simp: keeps_kept_def)

lemma fail_event_kept:
  assumes "fail_event now cfg e n reason term st = (r, st')" "durable_wf st"
  shows "keeps_kept e r st st'"
proof -
  from assms(1) obtain q' where q': "dlq_enqueue now e n (rc_threshold cfg) reason term (rl_dlq st) = (r, q')"
    "st' = st\<lparr>rl_dlq := q'\<rparr>"
    by (auto simp: fail_event_def on_dlq_def split: prod.splits)
  with assms(2) show ?thesis
    by (auto simp: keeps_kept_def kept_def durable_wf_def dest: dlq_enqueue_kept dlq_enqueue_keeps_own)
qed

lemma caught_event_kept:
  "caught_event now cfg e n err st = (r, st') \<Longrightarrow> durable_wf st \<Longrightarrow> keeps_kept e r st st'"
  by (simp add: caught_event_def fail_event_kept)

lemma on_nonces_mark_kept:
  assumes "on_nonces (nonce_mark (ev_chainId e) (ev_txHash e)) st = (r, st')" "durable_wf st"
  shows "(\<forall>k. kept st k \<longrightarrow> kept st' k) \<and> (r = Inr () \<longrightarrow> nonce_kept (rl_nonces st') (key_of e))"
proof -
  from assms(1) obtain s' where s': "nonce_mark (ev_chainId e) (ev_txHash e) (rl_nonces st) = (r, s')"
    "st' = st\<lparr>rl_nonces := s'\<rparr>"
    by (auto simp: on_nonces_def split: prod.splits)
  have "nonce_kept s' (key_of e)" if "r = Inr ()"
    using nonce_mark_disk [of _ _ "rl_nonces st" s'] nonce_mark_seen [OF s'(1)] s'(1) assms(2) that
    by (simp add: nonce_kept_def durable_wf_def)
  with s' assms(2) show ?thesis by (auto simp: kept_def durable_wf_def dest: nonce_mark_kept)
qed

lemma mark_and_clear_kept:
  assumes "mark_and_clear e note st = (r, st')" "harmless note" "durable_wf st"
  shows "keeps_kept e r st st'"
proof -
  obtain r1 st1 where st1: "on_nonces (nonce_mark (ev_chainId e) (ev_txHash e)) st = (r1, st1)" by (rule prod.exhaust)
  note marked = on_nonces_mark_kept [OF st1 assms(3)] and wf = on_nonces_mark_durable [OF st1 assms(3)]
  show ?thesis
  proof (cases r1)
    case (Inl err)
    with st1 assms(1) have "r = Inl err" "st' = st1" by (auto simp: mark_and_clear_def)
    with marked show ?thesis by (auto simp: keeps_kept_def)
  next
    case (Inr u)
    with st1 assms(1) have "on_dlq (dlq_remove (ev_chainId e) (ev_txHash e)) (note st1) = (r, st')"
      by (simp add: mark_and_clear_def)
    then obtain q where q: "dlq_remove (ev_chainId e) (ev_txHash e) (rl_dlq (note st1)) = (r, q)"
      "st' = (note st1)\<lparr>rl_dlq := q\<rparr>"
      by (auto simp: on_dlq_def split: prod.splits)
    have same: "rl_nonces st' = rl_nonces st1" "rl_dlq (note st1) = rl_dlq st1"
      using q(2) assms(2) by (simp_all add: harmless_def)
    have "kept st' k" if "kept st1 k" "k \<noteq> key_of e" for k
      using that dlq_remove_kept [OF q(1), of k] wf q(2) same by (auto simp: kept_def durable_wf_def)
    moreover have "kept st' (key_of e)" using marked Inr same(1) by (simp add: kept_def)
    ultimately show ?thesis using marked by (auto simp: keeps_kept_def)
  qed
qed

lemma settle_result_kept:
  "settle_result now cfg e n result st = (r, st') \<Longrightarrow> durable_wf st \<Longrightarrow> keeps_kept e r st st'"
  by (auto simp: settle_result_def Let_def split: if_splits dest: mark_and_clear_kept fail_event_kept)

lemma settle_submission_kept:
  assumes "settle_submission now cfg e n outcome st = (r, st')" "durable_wf st"
  shows "keeps_kept e r st st'"
proof (cases outcome)
  case (Inl err)
  with assms show ?thesis by (auto simp: settle_submission_def dest: caught_event_kept)
next
  case (Inr result)
  obtain r1 st1 where st1: "settle_result now cfg e n result st = (r1, st1)" by (rule prod.exhaust)
  note first = settle_result_kept [OF st1 assms(2)] and wf = settle_result_durable [OF st1 assms(2)]
  show ?thesis
  proof (cases r1)
    case (Inl err)
    with Inr st1 assms(1) have "caught_event now cfg e n err st1 = (r, st')" by (simp add: settle_submission_def)
    from caught_event_kept [OF this] wf first show ?thesis by (blast intro: keeps_kept_trans)
  next
    case (Inr u)
    with \<open>outcome = Inr result\<close> st1 assms(1) first show ?thesis by (auto simp: settle_submission_def)
  qed
qed

lemma reject_unsigned_kept:
  assumes "reject_unsigned now cfg e n st = (r, st')" "durable_wf st"
  shows "keeps_kept e r st st'"
proof -
  obtain r1 st1 where st1: "fail_event now cfg e n ''insufficient signers after dedup'' False st = (r1, st1)"
    by (rule prod.exhaust)
  note first = fail_event_kept [OF st1 assms(2)] and wf = fail_event_durable [OF st1 assms(2)]
  show ?thesis
  proof (cases r1)
    case (Inl err)
    with st1 assms(1) have "caught_event now cfg e n err st1 = (r, st')" by (simp add: reject_unsigned_def)
    from caught_event_kept [OF this wf] first show ?thesis by (blast intro: keeps_kept_trans)
  next
    case (Inr u)
    with st1 assms(1) first show ?thesis by (auto simp: reject_unsigned_def)
  qed
qed

section \<open>Runs in which no handler rejects\<close>

text \<open>The end of a task: what the handler does from its last \<open>await\<close> on, and how it returns.\<close>

inductive task_end ::
  "platform \<Rightarrow> relayer_config \<Rightarrow> bridge_event \<Rightarrow> progress \<Rightarrow> relayer \<Rightarrow> string + unit \<Rightarrow> relayer \<Rightarrow> bool"
  for K :: platform and cfg :: relayer_config where
  unhashable: "gather_signatures K net cfg e = Inl err \<Longrightarrow> caught_event now cfg e 0 err st = (r, st') \<Longrightarrow>
    task_end K cfg e Signing st r st'"
| unsigned: "gather_signatures K net cfg e = Inr sigs \<Longrightarrow> request_for cfg e sigs = None \<Longrightarrow>
    reject_unsigned now cfg e (length sigs) st = (r, st') \<Longrightarrow> task_end K cfg e Signing st r st'"
| settled: "settle_submission now cfg e n outcome st = (r, st') \<Longrightarrow> task_end K cfg e (Submitting n) st r st'"

text \<open>The steps of \<open>relayer_step\<close> whose handlers, where they end, return normally.\<close>

definition orderly_step :: "platform \<Rightarrow> relayer_config \<Rightarrow> world \<Rightarrow> world \<Rightarrow> bool" where
  "orderly_step K cfg w w' \<longleftrightarrow> relayer_step K cfg w w'
     \<and> (wd_relayer w' = wd_relayer w \<and> task_keys w' = task_keys w
        \<or> (\<exists>e. w' = begin_task e w)
        \<or> (\<exists>e p st. (e, p) \<in> set (wd_tasks w) \<and> task_end K cfg e p (wd_relayer w) (Inr ()) st
             \<and> wd_relayer w' = inflight_delete (key_of e) st \<and> task_keys w' = filter (\<lambda>k. k \<noteq> key_of e) (task_keys w)))"

text \<open>Every step ends a task, normally or not, or does one of the others: only a rejection is left out.\<close>

definition rejecting_end :: "platform \<Rightarrow> relayer_config \<Rightarrow> world \<Rightarrow> bool" where
  "rejecting_end K cfg w \<longleftrightarrow> (\<exists>e p err st. (e, p) \<in> set (wd_tasks w) \<and> task_end K cfg e p (wd_relayer w) (Inl err) st)"

lemma ended_step:
  assumes "relayer_step K cfg w w'" "(e, p) \<in> set (wd_tasks w)" "task_end K cfg e p (wd_relayer w) r st"
    and "wd_relayer w' = inflight_delete (key_of e) st" "task_keys w' = filter (\<lambda>k. k \<noteq> key_of e) (task_keys w)"
  shows "orderly_step K cfg w w' \<or> rejecting_end K cfg w"
proof (cases r)
  case (Inl err)
  with assms(2,3) show ?thesis unfolding rejecting_end_def by blast
next
  case (Inr u)
  with assms have "(e, p) \<in> set (wd_tasks w) \<and> task_end K cfg e p (wd_relayer w) (Inr ()) st
    \<and> wd_relayer w' = inflight_delete (key_of e) st \<and> task_keys w' = filter (\<lambda>k. k \<noteq> key_of e) (task_keys w)" by simp
  with assms(1) show ?thesis unfolding orderly_step_def by blast
qed

lemma relayer_step_orderly:
  assumes "relayer_step K cfg w w'"
  shows "orderly_step K cfg w w' \<or> rejecting_end K cfg w"
  using assms
proof (cases rule: relayer_step.cases)
  case ignored
  with assms show ?thesis by (simp add: orderly_step_def)
next
  case (admitted e)
  with assms show ?thesis unfolding orderly_step_def by blast
next
  case (unhashable e net err now r st)
  show ?thesis
    by (rule ended_step [OF assms unhashable(2) task_end.unhashable [OF unhashable(3,4)]])
      (simp_all add: unhashable(1) task_keys_simps, simp add: finish_task_def)
next
  case (unsigned e net sigs now r st)
  show ?thesis
    by (rule ended_step [OF assms unsigned(2) task_end.unsigned [OF unsigned(3-5)]])
      (simp_all add: unsigned(1) task_keys_simps, simp add: finish_task_def)
next
  case (sent e net sigs req)
  then have "wd_relayer w' = wd_relayer w" "task_keys w' = task_keys w"
    by (simp_all add: task_keys_simps) (simp add: send_task_def)
  with assms show ?thesis by (simp add: orderly_step_def)
next
  case (settled e n now outcome r st)
  show ?thesis
    by (rule ended_step [OF assms settled(2) task_end.settled [OF settled(3)]])
      (simp_all add: settled(1) task_keys_simps, simp add: finish_task_def)
qed

lemma task_end_facts:
  assumes "task_end K cfg e p st r st'" "durable_wf st"
  shows "durable_wf st'" "keeps_kept e r st st'" "seen_keys st' \<subseteq> insert (key_of e) (seen_keys st)"
  using assms
  by (cases rule: task_end.cases; auto dest: caught_event_durable reject_unsigned_durable settle_submission_durable
      caught_event_kept reject_unsigned_kept settle_submission_kept
      caught_event_frame reject_unsigned_frame settle_submission_frame)+

lemma kept_inflight [simp]: "kept (inflight_add k st) = kept st" "kept (inflight_delete k st) = kept st"
  by (simp_all add: fun_eq_iff kept_def)

definition recovery_inv :: "world \<Rightarrow> bool" where
  "recovery_inv w \<longleftrightarrow> durable_wf (wd_relayer w) \<and> (\<forall>k \<in> seen_keys (wd_relayer w). kept (wd_relayer w) k)"

lemma orderly_step_inv:
  assumes "orderly_step K cfg w w'" "recovery_inv w"
  shows "recovery_inv w' \<and> (\<forall>k. kept (wd_relayer w) k \<or> k \<in> set (task_keys w) \<longrightarrow> kept (wd_relayer w') k \<or> k \<in> set (task_keys w'))"
proof -
  from assms(1) consider (same) "wd_relayer w' = wd_relayer w" "task_keys w' = task_keys w"
    | (begun) e where "w' = begin_task e w"
    | (ended) e p st where "task_end K cfg e p (wd_relayer w) (Inr ()) st" "wd_relayer w' = inflight_delete (key_of e) st"
        "task_keys w' = filter (\<lambda>k. k \<noteq> key_of e) (task_keys w)"
    unfolding orderly_step_def by blast
  then show ?thesis
  proof cases
    case same
    with assms(2) show ?thesis by (simp add: recovery_inv_def)
  next
    case (begun e)
    then have "wd_relayer w' = inflight_add (key_of e) (wd_relayer w)" by (simp add: begin_task_def)
    with begun assms(2) show ?thesis by (simp add: recovery_inv_def task_keys_simps)
  next
    case (ended e p st)
    from assms(2) have wf: "durable_wf (wd_relayer w)" by (simp add: recovery_inv_def)
    note facts = task_end_facts [OF ended(1) wf]
    have other: "kept st k" if "kept (wd_relayer w) k \<or> k = key_of e" for k
      using facts(2) that by (cases "k = key_of e") (auto simp: keeps_kept_def)
    have "kept st k" if "k \<in> seen_keys st" for k
      using other facts(3) that assms(2) by (auto simp: recovery_inv_def)
    with facts(1) ended(2) have "recovery_inv w'" by (simp add: recovery_inv_def)
    with other ended(2,3) show ?thesis by auto
  qed
qed

lemma orderly_run_inv:
  assumes "rtranclp (orderly_step K cfg) w w'" "recovery_inv w"
  shows "recovery_inv w' \<and> (\<forall>k. kept (wd_relayer w) k \<or> k \<in> set (task_keys w) \<longrightarrow> kept (wd_relayer w') k \<or> k \<in> set (task_keys w'))"
  using assms by (induction rule: rtranclp_induct) (auto dest: orderly_step_inv)

lemma opened_recovery_inv:
  assumes "openRelayer nonceFile dlqFile = Inr st"
  shows "recovery_inv (initial_world st)"
proof -
  from assms obtain n q where n: "nonce_open True nonceFile = Inr n" and q: "dlq_open True dlqFile = Inr q"
    and st: "rl_nonces st = n" "rl_dlq st = q"
    by (auto simp: openRelayer_def bind_sum_eq_Inr)
  from n obtain loaded where loaded: "readJsonFile (contents nonceFile) = Inr loaded"
    "n = \<lparr>ns_seen = (case loaded of LValue ks \<Rightarrow> fold set_add ks [] | _ \<Rightarrow> []), ns_backed = True, ns_file = nonceFile\<rparr>"
    by (auto simp: nonce_open_def bind_sum_eq_Inr)
  have "nonce_kept n k" if "k \<in> set (ns_seen n)" for k
    using loaded that by (cases "contents nonceFile") (auto simp: nonce_kept_def)
  moreover have "dq_backed q \<and> readable (dq_file q)"
    using q by (auto simp: readable_def dlq_open_def bind_sum_eq_Inr)
  with loaded st have "durable_wf st" by (simp add: durable_wf_def readable_def)
  ultimately show ?thesis using st by (simp add: recovery_inv_def initial_world_def seen_keys_def kept_def)
qed

lemma kept_reopens:
  assumes "durable_wf st" "kept st k"
  shows "\<exists>r. openRelayer (ns_file (rl_nonces st)) (dq_file (rl_dlq st)) = Inr r
    \<and> (k \<in> seen_keys r \<or> k \<in> letter_key ` set (dq_entries (rl_dlq r)))"
proof -
  from assms(1) obtain n q where n: "nonce_open True (ns_file (rl_nonces st)) = Inr n"
    and q: "dlq_open True (dq_file (rl_dlq st)) = Inr q"
    unfolding durable_wf_def by (blast dest: open_readable_nonces open_readable_dlq)
  with assms(2) open_held_nonces [OF _ _ n] open_held_dlq [OF _ q] show ?thesis
    by (auto simp: openRelayer_def kept_def nonce_kept_def letter_kept_def seen_keys_def)
qed

section \<open>Properties\<close>

text \<open>The world after a delivery: a fresh event becomes a task, every other delivery ends at once.\<close>

definition deliver :: "platform \<Rightarrow> bridge_event \<Rightarrow> world \<Rightarrow> world" where
  "deliver K e w = (if admit K e (wd_relayer w) = Fresh then begin_task e w else w)"


text \<open>An event that too few nodes sign, delivered to a new installation whose first write of the queue fails.\<close>

definition unsigned_end :: relayer where
  "unsigned_end = snd (reject_unsigned 0 sample_config sample_event 0 (inflight_add (key_of sample_event) (sample_relayer [] [False])))"


end
