(* ===== verification/Eth_Listener.thy ===== *)
theory Eth_Listener
  imports Relayer_Service
begin

text \<open>
  The Ethereum log poller (\<open>EthChainListener\<close> of \<open>relayer/index.ts\<close>): the JSON-RPC calls, the
  bounded and confirmed block range of one poll, the decoding of a log, and the persisted cursor.
  The node's answers are a function from method and parameters to a reply; the callback given to
  \<open>start\<close> is an operation on a state of its own.  JSON numbers are integers.  \<open>pollOnce\<close> is here a poll that runs from its start
  to its end with nothing in between; the timer of \<open>start\<close> does not wait for that, and the polls that overlap are in \<open>Eth_Polling\<close>.
\<close>

section \<open>JSON-RPC\<close>

type_synonym eth_rpc = "string \<Rightarrow> json list \<Rightarrow> string + json"

fun truthy :: "json \<Rightarrow> bool" where
  "truthy JNull = False"
| "truthy (JBool b) = b"
| "truthy (JNum n) = (n \<noteq> 0)"
| "truthy (JStr s) = (s \<noteq> [])"
| "truthy (JArr _) = True"
| "truthy (JObj _) = True"

definition rpcCall :: "eth_rpc \<Rightarrow> string \<Rightarrow> json list \<Rightarrow> string + json" where
  "rpcCall rpc meth params =
     bind_sum (rpc meth params) (\<lambda>js.
       if js = JNull then Inl ''TypeError: Cannot read properties of null''
       else case json_field js ''error'' of
         Some err \<Rightarrow>
           if truthy err then Inl (meth @ '' RPC error'')
           else (case json_field js ''result'' of None \<Rightarrow> Inl (meth @ '' returned no result'') | Some r \<Rightarrow> Inr r)
       | None \<Rightarrow> (case json_field js ''result'' of None \<Rightarrow> Inl (meth @ '' returned no result'') | Some r \<Rightarrow> Inr r))"

definition getBlockNumber :: "eth_rpc \<Rightarrow> string + string" where
  "getBlockNumber rpc =
     bind_sum (rpcCall rpc ''eth_blockNumber'' []) (\<lambda>r.
       case r of JStr s \<Rightarrow> Inr s | _ \<Rightarrow> Inl ''eth_blockNumber returned no result'')"

section \<open>Ranges\<close>

record eth_config =
  ec_bridgeContractAddress :: string
  ec_eventTopic :: string
  ec_chainId :: int
  ec_maxBlockRange :: "int option"
  ec_confirmations :: "int option"

text \<open>\<open>i.toString(16)\<close> and \<open>'0x' + i.toString(16)\<close>.\<close>

definition hex_of_int :: "int \<Rightarrow> string" where
  "hex_of_int i = (if i < 0 then ''-'' @ hex_of_nat (nat (- i)) else hex_of_nat (nat i))"

definition hex_quantity :: "int \<Rightarrow> string" where
  "hex_quantity i = ''0x'' @ hex_of_int i"

definition max_range :: "eth_config \<Rightarrow> int" where
  "max_range cfg = (case ec_maxBlockRange cfg of None \<Rightarrow> 2000 | Some m \<Rightarrow> m)"

definition log_filter :: "eth_config \<Rightarrow> int \<Rightarrow> int \<Rightarrow> json" where
  "log_filter cfg fromBlock endBlock =
     JObj [(''fromBlock'', JStr (hex_quantity fromBlock)), (''toBlock'', JStr (hex_quantity endBlock)),
           (''address'', JStr (ec_bridgeContractAddress cfg)), (''topics'', JArr [JStr (ec_eventTopic cfg)])]"

text \<open>\<open>None\<close> as a bound is \<open>NaN\<close>; the block queried up to is \<open>null\<close> when nothing was queried.\<close>

definition getLogs ::
  "eth_config \<Rightarrow> eth_rpc \<Rightarrow> int option \<Rightarrow> int option \<Rightarrow> string + json list \<times> int option" where
  "getLogs cfg rpc fromBlock toBlock =
     (case (fromBlock, toBlock) of
        (Some a, Some b) \<Rightarrow>
          if a > b then Inr ([], None)
          else if max_range cfg < 1 then Inl ''maxBlockRange must be a positive integer''
          else let endBlock = min (a + max_range cfg - 1) b in
            bind_sum (rpcCall rpc ''eth_getLogs'' [log_filter cfg a endBlock]) (\<lambda>r.
              Inr (case r of JArr logs \<Rightarrow> logs | _ \<Rightarrow> [], Some endBlock))
      | _ \<Rightarrow> Inr ([], None))"

section \<open>Decoding a log\<close>

text \<open>\<open>Number(x)\<close>; arrays with elements, whose conversion goes through their text, count as \<open>NaN\<close>.\<close>

fun js_number :: "json option \<Rightarrow> int option" where
  "js_number (Some JNull) = Some 0"
| "js_number (Some (JBool b)) = Some (if b then 1 else 0)"
| "js_number (Some (JNum n)) = Some n"
| "js_number (Some (JArr [])) = Some 0"
| "js_number _ = None"

definition log_index :: "json \<Rightarrow> int option" where
  "log_index log =
     (case json_field log ''logIndex'' of Some (JStr s) \<Rightarrow> parse_int 16 s | other \<Rightarrow> js_number other)"

definition decode_string :: "string \<Rightarrow> int \<Rightarrow> string option" where
  "decode_string data byteOffset =
     (if byteOffset < 0 \<or> byteOffset + 64 > int (length data) then None
      else case parse_int 16 (slice (nat byteOffset) (nat byteOffset + 64) data) of
        None \<Rightarrow> None
      | Some len \<Rightarrow>
          let strHex = (if len < 0 then [] else slice (nat byteOffset + 64) (nat byteOffset + 64 + nat len * 2) data)
          in if int (length strHex) \<noteq> len * 2 then None else Some (utf8_to_string (bytes_of_hex strHex)))"

text \<open>The bytes hashed into the replay key.\<close>

definition replay_preimage :: "string \<Rightarrow> int \<Rightarrow> string + byte list" where
  "replay_preimage transactionHash logIndex =
     bind_sum (write_uint32_be logIndex) (\<lambda>logIndexBuf.
       Inr (bytes_of_hex (drop 2 transactionHash) @ logIndexBuf))"

definition abi_fields :: "string \<Rightarrow> (string \<times> string \<times> string) option" where
  "abi_fields data =
     (if length data < 64 * 3 then None
      else case (parse_int 16 (slice 0 64 data), parse_int 16 (slice 64 128 data)) of
        (Some targetOffset, Some assetOffset) \<Rightarrow>
          (case (decode_string data (targetOffset * 2), decode_string data (assetOffset * 2),
                 bigint_of_string (''0x'' @ slice 128 192 data)) of
             (Some target, Some asset, Some amount) \<Rightarrow> Some (target, asset, dec_of_int amount)
           | _ \<Rightarrow> None)
      | _ \<Rightarrow> None)"

definition eth_decode :: "platform \<Rightarrow> eth_config \<Rightarrow> json \<Rightarrow> bridge_event option" where
  "eth_decode K cfg log =
     (case json_field log ''transactionHash'' of
        Some (JStr transactionHash) \<Rightarrow>
          if \<not> prefix ''0x'' transactionHash \<or> length transactionHash \<noteq> 66 then None
          else (case log_index log of
             None \<Rightarrow> None
           | Some logIndex \<Rightarrow>
               if logIndex < 0 then None
               else case replay_preimage transactionHash logIndex of
                 Inl _ \<Rightarrow> None
               | Inr p \<Rightarrow>
                   (case json_field log ''data'' of
                      Some (JStr hexdata) \<Rightarrow>
                        if \<not> prefix ''0x'' hexdata then None
                        else (case abi_fields (drop 2 hexdata) of
                           None \<Rightarrow> None
                         | Some (target, asset, amount) \<Rightarrow>
                             Some \<lparr>ev_chainId = ec_chainId cfg, ev_txHash = hex_of_bytes (sha256 K p),
                                   ev_target = target, ev_asset = asset, ev_amount = amount\<rparr>)
                    | _ \<Rightarrow> None))
      | _ \<Rightarrow> None)"

section \<open>Polling\<close>

record 'w eth_state =
  es_fromBlock :: string
  es_store :: "string store_file"
  es_world :: 'w

type_synonym 'w on_event = "bridge_event \<Rightarrow> ('w, string, unit) op"

definition eth_open :: "string store_file \<Rightarrow> 'w \<Rightarrow> string + 'w eth_state" where
  "eth_open f w =
     bind_sum (block_load f) (\<lambda>loaded.
       Inr \<lparr>es_fromBlock = (case loaded of None \<Rightarrow> ''latest'' | Some b \<Rightarrow> b), es_store = f, es_world = w\<rparr>)"

definition removed :: "json \<Rightarrow> bool" where
  "removed log = (json_field log ''removed'' = Some (JBool True))"

definition deliver_log :: "platform \<Rightarrow> eth_config \<Rightarrow> 'w on_event \<Rightarrow> json \<Rightarrow> ('w, string, unit) op" where
  "deliver_log K cfg onEvent log w =
     (if removed log then (Inr (), w)
      else case eth_decode K cfg log of None \<Rightarrow> (Inr (), w) | Some e \<Rightarrow> onEvent e w)"

definition save_block :: "string \<Rightarrow> ('w eth_state, string, unit) op" where
  "save_block b st = (case block_save b (es_store st) of (r, f) \<Rightarrow> (r, st\<lparr>es_store := f\<rparr>))"

definition safe_block :: "eth_config \<Rightarrow> string \<Rightarrow> int option" where
  "safe_block cfg latest =
     (case parse_int 16 latest of
        None \<Rightarrow> None
      | Some l \<Rightarrow> Some (max (l - (case ec_confirmations cfg of None \<Rightarrow> 12 | Some c \<Rightarrow> c)) 0))"

definition poll_body ::
  "platform \<Rightarrow> eth_config \<Rightarrow> eth_rpc \<Rightarrow> 'w on_event \<Rightarrow> ('w eth_state, string, unit) op" where
  "poll_body K cfg rpc onEvent st =
     (case getBlockNumber rpc of
        Inl err \<Rightarrow> (Inl err, st)
      | Inr latest \<Rightarrow>
          if es_fromBlock st = ''latest''
          then and_then (save_block latest) (\<lambda>_ s. (Inr (), s\<lparr>es_fromBlock := latest\<rparr>)) st
          else let safeTo = safe_block cfg latest; fromNum = parse_int 16 (es_fromBlock st) in
            if (case (safeTo, fromNum) of (Some s, Some f) \<Rightarrow> s < f | _ \<Rightarrow> False) then (Inr (), st)
            else case getLogs cfg rpc fromNum safeTo of
              Inl err \<Rightarrow> (Inl err, st)
            | Inr (logs, queriedToBlock) \<Rightarrow>
                (case for_each_op (deliver_log K cfg onEvent) logs (es_world st) of
                   (Inl err, w) \<Rightarrow> (Inl err, st\<lparr>es_world := w\<rparr>)
                 | (Inr _, w) \<Rightarrow>
                     (case queriedToBlock of
                        None \<Rightarrow> (Inr (), st\<lparr>es_world := w\<rparr>)
                      | Some q \<Rightarrow>
                          save_block (hex_quantity (q + 1))
                            (st\<lparr>es_world := w, es_fromBlock := hex_quantity (q + 1)\<rparr>))))"

definition pollOnce ::
  "platform \<Rightarrow> eth_config \<Rightarrow> eth_rpc \<Rightarrow> 'w on_event \<Rightarrow> 'w eth_state \<Rightarrow> 'w eth_state" where
  "pollOnce K cfg rpc onEvent st = snd (catching (poll_body K cfg rpc onEvent) (\<lambda>_. give ()) st)"

section \<open>Lemmas\<close>

lemma parse_hex_quantity:
  assumes "0 \<le> i"
  shows "parse_int 16 (hex_quantity i) = js_finite i"
  using assms parse_int_0x_hex [of "hex_of_nat (nat i)"] by (simp add: hex_quantity_def hex_of_int_def)

lemma parse_hex_quantity_safe [simp]: "0 \<le> i \<Longrightarrow> i \<le> 2 ^ 53 \<Longrightarrow> parse_int 16 (hex_quantity i) = Some i"
  by (simp add: parse_hex_quantity)

lemma hex_quantity_not_latest [simp]: "hex_quantity i \<noteq> ''latest''"
  by (simp add: hex_quantity_def)

lemma save_block_frame [simp]:
  "es_fromBlock (snd (save_block b st)) = es_fromBlock st" "es_world (snd (save_block b st)) = es_world st"
  by (simp_all add: save_block_def split: prod.splits)

lemma snd_catching_give: "snd (catching m (\<lambda>_. give ()) st) = snd (m st)"
  by (simp add: catching_def split: prod.splits sum.splits)

lemma pollOnce_body: "pollOnce K cfg rpc onEvent st = snd (poll_body K cfg rpc onEvent st)"
  by (simp add: pollOnce_def snd_catching_give)

text \<open>The events a list of logs gives rise to, and the callback that records them.\<close>

definition delivered :: "platform \<Rightarrow> eth_config \<Rightarrow> json list \<Rightarrow> bridge_event list" where
  "delivered K cfg logs = List.map_filter (\<lambda>l. if removed l then None else eth_decode K cfg l) logs"

definition record_event :: "bridge_event list on_event" where
  "record_event e w = (Inr (), w @ [e])"

lemma delivered_append: "delivered K cfg (as @ bs) = delivered K cfg as @ delivered K cfg bs"
  by (simp add: delivered_def List.map_filter_def)

lemma for_each_record:
  "for_each_op (deliver_log K cfg record_event) logs w = (Inr (), w @ delivered K cfg logs)"
proof (induction logs arbitrary: w)
  case Nil
  then show ?case by (simp add: delivered_def List.map_filter_simps)
next
  case (Cons l ls)
  then show ?case
    by (cases "removed l"; cases "eth_decode K cfg l")
      (simp_all add: deliver_log_def delivered_def List.map_filter_simps record_event_def)
qed

text \<open>A node that answers log queries from one fixed history of final logs, or fails, and whose
  block numbers are exact floating-point integers.\<close>

definition honest_node :: "(int \<Rightarrow> json list) \<Rightarrow> eth_config \<Rightarrow> eth_rpc \<Rightarrow> bool" where
  "honest_node chain cfg rpc \<longleftrightarrow>
     (\<forall>a b. 0 \<le> a \<and> a \<le> b \<longrightarrow>
        (\<exists>err. rpcCall rpc ''eth_getLogs'' [log_filter cfg a b] = Inl err)
        \<or> rpcCall rpc ''eth_getLogs'' [log_filter cfg a b] = Inr (JArr (concat (map chain [a..b]))))
     \<and> (\<forall>s n. getBlockNumber rpc = Inr s \<and> parse_int 16 s = Some n \<longrightarrow> n < 2 ^ 53)"

definition confirmation_depth :: "eth_config \<Rightarrow> int" where
  "confirmation_depth cfg = (case ec_confirmations cfg of None \<Rightarrow> 12 | Some c \<Rightarrow> c)"

definition confirmed_by :: "eth_config \<Rightarrow> eth_rpc \<Rightarrow> int \<Rightarrow> bool" where
  "confirmed_by cfg rpc b \<longleftrightarrow>
     (\<exists>s n. getBlockNumber rpc = Inr s \<and> parse_int 16 s = Some n \<and> b \<le> n - confirmation_depth cfg)"

text \<open>\<open>safe_block\<close> is never below 0, so block 0 needs no depth.\<close>

definition poll_outcome ::
  "platform \<Rightarrow> (int \<Rightarrow> json list) \<Rightarrow> eth_config \<Rightarrow> eth_rpc \<Rightarrow> int \<Rightarrow> int
    \<Rightarrow> bridge_event list eth_state \<Rightarrow> bridge_event list eth_state \<Rightarrow> bool" where
  "poll_outcome K chain cfg rpc a b st st' \<longleftrightarrow>
     a \<le> b \<and> b \<le> 2 ^ 53 \<and> b \<le> a + max (max_range cfg) 0 \<and> (b = a \<or> b = 1 \<or> confirmed_by cfg rpc (b - 1))
     \<and> es_fromBlock st' = hex_quantity b
     \<and> es_world st' = es_world st @ delivered K cfg (concat (map chain [a..b - 1]))"

lemma poll_outcome_same:
  assumes "a \<le> 2 ^ 53" "es_fromBlock st = hex_quantity a" "es_fromBlock st' = es_fromBlock st"
    "es_world st' = es_world st"
  shows "poll_outcome K chain cfg rpc a a st st'"
  using assms by (simp add: poll_outcome_def delivered_def List.map_filter_simps)

lemma poll_stays:
  assumes "a \<le> 2 ^ 53" "es_fromBlock st = hex_quantity a" "pollOnce K cfg rpc record_event st = st"
  shows "\<exists>b. poll_outcome K chain cfg rpc a b st (pollOnce K cfg rpc record_event st)"
  unfolding assms(3) using poll_outcome_same [OF assms(1,2) refl refl] by blast

lemma poll_step:
  assumes "honest_node chain cfg rpc" "0 \<le> a" "a \<le> 2 ^ 53" "0 \<le> confirmation_depth cfg"
    and "es_fromBlock st = hex_quantity a"
  shows "\<exists>b. poll_outcome K chain cfg rpc a b st (pollOnce K cfg rpc record_event st)"
proof (cases "getBlockNumber rpc")
  case (Inl err)
  then have "pollOnce K cfg rpc record_event st = st" by (simp add: pollOnce_body poll_body_def)
  then show ?thesis by (rule poll_stays [OF assms(3,5)])
next
  case (Inr latest)
  note head = this
  show ?thesis
  proof (cases "parse_int 16 latest")
    case None
    with head assms(5) have "pollOnce K cfg rpc record_event st = st"
      by (simp add: pollOnce_body poll_body_def safe_block_def getLogs_def split: option.splits)
    then show ?thesis by (rule poll_stays [OF assms(3,5)])
  next
    case (Some l)
    define s where "s = max (l - confirmation_depth cfg) 0"
    have safe: "safe_block cfg latest = Some s"
      by (simp add: safe_block_def Some s_def confirmation_depth_def)
    show ?thesis
    proof (cases "s < a \<or> max_range cfg < 1")
      case True
      with head safe assms have "pollOnce K cfg rpc record_event st = st"
        by (auto simp: pollOnce_body poll_body_def getLogs_def)
      then show ?thesis by (rule poll_stays [OF assms(3,5)])
    next
      case False
      define e where "e = min (a + max_range cfg - 1) s"
      from False have "a \<le> e" "e \<le> s" "e + 1 \<le> a + max_range cfg" by (auto simp: e_def)
      have logs: "getLogs cfg rpc (Some a) (Some s) =
          bind_sum (rpcCall rpc ''eth_getLogs'' [log_filter cfg a e]) (\<lambda>r.
            Inr (case r of JArr logs \<Rightarrow> logs | _ \<Rightarrow> [], Some e))"
        using False by (simp add: getLogs_def e_def Let_def)
      from assms(1,2) \<open>a \<le> e\<close> consider
        (fails) err where "rpcCall rpc ''eth_getLogs'' [log_filter cfg a e] = Inl err"
        | (answers) "rpcCall rpc ''eth_getLogs'' [log_filter cfg a e] = Inr (JArr (concat (map chain [a..e])))"
        unfolding honest_node_def by blast
      then show ?thesis
      proof cases
        case fails
        with head safe logs assms False have "pollOnce K cfg rpc record_event st = st"
          by (simp add: pollOnce_body poll_body_def)
        then show ?thesis by (rule poll_stays [OF assms(3,5)])
      next
        case answers
        have "l < 2 ^ 53" using assms(1) head Some by (simp add: honest_node_def)
        then have "e + 1 \<le> 2 ^ 53" using \<open>e \<le> s\<close> assms(4) by (simp add: s_def)
        moreover have "e = 0 \<or> confirmed_by cfg rpc e"
          using head Some \<open>e \<le> s\<close> \<open>a \<le> e\<close> assms(2) by (auto simp: confirmed_by_def s_def)
        ultimately have "poll_outcome K chain cfg rpc a (e + 1) st (pollOnce K cfg rpc record_event st)"
          using head safe logs answers assms False \<open>a \<le> e\<close> \<open>e + 1 \<le> a + max_range cfg\<close>
          by (simp add: poll_outcome_def pollOnce_body poll_body_def for_each_record)
        then show ?thesis by blast
      qed
    qed
  qed
qed

definition run_polls ::
  "platform \<Rightarrow> eth_config \<Rightarrow> 'w on_event \<Rightarrow> eth_rpc list \<Rightarrow> 'w eth_state \<Rightarrow> 'w eth_state" where
  "run_polls K cfg onEvent rpcs st = fold (\<lambda>rpc s. pollOnce K cfg rpc onEvent s) rpcs st"

lemma upto_join:
  assumes "a \<le> b" "b \<le> c"
  shows "[a..b - 1] @ [b..c - 1] = [a..c - 1 :: int]"
proof (cases "b = c")
  case False
  then have "b \<le> c - 1" using assms(2) by simp
  from upto_split1 [OF assms(1) this] show ?thesis by (rule sym)
qed simp

section \<open>Encoding a log\<close>

text \<open>The ABI encoding of the event data, as the fixtures of the repository build it (\<open>word\<close>,
  \<open>encodedString\<close>, \<open>makeAbiLog\<close>): words of 64 hexadecimal digits, strings as their length and
  their bytes padded with zeros to whole words.\<close>

definition abi_word :: "nat \<Rightarrow> string" where
  "abi_word n = map hex_char (pad_digits 16 64 n)"

definition encodedString :: "string \<Rightarrow> string" where
  "encodedString v =
     (let hex = hex_of_bytes v; padded = (length hex + 63) div 64 * 64
      in abi_word (length hex div 2) @ hex @ replicate (padded - length hex) CHR ''0'')"

definition abi_data :: "string \<Rightarrow> string \<Rightarrow> nat \<Rightarrow> string" where
  "abi_data target asset amount =
     (let targetTail = encodedString target; targetOffset = 32 * 3;
          assetOffset = targetOffset + length targetTail div 2
      in abi_word targetOffset @ abi_word assetOffset @ abi_word amount @ targetTail @ encodedString asset)"

definition makeAbiLog :: "string \<Rightarrow> string \<Rightarrow> nat \<Rightarrow> string \<Rightarrow> string \<Rightarrow> json" where
  "makeAbiLog target asset amount transactionHash logIndex =
     JObj [(''transactionHash'', JStr transactionHash), (''logIndex'', JStr logIndex),
           (''data'', JStr (''0x'' @ abi_data target asset amount))]"

lemma length_abi_word [simp]: "length (abi_word n) = 64"
  by (simp add: abi_word_def)

lemma abi_word_hex [simp]: "list_all is_hex (abi_word n)"
  using pad_digits_less [of 16 _ 64 n] by (auto simp: abi_word_def list_all_iff)

lemma num_of_abi_word [simp]: "n < 16 ^ 64 \<Longrightarrow> num_of_string 16 (abi_word n) = n"
proof -
  assume n: "n < 16 ^ 64"
  have "digit_vals (abi_word n) = pad_digits 16 64 n"
    unfolding digit_vals_def abi_word_def
    using pad_digits_less [of 16 _ 64 n] by (fastforce intro!: map_idI)
  with n show ?thesis by (simp add: num_of_string_def)
qed

lemma parse_abi_word [simp]: "n < 16 ^ 64 \<Longrightarrow> parse_int 16 (abi_word n) = Some (int n)"
proof -
  assume n: "n < 16 ^ 64"
  then have "\<bar>int n\<bar> < 2 ^ 256" by simp
  then have "js_finite (int n) = Some (int n)" by (rule js_finite_small)
  with n show ?thesis
    using parse_int_hex [OF abi_word_hex] length_abi_word [of n] by (metis list.size(3) num_of_abi_word zero_neq_numeral)
qed

lemma decode_encodedString:
  assumes "is_ascii v" "length v < 2 ^ 64"
  shows "decode_string (xs @ encodedString v @ ys) (int (length xs)) = Some v"
proof -
  let ?hex = "hex_of_bytes v"
  obtain zs where enc: "encodedString v = abi_word (length v) @ ?hex @ zs"
    by (simp add: encodedString_def Let_def)
  have "(2 :: nat) ^ 64 \<le> 16 ^ 64" by simp
  with assms(2) have "length v < 16 ^ 64" by linarith
  then have len: "parse_int 16 (abi_word (length v)) = Some (int (length v))" by simp
  have 1: "slice (length xs) (length xs + 64) (xs @ encodedString v @ ys) = abi_word (length v)"
    using slice_append_mid [of xs "length xs" "length xs + 64" "abi_word (length v)" "?hex @ zs @ ys"]
    by (simp add: enc)
  have 2: "slice (length xs + 64) (length xs + 64 + 2 * length v) (xs @ encodedString v @ ys) = ?hex"
    using slice_append_mid [of "xs @ abi_word (length v)" "length xs + 64" _ ?hex "zs @ ys"]
    by (simp add: enc)
  show ?thesis
    using assms(1) 1 2 len by (simp add: decode_string_def enc nat_add_distrib mult.commute)
qed

lemma abi_fields_data:
  assumes "is_ascii target" "is_ascii asset" "length target < 2 ^ 60" "length asset < 2 ^ 60" "amount < 16 ^ 64"
  shows "abi_fields (abi_data target asset amount) = Some (target, asset, dec_of_nat amount)"
proof -
  define off where "off = 96 + length (encodedString target) div 2"
  let ?T = "encodedString target" and ?A = "encodedString asset"
  have data: "abi_data target asset amount = abi_word 96 @ abi_word off @ abi_word amount @ ?T @ ?A"
    by (simp add: abi_data_def off_def Let_def)
  have "length ?T \<le> 64 + 2 * length target + 64" and even: "even (length ?T)"
    by (simp_all add: encodedString_def Let_def)
  then have "off < 2 ^ 64" using assms(3) by (simp add: off_def)
  moreover have "(2 :: nat) ^ 64 \<le> 16 ^ 64" by simp
  ultimately have off: "off < 16 ^ 64" by linarith
  have w0: "slice 0 64 (abi_data target asset amount) = abi_word 96"
    using slice_append_mid [of "[]" 0 64 "abi_word 96"] by (simp add: data)
  have w1: "slice 64 128 (abi_data target asset amount) = abi_word off"
    using slice_append_mid [of "abi_word 96" 64 128 "abi_word off"] by (simp add: data)
  have w2: "slice 128 192 (abi_data target asset amount) = abi_word amount"
    using slice_append_mid [of "abi_word 96 @ abi_word off" 128 192 "abi_word amount"] by (simp add: data)
  have t: "decode_string (abi_data target asset amount) (int 96 * 2) = Some target"
    using decode_encodedString [of target "abi_word 96 @ abi_word off @ abi_word amount" ?A] assms(1,3)
    by (simp add: data)
  from even have "2 * (length ?T div 2) = length ?T" by simp
  then have "int (length (abi_word 96 @ abi_word off @ abi_word amount @ ?T)) = int off * 2"
    by (simp add: off_def)
  then have a: "decode_string (abi_data target asset amount) (int off * 2) = Some asset"
    using decode_encodedString [of asset "abi_word 96 @ abi_word off @ abi_word amount @ ?T" "[]"] assms(2,4)
    by (simp add: data)
  have "bigint_of_string (''0x'' @ abi_word amount) = Some (int amount)"
    using bigint_of_0x_hex [of "abi_word amount"] assms(5) length_abi_word [of amount] by fastforce
  then show ?thesis
    using w0 w1 w2 t a off by (simp add: abi_fields_def dec_of_int_def) (simp add: data)
qed

section \<open>What moves the cursor\<close>

lemma getLogs_Inr:
  assumes "getLogs cfg rpc f t = Inr (logs, Some q)"
  shows "\<exists>a b. f = Some a \<and> t = Some b \<and> a \<le> q \<and> q \<le> b \<and> q < a + max_range cfg"
  using assms by (auto simp: getLogs_def Let_def bind_sum_eq_Inr split: option.splits if_splits)

lemma save_block_contents:
  "save_block b st = (r, st') \<Longrightarrow>
     contents (es_store st') \<in> {contents (es_store st), Holds b}"
  using block_disk.put_atomic [of b "es_store st"] by (auto simp: save_block_def split: prod.splits)

lemma pollOnce_moves:
  assumes "es_fromBlock st \<noteq> ''latest''"
  shows "pollOnce K cfg rpc onEvent st = st\<lparr>es_world := es_world (pollOnce K cfg rpc onEvent st)\<rparr>
    \<or> (\<exists>latest n s q logs. getBlockNumber rpc = Inr latest \<and> safe_block cfg latest = Some s
        \<and> parse_int 16 (es_fromBlock st) = Some n \<and> n \<le> q \<and> q \<le> s \<and> q < n + max_range cfg
        \<and> getLogs cfg rpc (Some n) (Some s) = Inr (logs, Some q)
        \<and> for_each_op (deliver_log K cfg onEvent) logs (es_world st)
            = (Inr (), es_world (pollOnce K cfg rpc onEvent st))
        \<and> pollOnce K cfg rpc onEvent st = snd (save_block (hex_quantity (q + 1))
            (st\<lparr>es_world := es_world (pollOnce K cfg rpc onEvent st), es_fromBlock := hex_quantity (q + 1)\<rparr>)))"
proof (cases "getBlockNumber rpc")
  case (Inl err)
  then show ?thesis by (simp add: pollOnce_body poll_body_def)
next
  case (Inr latest)
  let ?f = "parse_int 16 (es_fromBlock st)" and ?s = "safe_block cfg latest"
  show ?thesis
  proof (cases "case (?s, ?f) of (Some s, Some f) \<Rightarrow> s < f | _ \<Rightarrow> False")
    case True
    with Inr assms show ?thesis by (simp add: pollOnce_body poll_body_def)
  next
    case False
    show ?thesis
    proof (cases "getLogs cfg rpc ?f ?s")
      case (Inl err)
      with Inr assms False show ?thesis by (simp add: pollOnce_body poll_body_def)
    next
      case (Inr res)
      obtain logs q where res: "res = (logs, q)" by force
      obtain r w where w: "for_each_op (deliver_log K cfg onEvent) logs (es_world st) = (r, w)" by force
      note body = \<open>getBlockNumber rpc = Inr latest\<close> Inr res w assms False
      show ?thesis
      proof (cases "\<exists>u. r = Inr u \<and> q \<noteq> None")
        case False
        with body show ?thesis
          by (cases r; cases q) (simp_all add: pollOnce_body poll_body_def)
      next
        case True
        then obtain q' where q: "q = Some q'" "r = Inr ()" by auto
        from getLogs_Inr [of cfg rpc ?f ?s logs q'] Inr res q obtain n s where
          ns: "?f = Some n" "?s = Some s" "n \<le> q'" "q' \<le> s" "q' < n + max_range cfg" by auto
        have "pollOnce K cfg rpc onEvent st = snd (save_block (hex_quantity (q' + 1))
            (st\<lparr>es_world := w, es_fromBlock := hex_quantity (q' + 1)\<rparr>))"
          using body q by (simp add: pollOnce_body poll_body_def)
        with body q ns show ?thesis by auto
      qed
    qed
  qed
qed

section \<open>Properties\<close>

text \<open>C13: Over any number of polls that do not overlap, of nodes that answer from one history of logs (or fail at any call),
  starting at block \<open>a\<close> (at most 2^53), with a callback that resolves, the events handed on are exactly those of the blocks from \<open>a\<close> up to the
  final cursor, in block order, each once; the last of these blocks lies the confirmation depth below some
  reported head, unless it is block 0, and the cursor moves at most the maximal range per poll.  No write of the cursor file need
  succeed for this.  For polls that overlap see \<open>restart_skips_no_log\<close> in \<open>Eth_Polling\<close>.\<close>

theorem polls_deliver_every_confirmed_log_once:
  assumes "\<forall>rpc \<in> set rpcs. honest_node chain cfg rpc" "0 \<le> a" "a \<le> 2 ^ 53" "0 \<le> confirmation_depth cfg"
    and "es_fromBlock st = hex_quantity a"
  shows "\<exists>b. a \<le> b \<and> b \<le> a + int (length rpcs) * max (max_range cfg) 0
    \<and> (b = a \<or> b = 1 \<or> (\<exists>rpc \<in> set rpcs. confirmed_by cfg rpc (b - 1)))
    \<and> es_fromBlock (run_polls K cfg record_event rpcs st) = hex_quantity b
    \<and> es_world (run_polls K cfg record_event rpcs st)
       = es_world st @ delivered K cfg (concat (map chain [a..b - 1]))"
  using assms
proof (induction rpcs arbitrary: a st)
  case Nil
  then show ?case
    by (intro exI [of _ a]) (simp add: run_polls_def delivered_def List.map_filter_simps)
next
  case (Cons rpc rpcs)
  from Cons.prems poll_step obtain b where
    b: "poll_outcome K chain cfg rpc a b st (pollOnce K cfg rpc record_event st)"
    by (metis list.set_intros(1))
  let ?st = "pollOnce K cfg rpc record_event st"
  from b have b': "a \<le> b" "b \<le> 2 ^ 53" "b \<le> a + max (max_range cfg) 0" "b = a \<or> b = 1 \<or> confirmed_by cfg rpc (b - 1)"
    "es_fromBlock ?st = hex_quantity b"
    "es_world ?st = es_world st @ delivered K cfg (concat (map chain [a..b - 1]))"
    by (simp_all add: poll_outcome_def)
  have run: "run_polls K cfg record_event (rpc # rpcs) st = run_polls K cfg record_event rpcs ?st"
    by (simp add: run_polls_def)
  from Cons.IH [of b ?st] Cons.prems b' obtain c where
    c: "b \<le> c" "c \<le> b + int (length rpcs) * max (max_range cfg) 0"
      "c = b \<or> c = 1 \<or> (\<exists>rpc \<in> set rpcs. confirmed_by cfg rpc (c - 1))"
      "es_fromBlock (run_polls K cfg record_event rpcs ?st) = hex_quantity c"
      "es_world (run_polls K cfg record_event rpcs ?st)
         = es_world ?st @ delivered K cfg (concat (map chain [b..c - 1]))"
    by auto
  have "delivered K cfg (concat (map chain [a..b - 1])) @ delivered K cfg (concat (map chain [b..c - 1]))
      = delivered K cfg (concat (map chain [a..c - 1]))"
    by (simp add: delivered_append [symmetric] concat_append [symmetric] map_append [symmetric]
        upto_join [OF b'(1) c(1)] del: concat_append map_append)
  with c b' show ?case
    unfolding run by (intro exI [of _ c]) (auto simp: algebra_simps)
qed

definition sample_eth :: eth_config where
  "sample_eth = \<lparr>ec_bridgeContractAddress = ''0xb'', ec_eventTopic = ''0xt'', ec_chainId = 1,
     ec_maxBlockRange = None, ec_confirmations = Some 2\<rparr>"

definition sample_chain :: "int \<Rightarrow> json list" where
  "sample_chain b = (if b = 5 then [makeAbiLog ''GA'' ''CA'' 7 (''0x'' @ replicate 64 CHR ''c'') ''0x0''] else [])"

text \<open>A node over a given history with a given head.\<close>

definition node_over :: "(int \<Rightarrow> json list) \<Rightarrow> int \<Rightarrow> eth_rpc" where
  "node_over chain head meth params =
     (if meth = ''eth_blockNumber'' then Inr (JObj [(''result'', JStr (hex_quantity head))])
      else case params of
        [JObj [(_, JStr f), (_, JStr t), _, _]] \<Rightarrow>
          (case (parse_int 16 f, parse_int 16 t) of
             (Some a, Some b) \<Rightarrow> Inr (JObj [(''result'', JArr (concat (map chain [a..b])))])
           | _ \<Rightarrow> Inl ''bad range'')
      | _ \<Rightarrow> Inl ''bad parameters'')"

lemma node_over_honest:
  assumes "0 \<le> head" "head < 2 ^ 53"
  shows "honest_node chain cfg (node_over chain head)"
proof -
  have fin: "js_finite a = Some a \<or> js_finite a = None" for a by (simp add: js_finite_def)
  have "getBlockNumber (node_over chain head) = Inr (hex_quantity head)"
    by (simp add: getBlockNumber_def rpcCall_def node_over_def)
  moreover have "(\<exists>err. rpcCall (node_over chain head) ''eth_getLogs'' [log_filter cfg a b] = Inl err)
      \<or> rpcCall (node_over chain head) ''eth_getLogs'' [log_filter cfg a b] = Inr (JArr (concat (map chain [a..b])))"
    if "0 \<le> a" "a \<le> b" for a b
    using fin [of a] fin [of b] that
    by (auto simp: rpcCall_def node_over_def log_filter_def parse_hex_quantity)
  ultimately show ?thesis using assms by (auto simp: honest_node_def)
qed

definition sample_start :: "bridge_event list eth_state" where
  "sample_start = \<lparr>es_fromBlock = hex_quantity 1,
     es_store = \<lparr>contents = Holds (hex_quantity 1), write_results = [False]\<rparr>, es_world = []\<rparr>"

lemma polls_deliver_every_confirmed_log_once_witness:
  "\<exists>b \<ge> 1. es_world (run_polls sample_platform sample_eth record_event
        [node_over sample_chain 4, node_over sample_chain 30] sample_start)
      = delivered sample_platform sample_eth (concat (map sample_chain [1..b - 1]))"
proof -
  have "\<forall>rpc \<in> set [node_over sample_chain 4, node_over sample_chain 30]. honest_node sample_chain sample_eth rpc"
    by (simp add: node_over_honest)
  from polls_deliver_every_confirmed_log_once [OF this, of 1 sample_start sample_platform]
  show ?thesis by (auto simp: sample_start_def sample_eth_def confirmation_depth_def)
qed

text \<open>Whatever the node answers and whatever the callback does, a poll moves the cursor only after
  it has handed every log of the blocks it skips to the callback without a rejection: otherwise the
  cursor and its file are as before.\<close>

theorem cursor_moves_only_after_delivery:
  assumes "es_fromBlock st \<noteq> ''latest''"
  shows "(es_fromBlock (pollOnce K cfg rpc onEvent st) = es_fromBlock st
       \<and> es_store (pollOnce K cfg rpc onEvent st) = es_store st)
    \<or> (\<exists>n s q logs. parse_int 16 (es_fromBlock st) = Some n \<and> n \<le> q
        \<and> getLogs cfg rpc (Some n) (Some s) = Inr (logs, Some q)
        \<and> for_each_op (deliver_log K cfg onEvent) logs (es_world st)
            = (Inr (), es_world (pollOnce K cfg rpc onEvent st))
        \<and> es_fromBlock (pollOnce K cfg rpc onEvent st) = hex_quantity (q + 1))"
proof -
  have keep: "es_fromBlock (st\<lparr>es_world := w\<rparr>) = es_fromBlock st \<and> es_store (st\<lparr>es_world := w\<rparr>) = es_store st" for w
    by simp
  have move: "es_fromBlock (snd (save_block b (st\<lparr>es_world := w, es_fromBlock := b\<rparr>))) = b" for b w
    by simp
  from pollOnce_moves [OF assms, of K cfg rpc onEvent] show ?thesis
    by (metis keep move)
qed

lemma cursor_moves_only_after_delivery_witness:
  "es_fromBlock (pollOnce sample_platform sample_eth (\<lambda>_ _. Inl ''down'') record_event sample_start) = hex_quantity 1"
  using cursor_moves_only_after_delivery [of sample_start sample_platform sample_eth "\<lambda>_ _. Inl ''down''" record_event]
  by (auto simp: sample_start_def getLogs_def rpcCall_def Let_def split: if_splits)

text \<open>As long as polls do not overlap, the cursor in the file is never ahead of the cursor in memory, across polls with any answers,
  callbacks and write failures: a restart may repeat blocks and never skips one.\<close>

theorem persisted_cursor_never_ahead:
  assumes "contents (es_store st) = Holds (hex_quantity a)" "es_fromBlock st = hex_quantity b" "0 \<le> a" "a \<le> b"
  shows "\<exists>a' b'. contents (es_store (pollOnce K cfg rpc onEvent st)) = Holds (hex_quantity a')
    \<and> es_fromBlock (pollOnce K cfg rpc onEvent st) = hex_quantity b' \<and> 0 \<le> a' \<and> a' \<le> b' \<and> a \<le> a'"
proof -
  let ?st = "pollOnce K cfg rpc onEvent st"
  have keep: "es_fromBlock (st\<lparr>es_world := w\<rparr>) = es_fromBlock st \<and> es_store (st\<lparr>es_world := w\<rparr>) = es_store st" for w
    by simp
  have "es_fromBlock st \<noteq> ''latest''" by (simp add: assms(2))
  from pollOnce_moves [OF this, of K cfg rpc onEvent] consider
    (stays) "es_fromBlock ?st = es_fromBlock st" "es_store ?st = es_store st"
    | (moves) n q where "parse_int 16 (es_fromBlock st) = Some n" "n \<le> q"
      "?st = snd (save_block (hex_quantity (q + 1)) (st\<lparr>es_world := es_world ?st, es_fromBlock := hex_quantity (q + 1)\<rparr>))"
    by (metis keep)
  then show ?thesis
  proof cases
    case stays
    with assms show ?thesis by auto
  next
    case moves
    have "n = b"
      using moves(1) assms(2-4) by (simp add: parse_hex_quantity js_finite_def split: if_splits)
    obtain r st' where sv: "save_block (hex_quantity (q + 1))
        (st\<lparr>es_world := es_world ?st, es_fromBlock := hex_quantity (q + 1)\<rparr>) = (r, st')"
      by (meson surj_pair)
    have st': "?st = st'" using trans [OF moves(3) arg_cong [OF sv, of snd]] by (simp only: snd_conv)
    have "es_fromBlock st' = hex_quantity (q + 1)"
      using save_block_frame(1) [of "hex_quantity (q + 1)"
        "st\<lparr>es_world := es_world ?st, es_fromBlock := hex_quantity (q + 1)\<rparr>"]
      unfolding sv by simp
    moreover obtain a' where "contents (es_store st') = Holds (hex_quantity a')" "a' = a \<or> a' = q + 1"
      using save_block_contents [OF sv] assms(1) by auto
    ultimately show ?thesis
      using \<open>n = b\<close> moves(2) assms(3,4) unfolding st'
      by (intro exI [of _ a'] exI [of _ "q + 1"]) auto
  qed
qed

lemma persisted_cursor_never_ahead_witness:
  "\<exists>a' b'. contents (es_store (pollOnce sample_platform sample_eth (node_over sample_chain 30) record_event sample_start))
      = Holds (hex_quantity a')
    \<and> es_fromBlock (pollOnce sample_platform sample_eth (node_over sample_chain 30) record_event sample_start)
      = hex_quantity b' \<and> 0 \<le> a' \<and> a' \<le> b' \<and> 1 \<le> a'"
  using persisted_cursor_never_ahead [of sample_start 1 1] by (simp add: sample_start_def)

text \<open>Decoding inverts the ABI encoding: a log that carries the encoding of a target, an asset and an
  amount is decoded to an event with exactly these, the configured chain, and as transaction hash
  the hexadecimal digest of the log's own transaction hash and index.\<close>

theorem eth_decode_encoded_log:
  assumes "is_ascii target" "is_ascii asset" "length target < 2 ^ 60" "length asset < 2 ^ 60"
    and "amount < 2 ^ 256" "length tx = 64" "i < 2 ^ 32"
  shows "eth_decode K cfg (makeAbiLog target asset amount (''0x'' @ tx) (''0x'' @ hex_of_nat i)) =
    Some \<lparr>ev_chainId = ec_chainId cfg,
          ev_txHash = hex_of_bytes (sha256 K (bytes_of_hex tx @ be_bytes 4 i)),
          ev_target = target, ev_asset = asset, ev_amount = dec_of_nat amount\<rparr>"
proof -
  have "(2 :: nat) ^ 256 = 16 ^ 64" by simp
  with assms(5) have amount: "amount < 16 ^ 64" by simp
  have "\<bar>int i\<bar> < 2 ^ 256" using assms(7) by simp
  then have "js_finite (int i) = Some (int i)" by (rule js_finite_small)
  then have "parse_int 16 (''0x'' @ hex_of_nat i) = Some (int i)"
    using parse_int_0x_hex [of "hex_of_nat i"] by simp
  then have idx: "log_index (makeAbiLog target asset amount (''0x'' @ tx) (''0x'' @ hex_of_nat i)) = Some (int i)"
    by (simp add: log_index_def makeAbiLog_def)
  have pre: "replay_preimage (''0x'' @ tx) (int i) = Inr (bytes_of_hex tx @ be_bytes 4 i)"
    using assms(7) by (simp add: replay_preimage_def u32_max_def)
  show ?thesis
    using idx pre abi_fields_data [OF assms(1-4) amount] assms(6)
    by (simp add: eth_decode_def) (simp add: makeAbiLog_def)
qed

lemma eth_decode_encoded_log_witness:
  "eth_decode sample_platform sample_eth
     (makeAbiLog ''GA'' ''CA'' 7 (''0x'' @ replicate 64 CHR ''c'') (''0x'' @ hex_of_nat 3)) =
    Some \<lparr>ev_chainId = 1,
          ev_txHash = hex_of_bytes (last_32 (bytes_of_hex (replicate 64 CHR ''c'') @ be_bytes 4 3)),
          ev_target = ''GA'', ev_asset = ''CA'', ev_amount = dec_of_nat 7\<rparr>"
  using eth_decode_encoded_log [of "''GA''" "''CA''" 7 "replicate 64 CHR ''c''" 3 sample_platform sample_eth]
  by (simp add: sample_eth_def is_ascii_def)

text \<open>Two logs of one chain that differ in their transaction or their index within it never share a
  replay preimage, so short of a SHA-256 collision the contract treats them as two payments.\<close>

theorem replay_preimage_distinct:
  assumes "replay_preimage t i = Inr p" "replay_preimage t' i' = Inr p'"
    and "matches_hex 64 (drop 2 t)" "matches_hex 64 (drop 2 t')"
  shows "p = p' \<longleftrightarrow> bytes_of_hex (drop 2 t) = bytes_of_hex (drop 2 t') \<and> i = i'"
proof -
  have len: "length (bytes_of_hex (drop 2 t)) = length (bytes_of_hex (drop 2 t'))"
    using assms(3,4) by (simp add: length_bytes_of_hex matches_hex_def)
  have i: "0 \<le> i" "i < 2 ^ 32" "p = bytes_of_hex (drop 2 t) @ be_bytes 4 (nat i)"
    and i': "0 \<le> i'" "i' < 2 ^ 32" "p' = bytes_of_hex (drop 2 t') @ be_bytes 4 (nat i')"
    using assms(1,2) by (auto simp: replay_preimage_def write_uint32_be_def bind_sum_eq_Inr split: if_splits)
  have "be_bytes 4 (nat i) = be_bytes 4 (nat i') \<longleftrightarrow> i = i'"
    using be_bytes_inject [of "nat i" 4 "nat i'"] i(1,2) i'(1,2) by auto
  with len i(3) i'(3) show ?thesis by simp
qed

lemma replay_preimage_distinct_witness:
  "replay_preimage (''0x'' @ replicate 64 CHR ''c'') 0 \<noteq> replay_preimage (''0x'' @ replicate 64 CHR ''c'') 1"
proof -
  have hex: "matches_hex 64 (drop 2 (''0x'' @ replicate 64 CHR ''c''))"
    by (simp add: is_hex_def hex_val_def)
  obtain p p' where p: "replay_preimage (''0x'' @ replicate 64 CHR ''c'') 0 = Inr p"
    "replay_preimage (''0x'' @ replicate 64 CHR ''c'') 1 = Inr p'"
    by (simp add: replay_preimage_def u32_max_def)
  from replay_preimage_distinct [OF p hex hex] p show ?thesis by simp
qed

end
