(* ===== verification/Eth_Polling.thy ===== *)
theory Eth_Polling
  imports Eth_Listener
begin

text \<open>
  Overlapping polls of the Ethereum listener (\<open>EthChainListener.start\<close> and \<open>pollOnce\<close> of \<open>relayer/index.ts\<close>).
  The timer starts a poll whatever became of the one before, and a poll gives way at three \<open>await\<close>s: for the
  block number, for the logs, and for the callback of every event.  A poll in flight is the \<open>await\<close> it stands at with the
  local variables it needs afterwards; one step is the code from one \<open>await\<close> to the next.  All polls share the cursor
  in memory and its file.  \<open>Eth_Listener.pollOnce\<close> is the run of a poll that nothing overlaps (\<open>lone_poll\<close>).
\<close>

section \<open>Polls in flight\<close>

text \<open>Waiting for the block number of a fresh install, for that of a later poll, for the logs of a range, for the callback
  of an event (with the logs still to come and the last block of the range); or at its end, which a throw reaches too.\<close>

datatype poll_stage =
    AwaitFirst
  | AwaitHead
  | AwaitLogs int int
  | AwaitHandler bridge_event "json list" int
  | PollEnded

text \<open>\<open>pl_called\<close> are the events the callback was called with, \<open>pl_done\<close> those whose callback resolved.\<close>

record eth_polling =
  pl_fromBlock :: string
  pl_store :: "string store_file"
  pl_called :: "bridge_event list"
  pl_done :: "bridge_event list"
  pl_polls :: "poll_stage list"

definition set_stage :: "nat \<Rightarrow> poll_stage \<Rightarrow> eth_polling \<Rightarrow> eth_polling" where
  "set_stage i p w = w\<lparr>pl_polls := (pl_polls w)[i := p]\<rparr>"

definition begin_poll :: "eth_polling \<Rightarrow> eth_polling" where
  "begin_poll w =
     w\<lparr>pl_polls := pl_polls w @ [if pl_fromBlock w = ''latest'' then AwaitFirst else AwaitHead]\<rparr>"

definition save_cursor :: "string \<Rightarrow> (eth_polling, string, unit) op" where
  "save_cursor b w = (case block_save b (pl_store w) of (r, f) \<Rightarrow> (r, w\<lparr>pl_store := f\<rparr>))"

text \<open>A fresh install: the file is written first, and the cursor only if that worked.\<close>

definition first_head :: "nat \<Rightarrow> string \<Rightarrow> eth_polling \<Rightarrow> eth_polling" where
  "first_head i latest w =
     set_stage i PollEnded (snd (and_then (save_cursor latest) (\<lambda>_ s. (Inr (), s\<lparr>pl_fromBlock := latest\<rparr>)) w))"

text \<open>What a poll does with the block number: it ends, or asks for the logs of a range.  \<open>None\<close> is \<open>NaN\<close>.\<close>

definition range_stage :: "eth_config \<Rightarrow> int option \<Rightarrow> int option \<Rightarrow> poll_stage" where
  "range_stage cfg fromNum safeTo =
     (case (fromNum, safeTo) of
        (Some a, Some b) \<Rightarrow>
          if b < a then PollEnded
          else if max_range cfg < 1 then PollEnded
          else AwaitLogs a (min (a + max_range cfg - 1) b)
      | _ \<Rightarrow> PollEnded)"

text \<open>The next log that is an event, with the logs after it.\<close>

fun next_event :: "platform \<Rightarrow> eth_config \<Rightarrow> json list \<Rightarrow> (bridge_event \<times> json list) option" where
  "next_event K cfg [] = None"
| "next_event K cfg (log # logs) =
     (if removed log then next_event K cfg logs
      else case eth_decode K cfg log of None \<Rightarrow> next_event K cfg logs | Some e \<Rightarrow> Some (e, logs))"

text \<open>The loop up to the next call of the callback, or the new cursor: in memory, then in the file.\<close>

definition deliver_next ::
  "platform \<Rightarrow> eth_config \<Rightarrow> nat \<Rightarrow> json list \<Rightarrow> int \<Rightarrow> eth_polling \<Rightarrow> eth_polling" where
  "deliver_next K cfg i logs q w =
     (case next_event K cfg logs of
        Some (e, rest) \<Rightarrow> set_stage i (AwaitHandler e rest q) (w\<lparr>pl_called := pl_called w @ [e]\<rparr>)
      | None \<Rightarrow> set_stage i PollEnded
          (snd (save_cursor (hex_quantity (q + 1)) (w\<lparr>pl_fromBlock := hex_quantity (q + 1)\<rparr>))))"

text \<open>The node answers the request poll \<open>i\<close> waits for.  The cursor is read only now.\<close>

definition poll_answered :: "platform \<Rightarrow> eth_config \<Rightarrow> eth_rpc \<Rightarrow> nat \<Rightarrow> eth_polling \<Rightarrow> eth_polling" where
  "poll_answered K cfg rpc i w =
     (case pl_polls w ! i of
        AwaitFirst \<Rightarrow>
          (case getBlockNumber rpc of Inl _ \<Rightarrow> set_stage i PollEnded w | Inr latest \<Rightarrow> first_head i latest w)
      | AwaitHead \<Rightarrow>
          (case getBlockNumber rpc of
             Inl _ \<Rightarrow> set_stage i PollEnded w
           | Inr latest \<Rightarrow>
               set_stage i (range_stage cfg (parse_int 16 (pl_fromBlock w)) (safe_block cfg latest)) w)
      | AwaitLogs a b \<Rightarrow>
          (case rpcCall rpc ''eth_getLogs'' [log_filter cfg a b] of
             Inl _ \<Rightarrow> set_stage i PollEnded w
           | Inr r \<Rightarrow> deliver_next K cfg i (case r of JArr logs \<Rightarrow> logs | _ \<Rightarrow> []) b w)
      | _ \<Rightarrow> w)"

text \<open>The callback poll \<open>i\<close> waits for rejects or resolves.\<close>

definition poll_handled ::
  "platform \<Rightarrow> eth_config \<Rightarrow> string + unit \<Rightarrow> nat \<Rightarrow> eth_polling \<Rightarrow> eth_polling" where
  "poll_handled K cfg r i w =
     (case pl_polls w ! i of
        AwaitHandler e rest q \<Rightarrow>
          (case r of
             Inl _ \<Rightarrow> set_stage i PollEnded w
           | Inr _ \<Rightarrow> deliver_next K cfg i rest q (w\<lparr>pl_done := pl_done w @ [e]\<rparr>))
      | _ \<Rightarrow> w)"

text \<open>Steps in any order: the timer ticks, one of the \<open>nodes\<close> answers a poll, a callback settles.\<close>

inductive polling_step ::
  "platform \<Rightarrow> eth_config \<Rightarrow> (eth_rpc \<Rightarrow> bool) \<Rightarrow> eth_polling \<Rightarrow> eth_polling \<Rightarrow> bool"
  for K :: platform and cfg :: eth_config and nodes :: "eth_rpc \<Rightarrow> bool" where
  ticked: "polling_step K cfg nodes w (begin_poll w)"
| answered: "i < length (pl_polls w) \<Longrightarrow> nodes rpc \<Longrightarrow> polling_step K cfg nodes w (poll_answered K cfg rpc i w)"
| handled: "i < length (pl_polls w) \<Longrightarrow> polling_step K cfg nodes w (poll_handled K cfg r i w)"

inductive_cases polling_stepE: "polling_step K cfg nodes w w'"

text \<open>The constructor: the cursor is what the file holds.\<close>

definition open_polling :: "string store_file \<Rightarrow> string + eth_polling" where
  "open_polling f =
     bind_sum (block_load f) (\<lambda>loaded.
       Inr \<lparr>pl_fromBlock = (case loaded of None \<Rightarrow> ''latest'' | Some b \<Rightarrow> b), pl_store = f,
            pl_called = [], pl_done = [], pl_polls = []\<rparr>)"

section \<open>A poll that nothing overlaps\<close>

lemma next_event_None: "next_event K cfg logs = None \<Longrightarrow> delivered K cfg logs = []"
  by (induction logs) (auto simp: delivered_def List.map_filter_simps split: if_splits option.splits)

lemma next_event_Some:
  "next_event K cfg logs = Some (e, rest) \<Longrightarrow> delivered K cfg logs = e # delivered K cfg rest"
  by (induction logs) (auto simp: delivered_def List.map_filter_simps split: if_splits option.splits)

lemma next_event_shorter: "next_event K cfg logs = Some (e, rest) \<Longrightarrow> length rest < length logs"
  by (induction logs) (auto split: if_splits option.splits)

text \<open>The listener of \<open>Eth_Listener\<close> with these polls under way.\<close>

definition polling_of :: "bridge_event list eth_state \<Rightarrow> poll_stage list \<Rightarrow> eth_polling" where
  "polling_of st ps = \<lparr>pl_fromBlock = es_fromBlock st, pl_store = es_store st, pl_called = es_world st,
     pl_done = es_world st, pl_polls = ps\<rparr>"

lemma set_stage_last [simp]:
  "set_stage (length ps) p (polling_of st (ps @ [p'])) = polling_of st (ps @ [p])"
  by (simp add: set_stage_def polling_of_def)

lemma save_cursor_of:
  "save_cursor b (polling_of st ps) = (case save_block b st of (r, st') \<Rightarrow> (r, polling_of st' ps))"
  by (simp add: save_cursor_def save_block_def polling_of_def split: prod.splits)

definition end_of_range :: "int \<Rightarrow> bridge_event list eth_state \<Rightarrow> bridge_event list eth_state" where
  "end_of_range q st = snd (save_block (hex_quantity (q + 1)) (st\<lparr>es_fromBlock := hex_quantity (q + 1)\<rparr>))"

lemma lone_deliveries:
  "rtranclp (polling_step K cfg nodes) (deliver_next K cfg (length ps) logs q (polling_of st (ps @ [p])))
     (polling_of (end_of_range q (st\<lparr>es_world := es_world st @ delivered K cfg logs\<rparr>)) (ps @ [PollEnded]))"
proof (induction logs arbitrary: st p rule: length_induct)
  case (1 logs)
  show ?case
  proof (cases "next_event K cfg logs")
    case None
    have from_block: "(polling_of st qs)\<lparr>pl_fromBlock := b\<rparr> = polling_of (st\<lparr>es_fromBlock := b\<rparr>) qs" for b qs
      by (simp add: polling_of_def)
    obtain r st' where save: "save_block (hex_quantity (q + 1)) (st\<lparr>es_fromBlock := hex_quantity (q + 1)\<rparr>) = (r, st')"
      by (rule prod.exhaust)
    from None have "deliver_next K cfg (length ps) logs q (polling_of st (ps @ [p])) = polling_of st' (ps @ [PollEnded])"
      by (simp add: deliver_next_def from_block save_cursor_of save)
    with next_event_None [OF None] save show ?thesis by (simp add: end_of_range_def)
  next
    case (Some er)
    obtain e rest where er: "er = (e, rest)" by (rule prod.exhaust)
    note more = next_event_Some [OF Some [unfolded er]]
    let ?w = "deliver_next K cfg (length ps) logs q (polling_of st (ps @ [p]))"
    let ?st = "st\<lparr>es_world := es_world st @ [e]\<rparr>"
    have stage: "pl_polls ?w = ps @ [AwaitHandler e rest q]"
      using Some by (simp add: deliver_next_def er set_stage_def polling_of_def)
    have "polling_step K cfg nodes ?w (poll_handled K cfg (Inr ()) (length ps) ?w)"
      by (rule polling_step.handled) (simp add: stage)
    moreover have "poll_handled K cfg (Inr ()) (length ps) ?w
        = deliver_next K cfg (length ps) rest q (polling_of ?st (ps @ [AwaitHandler e rest q]))"
      unfolding poll_handled_def stage using Some
      by (simp add: deliver_next_def er set_stage_def polling_of_def)
    moreover from 1 next_event_shorter [OF Some [unfolded er]]
    have "rtranclp (polling_step K cfg nodes)
        (deliver_next K cfg (length ps) rest q (polling_of ?st (ps @ [AwaitHandler e rest q])))
        (polling_of (end_of_range q (?st\<lparr>es_world := es_world ?st @ delivered K cfg rest\<rparr>)) (ps @ [PollEnded]))"
      by blast
    ultimately show ?thesis using more by (simp add: converse_rtranclp_into_rtranclp)
  qed
qed

lemma lone_poll:
  "rtranclp (polling_step K cfg (\<lambda>r. r = rpc)) (polling_of st ps)
     (polling_of (pollOnce K cfg rpc record_event st) (ps @ [PollEnded]))"
proof -
  let ?step = "polling_step K cfg (\<lambda>r. r = rpc)" and ?i = "length ps"
  let ?done = "polling_of (pollOnce K cfg rpc record_event st) (ps @ [PollEnded])"
  define p where "p = (if es_fromBlock st = ''latest'' then AwaitFirst else AwaitHead)"
  let ?w = "polling_of st (ps @ [p])"
  have "?step (polling_of st ps) ?w"
    using polling_step.ticked [of K cfg "\<lambda>r. r = rpc" "polling_of st ps"]
    by (simp add: begin_poll_def polling_of_def p_def)
  moreover have head: "?step ?w (poll_answered K cfg rpc ?i ?w)"
    by (rule polling_step.answered) (simp_all add: polling_of_def)
  have stage: "pl_polls (polling_of st qs) = qs" "pl_fromBlock (polling_of st qs) = es_fromBlock st" for qs
    by (simp_all add: polling_of_def)
  have "rtranclp ?step (poll_answered K cfg rpc ?i ?w) ?done"
  proof (cases "getBlockNumber rpc")
    case (Inl err)
    then have "poll_answered K cfg rpc ?i ?w = ?done"
      by (simp add: poll_answered_def stage p_def pollOnce_body poll_body_def)
    then show ?thesis by simp
  next
    case (Inr latest)
    show ?thesis
    proof (cases "es_fromBlock st = ''latest''")
      case True
      obtain r st' where save: "save_block latest st = (r, st')" by (rule prod.exhaust)
      have from_block: "(polling_of st' qs)\<lparr>pl_fromBlock := b\<rparr> = polling_of (st'\<lparr>es_fromBlock := b\<rparr>) qs" for b qs
        by (simp add: polling_of_def)
      have "poll_answered K cfg rpc ?i ?w = ?done"
        using Inr True save
        by (cases r) (simp_all add: poll_answered_def stage p_def pollOnce_body poll_body_def first_head_def and_then_def
            save_cursor_of from_block)
      then show ?thesis by simp
    next
      case False
      let ?from = "parse_int 16 (es_fromBlock st)" and ?safe = "safe_block cfg latest"
      have first: "poll_answered K cfg rpc ?i ?w = polling_of st (ps @ [range_stage cfg ?from ?safe])"
        using Inr False by (simp add: poll_answered_def stage p_def)
      show ?thesis
      proof (cases "range_stage cfg ?from ?safe")
        case PollEnded
        have "pollOnce K cfg rpc record_event st = st"
          using PollEnded Inr False
          by (cases ?from; cases ?safe)
            (auto simp: range_stage_def pollOnce_body poll_body_def getLogs_def Let_def split: if_splits)
        with PollEnded first show ?thesis by simp
      next
        case (AwaitLogs a b)
        then have ab: "?from = Some a" "\<exists>s. ?safe = Some s \<and> a \<le> s \<and> \<not> max_range cfg < 1 \<and> b = min (a + max_range cfg - 1) s"
          by (auto simp: range_stage_def split: option.splits if_splits)
        then obtain s where s: "?safe = Some s" "a \<le> s" "\<not> max_range cfg < 1" "b = min (a + max_range cfg - 1) s" by blast
        have logs: "getLogs cfg rpc ?from ?safe = bind_sum (rpcCall rpc ''eth_getLogs'' [log_filter cfg a b]) (\<lambda>r.
            Inr (case r of JArr logs \<Rightarrow> logs | _ \<Rightarrow> [], Some b))"
          using ab(1) s by (simp add: getLogs_def Let_def)
        let ?w1 = "polling_of st (ps @ [AwaitLogs a b])"
        have step: "?step ?w1 (poll_answered K cfg rpc ?i ?w1)"
          by (rule polling_step.answered) (simp_all add: polling_of_def)
        have "rtranclp ?step (poll_answered K cfg rpc ?i ?w1) ?done"
        proof (cases "rpcCall rpc ''eth_getLogs'' [log_filter cfg a b]")
          case (Inl err)
          with \<open>getBlockNumber rpc = Inr latest\<close> False ab(1) s(1,2) logs show ?thesis
            by (simp add: poll_answered_def stage pollOnce_body poll_body_def)
        next
          case (Inr r)
          let ?logs = "case r of JArr logs \<Rightarrow> logs | _ \<Rightarrow> []"
          have "pollOnce K cfg rpc record_event st = end_of_range b (st\<lparr>es_world := es_world st @ delivered K cfg ?logs\<rparr>)"
            using \<open>getBlockNumber rpc = Inr latest\<close> False ab(1) s(1,2) logs Inr
            by (simp add: pollOnce_body poll_body_def for_each_record end_of_range_def)
          with lone_deliveries [of K cfg "\<lambda>r. r = rpc" ps ?logs b st "AwaitLogs a b"] Inr show ?thesis
            by (simp add: poll_answered_def stage)
        qed
        with step AwaitLogs first show ?thesis by (simp add: converse_rtranclp_into_rtranclp)
      qed (auto simp: range_stage_def split: option.splits if_splits)
    qed
  qed
  with head have "rtranclp ?step ?w ?done" by (rule converse_rtranclp_into_rtranclp)
  ultimately show ?thesis by (rule converse_rtranclp_into_rtranclp)
qed

section \<open>What overlapping polls keep\<close>

text \<open>The events of the blocks from \<open>a\<close> to \<open>b\<close>.\<close>

definition events_between ::
  "platform \<Rightarrow> eth_config \<Rightarrow> (int \<Rightarrow> json list) \<Rightarrow> int \<Rightarrow> int \<Rightarrow> bridge_event set" where
  "events_between K cfg chain a b = set (delivered K cfg (concat (map chain [a..b])))"

lemma delivered_concat: "set (delivered K cfg (concat xss)) = (\<Union>xs \<in> set xss. set (delivered K cfg xs))"
  by (induction xss) (auto simp: delivered_append, simp add: delivered_def List.map_filter_simps)

lemma events_between_iff:
  "e \<in> events_between K cfg chain a b \<longleftrightarrow> (\<exists>n. a \<le> n \<and> n \<le> b \<and> e \<in> set (delivered K cfg (chain n)))"
  by (auto simp: events_between_def delivered_concat)

lemma events_between_join:
  "events_between K cfg chain a b \<subseteq> events_between K cfg chain a (m - 1) \<union> events_between K cfg chain m b"
  unfolding subset_iff events_between_iff Un_iff by (metis linorder_not_less zle_diff1_eq)

text \<open>A block deep enough below a head that one of the nodes reports, or block 0, which \<open>safe_block\<close> never holds back.\<close>

definition final_block :: "eth_config \<Rightarrow> (eth_rpc \<Rightarrow> bool) \<Rightarrow> int \<Rightarrow> bool" where
  "final_block cfg nodes b \<longleftrightarrow> b = 0 \<or> (\<exists>rpc. nodes rpc \<and> confirmed_by cfg rpc b)"

lemma final_block_below: "final_block cfg nodes q \<Longrightarrow> 0 \<le> b \<Longrightarrow> b \<le> q \<Longrightarrow> final_block cfg nodes b"
  by (fastforce simp: final_block_def confirmed_by_def)

text \<open>A poll that waits for logs found everything below its range handed on; one that waits for a callback has
  handed on its range but for that event and the logs to come.\<close>

fun stage_ok ::
  "platform \<Rightarrow> eth_config \<Rightarrow> (int \<Rightarrow> json list) \<Rightarrow> (eth_rpc \<Rightarrow> bool) \<Rightarrow> int \<Rightarrow> bridge_event set \<Rightarrow> poll_stage \<Rightarrow> bool" where
  "stage_ok K cfg chain nodes a D AwaitFirst = False"
| "stage_ok K cfg chain nodes a D (AwaitLogs f q) =
     (a \<le> f \<and> f \<le> q \<and> q < 2 ^ 53 \<and> final_block cfg nodes q \<and> events_between K cfg chain a (f - 1) \<subseteq> D)"
| "stage_ok K cfg chain nodes a D (AwaitHandler e rest q) =
     (a \<le> q \<and> q < 2 ^ 53 \<and> final_block cfg nodes q
      \<and> events_between K cfg chain a q \<subseteq> insert e (D \<union> set (delivered K cfg rest))
      \<and> set (delivered K cfg rest) \<subseteq> events_between K cfg chain a q)"
| "stage_ok K cfg chain nodes a D _ = True"

lemma stage_ok_mono: "stage_ok K cfg chain nodes a D p \<Longrightarrow> D \<subseteq> D' \<Longrightarrow> stage_ok K cfg chain nodes a D' p"
  by (cases p) auto

text \<open>A cursor before which every event was handed on.\<close>

definition cursor_ok ::
  "platform \<Rightarrow> eth_config \<Rightarrow> (int \<Rightarrow> json list) \<Rightarrow> int \<Rightarrow> bridge_event set \<Rightarrow> string \<Rightarrow> bool" where
  "cursor_ok K cfg chain a D b \<longleftrightarrow>
     (\<exists>m. b = hex_quantity m \<and> a \<le> m \<and> m \<le> 2 ^ 53 \<and> events_between K cfg chain a (m - 1) \<subseteq> D)"

lemma cursor_ok_not_latest: "cursor_ok K cfg chain a D b \<Longrightarrow> b \<noteq> ''latest''"
  by (auto simp: cursor_ok_def)

lemma cursor_ok_mono: "cursor_ok K cfg chain a D b \<Longrightarrow> D \<subseteq> D' \<Longrightarrow> cursor_ok K cfg chain a D' b"
  by (auto simp: cursor_ok_def)

definition polling_inv ::
  "platform \<Rightarrow> eth_config \<Rightarrow> (int \<Rightarrow> json list) \<Rightarrow> (eth_rpc \<Rightarrow> bool) \<Rightarrow> int \<Rightarrow> eth_polling \<Rightarrow> bool" where
  "polling_inv K cfg chain nodes a w \<longleftrightarrow>
     cursor_ok K cfg chain a (set (pl_done w)) (pl_fromBlock w)
     \<and> (\<exists>b. contents (pl_store w) = Holds b \<and> cursor_ok K cfg chain a (set (pl_done w)) b)
     \<and> list_all (stage_ok K cfg chain nodes a (set (pl_done w))) (pl_polls w)
     \<and> (\<forall>e \<in> set (pl_called w). \<exists>q. final_block cfg nodes q \<and> e \<in> events_between K cfg chain a q)"

lemma list_all_update: "list_all P xs \<Longrightarrow> P x \<Longrightarrow> list_all P (xs[i := x])"
  by (auto simp: list_all_iff dest: set_update_subset_insert [THEN subsetD])

lemma set_stage_inv:
  "polling_inv K cfg chain nodes a w \<Longrightarrow> stage_ok K cfg chain nodes a (set (pl_done w)) p
     \<Longrightarrow> polling_inv K cfg chain nodes a (set_stage i p w)"
  by (simp add: polling_inv_def set_stage_def list_all_update)

lemma ended_inv: "polling_inv K cfg chain nodes a w \<Longrightarrow> polling_inv K cfg chain nodes a (set_stage i PollEnded w)"
  by (simp add: set_stage_inv)

lemma save_cursor_inv:
  assumes "polling_inv K cfg chain nodes a w" "cursor_ok K cfg chain a (set (pl_done w)) b"
  shows "polling_inv K cfg chain nodes a (snd (save_cursor b (w\<lparr>pl_fromBlock := b\<rparr>)))"
proof -
  obtain r f where save: "block_save b (pl_store w) = (r, f)" by (rule prod.exhaust)
  with block_disk.put_atomic [of b "pl_store w"] have "contents f \<in> {contents (pl_store w), Holds b}" by simp
  with assms save show ?thesis by (auto simp: polling_inv_def save_cursor_def)
qed

text \<open>Going on with a range whose events are handed on but for those of the logs to come.\<close>

lemma deliver_next_inv:
  assumes "polling_inv K cfg chain nodes a w" "a \<le> q" "q < 2 ^ 53" "final_block cfg nodes q"
    and "events_between K cfg chain a q \<subseteq> set (pl_done w) \<union> set (delivered K cfg logs)"
    and "set (delivered K cfg logs) \<subseteq> events_between K cfg chain a q"
  shows "polling_inv K cfg chain nodes a (deliver_next K cfg i logs q w)"
proof (cases "next_event K cfg logs")
  case None
  from next_event_None [OF None] assms(5) have "events_between K cfg chain a q \<subseteq> set (pl_done w)" by simp
  with assms(2,3) have "cursor_ok K cfg chain a (set (pl_done w)) (hex_quantity (q + 1))"
    unfolding cursor_ok_def by (intro exI [of _ "q + 1"]) simp
  from save_cursor_inv [OF assms(1) this] None show ?thesis by (simp add: deliver_next_def ended_inv)
next
  case (Some er)
  obtain e rest where er: "er = (e, rest)" by (rule prod.exhaust)
  note more = next_event_Some [OF Some [unfolded er]]
  have "stage_ok K cfg chain nodes a (set (pl_done w)) (AwaitHandler e rest q)"
    using assms(2-6) more by auto
  moreover have "polling_inv K cfg chain nodes a (w\<lparr>pl_called := pl_called w @ [e]\<rparr>)"
    using assms(1,4,6) more by (auto simp: polling_inv_def)
  ultimately show ?thesis using Some by (simp add: deliver_next_def er set_stage_inv)
qed

lemma range_stage_ok:
  assumes "honest_node chain cfg rpc" "nodes rpc" "0 \<le> a" "0 \<le> confirmation_depth cfg"
    and "getBlockNumber rpc = Inr latest" "cursor_ok K cfg chain a D b"
  shows "stage_ok K cfg chain nodes a D (range_stage cfg (parse_int 16 b) (safe_block cfg latest))"
proof -
  from assms(6) obtain m where m: "b = hex_quantity m" "a \<le> m" "m \<le> 2 ^ 53" "events_between K cfg chain a (m - 1) \<subseteq> D"
    unfolding cursor_ok_def by blast
  then have parse: "parse_int 16 b = Some m" using assms(3) by simp
  show ?thesis
  proof (cases "parse_int 16 latest")
    case None
    then show ?thesis by (simp add: range_stage_def safe_block_def parse)
  next
    case (Some l)
    have "l < 2 ^ 53" using assms(1,5) Some by (simp add: honest_node_def)
    have safe: "safe_block cfg latest = Some (max (l - confirmation_depth cfg) 0)"
      by (simp add: safe_block_def Some confirmation_depth_def)
    let ?q = "min (m + max_range cfg - 1) (max (l - confirmation_depth cfg) 0)"
    have "stage_ok K cfg chain nodes a D (AwaitLogs m ?q)"
      if "\<not> max (l - confirmation_depth cfg) 0 < m" "\<not> max_range cfg < 1"
    proof -
      have q: "m \<le> ?q" "?q \<le> max (l - confirmation_depth cfg) 0" using that by auto
      then have "?q < 2 ^ 53" using \<open>l < 2 ^ 53\<close> assms(4) by auto
      moreover have "?q = 0 \<or> ?q \<le> l - confirmation_depth cfg" using q m(2) assms(3) by auto
      then have "final_block cfg nodes ?q"
        using assms(2,5) Some unfolding final_block_def confirmed_by_def by blast
      ultimately show ?thesis using m q by simp
    qed
    then show ?thesis by (simp add: range_stage_def parse safe)
  qed
qed

lemma polling_inv_step:
  assumes "polling_step K cfg nodes w w'" "polling_inv K cfg chain nodes a w"
    and "\<And>rpc. nodes rpc \<Longrightarrow> honest_node chain cfg rpc" "0 \<le> a" "0 \<le> confirmation_depth cfg"
  shows "polling_inv K cfg chain nodes a w'"
  using assms(1)
proof (cases rule: polling_step.cases)
  case ticked
  have "pl_fromBlock w \<noteq> ''latest''"
    using assms(2) cursor_ok_not_latest unfolding polling_inv_def by blast
  with ticked assms(2) show ?thesis by (simp add: polling_inv_def begin_poll_def)
next
  case (answered i rpc)
  from assms(2) answered(2) have stage: "stage_ok K cfg chain nodes a (set (pl_done w)) (pl_polls w ! i)"
    by (simp add: polling_inv_def list_all_length)
  note honest = assms(3) [OF answered(3)]
  show ?thesis
  proof (cases "pl_polls w ! i")
    case AwaitHead
    show ?thesis
    proof (cases "getBlockNumber rpc")
      case (Inr latest)
      have "cursor_ok K cfg chain a (set (pl_done w)) (pl_fromBlock w)" using assms(2) by (simp add: polling_inv_def)
      from range_stage_ok [where nodes = nodes, OF honest answered(3) assms(4,5) Inr this] answered(1) AwaitHead Inr assms(2) show ?thesis
        by (simp add: poll_answered_def set_stage_inv)
    qed (simp add: answered(1) AwaitHead poll_answered_def ended_inv assms(2))
  next
    case (AwaitLogs f q)
    with stage have fq: "a \<le> f" "f \<le> q" "q < 2 ^ 53" "final_block cfg nodes q"
      "events_between K cfg chain a (f - 1) \<subseteq> set (pl_done w)" by simp_all
    from honest assms(4) fq consider
      (fails) err where "rpcCall rpc ''eth_getLogs'' [log_filter cfg f q] = Inl err"
      | (answers) "rpcCall rpc ''eth_getLogs'' [log_filter cfg f q] = Inr (JArr (concat (map chain [f..q])))"
      unfolding honest_node_def by (meson order_trans)
    then show ?thesis
    proof cases
      case fails
      with answered(1) AwaitLogs assms(2) show ?thesis by (simp add: poll_answered_def ended_inv)
    next
      case answers
      have "polling_inv K cfg chain nodes a (deliver_next K cfg i (concat (map chain [f..q])) q w)"
      proof (rule deliver_next_inv [OF assms(2) _ fq(3,4)])
        show "a \<le> q" using fq by simp
        show "events_between K cfg chain a q \<subseteq> set (pl_done w) \<union> set (delivered K cfg (concat (map chain [f..q])))"
          using events_between_join [of K cfg chain a q f] fq(5) unfolding events_between_def by blast
        show "set (delivered K cfg (concat (map chain [f..q]))) \<subseteq> events_between K cfg chain a q"
          unfolding events_between_def [symmetric] subset_iff events_between_iff by (meson fq(1) order_trans)
      qed
      with answered(1) AwaitLogs answers show ?thesis by (simp add: poll_answered_def)
    qed
  qed (use stage answered(1) assms(2) in \<open>simp_all add: poll_answered_def\<close>)
next
  case (handled i r)
  from assms(2) handled(2) have stage: "stage_ok K cfg chain nodes a (set (pl_done w)) (pl_polls w ! i)"
    by (simp add: polling_inv_def list_all_length)
  show ?thesis
  proof (cases "\<exists>e rest q. pl_polls w ! i = AwaitHandler e rest q \<and> r = Inr ()")
    case True
    then obtain e rest q where at: "pl_polls w ! i = AwaitHandler e rest q" "r = Inr ()" by blast
    let ?w = "w\<lparr>pl_done := pl_done w @ [e]\<rparr>"
    have inv: "polling_inv K cfg chain nodes a ?w"
      using assms(2) unfolding polling_inv_def
      by (auto simp: list_all_iff intro: cursor_ok_mono stage_ok_mono)
    have "polling_inv K cfg chain nodes a (deliver_next K cfg i rest q ?w)"
      by (rule deliver_next_inv [OF inv]) (use stage at in auto)
    with handled(1) at show ?thesis by (simp add: poll_handled_def)
  next
    case False
    with handled(1) assms(2) show ?thesis
      by (auto simp: poll_handled_def ended_inv split: poll_stage.splits sum.splits)
  qed
qed

lemma polling_inv_reachable:
  assumes "rtranclp (polling_step K cfg nodes) w w'" "polling_inv K cfg chain nodes a w"
    and "\<And>rpc. nodes rpc \<Longrightarrow> honest_node chain cfg rpc" "0 \<le> a" "0 \<le> confirmation_depth cfg"
  shows "polling_inv K cfg chain nodes a w'"
  using assms(1,2) by (induction rule: rtranclp_induct) (blast intro: polling_inv_step [OF _ _ assms(3-5)])+

section \<open>Properties\<close>

text \<open>C14: No restart skips a log, although polls overlap.  A listener opened on a file that names block \<open>a\<close>,
  at most 2^53, is polled at any times, by nodes that answer from one history of logs or fail, its callbacks resolve or reject in any order, and writes of the file may
  fail.  Then at every moment the callback has resolved for every event of the blocks below the cursor in memory, and for
  every event of the blocks below the one a listener opened on the file now starts at; and every event it was called with is of a
  block from \<open>a\<close> on that lies the confirmation depth below a reported head, block 0 aside.  That an event is
  delivered once is not promised here (\<open>overlapping_polls_deliver_twice\<close>), nor that the cursor never moves back
  (\<open>overlapping_polls_move_cursor_back\<close>); and a fresh install, with no block in its file, may skip blocks
  when its first polls overlap (\<open>overlapping_first_polls_skip_blocks\<close>).\<close>

theorem restart_skips_no_log:
  assumes "open_polling f = Inr w" "contents f = Holds (hex_quantity a)" "0 \<le> a" "a \<le> 2 ^ 53" "0 \<le> confirmation_depth cfg"
    and "\<And>rpc. nodes rpc \<Longrightarrow> honest_node chain cfg rpc" "rtranclp (polling_step K cfg nodes) w w'"
  shows "(\<exists>m. pl_fromBlock w' = hex_quantity m \<and> a \<le> m \<and> events_between K cfg chain a (m - 1) \<subseteq> set (pl_done w'))
    \<and> (\<exists>d v. open_polling (pl_store w') = Inr v \<and> pl_fromBlock v = hex_quantity d \<and> a \<le> d
         \<and> events_between K cfg chain a (d - 1) \<subseteq> set (pl_done w'))
    \<and> (\<forall>e \<in> set (pl_called w'). \<exists>b. a \<le> b \<and> (b = 0 \<or> (\<exists>rpc. nodes rpc \<and> confirmed_by cfg rpc b))
         \<and> e \<in> set (delivered K cfg (chain b)))"
proof -
  from assms(1,2) have w: "w = \<lparr>pl_fromBlock = hex_quantity a, pl_store = f, pl_called = [], pl_done = [], pl_polls = []\<rparr>"
    by (simp add: open_polling_def block_load_def)
  have "events_between K cfg chain a (a - 1) = {}" by (auto simp: events_between_iff)
  with assms(2,4) have "polling_inv K cfg chain nodes a w"
    by (auto simp: w polling_inv_def cursor_ok_def)
  from polling_inv_reachable [OF assms(7) this assms(6) assms(3,5)] have inv: "polling_inv K cfg chain nodes a w'" .
  then obtain b where b: "contents (pl_store w') = Holds b" "cursor_ok K cfg chain a (set (pl_done w')) b"
    unfolding polling_inv_def by blast
  have "open_polling (pl_store w') = Inr \<lparr>pl_fromBlock = b, pl_store = pl_store w', pl_called = [], pl_done = [], pl_polls = []\<rparr>"
    using b(1) by (simp add: open_polling_def block_load_def)
  with b(2) have "\<exists>d v. open_polling (pl_store w') = Inr v \<and> pl_fromBlock v = hex_quantity d \<and> a \<le> d
      \<and> events_between K cfg chain a (d - 1) \<subseteq> set (pl_done w')"
    unfolding cursor_ok_def by auto
  moreover have "\<exists>m. pl_fromBlock w' = hex_quantity m \<and> a \<le> m \<and> events_between K cfg chain a (m - 1) \<subseteq> set (pl_done w')"
    using inv unfolding polling_inv_def cursor_ok_def by blast
  moreover have "\<exists>b. a \<le> b \<and> final_block cfg nodes b \<and> e \<in> set (delivered K cfg (chain b))" if "e \<in> set (pl_called w')" for e
  proof -
    from inv that obtain q where "final_block cfg nodes q" "e \<in> events_between K cfg chain a q"
      unfolding polling_inv_def by blast
    with assms(3) show ?thesis unfolding events_between_iff by (meson final_block_below order_trans)
  qed
  ultimately show ?thesis unfolding final_block_def by blast
qed

text \<open>Two overlapping polls, at the same cursor, whose range begins with an event: the callback is called twice with it.\<close>

lemma answered_step:
  "i < length (pl_polls w) \<Longrightarrow> nodes rpc \<Longrightarrow> poll_answered K cfg rpc i w = w'
     \<Longrightarrow> rtranclp (polling_step K cfg nodes) w' w'' \<Longrightarrow> rtranclp (polling_step K cfg nodes) w w''"
  using polling_step.answered [of i w nodes rpc K cfg] by (auto intro: converse_rtranclp_into_rtranclp)

lemma ticked_step:
  "rtranclp (polling_step K cfg nodes) (begin_poll w) w'' \<Longrightarrow> rtranclp (polling_step K cfg nodes) w w''"
  using polling_step.ticked [of K cfg nodes w] by (rule converse_rtranclp_into_rtranclp)

lemma overlapping_polls_deliver_twice:
  assumes "pl_polls w = []" "pl_fromBlock w = hex_quantity a" "nodes rpc" "getBlockNumber rpc = Inr latest"
    and "range_stage cfg (parse_int 16 (hex_quantity a)) (safe_block cfg latest) = AwaitLogs a b"
    and "rpcCall rpc ''eth_getLogs'' [log_filter cfg a b] = Inr (JArr logs)" "next_event K cfg logs = Some (e, rest)"
  shows "\<exists>w'. rtranclp (polling_step K cfg nodes) w w' \<and> pl_called w' = pl_called w @ [e, e]"
proof -
  let ?h = "AwaitHandler e rest b" and ?l = "AwaitLogs a b"
  have "rtranclp (polling_step K cfg nodes) w (w\<lparr>pl_called := pl_called w @ [e, e], pl_polls := [?h, ?h]\<rparr>)"
  proof (rule ticked_step, rule ticked_step)
    note node_step = answered_step [where nodes = nodes and rpc = rpc, OF _ assms(3)]
    let ?at = "\<lambda>c p q. w\<lparr>pl_called := pl_called w @ c, pl_polls := [p, q]\<rparr>"
    note run = poll_answered_def set_stage_def deliver_next_def assms
    have "begin_poll (begin_poll w) = ?at [] AwaitHead AwaitHead" using assms(1,2) by (simp add: begin_poll_def)
    moreover have "poll_answered K cfg rpc 0 (?at [] AwaitHead AwaitHead) = ?at [] ?l AwaitHead"
      "poll_answered K cfg rpc 1 (?at [] ?l AwaitHead) = ?at [] ?l ?l"
      "poll_answered K cfg rpc 0 (?at [] ?l ?l) = ?at [e] ?h ?l"
      "poll_answered K cfg rpc 1 (?at [e] ?h ?l) = ?at [e, e] ?h ?h"
      by (simp_all add: run)
    note path = this
    have "rtranclp (polling_step K cfg nodes) (?at [] AwaitHead AwaitHead) (?at [e, e] ?h ?h)"
      by (rule node_step [OF _ path(1)], simp, rule node_step [OF _ path(2)], simp,
          rule node_step [OF _ path(3)], simp, rule node_step [OF _ path(4)], simp) simp
    ultimately show "rtranclp (polling_step K cfg nodes) (begin_poll (begin_poll w)) (?at [e, e] ?h ?h)" by simp
  qed
  then show ?thesis by (intro exI [of _ "w\<lparr>pl_called := pl_called w @ [e, e], pl_polls := [?h, ?h]\<rparr>"]) simp
qed

text \<open>The slower of two polls ends last: its shorter range moves the cursor back, and if its write fails the file is ahead of
  memory, which is harmless by \<open>restart_skips_no_log\<close>.\<close>

lemma overlapping_polls_move_cursor_back:
  assumes "pl_polls w = [AwaitLogs a p, AwaitLogs a q]" "nodes rpc" "\<And>b. rpcCall rpc ''eth_getLogs'' [log_filter cfg a b] = Inr (JArr [])"
    and "write_results (pl_store w) = [True, False]"
  shows "\<exists>w1 w2. polling_step K cfg nodes w w1 \<and> pl_fromBlock w1 = hex_quantity (q + 1) \<and> polling_step K cfg nodes w1 w2
    \<and> pl_fromBlock w2 = hex_quantity (p + 1) \<and> contents (pl_store w2) = Holds (hex_quantity (q + 1))"
proof -
  let ?w1 = "poll_answered K cfg rpc 1 w" and ?w2 = "poll_answered K cfg rpc 0 (poll_answered K cfg rpc 1 w)"
  note run = poll_answered_def deliver_next_def set_stage_def save_cursor_def block_save_def writeJsonFileAtomic_def
    next_write_def assms(1,3,4) Let_def
  have "pl_fromBlock ?w1 = hex_quantity (q + 1)" "pl_polls ?w1 = [AwaitLogs a p, PollEnded]"
    "pl_fromBlock ?w2 = hex_quantity (p + 1)" "contents (pl_store ?w2) = Holds (hex_quantity (q + 1))"
    by (simp_all add: run)
  moreover have "polling_step K cfg nodes w ?w1" by (rule polling_step.answered) (simp_all add: assms(1,2))
  moreover have "polling_step K cfg nodes ?w1 ?w2"
    by (rule polling_step.answered) (simp_all add: calculation(2) [simplified] assms(2))
  ultimately show ?thesis by blast
qed

text \<open>A fresh install whose first two polls overlap: the later answer moves the cursor on to its head, and nothing queries
  the blocks in between.\<close>

lemma overlapping_first_polls_skip_blocks:
  assumes "pl_polls w = []" "pl_fromBlock w = ''latest''" "nodes rpc" "nodes rpc'" "m < n"
    and "getBlockNumber rpc = Inr (hex_quantity m)" "getBlockNumber rpc' = Inr (hex_quantity n)"
    and "write_results (pl_store w) = []"
  shows "\<exists>w1 w2. rtranclp (polling_step K cfg nodes) w w1 \<and> pl_fromBlock w1 = hex_quantity m \<and> polling_step K cfg nodes w1 w2
    \<and> pl_fromBlock w2 = hex_quantity n \<and> contents (pl_store w2) = Holds (hex_quantity n)
    \<and> list_all (\<lambda>p. p = PollEnded) (pl_polls w2) \<and> pl_called w2 = pl_called w"
proof -
  let ?w0 = "begin_poll (begin_poll w)"
  let ?w1 = "poll_answered K cfg rpc 0 ?w0" and ?w2 = "poll_answered K cfg rpc' 1 (poll_answered K cfg rpc 0 ?w0)"
  have w0: "?w0 = w\<lparr>pl_polls := [AwaitFirst, AwaitFirst]\<rparr>" by (simp add: begin_poll_def assms(1,2))
  note run = poll_answered_def first_head_def set_stage_def save_cursor_def block_save_def writeJsonFileAtomic_def
    next_write_def and_then_def assms(6-8) Let_def
  have ends: "pl_fromBlock ?w1 = hex_quantity m" "pl_polls ?w1 = [PollEnded, AwaitFirst]" "pl_fromBlock ?w2 = hex_quantity n"
    "contents (pl_store ?w2) = Holds (hex_quantity n)" "pl_polls ?w2 = [PollEnded, PollEnded]" "pl_called ?w2 = pl_called w"
    by (simp_all add: w0 run)
  have "rtranclp (polling_step K cfg nodes) w ?w1"
    by (rule ticked_step, rule ticked_step, rule answered_step [where nodes = nodes and rpc = rpc and i = 0, OF _ assms(3) refl]) (simp_all add: w0)
  moreover have "polling_step K cfg nodes ?w1 ?w2"
    by (rule polling_step.answered) (simp_all add: ends(2) [simplified] assms(4))
  ultimately show ?thesis using ends by (intro exI [of _ ?w1] exI [of _ ?w2]) simp
qed

text \<open>Two polls of one node, overlapping.\<close>

definition sample_file :: "string store_file" where
  "sample_file = \<lparr>contents = Holds (hex_quantity 1), write_results = [False]\<rparr>"

definition sample_polling :: eth_polling where
  "sample_polling = \<lparr>pl_fromBlock = hex_quantity 1, pl_store = sample_file, pl_called = [], pl_done = [], pl_polls = []\<rparr>"

lemma restart_skips_no_log_witness:
  "\<exists>w e d v. rtranclp (polling_step sample_platform sample_eth (\<lambda>r. r = node_over sample_chain 8)) sample_polling w
     \<and> pl_called w = [e, e] \<and> e \<in> set (delivered sample_platform sample_eth (sample_chain 5))
     \<and> open_polling (pl_store w) = Inr v \<and> pl_fromBlock v = hex_quantity d \<and> 1 \<le> d"
proof -
  let ?rpc = "node_over sample_chain 8"
  have honest: "honest_node sample_chain sample_eth rpc" if "rpc = ?rpc" for rpc using that by (simp add: node_over_honest)
  have opened: "open_polling sample_file = Inr sample_polling" "contents sample_file = Holds (hex_quantity 1)"
    by (simp_all add: open_polling_def block_load_def sample_file_def sample_polling_def)
  have head: "getBlockNumber ?rpc = Inr (hex_quantity 8)" by (simp add: getBlockNumber_def rpcCall_def node_over_def)
  have range: "range_stage sample_eth (parse_int 16 (hex_quantity 1)) (safe_block sample_eth (hex_quantity 8)) = AwaitLogs 1 6"
    by (simp add: range_stage_def safe_block_def sample_eth_def max_range_def)
  have logs: "rpcCall ?rpc ''eth_getLogs'' [log_filter sample_eth 1 6] = Inr (JArr (concat (map sample_chain [1..6])))"
    by (simp add: rpcCall_def node_over_def log_filter_def)
  have upto: "[1..6] = [1, 2, 3, 4, 5, 6 :: int]" by code_simp
  have one: "concat (map sample_chain [1..6]) = sample_chain 5"
    unfolding upto by (simp add: sample_chain_def)
  obtain e where e: "eth_decode sample_platform sample_eth
      (makeAbiLog ''GA'' ''CA'' 7 (''0x'' @ replicate 64 CHR ''c'') (''0x'' @ hex_of_nat 0)) = Some e"
    using eth_decode_encoded_log [of "''GA''" "''CA''" 7 "replicate 64 CHR ''c''" 0 sample_platform sample_eth]
    by (simp add: is_ascii_def)
  have "hex_of_nat 0 = ''0''" by code_simp
  with e have e: "eth_decode sample_platform sample_eth
      (makeAbiLog ''GA'' ''CA'' 7 (''0x'' @ replicate 64 CHR ''c'') ''0x0'') = Some e" by simp
  have "next_event sample_platform sample_eth (sample_chain 5) = Some (e, [])"
    using e by (simp add: sample_chain_def removed_def) (simp add: makeAbiLog_def)
  with overlapping_polls_deliver_twice [of sample_polling 1 "\<lambda>r. r = ?rpc" ?rpc, OF _ _ _ head range logs [unfolded one], of sample_platform e "[]"]
  obtain w where w: "rtranclp (polling_step sample_platform sample_eth (\<lambda>r. r = ?rpc)) sample_polling w" "pl_called w = [e, e]"
    by (auto simp: sample_polling_def)
  from restart_skips_no_log [OF opened _ _ _ honest w(1)]
  have "\<exists>d v. open_polling (pl_store w) = Inr v \<and> pl_fromBlock v = hex_quantity d \<and> 1 \<le> d"
    by (simp add: sample_eth_def confirmation_depth_def) blast
  moreover have "e \<in> set (delivered sample_platform sample_eth (sample_chain 5))"
    using next_event_Some [OF \<open>next_event sample_platform sample_eth (sample_chain 5) = Some (e, [])\<close>] by simp
  ultimately show ?thesis using w by blast
qed

end
