(* ===== verification/Solana_Listener.thy ===== *)
theory Solana_Listener
  imports Eth_Listener
begin

text \<open>
  The Solana log listener (\<open>SolanaChainListener\<close> of \<open>relayer/index.ts\<close>): base-58 decoding, the
  walk over the log lines of one transaction that decides which \<open>bridge_fund\<close> lines the bridge
  program itself emitted, live notifications, the backfill after a reconnect, and the reconnect
  delay.  The HTTP exchange is a function from method and parameters to a response.  Signatures in
  notifications are strings, as their type says.  The promise chain \<open>deliveryQueue\<close> runs one
  task at a time; once a task rejects, later ones are skipped until the next connection.
\<close>

section \<open>Base 58\<close>

definition base58_alphabet :: string where
  "base58_alphabet = ''123456789ABCDEFGHJKLMNPQRSTUVWXYZabcdefghijkmnopqrstuvwxyz''"

definition base58_map :: "char \<Rightarrow> nat option" where
  "base58_map c = map_of (zip base58_alphabet [0..<58]) c"

definition base58Decode :: "string \<Rightarrow> string + byte list" where
  "base58Decode input =
     (if input = [] then Inl ''empty base58 string''
      else if list_ex (\<lambda>ch. base58_map ch = None) input then Inl ''invalid base58 character''
      else let leadingZeros = length (takeWhile (\<lambda>ch. ch = CHR ''1'') input);
               num = from_digits 58 (map (\<lambda>ch. the (base58_map ch)) input)
        in Inr (replicate leadingZeros (char_of (0 :: nat))
                @ (if num = 0 then [] else map char_of (to_digits 256 num))))"

section \<open>Log lines\<close>

record solana_config =
  sc_programId :: string
  sc_chainId :: int
  sc_httpUrl :: "string option"
  sc_initialReconnectDelayMs :: "int option"
  sc_maxReconnectDelayMs :: "int option"

text \<open>\<open>/^Program (\S+) invoke \[\d+\]$/\<close> and \<open>/^Program (\S+) (?:success|failed:.*)$/\<close>, as the
  captured program.  The capture ends at the first white space, as a space must follow it.\<close>

definition program_line :: "string \<Rightarrow> (string \<times> string) option" where
  "program_line line =
     (if prefix ''Program '' line
      then let r = drop 8 line; p = token r in if p = [] then None else Some (p, drop (length p) r)
      else None)"

definition invoke_match :: "string \<Rightarrow> string option" where
  "invoke_match line =
     (case program_line line of
        None \<Rightarrow> None
      | Some (p, r) \<Rightarrow>
          if prefix '' invoke ['' r \<and> suffix '']'' r \<and> length r > 10
             \<and> matches_digits (butlast (drop 9 r))
          then Some p else None)"

definition end_match :: "string \<Rightarrow> string option" where
  "end_match line =
     (case program_line line of
        None \<Rightarrow> None
      | Some (p, r) \<Rightarrow>
          if r = '' success'' \<or> (prefix '' failed:'' r \<and> \<not> has_line_terminator (drop 8 r))
          then Some p else None)"

definition fund_prefix :: string where
  "fund_prefix = ''Program log: bridge_fund:''"

definition decodeLine ::
  "platform \<Rightarrow> solana_config \<Rightarrow> string \<Rightarrow> string \<Rightarrow> nat \<Rightarrow> bridge_event option" where
  "decodeLine K cfg line signature lineIndex =
     (case split_on (CHR '':'') (replace_first fund_prefix [] line) of
        [target, asset, amount] \<Rightarrow>
          if target = [] \<or> asset = [] \<or> amount = [] then None
          else if \<not> matches_digits amount then None
          else (case base58Decode signature of
             Inl _ \<Rightarrow> None
           | Inr sigBytes \<Rightarrow>
               if length sigBytes \<noteq> 64 then None
               else (case write_uint32_be (int lineIndex) of
                  Inl _ \<Rightarrow> None
                | Inr lineIndexBytes \<Rightarrow>
                    Some \<lparr>ev_chainId = sc_chainId cfg,
                          ev_txHash = hex_of_bytes (sha256 K (sigBytes @ lineIndexBytes)),
                          ev_target = target, ev_asset = asset, ev_amount = amount\<rparr>))
      | _ \<Rightarrow> None)"

text \<open>The walk: \<open>stack\<close> has the innermost program first, so \<open>remove1\<close> is the \<open>splice\<close> at
  \<open>lastIndexOf\<close>; \<open>i\<close> counts the \<open>bridge_fund\<close> lines seen.  The result pairs each accepted line with
  its number; decoding comes after.\<close>

fun accepted_lines :: "string \<Rightarrow> string list \<Rightarrow> nat \<Rightarrow> string list \<Rightarrow> (string \<times> nat) list" where
  "accepted_lines prog stack i [] = []"
| "accepted_lines prog stack i (line # lines) =
     (case invoke_match line of
        Some p \<Rightarrow> accepted_lines prog (p # stack) i lines
      | None \<Rightarrow>
          (case end_match line of
             Some p \<Rightarrow> accepted_lines prog (remove1 p stack) i lines
           | None \<Rightarrow>
               if \<not> prefix fund_prefix line then accepted_lines prog stack i lines
               else if stack = [] \<or> hd stack \<noteq> prog then accepted_lines prog stack (i + 1) lines
               else (line, i) # accepted_lines prog stack (i + 1) lines))"

definition extractBridgeFundEvents ::
  "platform \<Rightarrow> solana_config \<Rightarrow> string list \<Rightarrow> string \<Rightarrow> bridge_event list" where
  "extractBridgeFundEvents K cfg logs signature =
     List.map_filter (\<lambda>(line, i). decodeLine K cfg line signature i)
       (accepted_lines (sc_programId cfg) [] 0 logs)"

section \<open>State\<close>

record 'w sol_state =
  ss_lastSignature :: "string option"
  ss_store :: "string store_file"
  ss_world :: 'w
  ss_reconnectDelay :: int
  ss_stopped :: bool
  ss_queue_failed :: bool

definition initial_delay :: "solana_config \<Rightarrow> int" where
  "initial_delay cfg = (case sc_initialReconnectDelayMs cfg of None \<Rightarrow> 1000 | Some d \<Rightarrow> d)"

definition max_delay :: "solana_config \<Rightarrow> int" where
  "max_delay cfg = (case sc_maxReconnectDelayMs cfg of None \<Rightarrow> 30000 | Some d \<Rightarrow> d)"

definition sol_open :: "solana_config \<Rightarrow> string store_file \<Rightarrow> 'w \<Rightarrow> string + 'w sol_state" where
  "sol_open cfg f w =
     bind_sum (signature_load f) (\<lambda>loaded.
       Inr \<lparr>ss_lastSignature = loaded, ss_store = f, ss_world = w, ss_reconnectDelay = initial_delay cfg,
            ss_stopped = False, ss_queue_failed = False\<rparr>)"

definition recordSignature :: "string \<Rightarrow> ('w sol_state, string, unit) op" where
  "recordSignature signature st =
     (case signature_save signature (ss_store st) of
        (Inl err, f) \<Rightarrow> (Inl err, st\<lparr>ss_store := f\<rparr>)
      | (Inr _, f) \<Rightarrow> (Inr (), st\<lparr>ss_store := f, ss_lastSignature := Some signature\<rparr>))"

definition on_world :: "('w, string, unit) op \<Rightarrow> ('w sol_state, string, unit) op" where
  "on_world m st = (case m (ss_world st) of (r, w) \<Rightarrow> (r, st\<lparr>ss_world := w\<rparr>))"

text \<open>The events of one transaction, then its signature as the new cursor.\<close>

definition deliver_transaction ::
  "platform \<Rightarrow> solana_config \<Rightarrow> 'w on_event \<Rightarrow> string \<Rightarrow> string list \<Rightarrow> ('w sol_state, string, unit) op" where
  "deliver_transaction K cfg onEvent signature logs =
     and_then (on_world (for_each_op onEvent (extractBridgeFundEvents K cfg logs signature)))
       (\<lambda>_. recordSignature signature)"

section \<open>Live notifications\<close>

text \<open>Iterating over log lines that are not strings throws at \<open>match\<close>.\<close>

fun json_strings :: "json list \<Rightarrow> string + string list" where
  "json_strings [] = Inr []"
| "json_strings (JStr s # js) = bind_sum (json_strings js) (\<lambda>ss. Inr (s # ss))"
| "json_strings (_ # js) = Inl ''TypeError: line.match is not a function''"

text \<open>\<open>x?.f\<close> and \<open>data?.params?.result?.value\<close>.\<close>

fun opt_field :: "json option \<Rightarrow> string \<Rightarrow> json option" where
  "opt_field None k = None"
| "opt_field (Some js) k = json_field js k"

definition present :: "json option \<Rightarrow> bool" where
  "present j = (j \<noteq> None \<and> j \<noteq> Some JNull)"

definition notification_value :: "json \<Rightarrow> json option" where
  "notification_value data =
     opt_field (opt_field (opt_field (Some data) ''params'') ''result'') ''value''"

definition processNotification ::
  "platform \<Rightarrow> solana_config \<Rightarrow> 'w on_event \<Rightarrow> json \<Rightarrow> ('w sol_state, string, unit) op" where
  "processNotification K cfg onEvent data st =
     (let value = notification_value data in
      case opt_field value ''signature'' of
        Some (JStr signature) \<Rightarrow>
          if signature = [] then (Inr (), st)
          else if present (opt_field value ''err'') then recordSignature signature st
          else (case json_strings (case opt_field value ''logs'' of Some (JArr js) \<Rightarrow> js | _ \<Rightarrow> []) of
             Inl err \<Rightarrow> (Inl err, st)
           | Inr logs \<Rightarrow> deliver_transaction K cfg onEvent signature logs st)
      | _ \<Rightarrow> (Inr (), st))"

section \<open>Backfill\<close>

type_synonym sol_http = "string \<Rightarrow> json list \<Rightarrow> string + http_response"

definition sol_rpcCall :: "solana_config \<Rightarrow> sol_http \<Rightarrow> string \<Rightarrow> json list \<Rightarrow> string + json" where
  "sol_rpcCall cfg http meth params =
     (if sc_httpUrl cfg = None \<or> sc_httpUrl cfg = Some [] then Inl ''Solana HTTP RPC URL is not configured''
      else bind_sum (http meth params) (\<lambda>response.
        if \<not> (200 \<le> resp_status response \<and> resp_status response \<le> 299)
        then Inl (meth @ '' RPC request failed with HTTP '' @ dec_of_int (resp_status response))
        else case resp_json response of
          None \<Rightarrow> Inl ''SyntaxError: response is not JSON''
        | Some JNull \<Rightarrow> Inl ''TypeError: Cannot read properties of null''
        | Some js \<Rightarrow>
            if present (json_field js ''error'') then Inl (meth @ '' RPC error'')
            else (case json_field js ''result'' of
                    None \<Rightarrow> Inl (meth @ '' RPC response has no result'')
                  | Some r \<Rightarrow> Inr r)))"

definition signatures_request :: "solana_config \<Rightarrow> string \<Rightarrow> json option \<Rightarrow> json list" where
  "signatures_request cfg checkpoint before =
     [JStr (sc_programId cfg),
      JObj ([(''limit'', JNum 1000), (''commitment'', JStr ''finalized''), (''until'', JStr checkpoint)]
            @ (case before of Some b \<Rightarrow> if truthy b then [(''before'', b)] else [] | None \<Rightarrow> []))]"

text \<open>\<open>page.findIndex((entry) => entry.signature === lastSignature)\<close>; reading a field of \<open>null\<close> throws.\<close>

fun find_checkpoint :: "string \<Rightarrow> nat \<Rightarrow> json list \<Rightarrow> string + nat option" where
  "find_checkpoint s i [] = Inr None"
| "find_checkpoint s i (entry # page) =
     (if entry = JNull then Inl ''TypeError: Cannot read properties of null''
      else if json_field entry ''signature'' = Some (JStr s) then Inr (Some i)
      else find_checkpoint s (i + 1) page)"

text \<open>The paging loop with fuel; \<open>None\<close> is fuel running out.\<close>

fun backfill_pages ::
  "nat \<Rightarrow> solana_config \<Rightarrow> sol_http \<Rightarrow> string \<Rightarrow> json option \<Rightarrow> json list \<Rightarrow> (string + json list) option" where
  "backfill_pages 0 cfg http checkpoint before pending = None"
| "backfill_pages (Suc n) cfg http checkpoint before pending =
     (case sol_rpcCall cfg http ''getSignaturesForAddress'' (signatures_request cfg checkpoint before) of
        Inl err \<Rightarrow> Some (Inl err)
      | Inr (JArr page) \<Rightarrow>
          if page = [] then Some (Inr pending)
          else (case find_checkpoint checkpoint 0 page of
             Inl err \<Rightarrow> Some (Inl err)
           | Inr (Some i) \<Rightarrow> Some (Inr (pending @ take i page))
           | Inr None \<Rightarrow>
               if length page < 1000 then Some (Inr (pending @ page))
               else backfill_pages n cfg http checkpoint (json_field (last page) ''signature'') (pending @ page))
      | Inr _ \<Rightarrow> Some (Inl ''getSignaturesForAddress returned no signature list''))"

definition falsy :: "json option \<Rightarrow> bool" where
  "falsy j = (case j of None \<Rightarrow> True | Some js \<Rightarrow> \<not> truthy js)"

definition transaction_logs :: "json \<Rightarrow> string + string list" where
  "transaction_logs transaction =
     (let meta = json_field transaction ''meta'' in
      if \<not> falsy (opt_field meta ''err'') then Inr []
      else case opt_field meta ''logMessages'' of
        None \<Rightarrow> Inr []
      | Some JNull \<Rightarrow> Inr []
      | Some (JArr js) \<Rightarrow> json_strings js
      | Some (JStr _) \<Rightarrow> Inr []
      | Some _ \<Rightarrow> Inl ''TypeError: logs is not iterable'')"

definition getTransaction :: "solana_config \<Rightarrow> sol_http \<Rightarrow> string \<Rightarrow> string + string list" where
  "getTransaction cfg http signature =
     bind_sum (sol_rpcCall cfg http ''getTransaction''
         [JStr signature, JObj [(''commitment'', JStr ''finalized''), (''encoding'', JStr ''json''),
            (''maxSupportedTransactionVersion'', JNum 0)]]) (\<lambda>transaction.
       if \<not> truthy transaction then Inl (''getTransaction returned no transaction for '' @ signature)
       else transaction_logs transaction)"

definition replay_entry ::
  "platform \<Rightarrow> solana_config \<Rightarrow> sol_http \<Rightarrow> 'w on_event \<Rightarrow> json \<Rightarrow> ('w sol_state, string, unit) op" where
  "replay_entry K cfg http onEvent entry st =
     (case json_field entry ''signature'' of
        Some (JStr signature) \<Rightarrow>
          if falsy (json_field entry ''err'')
          then (case getTransaction cfg http signature of
                  Inl err \<Rightarrow> (Inl err, st)
                | Inr logs \<Rightarrow> deliver_transaction K cfg onEvent signature logs st)
          else recordSignature signature st
      | _ \<Rightarrow> (Inl ''getSignaturesForAddress returned an entry without a signature'', st))"

definition backfill ::
  "nat \<Rightarrow> platform \<Rightarrow> solana_config \<Rightarrow> sol_http \<Rightarrow> 'w on_event \<Rightarrow> 'w sol_state
    \<Rightarrow> ((string + unit) \<times> 'w sol_state) option" where
  "backfill fuel K cfg http onEvent st =
     (case ss_lastSignature st of
        None \<Rightarrow> Some (Inr (), st)
      | Some checkpoint \<Rightarrow>
          if checkpoint = [] \<or> sc_httpUrl cfg = None \<or> sc_httpUrl cfg = Some [] then Some (Inr (), st)
          else (case backfill_pages fuel cfg http checkpoint None [] of
             None \<Rightarrow> None
           | Some (Inl err) \<Rightarrow> Some (Inl err, st)
           | Some (Inr pending) \<Rightarrow> Some (for_each_op (replay_entry K cfg http onEvent) (rev pending) st)))"

section \<open>The connection\<close>

definition queue_task :: "(string + unit) \<times> 'w sol_state \<Rightarrow> 'w sol_state" where
  "queue_task res = (case res of (Inl _, st) \<Rightarrow> st\<lparr>ss_queue_failed := True\<rparr> | (Inr _, st) \<Rightarrow> st)"

definition ws_onopen ::
  "nat \<Rightarrow> platform \<Rightarrow> solana_config \<Rightarrow> sol_http \<Rightarrow> 'w on_event \<Rightarrow> 'w sol_state \<Rightarrow> 'w sol_state option" where
  "ws_onopen fuel K cfg http onEvent st =
     map_option queue_task
       (backfill fuel K cfg http onEvent (st\<lparr>ss_reconnectDelay := initial_delay cfg, ss_queue_failed := False\<rparr>))"

text \<open>\<open>None\<close> is a message that is not JSON.\<close>

definition ws_onmessage ::
  "platform \<Rightarrow> solana_config \<Rightarrow> 'w on_event \<Rightarrow> json option \<Rightarrow> 'w sol_state \<Rightarrow> 'w sol_state" where
  "ws_onmessage K cfg onEvent msg st =
     (case msg of
        None \<Rightarrow> st
      | Some data \<Rightarrow>
          if ss_queue_failed st then st else queue_task (processNotification K cfg onEvent data st))"

text \<open>\<open>onclose\<close> schedules a reconnect after the current delay, unless stopped; when the timer fires the
  next delay is set.  The result is the delay waited.\<close>

definition ws_onclose :: "solana_config \<Rightarrow> 'w sol_state \<Rightarrow> int option \<times> 'w sol_state" where
  "ws_onclose cfg st =
     (if ss_stopped st then (None, st)
      else (Some (ss_reconnectDelay st),
            st\<lparr>ss_reconnectDelay := min (ss_reconnectDelay st * 2) (max_delay cfg)\<rparr>))"

definition sol_stop :: "'w sol_state \<Rightarrow> 'w sol_state" where
  "sol_stop st = st\<lparr>ss_stopped := True\<rparr>"

section \<open>Base 58: the encoder\<close>

definition base58Encode :: "byte list \<Rightarrow> string" where
  "base58Encode bs =
     (let zeros = takeWhile (\<lambda>b. of_char b = (0 :: nat)) bs; rest = drop (length zeros) bs
      in replicate (length zeros) CHR ''1''
         @ (if rest = [] then [] else map ((!) base58_alphabet) (to_digits 58 (be_value rest))))"

lemma base58_alphabet_facts: "length base58_alphabet = 58" "distinct base58_alphabet"
  by (simp_all add: base58_alphabet_def)

lemma base58_map_nth [simp]: "d < 58 \<Longrightarrow> base58_map (base58_alphabet ! d) = Some d"
  using map_of_zip_nth [of base58_alphabet "[0..<58]" d] base58_alphabet_facts
  by (simp add: base58_map_def)

lemma base58_nth_one: "d < 58 \<Longrightarrow> base58_alphabet ! d = CHR ''1'' \<longleftrightarrow> d = 0"
proof -
  assume d: "d < 58"
  have "base58_alphabet ! 0 = CHR ''1''" by (simp add: base58_alphabet_def)
  then show ?thesis
    using nth_eq_iff_index_eq [OF base58_alphabet_facts(2), of d 0] d base58_alphabet_facts(1) by simp
qed

lemma base58Decode_Encode:
  assumes "bs \<noteq> []"
  shows "base58Decode (base58Encode bs) = Inr bs"
proof -
  define z rest where "z = length (takeWhile (\<lambda>b. of_char b = (0 :: nat)) bs)" and "rest = drop z bs"
  have zeros: "takeWhile (\<lambda>b. of_char b = (0 :: nat)) bs = replicate z (char_of (0 :: nat))"
    by (rule replicate_eqI) (auto simp: z_def dest!: set_takeWhileD, metis char_of_char)
  have bs: "bs = replicate z (char_of (0 :: nat)) @ rest"
    unfolding rest_def zeros [symmetric] unfolding z_def takeWhile_eq_take [symmetric]
    by (simp add: dropWhile_eq_drop [symmetric])
  have rest_hd: "rest \<noteq> [] \<Longrightarrow> of_char (hd rest) \<noteq> (0 :: nat)"
    unfolding rest_def z_def dropWhile_eq_drop [symmetric] by (rule hd_dropWhile)
  let ?ds = "if rest = [] then [] else to_digits 58 (be_value rest)"
  let ?s = "replicate z CHR ''1'' @ map ((!) base58_alphabet) ?ds"
  have enc: "base58Encode bs = ?s"
    unfolding base58Encode_def Let_def z_def [symmetric] rest_def [symmetric] by simp
  have pos: "rest \<noteq> [] \<Longrightarrow> 0 < be_value rest"
    unfolding be_value_def using rest_hd by (intro from_digits_pos) (auto simp: hd_map)
  have lt: "\<forall>d \<in> set ?ds. d < 58" using to_digits_less [of 58] by auto
  have one: "base58_map CHR ''1'' = Some 0"
    using base58_map_nth [of 0] by (simp add: base58_alphabet_def)
  have 1: "?s \<noteq> []" using assms bs by auto
  have 2: "\<not> list_ex (\<lambda>ch. base58_map ch = None) ?s"
    using lt one by (auto simp: list_ex_iff)
  have 3: "takeWhile (\<lambda>ch. ch = CHR ''1'') ?s = replicate z CHR ''1''"
  proof (cases "rest = []")
    case False
    then have "hd ?ds \<noteq> 0" using hd_to_digits [of 58] pos by simp
    then have "takeWhile (\<lambda>ch. ch = CHR ''1'') (map ((!) base58_alphabet) ?ds) = []"
      using lt False base58_nth_one by (cases "to_digits 58 (be_value rest)") auto
    then show ?thesis by (simp add: takeWhile_append)
  qed simp
  have eq: "map (\<lambda>ch. the (base58_map ch)) ?s = replicate z 0 @ ?ds"
    using lt one by (auto intro: map_idI)
  have 4: "from_digits 58 (map (\<lambda>ch. the (base58_map ch)) ?s) = (if rest = [] then 0 else be_value rest)"
    unfolding eq using from_digits_zeros [of 58 z "[]"] by simp
  have 5: "rest \<noteq> [] \<Longrightarrow> map char_of (to_digits 256 (be_value rest)) = rest"
    using to_from_digits [of 256 "map of_char rest"] rest_hd
    by (simp add: be_value_def hd_map comp_def)
  have "base58Decode ?s = Inr (replicate z (char_of (0 :: nat)) @ rest)"
    using 1 2 pos 5 unfolding base58Decode_def Let_def 3 4 by (simp del: map_append)
  then show ?thesis using enc bs by simp
qed

section \<open>Execution traces\<close>

text \<open>
  What the runtime prints for a transaction: each program invocation is a frame with its own
  \<open>invoke\<close> line and a closing \<open>success\<close> or \<open>failed\<close> line; inside a frame the program prints lines
  under a tag of the runtime's (\<open>log:\<close>, \<open>data:\<close>, \<open>return:\<close>) with a text it chooses freely, the
  runtime prints the compute units, and further frames are nested.  Program ids are base-58
  strings; the tags end in a colon.
\<close>

datatype trace =
    Printed string string
  | Metered string nat nat
  | Called string nat "trace list" bool

definition printed_line :: "string \<Rightarrow> string \<Rightarrow> string" where
  "printed_line tag msg = ''Program '' @ tag @ '' '' @ msg"

fun render :: "trace \<Rightarrow> string list" where
  "render (Printed tag msg) = [printed_line tag msg]"
| "render (Metered p n m) =
     [''Program '' @ p @ '' '' @ ''consumed '' @ dec_of_nat n @ '' of '' @ dec_of_nat m @ '' compute units'']"
| "render (Called p depth body ok) =
     [''Program '' @ p @ '' '' @ ''invoke ['' @ dec_of_nat depth @ '']''] @ concat (map render body)
     @ [''Program '' @ p @ '' '' @ (if ok then ''success'' else ''failed: custom program error'')]"

definition plain :: "string \<Rightarrow> bool" where
  "plain p \<longleftrightarrow> p \<noteq> []
     \<and> list_all (\<lambda>c. (of_char c :: nat) < 128 \<and> of_char c \<notin> {9, 10, 11, 12, 13, 32 :: nat}) p"

definition program_id :: "string \<Rightarrow> bool" where
  "program_id p \<longleftrightarrow> plain p \<and> CHR '':'' \<notin> set p"

fun wf_trace :: "trace \<Rightarrow> bool" where
  "wf_trace (Printed tag msg) \<longleftrightarrow> plain tag \<and> CHR '':'' \<in> set tag"
| "wf_trace (Metered p n m) \<longleftrightarrow> program_id p"
| "wf_trace (Called p depth body ok) \<longleftrightarrow> program_id p \<and> list_all wf_trace body"

text \<open>The \<open>bridge_fund\<close> lines printed while \<open>prog\<close> is executing, with their numbers among all
  \<open>bridge_fund\<close> lines.\<close>

fun fund_count :: "trace \<Rightarrow> nat" where
  "fund_count (Printed tag msg) = (if prefix fund_prefix (printed_line tag msg) then 1 else 0)"
| "fund_count (Metered p n m) = 0"
| "fund_count (Called p depth body ok) = sum_list (map fund_count body)"

fun genuine :: "string \<Rightarrow> string option \<Rightarrow> nat \<Rightarrow> trace \<Rightarrow> (string \<times> nat) list"
  and genuine_all :: "string \<Rightarrow> string option \<Rightarrow> nat \<Rightarrow> trace list \<Rightarrow> (string \<times> nat) list" where
  "genuine prog cur i (Printed tag msg) =
     (if prefix fund_prefix (printed_line tag msg) \<and> cur = Some prog then [(printed_line tag msg, i)] else [])"
| "genuine prog cur i (Metered p n m) = []"
| "genuine prog cur i (Called p depth body ok) = genuine_all prog (Some p) i body"
| "genuine_all prog cur i [] = []"
| "genuine_all prog cur i (t # ts) = genuine prog cur i t @ genuine_all prog cur (i + fund_count t) ts"

section \<open>The walk over a trace\<close>

lemma token_plain:
  "list_all (\<lambda>c. (of_char c :: nat) < 128 \<and> of_char c \<notin> {9, 10, 11, 12, 13, 32 :: nat}) p
    \<Longrightarrow> token (p @ CHR '' '' # r) = p"
proof (induction p)
  case Nil
  have "ws_len (CHR '' '' # r) = 1" by (subst ws_len_ascii) simp_all
  then show ?case by simp
next
  case (Cons c p)
  then have "ws_len (c # p @ CHR '' '' # r) = 0" by (simp add: ws_len_ascii)
  with Cons show ?case by simp
qed

lemma program_line_plain [simp]:
  "plain p \<Longrightarrow> program_line (''Program '' @ p @ '' '' @ r) = Some (p, '' '' @ r)"
  using token_plain [of p r] by (simp add: program_line_def plain_def Let_def)

lemma fund_prefix_program_line:
  assumes "prefix fund_prefix line"
  shows "\<exists>r. program_line line = Some (''log:'', '' bridge_fund:'' @ r)"
proof -
  from assms obtain r where "line = ''Program '' @ ''log:'' @ '' '' @ (''bridge_fund:'' @ r)"
    by (auto simp: prefix_def fund_prefix_def)
  moreover have "plain ''log:''" by (simp add: plain_def)
  ultimately show ?thesis using program_line_plain [of "''log:''" "''bridge_fund:'' @ r"] by auto
qed

lemma fund_prefix_no_frame:
  assumes "prefix fund_prefix line"
  shows "invoke_match line = None \<and> end_match line = None"
  using fund_prefix_program_line [OF assms] by (auto simp: invoke_match_def end_match_def)

lemma match_is_program:
  "invoke_match line = Some p \<Longrightarrow> \<exists>r. program_line line = Some (p, r)"
  "end_match line = Some p \<Longrightarrow> \<exists>r. program_line line = Some (p, r)"
  by (auto simp: invoke_match_def end_match_def split: option.splits if_splits)

lemma frame_lines [simp]:
  assumes "program_id p"
  shows "invoke_match (''Program '' @ p @ '' '' @ ''invoke ['' @ dec_of_nat d @ '']'') = Some p"
    and "invoke_match (''Program '' @ p @ '' '' @ (if ok then ''success'' else ''failed: custom program error'')) = None"
    and "end_match (''Program '' @ p @ '' '' @ (if ok then ''success'' else ''failed: custom program error'')) = Some p"
    and "invoke_match (''Program '' @ p @ '' '' @ ''consumed '' @ r) = None"
    and "end_match (''Program '' @ p @ '' '' @ ''consumed '' @ r) = None"
    and "\<not> prefix fund_prefix (''Program '' @ p @ '' '' @ ''consumed '' @ r)"
proof -
  have p: "plain p" and colon: "CHR '':'' \<notin> set p" using assms by (simp_all add: program_id_def)
  have "length (dec_of_nat d) > 0" by simp
  moreover have "drop 9 ('' invoke ['' @ dec_of_nat d @ '']'') = dec_of_nat d @ '']''" by simp
  ultimately show "invoke_match (''Program '' @ p @ '' '' @ ''invoke ['' @ dec_of_nat d @ '']'') = Some p"
    unfolding invoke_match_def program_line_plain [OF p]
    by (simp add: suffix_def butlast_append)
  show "invoke_match (''Program '' @ p @ '' '' @ (if ok then ''success'' else ''failed: custom program error'')) = None"
    unfolding invoke_match_def program_line_plain [OF p] by simp
  show "end_match (''Program '' @ p @ '' '' @ (if ok then ''success'' else ''failed: custom program error'')) = Some p"
    unfolding end_match_def program_line_plain [OF p] by simp
  show "invoke_match (''Program '' @ p @ '' '' @ ''consumed '' @ r) = None"
    unfolding invoke_match_def program_line_plain [OF p] by simp
  show "end_match (''Program '' @ p @ '' '' @ ''consumed '' @ r) = None"
    unfolding end_match_def program_line_plain [OF p] by simp
  show "\<not> prefix fund_prefix (''Program '' @ p @ '' '' @ ''consumed '' @ r)"
  proof
    assume "prefix fund_prefix (''Program '' @ p @ '' '' @ ''consumed '' @ r)"
    from fund_prefix_program_line [OF this] have "p = ''log:''" unfolding program_line_plain [OF p] by simp
    with colon show False by simp
  qed
qed

text \<open>The stack and counter after some lines, so that a walk can be cut into pieces.\<close>

fun walk_state :: "string list \<times> nat \<Rightarrow> string list \<Rightarrow> string list \<times> nat" where
  "walk_state (stack, i) [] = (stack, i)"
| "walk_state (stack, i) (line # lines) =
     (case invoke_match line of
        Some p \<Rightarrow> walk_state (p # stack, i) lines
      | None \<Rightarrow>
          (case end_match line of
             Some p \<Rightarrow> walk_state (remove1 p stack, i) lines
           | None \<Rightarrow> walk_state (stack, if prefix fund_prefix line then i + 1 else i) lines))"

lemma walk_state_append: "walk_state s (xs @ ys) = walk_state (walk_state s xs) ys"
  by (induction s xs rule: walk_state.induct) (auto split: option.splits)

lemma accepted_lines_append:
  "accepted_lines prog stack i (xs @ ys) =
     accepted_lines prog stack i xs
     @ (case walk_state (stack, i) xs of (stack', i') \<Rightarrow> accepted_lines prog stack' i' ys)"
  by (induction prog stack i xs rule: accepted_lines.induct) (auto split: option.splits)

definition frames :: "string list \<Rightarrow> string list" where
  "frames stack = filter (\<lambda>p. CHR '':'' \<notin> set p) stack"

definition executing :: "string list \<Rightarrow> string option" where
  "executing fs = (case fs of [] \<Rightarrow> None | p # _ \<Rightarrow> Some p)"

lemma frames_simps [simp]:
  "CHR '':'' \<in> set p \<Longrightarrow> frames (p # stack) = frames stack"
  "CHR '':'' \<notin> set p \<Longrightarrow> frames (p # stack) = p # frames stack"
  "CHR '':'' \<in> set p \<Longrightarrow> frames (remove1 p stack) = frames stack"
  "CHR '':'' \<notin> set p \<Longrightarrow> frames (remove1 p stack) = remove1 p (frames stack)"
  by (auto simp: frames_def filter_remove1)

lemma frames_hd:
  "stack \<noteq> [] \<Longrightarrow> hd stack = p \<Longrightarrow> CHR '':'' \<notin> set p \<Longrightarrow> executing (frames stack) = Some p"
  by (cases stack) (simp_all add: executing_def)

text \<open>One trace, whatever its programs print: the frames on the stack are back where they were, the
  counter has moved by the trace's \<open>bridge_fund\<close> lines, and what was accepted is genuine.\<close>

definition sound_walk :: "string \<Rightarrow> string list \<Rightarrow> nat \<Rightarrow> string list \<Rightarrow> nat \<Rightarrow> (string \<times> nat) list \<Rightarrow> bool" where
  "sound_walk prog stack i lines n gs \<longleftrightarrow>
     frames (fst (walk_state (stack, i) lines)) = frames stack
     \<and> snd (walk_state (stack, i) lines) = i + n
     \<and> set (accepted_lines prog stack i lines) \<subseteq> set gs"

lemma sound_walk_append:
  assumes "sound_walk prog stack i xs n gs"
    and "\<And>stack'. frames stack' = frames stack \<Longrightarrow> sound_walk prog stack' (i + n) ys m hs"
  shows "sound_walk prog stack i (xs @ ys) (n + m) (gs @ hs)"
proof -
  obtain stack' where w: "walk_state (stack, i) xs = (stack', i + n)"
    using assms(1) by (metis prod.collapse sound_walk_def)
  with assms(1) have "frames stack' = frames stack" by (simp add: sound_walk_def)
  from assms(2) [OF this] assms(1) w \<open>frames stack' = frames stack\<close> show ?thesis
    by (auto simp: sound_walk_def walk_state_append accepted_lines_append)
qed

lemma sound_walk_printed:
  assumes "plain tag" "CHR '':'' \<in> set tag" "CHR '':'' \<notin> set prog"
  shows "sound_walk prog stack i [printed_line tag msg] (fund_count (Printed tag msg))
    (genuine prog (executing (frames stack)) i (Printed tag msg))"
proof -
  have line: "program_line (printed_line tag msg) = Some (tag, '' '' @ msg)"
    unfolding printed_line_def by (rule program_line_plain [OF assms(1)])
  consider (inv) "invoke_match (printed_line tag msg) = Some tag" "\<not> prefix fund_prefix (printed_line tag msg)"
    | (fin) "invoke_match (printed_line tag msg) = None" "end_match (printed_line tag msg) = Some tag"
        "\<not> prefix fund_prefix (printed_line tag msg)"
    | (none) "invoke_match (printed_line tag msg) = None" "end_match (printed_line tag msg) = None"
    using match_is_program [of "printed_line tag msg"] line fund_prefix_no_frame [of "printed_line tag msg"]
    by (metis option.exhaust option.inject prod.inject)
  then show ?thesis
  proof cases
    case inv
    with assms(2) show ?thesis by (simp add: sound_walk_def)
  next
    case fin
    with assms(2) show ?thesis by (simp add: sound_walk_def)
  next
    case none
    with assms(3) frames_hd [of stack prog] show ?thesis by (auto simp: sound_walk_def)
  qed
qed

lemma sound_walk_trace:
  assumes "CHR '':'' \<notin> set prog"
  shows "wf_trace t \<Longrightarrow>
    sound_walk prog stack i (render t) (fund_count t) (genuine prog (executing (frames stack)) i t)"
proof (induction t arbitrary: stack i)
  case (Printed tag msg)
  with assms show ?case using sound_walk_printed by simp
next
  case (Metered p n m)
  then show ?case by (simp add: sound_walk_def del: append.simps)
next
  case (Called p depth body ok)
  have p: "program_id p" "CHR '':'' \<notin> set p" and wf: "\<forall>t \<in> set body. wf_trace t"
    using Called.prems by (auto simp: program_id_def list_all_iff)
  have all: "set ts \<subseteq> set body \<Longrightarrow> frames s = p # frames stack \<Longrightarrow>
      sound_walk prog s j (concat (map render ts)) (sum_list (map fund_count ts)) (genuine_all prog (Some p) j ts)"
    for ts s j
  proof (induction ts arbitrary: s j)
    case Nil
    then show ?case by (simp add: sound_walk_def)
  next
    case (Cons t ts)
    have "sound_walk prog s j (render t) (fund_count t) (genuine prog (Some p) j t)"
      using Called.IH [of t s j] Cons.prems wf by (simp add: executing_def)
    from sound_walk_append [OF this, of "concat (map render ts)" _ "genuine_all prog (Some p) (j + fund_count t) ts"]
      Cons show ?case by simp
  qed
  let ?open = "''Program '' @ p @ '' '' @ ''invoke ['' @ dec_of_nat depth @ '']''"
  let ?close = "''Program '' @ p @ '' '' @ (if ok then ''success'' else ''failed: custom program error'')"
  let ?body = "concat (map render body)"
  have body: "sound_walk prog (p # stack) i ?body (sum_list (map fund_count body)) (genuine_all prog (Some p) i body)"
    using all [of body "p # stack" i] p(2) by simp
  obtain s' where s': "walk_state (p # stack, i) ?body = (s', i + sum_list (map fund_count body))"
    using body by (metis prod.collapse sound_walk_def)
  have "frames s' = p # frames stack" using body s' p(2) by (simp add: sound_walk_def)
  then have close: "frames (remove1 p s') = frames stack" using p(2) by simp
  have "\<not> prefix fund_prefix ?close" using fund_prefix_no_frame frame_lines(3) [OF p(1)] by (metis option.distinct(1))
  have "walk_state (stack, i) (render (Called p depth body ok)) = (remove1 p s', i + sum_list (map fund_count body))"
    using s' frame_lines [OF p(1)] by (simp only: render.simps append_Cons append_Nil walk_state.simps option.case walk_state_append)
  moreover have "accepted_lines prog stack i (render (Called p depth body ok)) = accepted_lines prog (p # stack) i ?body"
    using s' frame_lines [OF p(1)]
    by (simp only: render.simps append_Cons append_Nil accepted_lines.simps option.case accepted_lines_append
        prod.case append_Nil2)
  ultimately show ?case
    using close body by (simp add: sound_walk_def del: render.simps)
qed

lemma sound_walk_all:
  assumes "CHR '':'' \<notin> set prog" "list_all wf_trace ts"
  shows "sound_walk prog stack i (concat (map render ts)) (sum_list (map fund_count ts))
    (genuine_all prog (executing (frames stack)) i ts)"
  using assms(2)
proof (induction ts arbitrary: stack i)
  case Nil
  then show ?case by (simp add: sound_walk_def)
next
  case (Cons t ts)
  have "sound_walk prog stack i (render t) (fund_count t) (genuine prog (executing (frames stack)) i t)"
    using sound_walk_trace [OF assms(1)] Cons.prems by simp
  then have "sound_walk prog stack i (render t @ concat (map render ts)) (fund_count t + sum_list (map fund_count ts))
      (genuine prog (executing (frames stack)) i t @ genuine_all prog (executing (frames stack)) (i + fund_count t) ts)"
  proof (rule sound_walk_append)
    fix stack' assume "frames stack' = frames stack"
    with Cons show "sound_walk prog stack' (i + fund_count t) (concat (map render ts)) (sum_list (map fund_count ts))
        (genuine_all prog (executing (frames stack)) (i + fund_count t) ts)"
      using Cons.IH [of stack' "i + fund_count t"] by simp
  qed
  then show ?case by simp
qed

text \<open>When no printed text imitates a frame line, the walk accepts exactly the genuine lines.\<close>

fun quiet :: "trace \<Rightarrow> bool" where
  "quiet (Printed tag msg) \<longleftrightarrow> invoke_match (printed_line tag msg) = None \<and> end_match (printed_line tag msg) = None"
| "quiet (Metered p n m) \<longleftrightarrow> True"
| "quiet (Called p depth body ok) \<longleftrightarrow> list_all quiet body"

definition exact_walk :: "string \<Rightarrow> string list \<Rightarrow> nat \<Rightarrow> string list \<Rightarrow> nat \<Rightarrow> (string \<times> nat) list \<Rightarrow> bool" where
  "exact_walk prog stack i lines n gs \<longleftrightarrow>
     walk_state (stack, i) lines = (stack, i + n) \<and> accepted_lines prog stack i lines = gs"

lemma exact_walk_append:
  "exact_walk prog stack i xs n gs \<Longrightarrow> exact_walk prog stack (i + n) ys m hs \<Longrightarrow>
     exact_walk prog stack i (xs @ ys) (n + m) (gs @ hs)"
  by (simp add: exact_walk_def walk_state_append accepted_lines_append)

lemma exact_walk_list:
  assumes "\<And>t j. t \<in> set ts \<Longrightarrow> exact_walk prog s j (render t) (fund_count t) (genuine prog cur j t)"
  shows "exact_walk prog s j (concat (map render ts)) (sum_list (map fund_count ts)) (genuine_all prog cur j ts)"
  using assms
proof (induction ts arbitrary: j)
  case Nil
  then show ?case by (simp add: exact_walk_def)
next
  case (Cons t ts)
  then show ?case by (simp add: exact_walk_append)
qed

lemma exact_walk_trace:
  "wf_trace t \<Longrightarrow> quiet t \<Longrightarrow>
    exact_walk prog stack i (render t) (fund_count t) (genuine prog (executing stack) i t)"
proof (induction t arbitrary: stack i)
  case (Printed tag msg)
  then show ?case by (cases stack) (auto simp: exact_walk_def executing_def)
next
  case (Metered p n m)
  then show ?case by (simp add: exact_walk_def del: append.simps)
next
  case (Called p depth body ok)
  have p: "program_id p" using Called.prems by simp
  let ?body = "concat (map render body)"
  have "exact_walk prog (p # stack) j (render t) (fund_count t) (genuine prog (Some p) j t)"
    if "t \<in> set body" for t j
    using Called.IH [OF that, of "p # stack" j] Called.prems that by (simp add: list_all_iff executing_def)
  then have body: "exact_walk prog (p # stack) i ?body (sum_list (map fund_count body)) (genuine_all prog (Some p) i body)"
    by (rule exact_walk_list)
  have "walk_state (stack, i) (render (Called p depth body ok)) = (stack, i + sum_list (map fund_count body))"
    using body frame_lines [OF p] unfolding exact_walk_def
    by (simp only: render.simps append_Cons append_Nil walk_state.simps option.case walk_state_append remove1.simps simp_thms if_True)
  moreover have "accepted_lines prog stack i (render (Called p depth body ok)) = genuine_all prog (Some p) i body"
    using body frame_lines [OF p] unfolding exact_walk_def
    by (simp only: render.simps append_Cons append_Nil accepted_lines.simps option.case accepted_lines_append
        prod.case append_Nil2)
  ultimately show ?case by (simp add: exact_walk_def del: render.simps)
qed

text \<open>Less is enough: nothing imitates a frame line while the bridge program is on the call stack, be it the program itself or
  one it calls.  What other programs print before, after and around its calls does not matter.\<close>

fun undisturbed :: "string \<Rightarrow> trace \<Rightarrow> bool" where
  "undisturbed prog (Printed tag msg) \<longleftrightarrow> True"
| "undisturbed prog (Metered p n m) \<longleftrightarrow> True"
| "undisturbed prog (Called p depth body ok) \<longleftrightarrow>
     (if p = prog then list_all quiet body else list_all (undisturbed prog) body)"

lemma executing_in_frames: "executing fs = Some p \<Longrightarrow> p \<in> set fs"
  by (cases fs) (simp_all add: executing_def)

lemma undisturbed_list:
  assumes "CHR '':'' \<notin> set prog" "\<And>t s j. t \<in> set ts \<Longrightarrow> frames s = fs \<Longrightarrow>
      accepted_lines prog s j (render t) = genuine prog (executing fs) j t"
    and "\<forall>t \<in> set ts. wf_trace t" "frames s = fs"
  shows "accepted_lines prog s j (concat (map render ts)) = genuine_all prog (executing fs) j ts"
  using assms(2-4)
proof (induction ts arbitrary: s j)
  case (Cons t ts)
  have "sound_walk prog s j (render t) (fund_count t) (genuine prog (executing (frames s)) j t)"
    using sound_walk_trace [OF assms(1)] Cons.prems(2) by simp
  then obtain s' where s': "walk_state (s, j) (render t) = (s', j + fund_count t)" "frames s' = fs"
    using Cons.prems(3) by (metis prod.collapse sound_walk_def)
  with Cons.IH [of s' "j + fund_count t"] Cons.prems show ?case by (simp add: accepted_lines_append)
qed simp

lemma undisturbed_trace:
  assumes "CHR '':'' \<notin> set prog"
  shows "wf_trace t \<Longrightarrow> undisturbed prog t \<Longrightarrow> prog \<notin> set (frames stack) \<Longrightarrow>
    accepted_lines prog stack i (render t) = genuine prog (executing (frames stack)) i t"
proof (induction t arbitrary: stack i)
  case (Printed tag msg)
  then have "executing (frames stack) \<noteq> Some prog" by (auto dest: executing_in_frames)
  with frames_hd [of stack prog] assms show ?case by (auto split: option.splits)
next
  case (Metered p n m)
  then show ?case by (simp del: append.simps)
next
  case (Called p depth body ok)
  have p: "program_id p" "CHR '':'' \<notin> set p" and wf: "\<forall>t \<in> set body. wf_trace t"
    using Called.prems by (auto simp: program_id_def list_all_iff)
  let ?body = "concat (map render body)" and ?fs = "p # frames stack"
  have body: "accepted_lines prog (p # stack) i ?body = genuine_all prog (Some p) i body"
  proof (cases "p = prog")
    case True
    then have "exact_walk prog (p # stack) j (render t) (fund_count t) (genuine prog (Some p) j t)" if "t \<in> set body" for t j
      using exact_walk_trace [of t prog "p # stack" j] Called.prems that by (simp add: list_all_iff executing_def)
    from exact_walk_list [OF this] show ?thesis by (simp add: exact_walk_def)
  next
    case False
    have "accepted_lines prog s j (render t) = genuine prog (executing ?fs) j t" if "t \<in> set body" "frames s = ?fs" for t s j
      using Called.IH [OF that(1), of s j] Called.prems False that by (simp add: list_all_iff)
    from undisturbed_list [OF assms this wf, of "p # stack" i] p(2) show ?thesis by (simp add: executing_def)
  qed
  obtain s' n where s': "walk_state (p # stack, i) ?body = (s', n)" by (rule prod.exhaust)
  show ?case
    using body s' frame_lines [OF p(1)]
    by (simp only: render.simps append_Cons append_Nil accepted_lines.simps option.case accepted_lines_append
        prod.case append_Nil2 genuine.simps)
qed

section \<open>An honest ledger\<close>

text \<open>
  The transactions that mention the program, newest first, and a node that serves them as the
  documentation of \<open>getSignaturesForAddress\<close> says: at most 1000 per page, newest first, after
  \<open>before\<close> and up to but not including \<open>until\<close>.
\<close>

record ledger_entry =
  le_signature :: string
  le_failed :: bool
  le_logs :: "string list"

definition entry_json :: "ledger_entry \<Rightarrow> json" where
  "entry_json e = JObj [(''signature'', JStr (le_signature e)), (''err'', if le_failed e then JStr ''err'' else JNull)]"

definition missed :: "ledger_entry list \<Rightarrow> string \<Rightarrow> ledger_entry list" where
  "missed ledger checkpoint = takeWhile (\<lambda>e. le_signature e \<noteq> checkpoint) ledger"

definition after :: "ledger_entry list \<Rightarrow> string option \<Rightarrow> ledger_entry list" where
  "after es before =
     (case before of None \<Rightarrow> es | Some b \<Rightarrow> tl (dropWhile (\<lambda>e. le_signature e \<noteq> b) es))"

definition honest_ledger :: "ledger_entry list \<Rightarrow> solana_config \<Rightarrow> sol_http \<Rightarrow> string \<Rightarrow> bool" where
  "honest_ledger ledger cfg http checkpoint \<longleftrightarrow>
     (\<forall>before. before \<noteq> Some [] \<longrightarrow> sol_rpcCall cfg http ''getSignaturesForAddress'' (signatures_request cfg checkpoint (map_option JStr before))
        = Inr (JArr (map entry_json (take 1000 (after (missed ledger checkpoint) before)))))
     \<and> (\<forall>e \<in> set ledger. le_signature e \<noteq> [])
     \<and> (\<forall>e \<in> set ledger. \<not> le_failed e \<longrightarrow> getTransaction cfg http (le_signature e) = Inr (le_logs e))"

definition entry_events :: "platform \<Rightarrow> solana_config \<Rightarrow> ledger_entry \<Rightarrow> bridge_event list" where
  "entry_events K cfg e =
     (if le_failed e then [] else extractBridgeFundEvents K cfg (le_logs e) (le_signature e))"

lemma entry_json_fields [simp]:
  "json_field (entry_json e) ''signature'' = Some (JStr (le_signature e))"
  "json_field (entry_json e) ''err'' = Some (if le_failed e then JStr ''err'' else JNull)"
  "entry_json e \<noteq> JNull"
  by (simp_all add: entry_json_def)

lemma find_checkpoint_absent:
  "checkpoint \<notin> le_signature ` set es \<Longrightarrow> find_checkpoint checkpoint i (map entry_json es) = Inr None"
  by (induction es arbitrary: i) auto

lemma after_split:
  assumes "distinct (map le_signature (pre @ rest))" "pre \<noteq> []"
  shows "after (pre @ rest) (Some (le_signature (last pre))) = rest"
proof -
  obtain ys y where pre: "pre = ys @ [y]" using assms(2) by (cases pre rule: rev_cases) auto
  have "\<forall>e \<in> set ys. le_signature e \<noteq> le_signature y"
    using assms(1) by (auto simp: pre) (metis imageI)
  then have "dropWhile (\<lambda>e. le_signature e \<noteq> le_signature y) (ys @ y # rest) = y # rest"
    by (simp add: dropWhile_append)
  then show ?thesis by (simp add: after_def pre)
qed

lemma backfill_pages_missed:
  assumes "honest_ledger ledger cfg http checkpoint"
    and "distinct (map le_signature (missed ledger checkpoint))"
    and "missed ledger checkpoint = pre @ rest"
    and "before = (if pre = [] then None else Some (le_signature (last pre)))"
    and "length rest div 1000 + 2 \<le> fuel"
  shows "backfill_pages fuel cfg http checkpoint (map_option JStr before) (map entry_json pre)
    = Some (Inr (map entry_json (missed ledger checkpoint)))"
  using assms(3-5)
proof (induction fuel arbitrary: pre rest before)
  case 0
  then show ?case by simp
next
  case (Suc fuel)
  let ?page = "take 1000 rest"
  have "set (missed ledger checkpoint) \<subseteq> set ledger" by (auto simp: missed_def dest: set_takeWhileD)
  then have "pre \<noteq> [] \<Longrightarrow> last pre \<in> set ledger" using Suc.prems(1) by auto
  then have "before \<noteq> Some []"
    using assms(1) Suc.prems(2) by (auto simp: honest_ledger_def)
  moreover have "after (missed ledger checkpoint) before = rest"
    using after_split [of pre rest] assms(2) Suc.prems(1,2) by (simp add: after_def)
  ultimately have page: "sol_rpcCall cfg http ''getSignaturesForAddress'' (signatures_request cfg checkpoint (map_option JStr before))
      = Inr (JArr (map entry_json ?page))"
    using assms(1) by (simp add: honest_ledger_def)
  have "checkpoint \<notin> le_signature ` set (missed ledger checkpoint)"
    by (auto simp: missed_def dest: set_takeWhileD)
  then have "checkpoint \<notin> le_signature ` set ?page"
    using Suc.prems(1) by (auto dest: in_set_takeD)
  then have none: "find_checkpoint checkpoint 0 (map entry_json ?page) = Inr None"
    by (rule find_checkpoint_absent)
  show ?case
  proof (cases "length rest < 1000")
    case True
    with page none Suc.prems(1) show ?thesis by simp
  next
    case False
    then have ne: "?page \<noteq> []" and len: "length ?page = 1000" by auto
    have last: "json_field (last (map entry_json ?page)) ''signature'' = Some (JStr (le_signature (last ?page)))"
      using ne by (simp add: last_map)
    have "backfill_pages fuel cfg http checkpoint (map_option JStr (Some (le_signature (last ?page))))
        (map entry_json (pre @ ?page)) = Some (Inr (map entry_json (missed ledger checkpoint)))"
    proof (rule Suc.IH [of _ "drop 1000 rest"])
      show "missed ledger checkpoint = (pre @ ?page) @ drop 1000 rest" using Suc.prems(1) by simp
      show "Some (le_signature (last ?page)) = (if pre @ ?page = [] then None else Some (le_signature (last (pre @ ?page))))"
        using ne by simp
      have "length rest div 1000 = Suc (length (drop 1000 rest) div 1000)"
        using False by (simp add: le_div_geq)
      with Suc.prems(3) show "length (drop 1000 rest) div 1000 + 2 \<le> fuel" by simp
    qed
    with page none ne len last show ?thesis by simp
  qed
qed

lemma for_each_record_events: "for_each_op record_event es w = (Inr (), w @ es)"
  by (induction es arbitrary: w) (simp_all add: record_event_def)

lemma deliver_transaction_records:
  assumes "write_results (ss_store st) = []"
  shows "\<exists>st'. deliver_transaction K cfg record_event sg logs st = (Inr (), st')
    \<and> ss_world st' = ss_world st @ extractBridgeFundEvents K cfg logs sg
    \<and> ss_lastSignature st' = Some sg \<and> write_results (ss_store st') = []"
  using assms
  by (simp add: deliver_transaction_def on_world_def for_each_record_events and_then_def
      recordSignature_def signature_save_def writeJsonFileAtomic_def next_write_def)

lemma replay_entry_records:
  assumes "honest_ledger ledger cfg http checkpoint" "e \<in> set ledger" "write_results (ss_store st) = []"
  shows "\<exists>st'. replay_entry K cfg http record_event (entry_json e) st = (Inr (), st')
    \<and> ss_world st' = ss_world st @ entry_events K cfg e
    \<and> ss_lastSignature st' = Some (le_signature e) \<and> write_results (ss_store st') = []"
proof (cases "le_failed e")
  case True
  with assms(3) show ?thesis
    by (simp add: replay_entry_def falsy_def entry_events_def recordSignature_def signature_save_def
        writeJsonFileAtomic_def next_write_def)
next
  case False
  with assms have "getTransaction cfg http (le_signature e) = Inr (le_logs e)"
    by (simp add: honest_ledger_def)
  with False deliver_transaction_records [OF assms(3)] show ?thesis
    by (simp add: replay_entry_def falsy_def entry_events_def)
qed

lemma replay_entries_record:
  assumes "honest_ledger ledger cfg http checkpoint" "set es \<subseteq> set ledger" "write_results (ss_store st) = []"
  shows "\<exists>st'. for_each_op (replay_entry K cfg http record_event) (map entry_json es) st = (Inr (), st')
    \<and> ss_world st' = ss_world st @ concat (map (entry_events K cfg) es)
    \<and> ss_lastSignature st' = (if es = [] then ss_lastSignature st else Some (le_signature (last es)))"
  using assms(2,3)
proof (induction es arbitrary: st)
  case Nil
  then show ?case by simp
next
  case (Cons e es)
  from replay_entry_records [OF assms(1), of e st K] Cons.prems obtain st1 where
    st1: "replay_entry K cfg http record_event (entry_json e) st = (Inr (), st1)"
      "ss_world st1 = ss_world st @ entry_events K cfg e" "ss_lastSignature st1 = Some (le_signature e)"
      "write_results (ss_store st1) = []" by auto
  from Cons.IH [of st1] Cons.prems st1(4) obtain st' where
    "for_each_op (replay_entry K cfg http record_event) (map entry_json es) st1 = (Inr (), st')"
    "ss_world st' = ss_world st1 @ concat (map (entry_events K cfg) es)"
    "ss_lastSignature st' = (if es = [] then ss_lastSignature st1 else Some (le_signature (last es)))" by auto
  with st1 show ?case by simp
qed

section \<open>Properties\<close>

text \<open>C15: No forged deposit: whatever text the programs of a transaction print, every event the listener
  extracts comes from a \<open>bridge_fund\<close> line printed while the bridge program itself was executing.
  Printed lines that imitate \<open>invoke\<close> or \<open>success\<close> lines do not help, because what they put on the
  stack ends in a colon.\<close>

theorem only_bridge_program_events:
  assumes "list_all wf_trace ts" "program_id (sc_programId cfg)"
    and "e \<in> set (extractBridgeFundEvents K cfg (concat (map render ts)) signature)"
  shows "\<exists>(line, i) \<in> set (genuine_all (sc_programId cfg) None 0 ts). decodeLine K cfg line signature i = Some e"
proof -
  have "sound_walk (sc_programId cfg) [] 0 (concat (map render ts)) (sum_list (map fund_count ts))
      (genuine_all (sc_programId cfg) (executing (frames [])) 0 ts)"
    using assms(1,2) by (intro sound_walk_all) (simp_all add: program_id_def)
  then have "set (accepted_lines (sc_programId cfg) [] 0 (concat (map render ts)))
      \<subseteq> set (genuine_all (sc_programId cfg) None 0 ts)"
    by (simp add: sound_walk_def frames_def executing_def)
  with assms(3) show ?thesis
    by (force simp: extractBridgeFundEvents_def List.map_filter_def)
qed

definition bridge_id :: string where "bridge_id = ''Bridge''"

definition sample_solana :: solana_config where
  "sample_solana = \<lparr>sc_programId = bridge_id, sc_chainId = 101, sc_httpUrl = Some ''http'',
     sc_initialReconnectDelayMs = None, sc_maxReconnectDelayMs = None\<rparr>"

lemma sample_solana_simps [simp]: "sc_programId sample_solana = bridge_id" "sc_httpUrl sample_solana = Some ''http''"
  by (simp_all add: sample_solana_def)

definition honest_trace :: trace where
  "honest_trace = Called bridge_id 1 [Printed ''log:'' ''bridge_fund:GA:CA:5''] True"

definition forging_trace :: trace where
  "forging_trace = Called ''Evi1'' 1
     [Printed ''log:'' ''invoke [1]'', Called bridge_id 2 [Printed ''log:'' ''bridge_fund:GA:CA:5''] True,
      Printed ''log:'' ''bridge_fund:GX:CA:500''] True"

lemma program_id_samples [simp]: "program_id bridge_id" "program_id ''Evi1''"
  by (simp_all add: program_id_def plain_def bridge_id_def)

lemma wf_forging_trace: "wf_trace forging_trace"
  by (simp add: forging_trace_def plain_def)

lemma genuine_forging_trace:
  "genuine_all bridge_id None 0 [forging_trace] = [(printed_line ''log:'' ''bridge_fund:GA:CA:5'', 0)]"
  by (simp add: forging_trace_def printed_line_def fund_prefix_def) (simp add: bridge_id_def)

lemma genuine_honest_trace:
  "genuine_all bridge_id None 0 [honest_trace] = [(printed_line ''log:'' ''bridge_fund:GA:CA:5'', 0)]"
  by (simp add: honest_trace_def printed_line_def fund_prefix_def)

lemma only_bridge_program_events_witness:
  "ev_target ` set (extractBridgeFundEvents sample_platform sample_solana (concat (map render [forging_trace])) (replicate 64 CHR ''1''))
   \<subseteq> {''GA''}"
proof
  fix t
  assume "t \<in> ev_target ` set (extractBridgeFundEvents sample_platform sample_solana (concat (map render [forging_trace])) (replicate 64 CHR ''1''))"
  then obtain e where t: "t = ev_target e"
    and e: "e \<in> set (extractBridgeFundEvents sample_platform sample_solana (concat (map render [forging_trace])) (replicate 64 CHR ''1''))"
    by blast
  from only_bridge_program_events [OF _ _ e] wf_forging_trace
  have "decodeLine sample_platform sample_solana (printed_line ''log:'' ''bridge_fund:GA:CA:5'') (replicate 64 CHR ''1'') 0 = Some e"
    unfolding sample_solana_simps genuine_forging_trace by simp
  then show "t \<in> {''GA''}"
    by (auto simp: t decodeLine_def printed_line_def fund_prefix_def split: sum.splits if_splits)
qed

text \<open>C16: As long as no text that imitates a frame line is printed while the bridge program is on the call stack, by itself or by a
  program it calls, the listener extracts exactly the genuine deposits: the \<open>bridge_fund\<close> lines of the bridge program in
  order, each decoded with its position among all \<open>bridge_fund\<close> lines of the transaction.  Programs outside its
  calls may print anything.  Without this condition a deposit can be hidden (\<open>callee_hides_deposit\<close>).\<close>

theorem extracts_every_genuine_event:
  assumes "list_all wf_trace ts" "list_all (undisturbed (sc_programId cfg)) ts" "program_id (sc_programId cfg)"
  shows "extractBridgeFundEvents K cfg (concat (map render ts)) signature =
    List.map_filter (\<lambda>(line, i). decodeLine K cfg line signature i) (genuine_all (sc_programId cfg) None 0 ts)"
proof -
  have colon: "CHR '':'' \<notin> set (sc_programId cfg)" using assms(3) by (simp add: program_id_def)
  have "accepted_lines (sc_programId cfg) s j (render t) = genuine (sc_programId cfg) (executing []) j t"
    if "t \<in> set ts" "frames s = []" for t s j
    using undisturbed_trace [OF colon, of t s j] assms(1,2) that by (simp add: list_all_iff)
  from undisturbed_list [OF colon this, of ts "[]" 0] assms(1)
  have "accepted_lines (sc_programId cfg) [] 0 (concat (map render ts)) = genuine_all (sc_programId cfg) None 0 ts"
    by (simp add: list_all_iff frames_def executing_def)
  then show ?thesis by (simp add: extractBridgeFundEvents_def)
qed

text \<open>The transaction of \<open>forging_trace\<close>, where another program imitates a frame line around the deposit.\<close>

lemma extracts_every_genuine_event_witness:
  "extractBridgeFundEvents sample_platform sample_solana (concat (map render [forging_trace])) (replicate 64 CHR ''1'')
   = List.map_filter (\<lambda>(line, i). decodeLine sample_platform sample_solana line (replicate 64 CHR ''1'') i)
       [(printed_line ''log:'' ''bridge_fund:GA:CA:5'', 0)]"
proof -
  have "prefix fund_prefix (printed_line ''log:'' ''bridge_fund:GA:CA:5'')"
    by (simp add: printed_line_def fund_prefix_def)
  moreover have "''Evi1'' \<noteq> bridge_id" by (simp add: bridge_id_def)
  ultimately have "undisturbed bridge_id forging_trace"
    by (simp add: forging_trace_def fund_prefix_no_frame)
  then have "list_all wf_trace [forging_trace]" "list_all (undisturbed (sc_programId sample_solana)) [forging_trace]"
    "program_id (sc_programId sample_solana)"
    by (simp_all add: wf_forging_trace)
  from extracts_every_genuine_event [OF this, of sample_platform]
  show ?thesis unfolding sample_solana_simps genuine_forging_trace .
qed

text \<open>A program the bridge calls before it reports the deposit prints \<open>invoke [1]\<close>: the walk takes \<open>log:\<close> for the executing
  program and drops the deposit.\<close>

definition hiding_trace :: trace where
  "hiding_trace = Called bridge_id 1
     [Called ''Evi1'' 2 [Printed ''log:'' ''invoke [1]''] True, Printed ''log:'' ''bridge_fund:GA:CA:5''] True"

lemma callee_hides_deposit:
  "wf_trace hiding_trace"
  "genuine_all bridge_id None 0 [hiding_trace] = [(printed_line ''log:'' ''bridge_fund:GA:CA:5'', 0)]"
  "extractBridgeFundEvents K sample_solana (concat (map render [hiding_trace])) signature = []"
proof -
  show "wf_trace hiding_trace" by (simp add: hiding_trace_def plain_def)
  show "genuine_all bridge_id None 0 [hiding_trace] = [(printed_line ''log:'' ''bridge_fund:GA:CA:5'', 0)]"
    by (simp add: hiding_trace_def printed_line_def fund_prefix_def)
  have "accepted_lines bridge_id [] 0 (concat (map render [hiding_trace])) = []" by code_simp
  then show "extractBridgeFundEvents K sample_solana (concat (map render [hiding_trace])) signature = []"
    by (simp add: extractBridgeFundEvents_def List.map_filter_simps)
qed

text \<open>C17: A reconnect loses nothing: when the node serves its ledger faithfully and the cursor can be
  written, the backfill ends, hands on the events of exactly the transactions newer than the
  cursor, oldest first, and leaves the cursor at the newest of them.\<close>

theorem backfill_replays_missed_transactions:
  assumes "honest_ledger ledger cfg http checkpoint" "distinct (map le_signature ledger)"
    and "ss_lastSignature st = Some checkpoint" "checkpoint \<noteq> []" "sc_httpUrl cfg = Some url" "url \<noteq> []"
    and "write_results (ss_store st) = []" "length ledger div 1000 + 2 \<le> fuel"
  shows "\<exists>st'. backfill fuel K cfg http record_event st = Some (Inr (), st')
    \<and> ss_world st' = ss_world st @ concat (map (entry_events K cfg) (rev (missed ledger checkpoint)))
    \<and> ss_lastSignature st'
       = (if missed ledger checkpoint = [] then Some checkpoint
          else Some (le_signature (hd (missed ledger checkpoint))))"
proof -
  let ?es = "missed ledger checkpoint"
  have sub: "set ?es \<subseteq> set ledger" by (auto simp: missed_def dest: set_takeWhileD)
  have split: "ledger = ?es @ dropWhile (\<lambda>e. le_signature e \<noteq> checkpoint) ledger" by (simp add: missed_def)
  from assms(2) have dist: "distinct (map le_signature ?es)" by (subst (asm) split) simp
  have "length ?es \<le> length ledger" by (subst (2) split) simp
  then have fuel: "length ?es div 1000 + 2 \<le> fuel"
    using assms(8) div_le_mono [of "length ?es" "length ledger" 1000] by linarith
  from backfill_pages_missed [OF assms(1) dist, of "[]" ?es None fuel] fuel
  have pages: "backfill_pages fuel cfg http checkpoint None [] = Some (Inr (map entry_json ?es))" by simp
  from replay_entries_record [OF assms(1), of "rev ?es" st K] sub assms(7) obtain st' where
    "for_each_op (replay_entry K cfg http record_event) (map entry_json (rev ?es)) st = (Inr (), st')"
    "ss_world st' = ss_world st @ concat (map (entry_events K cfg) (rev ?es))"
    "ss_lastSignature st' = (if ?es = [] then ss_lastSignature st else Some (le_signature (last (rev ?es))))"
    by auto
  with pages assms(3-6) show ?thesis by (simp add: backfill_def rev_map last_rev)
qed

text \<open>A node over a given ledger.\<close>

definition ledger_http :: "ledger_entry list \<Rightarrow> string \<Rightarrow> sol_http" where
  "ledger_http ledger checkpoint meth params =
     (let reply = (\<lambda>js. Inr \<lparr>resp_status = 200, resp_json = Some (JObj [(''result'', js)])\<rparr>) in
      case params of
        [JStr s, JObj fs] \<Rightarrow>
          if meth = ''getSignaturesForAddress''
          then reply (JArr (map entry_json (take 1000 (after (missed ledger checkpoint)
                 (case map_of fs ''before'' of Some (JStr b) \<Rightarrow> Some b | _ \<Rightarrow> None)))))
          else (case find (\<lambda>e. le_signature e = s) ledger of
                  None \<Rightarrow> reply JNull
                | Some e \<Rightarrow> reply (JObj [(''meta'', JObj [(''logMessages'', JArr (map JStr (le_logs e)))])]))
      | _ \<Rightarrow> Inl ''bad parameters'')"

lemma json_strings_JStr: "json_strings (map JStr ss) = Inr ss"
  by (induction ss) simp_all

lemma find_distinct_key:
  "distinct (map f xs) \<Longrightarrow> x \<in> set xs \<Longrightarrow> find (\<lambda>y. f y = f x) xs = Some x"
  by (induction xs) auto

lemma ledger_http_honest:
  assumes "sc_httpUrl cfg = Some url" "url \<noteq> []" "distinct (map le_signature ledger)"
    and "\<forall>e \<in> set ledger. le_signature e \<noteq> []"
  shows "honest_ledger ledger cfg (ledger_http ledger checkpoint) checkpoint"
proof -
  have "sol_rpcCall cfg (ledger_http ledger checkpoint) ''getSignaturesForAddress''
      (signatures_request cfg checkpoint (map_option JStr before))
      = Inr (JArr (map entry_json (take 1000 (after (missed ledger checkpoint) before))))"
    if "before \<noteq> Some []" for before
    using assms(1,2) that
    by (cases before) (simp_all add: sol_rpcCall_def ledger_http_def signatures_request_def present_def)
  moreover have "getTransaction cfg (ledger_http ledger checkpoint) (le_signature e) = Inr (le_logs e)"
    if "e \<in> set ledger" for e
    using assms(1,2) find_distinct_key [OF assms(3) that]
    by (simp add: getTransaction_def sol_rpcCall_def ledger_http_def present_def transaction_logs_def
        json_strings_JStr falsy_def)
  ultimately show ?thesis using assms(4) by (simp add: honest_ledger_def)
qed

definition sample_ledger :: "ledger_entry list" where
  "sample_ledger =
     [\<lparr>le_signature = ''s3'', le_failed = False, le_logs = render honest_trace\<rparr>,
      \<lparr>le_signature = ''s2'', le_failed = True, le_logs = []\<rparr>,
      \<lparr>le_signature = ''s1'', le_failed = False, le_logs = []\<rparr>]"

definition sample_sol_state :: "bridge_event list sol_state" where
  "sample_sol_state = \<lparr>ss_lastSignature = Some ''s1'', ss_store = \<lparr>contents = Holds ''s1'', write_results = []\<rparr>,
     ss_world = [], ss_reconnectDelay = 1000, ss_stopped = False, ss_queue_failed = False\<rparr>"

lemma backfill_replays_missed_transactions_witness:
  "\<exists>st'. backfill 2 sample_platform sample_solana (ledger_http sample_ledger ''s1'') record_event sample_sol_state
      = Some (Inr (), st') \<and> ss_lastSignature st' = Some ''s3''"
proof -
  have h: "honest_ledger sample_ledger sample_solana (ledger_http sample_ledger ''s1'') ''s1''"
    by (rule ledger_http_honest [OF sample_solana_simps(2)]) (simp_all add: sample_ledger_def)
  have "distinct (map le_signature sample_ledger)" by (simp add: sample_ledger_def)
  from backfill_replays_missed_transactions [OF h this, of sample_sol_state "''http''" 2 sample_platform]
  show ?thesis by (auto simp: sample_sol_state_def sample_ledger_def missed_def)
qed

text \<open>The base-58 decoder inverts the encoding of every non-empty byte string, leading zero bytes
  included.\<close>

theorem base58_roundtrip:
  assumes "bs \<noteq> []"
  shows "base58Decode (base58Encode bs) = Inr bs"
  using base58Decode_Encode [OF assms] .

lemma base58_roundtrip_witness: "base58Decode (base58Encode ''ab'') = Inr ''ab''"
  using base58_roundtrip [of "''ab''"] by simp

lemma ws_onmessage_failed: "ss_queue_failed st \<Longrightarrow> fold (ws_onmessage K cfg onEvent) msgs st = st"
  by (induction msgs) (simp_all add: ws_onmessage_def split: option.splits)

text \<open>The live cursor never passes a transaction whose events were not all accepted: if the callback
  rejects one of them, the cursor and its file keep their values through any further messages of the
  connection, so the next backfill starts before that transaction.\<close>

theorem live_cursor_stops_at_rejection:
  assumes "\<not> ss_queue_failed st" "notification_value data = Some v"
    and "json_field v ''signature'' = Some (JStr sg)" "sg \<noteq> []" "\<not> present (json_field v ''err'')"
    and "json_field v ''logs'' = Some (JArr (map JStr logs))"
    and "for_each_op onEvent (extractBridgeFundEvents K cfg logs sg) (ss_world st) = (Inl err, w)"
  shows "fold (ws_onmessage K cfg onEvent) (Some data # msgs) st = st\<lparr>ss_world := w, ss_queue_failed := True\<rparr>"
proof -
  have "processNotification K cfg onEvent data st = (Inl err, st\<lparr>ss_world := w\<rparr>)"
    using assms(2-7)
    by (simp add: processNotification_def json_strings_JStr deliver_transaction_def on_world_def and_then_def)
  then have "ws_onmessage K cfg onEvent (Some data) st = st\<lparr>ss_world := w, ss_queue_failed := True\<rparr>"
    using assms(1) by (simp add: ws_onmessage_def queue_task_def)
  then show ?thesis by (simp add: ws_onmessage_failed)
qed

definition sample_notification :: json where
  "sample_notification = JObj [(''params'', JObj [(''result'', JObj [(''value'',
     JObj [(''signature'', JStr (base58Encode (replicate 64 CHR ''s''))),
           (''logs'', JArr (map JStr (render honest_trace)))])])])]"

lemma sample_notification_events:
  "\<exists>e. extractBridgeFundEvents sample_platform sample_solana (render honest_trace)
     (base58Encode (replicate 64 CHR ''s'')) = [e]"
proof -
  have fund: "prefix fund_prefix (printed_line ''log:'' ''bridge_fund:GA:CA:5'')"
    by (simp add: printed_line_def fund_prefix_def)
  have quiet: "quiet honest_trace" and wf: "wf_trace honest_trace"
    using fund_prefix_no_frame [OF fund] by (simp_all add: honest_trace_def plain_def)
  have lines: "accepted_lines bridge_id [] 0 (render honest_trace) = [(printed_line ''log:'' ''bridge_fund:GA:CA:5'', 0)]"
    using exact_walk_trace [OF wf quiet, of bridge_id "[]" 0] genuine_honest_trace
    by (simp add: exact_walk_def executing_def)
  have "replace_first fund_prefix [] (printed_line ''log:'' ''bridge_fund:GA:CA:5'') = ''GA:CA:5''"
    using replace_first_prefix [of fund_prefix "[]" "''GA:CA:5''"] by (simp add: fund_prefix_def printed_line_def)
  moreover have "base58Decode (base58Encode (replicate 64 CHR ''s'')) = Inr (replicate 64 CHR ''s'')"
    by (rule base58Decode_Encode) simp
  moreover have "split_on CHR '':'' ''GA:CA:5'' = [''GA'', ''CA'', ''5'']" by simp
  moreover have "matches_digits ''5''" by (simp add: matches_digits_def is_dec_def)
  ultimately show ?thesis
    unfolding extractBridgeFundEvents_def sample_solana_simps lines
    by (simp add: List.map_filter_simps decodeLine_def u32_max_def)
qed

lemma live_cursor_stops_at_rejection_witness:
  "ss_lastSignature (fold (ws_onmessage sample_platform sample_solana (\<lambda>_ w. (Inl ''refused'', w)))
     [Some sample_notification, Some sample_notification, None] sample_sol_state) = Some ''s1''"
proof -
  obtain e where e: "extractBridgeFundEvents sample_platform sample_solana (render honest_trace)
     (base58Encode (replicate 64 CHR ''s'')) = [e]" using sample_notification_events by auto
  have ne: "base58Encode (replicate 64 CHR ''s'') \<noteq> []"
    using base58Decode_Encode [of "replicate 64 CHR ''s''"] by (auto simp: base58Decode_def)
  show ?thesis
    using live_cursor_stops_at_rejection [of sample_sol_state sample_notification _
        "base58Encode (replicate 64 CHR ''s'')" "render honest_trace" "\<lambda>_ w. (Inl ''refused'', w)"
        sample_platform sample_solana "''refused''" "[]" "[Some sample_notification, None]"] ne
    by (simp add: sample_sol_state_def e) (simp add: sample_notification_def notification_value_def present_def)
qed

end
