(* ===== verification/Relayer_Lifecycle.thy ===== *)
theory Relayer_Lifecycle
  imports Solana_Listener Relayer_Service
begin

text \<open>
  Starting and stopping (\<open>relayer/index.ts\<close>: the constructor, \<open>start\<close> and \<open>stop\<close> of \<open>RelayerService\<close>, \<open>start\<close>
  and \<open>stop\<close> of both listeners, the reconnections of the Solana listener).  The event loop holds the active intervals, the
  pending timeouts and the open sockets; what an interval, a timeout or a connection begins (a poll, a sweep of the
  dead letters, a connection) is written down in the order it begins.
\<close>

section \<open>The event loop\<close>

datatype task = Sweep | Poll nat | Connect nat

record event_loop =
  el_next :: nat
  el_intervals :: "(nat \<times> int \<times> task) list"
  el_timeouts :: "(nat \<times> int \<times> task) list"
  el_begun :: "task list"
  el_console :: "string list"

definition setInterval :: "task \<Rightarrow> int \<Rightarrow> event_loop \<Rightarrow> nat \<times> event_loop" where
  "setInterval t ms s = (el_next s, s\<lparr>el_next := el_next s + 1, el_intervals := el_intervals s @ [(el_next s, ms, t)]\<rparr>)"

definition setTimeout :: "task \<Rightarrow> int \<Rightarrow> event_loop \<Rightarrow> nat \<times> event_loop" where
  "setTimeout t ms s = (el_next s, s\<lparr>el_next := el_next s + 1, el_timeouts := el_timeouts s @ [(el_next s, ms, t)]\<rparr>)"

definition clearInterval :: "nat \<Rightarrow> event_loop \<Rightarrow> event_loop" where
  "clearInterval i s = s\<lparr>el_intervals := filter (\<lambda>e. fst e \<noteq> i) (el_intervals s)\<rparr>"

definition clearTimeout :: "nat \<Rightarrow> event_loop \<Rightarrow> event_loop" where
  "clearTimeout i s = s\<lparr>el_timeouts := filter (\<lambda>e. fst e \<noteq> i) (el_timeouts s)\<rparr>"

definition note_task :: "task \<Rightarrow> event_loop \<Rightarrow> event_loop" where
  "note_task t s = s\<lparr>el_begun := el_begun s @ [t]\<rparr>"

definition log_line :: "string \<Rightarrow> event_loop \<Rightarrow> event_loop" where
  "log_line l s = s\<lparr>el_console := el_console s @ [l]\<rparr>"

section \<open>Listeners\<close>

text \<open>A listener with its fields: the timer of the Ethereum listener; of the Solana listener \<open>stopped\<close>, \<open>reconnectDelay\<close>,
  \<open>reconnectTimer\<close>, and the number of its sockets that are not closed yet.\<close>

datatype listener =
    EthLife "int option" "nat option"
  | SolLife solana_config bool int "nat option" nat

fun new_listener :: "(int option + solana_config) \<Rightarrow> listener" where
  "new_listener (Inl pollIntervalMs) = EthLife pollIntervalMs None"
| "new_listener (Inr cfg) = SolLife cfg False (initial_delay cfg) None 0"

text \<open>\<open>connect\<close> opens a socket unless the listener is stopped.\<close>

fun connect :: "nat \<Rightarrow> listener \<Rightarrow> event_loop \<Rightarrow> listener \<times> event_loop" where
  "connect i (SolLife cfg stopped delay timer sockets) s =
     (if stopped then (SolLife cfg stopped delay timer sockets, s)
      else (SolLife cfg stopped delay timer (sockets + 1), note_task (Connect i) s))"
| "connect i l s = (l, s)"

fun start_listener :: "nat \<Rightarrow> listener \<Rightarrow> event_loop \<Rightarrow> listener \<times> event_loop" where
  "start_listener i (EthLife pollIntervalMs timer) s =
     (case setInterval (Poll i) (case pollIntervalMs of None \<Rightarrow> 12000 | Some ms \<Rightarrow> ms) s of (t, s') \<Rightarrow>
        (EthLife pollIntervalMs (Some t), note_task (Poll i) s'))"
| "start_listener i (SolLife cfg stopped delay timer sockets) s = connect i (SolLife cfg False delay timer sockets) s"

fun stop_listener :: "listener \<Rightarrow> event_loop \<Rightarrow> listener \<times> event_loop" where
  "stop_listener (EthLife ms timer) s = (EthLife ms timer, case timer of None \<Rightarrow> s | Some t \<Rightarrow> clearInterval t s)"
| "stop_listener (SolLife cfg stopped delay timer sockets) s =
     (SolLife cfg True delay timer sockets, case timer of None \<Rightarrow> s | Some t \<Rightarrow> clearTimeout t s)"

text \<open>A socket closes, whoever closed it: the reconnection is scheduled after the current delay, unless stopped.\<close>

fun socket_closed :: "nat \<Rightarrow> listener \<Rightarrow> event_loop \<Rightarrow> listener \<times> event_loop" where
  "socket_closed i (SolLife cfg stopped delay timer sockets) s =
     (if stopped then (SolLife cfg stopped delay timer (sockets - 1), s)
      else case setTimeout (Connect i) delay s of (t, s') \<Rightarrow> (SolLife cfg stopped delay (Some t) (sockets - 1), s'))"
| "socket_closed i l s = (l, s)"

text \<open>The callback of that timeout, with the delay it waited.\<close>

fun reconnect :: "nat \<Rightarrow> int \<Rightarrow> listener \<Rightarrow> event_loop \<Rightarrow> listener \<times> event_loop" where
  "reconnect i waited (SolLife cfg stopped delay timer sockets) s =
     connect i (SolLife cfg stopped (min (waited * 2) (max_delay cfg)) timer sockets) s"
| "reconnect i waited l s = (l, s)"

text \<open>\<open>onopen\<close> resets the delay (the backfill it starts is \<open>ws_onopen\<close>).\<close>

fun socket_opened :: "listener \<Rightarrow> listener" where
  "socket_opened (SolLife cfg stopped delay timer sockets) = SolLife cfg stopped (initial_delay cfg) timer sockets"
| "socket_opened l = l"

definition buildSolanaSubscribePayload :: "string \<Rightarrow> json" where
  "buildSolanaSubscribePayload programId = JObj
     [(''jsonrpc'', JStr ''2.0''), (''id'', JNum 1), (''method'', JStr ''logsSubscribe''),
      (''params'', JArr [JObj [(''mentions'', JArr [JStr programId])], JObj [(''commitment'', JStr ''finalized'')]])]"

section \<open>The service\<close>

record service =
  sv_config :: relayer_config
  sv_dlqRetryIntervalMs :: "int option"
  sv_retryTimer :: "nat option"
  sv_listeners :: "listener list"

fun is_private :: "node_config \<Rightarrow> bool" where
  "is_private (PrivateKeyNode _) = True"
| "is_private (SignerNode _ _) = False"

definition key_warning :: "nat \<Rightarrow> string" where
  "key_warning n = ''[relayer] WARNING: '' @ dec_of_nat n @ '' relayer private keys are loaded directly into '' @
     ''this process. This defeats the multi-sig threshold '' @ [CHR 0xE2, CHR 0x80, CHR 0x94] @ '' compromising this one process '' @
     ''yields every key. Configure each node with a `signerUrl` pointing at an independent '' @
     ''signer service instead (see relayer/signer-service.ts and '' @
     ''adr/ADR-007-signer-key-isolation.md). `privateKey` remains only for local dev.''"

text \<open>The constructor, its stores aside (\<open>openRelayer\<close>).\<close>

definition new_service ::
  "relayer_config \<Rightarrow> int option \<Rightarrow> (int option + solana_config) list \<Rightarrow> event_loop \<Rightarrow> service \<times> event_loop" where
  "new_service cfg retryMs listeners s =
     (let inProcessKeyCount = length (filter is_private (rc_nodes cfg)) in
      (\<lparr>sv_config = cfg, sv_dlqRetryIntervalMs = retryMs, sv_retryTimer = None, sv_listeners = map new_listener listeners\<rparr>,
       if inProcessKeyCount > 1 then log_line (key_warning inProcessKeyCount) s else s))"

fun each_listener :: "(nat \<Rightarrow> listener \<Rightarrow> event_loop \<Rightarrow> listener \<times> event_loop) \<Rightarrow> nat \<Rightarrow> listener list \<Rightarrow> event_loop \<Rightarrow> listener list \<times> event_loop" where
  "each_listener f i [] s = ([], s)"
| "each_listener f i (l # ls) s =
     (case f i l s of (l', s') \<Rightarrow> case each_listener f (i + 1) ls s' of (ls', s'') \<Rightarrow> (l' # ls', s''))"

definition start_service :: "service \<times> event_loop \<Rightarrow> service \<times> event_loop" where
  "start_service = (\<lambda>(sv, s).
     case each_listener start_listener 0 (sv_listeners sv) s of (ls, s1) \<Rightarrow>
       let ms = (case sv_dlqRetryIntervalMs sv of None \<Rightarrow> 60000 | Some ms \<Rightarrow> ms); sv1 = sv\<lparr>sv_listeners := ls\<rparr>;
           started = ''[relayer] started with '' @ dec_of_nat (length (rc_nodes (sv_config sv))) @ '' node(s), threshold='' @
                     dec_of_nat (rc_threshold (sv_config sv)) in
       if ms > 0 then case setInterval Sweep ms s1 of (t, s2) \<Rightarrow> (sv1\<lparr>sv_retryTimer := Some t\<rparr>, log_line started s2)
       else (sv1, log_line started s1))"

definition stop_service :: "service \<times> event_loop \<Rightarrow> service \<times> event_loop" where
  "stop_service = (\<lambda>(sv, s).
     case each_listener (\<lambda>_. stop_listener) 0 (sv_listeners sv) s of (ls, s1) \<Rightarrow>
       (sv\<lparr>sv_listeners := ls, sv_retryTimer := None\<rparr>,
        log_line ''[relayer] stopped'' (case sv_retryTimer sv of None \<Rightarrow> s1 | Some t \<Rightarrow> clearInterval t s1)))"

section \<open>What happens to a service\<close>

text \<open>An interval elapses, a timeout fires, a socket of a listener closes or opens.  A timeout always is a reconnection.\<close>

datatype happening = Tick nat | Fire nat | SocketClosed nat | SocketOpened nat

definition on_listener :: "nat \<Rightarrow> (listener \<Rightarrow> event_loop \<Rightarrow> listener \<times> event_loop) \<Rightarrow> service \<times> event_loop \<Rightarrow> service \<times> event_loop" where
  "on_listener i f = (\<lambda>(sv, s).
     if i < length (sv_listeners sv) then
       case f (sv_listeners sv ! i) s of (l, s') \<Rightarrow> (sv\<lparr>sv_listeners := (sv_listeners sv)[i := l]\<rparr>, s')
     else (sv, s))"

fun open_sockets :: "listener \<Rightarrow> nat" where
  "open_sockets (SolLife _ _ _ _ n) = n"
| "open_sockets _ = 0"

fun happen :: "happening \<Rightarrow> service \<times> event_loop \<Rightarrow> service \<times> event_loop" where
  "happen (Tick t) (sv, s) = (case map_of (el_intervals s) t of None \<Rightarrow> (sv, s) | Some (_, task) \<Rightarrow> (sv, note_task task s))"
| "happen (Fire t) (sv, s) =
     (case map_of (el_timeouts s) t of
        Some (ms, Connect i) \<Rightarrow> on_listener i (reconnect i ms) (sv, clearTimeout t s)
      | _ \<Rightarrow> (sv, s))"
| "happen (SocketClosed i) (sv, s) =
     (if i < length (sv_listeners sv) \<and> 0 < open_sockets (sv_listeners sv ! i) then on_listener i (socket_closed i) (sv, s) else (sv, s))"
| "happen (SocketOpened i) (sv, s) = on_listener i (\<lambda>l s. (socket_opened l, s)) (sv, s)"

definition happenings :: "happening list \<Rightarrow> service \<times> event_loop \<Rightarrow> service \<times> event_loop" where
  "happenings = fold happen"

definition idle_loop :: event_loop where
  "idle_loop = \<lparr>el_next = 0, el_intervals = [], el_timeouts = [], el_begun = [], el_console = []\<rparr>"

section \<open>Timers are owned\<close>

fun eth_timer :: "listener \<Rightarrow> nat list" where
  "eth_timer (EthLife _ (Some t)) = [t]"
| "eth_timer _ = []"

definition owned :: "service \<Rightarrow> nat list" where
  "owned sv = (case sv_retryTimer sv of None \<Rightarrow> [] | Some t \<Rightarrow> [t]) @ concat (map eth_timer (sv_listeners sv))"

definition timers_owned :: "service \<times> event_loop \<Rightarrow> bool" where
  "timers_owned = (\<lambda>(sv, s). set (map fst (el_intervals s)) \<subseteq> set (owned sv))"

fun halted :: "listener \<Rightarrow> bool" where
  "halted (SolLife _ stopped _ _ _) = stopped"
| "halted (EthLife _ _) = True"

definition at_rest :: "service \<times> event_loop \<Rightarrow> bool" where
  "at_rest = (\<lambda>(sv, s). el_intervals s = [] \<and> list_all halted (sv_listeners sv))"

text \<open>Nothing that happens to a listener touches an interval or the timer of an Ethereum listener.\<close>

lemma listener_steps:
  "connect i l s = (l', s') \<Longrightarrow> eth_timer l' = eth_timer l \<and> el_intervals s' = el_intervals s"
  "reconnect i ms l s = (l', s') \<Longrightarrow> eth_timer l' = eth_timer l \<and> el_intervals s' = el_intervals s"
  "socket_closed i l s = (l', s') \<Longrightarrow> eth_timer l' = eth_timer l \<and> el_intervals s' = el_intervals s"
  "eth_timer (socket_opened l) = eth_timer l"
  by (cases l; auto simp: note_task_def setTimeout_def split: if_splits)+

lemma halted_steps:
  "halted l \<Longrightarrow> connect i l s = (l', s') \<Longrightarrow> halted l' \<and> s' = s"
  "halted l \<Longrightarrow> reconnect i ms l s = (l', s') \<Longrightarrow> halted l' \<and> s' = s"
  "halted l \<Longrightarrow> socket_closed i l s = (l', s') \<Longrightarrow> halted l' \<and> s' = s"
  "halted (socket_opened l) = halted l"
  by (cases l; auto)+

lemma on_listener_owned:
  assumes "timers_owned (sv, s)" "\<And>l l' s'. f l s = (l', s') \<Longrightarrow> eth_timer l' = eth_timer l \<and> el_intervals s' = el_intervals s"
  shows "timers_owned (on_listener i f (sv, s))"
proof (cases "i < length (sv_listeners sv)")
  case True
  obtain l s' where f: "f (sv_listeners sv ! i) s = (l, s')" by fastforce
  from assms(2) [OF this] True have "map eth_timer ((sv_listeners sv)[i := l]) = map eth_timer (sv_listeners sv)"
    by (metis list_update_id map_update)
  then have "owned (sv\<lparr>sv_listeners := (sv_listeners sv)[i := l]\<rparr>) = owned sv" by (simp add: owned_def del: map_update)
  with assms(1) assms(2) [OF f] f True show ?thesis by (simp add: on_listener_def timers_owned_def)
qed (use assms(1) in \<open>simp add: on_listener_def\<close>)

lemma happen_owned: "timers_owned x \<Longrightarrow> timers_owned (happen h x)"
proof (cases x)
  case (Pair sv s)
  assume owned: "timers_owned x"
  show ?thesis
  proof (cases h)
    case (Tick t)
    with owned Pair show ?thesis by (auto simp: note_task_def timers_owned_def split: option.splits)
  next
    case (Fire t)
    have "timers_owned (sv, clearTimeout t s)" using owned Pair by (simp add: timers_owned_def clearTimeout_def)
    then have "timers_owned (on_listener i (reconnect i ms) (sv, clearTimeout t s))" for i ms
      by (rule on_listener_owned) (rule listener_steps(2))
    with owned Pair Fire show ?thesis by (auto split: option.splits task.splits)
  next
    case (SocketClosed i)
    have "timers_owned (on_listener i (socket_closed i) (sv, s))"
      using owned Pair by (intro on_listener_owned listener_steps(3)) simp_all
    with owned Pair SocketClosed show ?thesis by simp
  next
    case (SocketOpened i)
    with owned Pair show ?thesis by (auto intro: on_listener_owned simp: listener_steps(4))
  qed
qed

lemma on_listener_at_rest:
  assumes "at_rest (sv, s)" "\<And>l l' s'. halted l \<Longrightarrow> f l s = (l', s') \<Longrightarrow> halted l' \<and> s' = s"
  shows "at_rest (on_listener i f (sv, s)) \<and> snd (on_listener i f (sv, s)) = s"
  using assms by (auto simp: on_listener_def at_rest_def list_all_length nth_list_update split: prod.splits)

lemma happen_at_rest: "at_rest x \<Longrightarrow> at_rest (happen h x) \<and> el_begun (snd (happen h x)) = el_begun (snd x)"
proof (cases x)
  case (Pair sv s)
  assume rest: "at_rest x"
  show ?thesis
  proof (cases h)
    case (Tick t)
    with rest Pair show ?thesis by (simp add: at_rest_def)
  next
    case (Fire t)
    have "at_rest (sv, clearTimeout t s)" using rest Pair by (simp add: at_rest_def clearTimeout_def)
    then have "at_rest (on_listener i (reconnect i ms) (sv, clearTimeout t s)) \<and>
        snd (on_listener i (reconnect i ms) (sv, clearTimeout t s)) = clearTimeout t s" for i ms
      by (rule on_listener_at_rest) (rule halted_steps(2))
    with rest Pair Fire show ?thesis by (auto simp: clearTimeout_def split: option.splits task.splits)
  next
    case (SocketClosed i)
    with rest Pair on_listener_at_rest [OF _ halted_steps(3)] show ?thesis by auto
  next
    case (SocketOpened i)
    have "at_rest (on_listener i (\<lambda>l s. (socket_opened l, s)) (sv, s)) \<and> snd (on_listener i (\<lambda>l s. (socket_opened l, s)) (sv, s)) = s"
      using rest Pair by (intro on_listener_at_rest) (auto simp: halted_steps(4))
    with Pair SocketOpened show ?thesis by simp
  qed
qed

lemma happenings_owned: "timers_owned x \<Longrightarrow> timers_owned (happenings hs x)"
  by (induction hs arbitrary: x) (simp_all add: happenings_def happen_owned)

lemma happenings_at_rest: "at_rest x \<Longrightarrow> at_rest (happenings hs x) \<and> el_begun (snd (happenings hs x)) = el_begun (snd x)"
  by (induction hs arbitrary: x) (simp_all add: happenings_def happen_at_rest)

lemma start_listener_timers:
  "start_listener i l s = (l', s') \<Longrightarrow> map fst (el_intervals s') = map fst (el_intervals s) @ (case l of EthLife _ _ \<Rightarrow> eth_timer l' | _ \<Rightarrow> [])"
  by (cases l) (auto simp: setInterval_def note_task_def)

lemma start_listeners_timers:
  "each_listener start_listener i ls s = (ls', s') \<Longrightarrow>
     set (map fst (el_intervals s')) \<subseteq> set (map fst (el_intervals s)) \<union> set (concat (map eth_timer ls'))"
proof (induction ls arbitrary: i s ls' s')
  case (Cons l ls)
  from Cons.prems obtain l1 s1 ls1 where step: "start_listener i l s = (l1, s1)" "each_listener start_listener (i + 1) ls s1 = (ls1, s')"
    "ls' = l1 # ls1" by (auto split: prod.splits)
  from Cons.IH [OF step(2)] start_listener_timers [OF step(1)] step(3) show ?case by (auto split: listener.splits)
qed simp

lemma start_owned:
  assumes "el_intervals s = []"
  shows "timers_owned (start_service (sv, s))"
proof -
  obtain ls s1 where ls: "each_listener start_listener 0 (sv_listeners sv) s = (ls, s1)" by fastforce
  from start_listeners_timers [OF ls] assms have "set (map fst (el_intervals s1)) \<subseteq> set (concat (map eth_timer ls))" by simp
  then show ?thesis by (auto simp: start_service_def ls timers_owned_def owned_def setInterval_def log_line_def Let_def split: option.splits)
qed

lemma stop_listener_effect:
  "stop_listener l s = (l', s') \<Longrightarrow> halted l' \<and> set (map fst (el_intervals s')) = set (map fst (el_intervals s)) - set (eth_timer l)
     \<and> el_begun s' = el_begun s"
  by (cases l) (auto simp: clearInterval_def clearTimeout_def split: option.splits)

lemma stop_listeners_effect:
  "each_listener (\<lambda>_. stop_listener) i ls s = (ls', s') \<Longrightarrow> list_all halted ls'
     \<and> set (map fst (el_intervals s')) = set (map fst (el_intervals s)) - set (concat (map eth_timer ls)) \<and> el_begun s' = el_begun s"
proof (induction ls arbitrary: i s ls' s')
  case (Cons l ls)
  from Cons.prems obtain l1 s1 ls1 where step: "stop_listener l s = (l1, s1)" "each_listener (\<lambda>_. stop_listener) (i + 1) ls s1 = (ls1, s')"
    "ls' = l1 # ls1" by (auto split: prod.splits)
  from Cons.IH [OF step(2)] stop_listener_effect [OF step(1)] step(3) show ?case by auto
qed simp

lemma stop_at_rest:
  assumes "timers_owned (sv, s)"
  shows "at_rest (stop_service (sv, s))"
proof -
  obtain ls s1 where ls: "each_listener (\<lambda>_. stop_listener) 0 (sv_listeners sv) s = (ls, s1)" by fastforce
  let ?s2 = "case sv_retryTimer sv of None \<Rightarrow> s1 | Some t \<Rightarrow> clearInterval t s1"
  have "set (map fst (el_intervals ?s2)) = set (map fst (el_intervals s)) - set (owned sv)"
    using stop_listeners_effect [OF ls] by (auto simp: owned_def clearInterval_def split: option.splits)
  with assms have "set (map fst (el_intervals ?s2)) = {}" by (auto simp: timers_owned_def)
  then have "el_intervals ?s2 = []" by (simp only: set_empty map_is_Nil_conv)
  with stop_listeners_effect [OF ls] show ?thesis by (simp add: stop_service_def ls at_rest_def log_line_def)
qed

section \<open>Properties\<close>

lemma new_service_intervals: "el_intervals (snd (new_service cfg ms ls idle_loop)) = []"
  by (simp add: new_service_def idle_loop_def log_line_def Let_def)

text \<open>C40: A stopped service is quiet: after the service was started once and stopped, whatever happened in between (intervals,
  reconnections, sockets opening and closing) and whatever happens later, no interval is left and
  no poll, no sweep of the dead letters and no connection begins any more.\<close>

theorem stopped_service_is_quiet:
  assumes "stopped = stop_service (happenings before (start_service (new_service cfg ms listeners idle_loop)))"
  shows "el_intervals (snd (happenings later stopped)) = [] \<and> el_begun (snd (happenings later stopped)) = el_begun (snd stopped)"
proof -
  obtain sv s where new: "new_service cfg ms listeners idle_loop = (sv, s)" by fastforce
  with new_service_intervals [of cfg ms listeners] have "el_intervals s = []" by simp
  then have "timers_owned (start_service (sv, s))" by (rule start_owned)
  then have "timers_owned (happenings before (start_service (sv, s)))" by (rule happenings_owned)
  with stop_at_rest have "at_rest stopped" unfolding assms new by (cases "happenings before (start_service (sv, s))") simp
  with happenings_at_rest [of stopped later] show ?thesis by (auto simp: at_rest_def)
qed

definition sample_life :: "service \<times> event_loop" where
  "sample_life = stop_service (happenings [Tick 0, SocketOpened 1, SocketClosed 1, Tick 1]
     (start_service (new_service \<lparr>rc_nodes = [], rc_threshold = 1\<rparr> None [Inl None, Inr sample_solana] idle_loop)))"

theorem stopped_service_is_quiet_witness:
  "el_begun (snd (happenings [Tick 0, Tick 1, Fire 2, SocketClosed 1] sample_life)) = [Poll 0, Connect 1, Poll 0, Sweep]"
proof -
  have "el_begun (snd sample_life) = [Poll 0, Connect 1, Poll 0, Sweep]" by code_simp
  with stopped_service_is_quiet [OF sample_life_def] show ?thesis by simp
qed

text \<open>What a start sets up: one interval for every Ethereum listener and one for the dead letters.\<close>

lemma started_intervals:
  "map snd (el_intervals (snd (start_service (new_service cfg None [Inl None, Inl (Some p)] idle_loop))))
     = [(12000, Poll 0), (p, Poll 1), (60000, Sweep)]"
  by (simp add: start_service_def new_service_def idle_loop_def log_line_def Let_def setInterval_def note_task_def)

text \<open>A second start leaves the timers of the first behind.\<close>

lemma second_start_leaks_timers:
  "map snd (el_intervals (snd (stop_service (start_service (start_service (new_service cfg None [Inl None] idle_loop))))))
     = [(12000, Poll 0), (60000, Sweep)]"
  by (simp add: start_service_def stop_service_def new_service_def idle_loop_def log_line_def Let_def setInterval_def note_task_def
      clearInterval_def)

text \<open>A start while the socket of the run before is still closing ends with two connections.\<close>

lemma restart_doubles_connection:
  "open_sockets (sv_listeners (fst (happenings [SocketClosed 0, Fire 2]
     (start_service (stop_service (start_service (new_service \<lparr>rc_nodes = [], rc_threshold = 1\<rparr> None [Inr sample_solana] idle_loop)))))) ! 0) = 2"
  by code_simp

end
