(* ===== verification/Relayer_Env.thy ===== *)
theory Relayer_Env
  imports Solana_Listener
begin

text \<open>
  Start-up and operation of the relayer process (\<open>relayer/index.ts\<close>): validation of the
  environment (\<open>requireChainId\<close>, \<open>validateEnv\<close>), the node and listener configurations the entry
  point builds from it, and the responses of the health server.  The environment is a map from
  names to values.
\<close>

section \<open>Validation\<close>

type_synonym env = "string \<Rightarrow> string option"

definition max_safe_integer :: nat where
  "max_safe_integer = 2 ^ 53 - 1"

text \<open>A value that is unset or blank is missing; the others are used trimmed.\<close>

definition requireString :: "env \<Rightarrow> string \<Rightarrow> string \<Rightarrow> string + string" where
  "requireString env name message =
     (case env name of
        None \<Rightarrow> Inl message
      | Some value \<Rightarrow> if trim value = [] then Inl message else Inr (trim value))"

definition required :: "string \<Rightarrow> string" where
  "required name = name @ '' is required but was not set''"

text \<open>\<open>/^\d+$/\<close> and \<open>Number.isSafeInteger\<close> on the trimmed text.\<close>

definition safe_digits :: "string \<Rightarrow> nat option" where
  "safe_digits raw =
     (let t = trim raw in
      if matches_digits t \<and> num_of_string 10 t \<le> max_safe_integer then Some (num_of_string 10 t) else None)"

definition not_non_negative :: "string \<Rightarrow> string \<Rightarrow> string" where
  "not_non_negative name raw = name @ '' must be a non-negative integer, got: '' @ raw"

definition requireChainId :: "env \<Rightarrow> string \<Rightarrow> string + nat" where
  "requireChainId env name =
     (case env name of
        None \<Rightarrow> Inl (required name)
      | Some raw \<Rightarrow>
          if trim raw = [] then Inl (required name)
          else (case safe_digits raw of None \<Rightarrow> Inl (not_non_negative name raw) | Some n \<Rightarrow> Inr n))"

definition parseNonNegativeInteger :: "string option \<Rightarrow> string \<Rightarrow> nat \<Rightarrow> string + nat" where
  "parseNonNegativeInteger raw name fallback =
     (case raw of
        None \<Rightarrow> Inr fallback
      | Some r \<Rightarrow> (case safe_digits r of None \<Rightarrow> Inl (not_non_negative name r) | Some n \<Rightarrow> Inr n))"

record eth_env =
  ee_rpcUrl :: string
  ee_bridgeContractAddress :: string
  ee_eventTopic :: string
  ee_chainId :: nat
  ee_confirmations :: nat

record solana_env =
  se_wsUrl :: string
  se_programId :: string
  se_chainId :: nat
  se_httpUrl :: string

record valid_env =
  ve_contractId :: string
  ve_rpcUrl :: string
  ve_networkPassphrase :: string
  ve_submitterSecretKey :: string
  ve_threshold :: nat
  ve_relayerPrivateKeys :: "string list"
  ve_relayerSignerUrls :: "string list"
  ve_healthPort :: nat
  ve_stateDir :: string
  ve_eth :: "eth_env option"
  ve_solana :: "solana_env option"

definition or_default :: "string option \<Rightarrow> string \<Rightarrow> string" where
  "or_default v d = (case v of None \<Rightarrow> d | Some s \<Rightarrow> s)"

definition parse_threshold :: "env \<Rightarrow> string + nat" where
  "parse_threshold env =
     (let raw = or_default (env ''THRESHOLD'') ''1'' in
      case safe_digits raw of
        None \<Rightarrow> Inl (''THRESHOLD must be a positive integer, got: '' @ raw)
      | Some n \<Rightarrow> if n < 1 then Inl (''THRESHOLD must be a positive integer, got: '' @ raw) else Inr n)"

definition comma_list :: "string option \<Rightarrow> string list" where
  "comma_list v = filter (\<lambda>s. s \<noteq> []) (map trim (split_on (CHR '','') (or_default v [])))"

definition blank :: "string option \<Rightarrow> bool" where
  "blank v = (case v of None \<Rightarrow> True | Some s \<Rightarrow> trim s = [])"

definition validate_eth :: "env \<Rightarrow> string + eth_env option" where
  "validate_eth env =
     (if blank (env ''ETH_RPC_URL'') then Inr None
      else bind_sum (requireString env ''ETH_BRIDGE_CONTRACT'' ''ETH_BRIDGE_CONTRACT is required when ETH_RPC_URL is set'') (\<lambda>bridge.
        bind_sum (requireString env ''ETH_EVENT_TOPIC'' ''ETH_EVENT_TOPIC is required when ETH_RPC_URL is set'') (\<lambda>eventTopic.
        bind_sum (requireChainId env ''ETH_CHAIN_ID'') (\<lambda>chainId.
        bind_sum (parseNonNegativeInteger (env ''ETH_CONFIRMATIONS'') ''ETH_CONFIRMATIONS'' 12) (\<lambda>confirmations.
          Inr (Some \<lparr>ee_rpcUrl = trim (the (env ''ETH_RPC_URL'')), ee_bridgeContractAddress = bridge,
            ee_eventTopic = eventTopic, ee_chainId = chainId, ee_confirmations = confirmations\<rparr>))))))"

definition validate_solana :: "env \<Rightarrow> string + solana_env option" where
  "validate_solana env =
     (if blank (env ''SOLANA_WS_URL'') then Inr None
      else bind_sum (requireString env ''SOLANA_PROGRAM_ID'' ''SOLANA_PROGRAM_ID is required when SOLANA_WS_URL is set'') (\<lambda>programId.
        bind_sum (requireString env ''SOLANA_HTTP_URL'' ''SOLANA_HTTP_URL is required when SOLANA_WS_URL is set'') (\<lambda>httpUrl.
        bind_sum (requireChainId env ''SOLANA_CHAIN_ID'') (\<lambda>chainId.
          Inr (Some \<lparr>se_wsUrl = trim (the (env ''SOLANA_WS_URL'')), se_programId = programId,
            se_chainId = chainId, se_httpUrl = httpUrl\<rparr>)))))"

definition validateEnv :: "env \<Rightarrow> string + valid_env" where
  "validateEnv env =
     bind_sum (requireString env ''CONTRACT_ID'' (required ''CONTRACT_ID'')) (\<lambda>contractId.
     bind_sum (requireString env ''STELLAR_RPC_URL'' (required ''STELLAR_RPC_URL'')) (\<lambda>rpcUrl.
     bind_sum (requireString env ''NETWORK_PASSPHRASE'' (required ''NETWORK_PASSPHRASE'')) (\<lambda>passphrase.
     bind_sum (requireString env ''RELAYER_SECRET_KEY'' (required ''RELAYER_SECRET_KEY'')) (\<lambda>secret.
     bind_sum (parse_threshold env) (\<lambda>threshold.
       let keys = comma_list (env ''RELAYER_PRIVATE_KEYS''); urls = comma_list (env ''RELAYER_SIGNER_URLS'') in
       if keys = [] \<and> urls = []
       then Inl ''RELAYER_SIGNER_URLS or RELAYER_PRIVATE_KEYS is required and must contain at least one entry''
       else bind_sum (parseNonNegativeInteger (env ''HEALTH_PORT'') ''HEALTH_PORT'' 3000) (\<lambda>healthPort.
         bind_sum (validate_eth env) (\<lambda>eth.
         bind_sum (validate_solana env) (\<lambda>solana.
           Inr \<lparr>ve_contractId = contractId, ve_rpcUrl = rpcUrl, ve_networkPassphrase = passphrase,
             ve_submitterSecretKey = secret, ve_threshold = threshold, ve_relayerPrivateKeys = keys,
             ve_relayerSignerUrls = urls, ve_healthPort = healthPort,
             ve_stateDir = (let d = trim (or_default (env ''RELAYER_STATE_DIR'') []) in if d = [] then ''.'' else d),
             ve_eth = eth, ve_solana = solana\<rparr>))))))))"

section \<open>The entry point\<close>

definition nth_or_empty :: "string list \<Rightarrow> nat \<Rightarrow> string" where
  "nth_or_empty xs i = (if i < length xs then trim (xs ! i) else [])"

definition nodes_of_env :: "env \<Rightarrow> valid_env \<Rightarrow> node_config list" where
  "nodes_of_env env v =
     (if ve_relayerSignerUrls v \<noteq> []
      then map (\<lambda>(url, i). SignerNode url
             (nth_or_empty (split_on (CHR '','') (or_default (env ''RELAYER_SIGNER_PUBKEYS'') [])) i))
           (zip (ve_relayerSignerUrls v) [0..<length (ve_relayerSignerUrls v)])
      else map PrivateKeyNode (ve_relayerPrivateKeys v))"

definition relayer_config_of_env :: "env \<Rightarrow> valid_env \<Rightarrow> relayer_config" where
  "relayer_config_of_env env v = \<lparr>rc_nodes = nodes_of_env env v, rc_threshold = ve_threshold v\<rparr>"

definition eth_listener_of_env :: "eth_env \<Rightarrow> eth_config" where
  "eth_listener_of_env e =
     \<lparr>ec_bridgeContractAddress = ee_bridgeContractAddress e, ec_eventTopic = ee_eventTopic e,
      ec_chainId = int (ee_chainId e), ec_maxBlockRange = None, ec_confirmations = Some (int (ee_confirmations e))\<rparr>"

definition solana_listener_of_env :: "solana_env \<Rightarrow> solana_config" where
  "solana_listener_of_env s =
     \<lparr>sc_programId = se_programId s, sc_chainId = int (se_chainId s), sc_httpUrl = Some (se_httpUrl s),
      sc_initialReconnectDelayMs = None, sc_maxReconnectDelayMs = None\<rparr>"

section \<open>The health server\<close>

datatype health_reply = HealthReply health_status | DeadLetters "dead_letter list" | Plain int string

definition health_handler :: "relayer_config \<Rightarrow> int \<Rightarrow> int \<Rightarrow> relayer \<Rightarrow> string \<Rightarrow> string \<Rightarrow> health_reply" where
  "health_handler cfg startedAt now st meth url =
     (if meth \<noteq> ''GET'' then Plain 405 ''Method Not Allowed''
      else if url = ''/health'' then HealthReply (healthStatus cfg startedAt now st)
      else if url = ''/health/dead-letters'' then DeadLetters (dq_entries (rl_dlq st))
      else Plain 404 ''Not Found'')"

section \<open>Lemmas\<close>

lemma safe_digits_bound: "safe_digits raw = Some n \<Longrightarrow> n \<le> max_safe_integer"
  by (auto simp: safe_digits_def Let_def split: if_splits)

text \<open>A variable that is set to more than blanks, used trimmed.\<close>

definition set_value :: "env \<Rightarrow> string \<Rightarrow> string \<Rightarrow> bool" where
  "set_value env name v = (case env name of None \<Rightarrow> False | Some raw \<Rightarrow> v = trim raw \<and> v \<noteq> [])"

lemma requireString_Inr: "requireString env name msg = Inr v \<longleftrightarrow> set_value env name v"
  by (auto simp: requireString_def set_value_def split: option.splits)

lemma requireChainId_bound: "requireChainId env name = Inr n \<Longrightarrow> n \<le> max_safe_integer"
  by (auto simp: requireChainId_def split: option.splits if_splits dest: safe_digits_bound)

lemma parse_threshold_bound: "parse_threshold env = Inr n \<Longrightarrow> 1 \<le> n \<and> n \<le> max_safe_integer"
  by (auto simp: parse_threshold_def Let_def split: option.splits if_splits dest: safe_digits_bound)

lemma validate_eth_Inr:
  "validate_eth env = Inr (Some e) \<Longrightarrow>
     set_value env ''ETH_BRIDGE_CONTRACT'' (ee_bridgeContractAddress e) \<and> set_value env ''ETH_EVENT_TOPIC'' (ee_eventTopic e)
     \<and> set_value env ''ETH_RPC_URL'' (ee_rpcUrl e) \<and> requireChainId env ''ETH_CHAIN_ID'' = Inr (ee_chainId e)
     \<and> ee_chainId e \<le> max_safe_integer
     \<and> parseNonNegativeInteger (env ''ETH_CONFIRMATIONS'') ''ETH_CONFIRMATIONS'' 12 = Inr (ee_confirmations e)"
  by (auto simp: validate_eth_def bind_sum_eq_Inr requireString_Inr blank_def set_value_def
      split: if_splits option.splits dest: requireChainId_bound)

lemma validate_eth_None: "validate_eth env = Inr None \<Longrightarrow> blank (env ''ETH_RPC_URL'')"
  by (auto simp: validate_eth_def bind_sum_eq_Inr split: if_splits)

lemma validate_solana_Inr:
  "validate_solana env = Inr (Some s) \<Longrightarrow>
     set_value env ''SOLANA_PROGRAM_ID'' (se_programId s) \<and> set_value env ''SOLANA_HTTP_URL'' (se_httpUrl s)
     \<and> set_value env ''SOLANA_WS_URL'' (se_wsUrl s) \<and> requireChainId env ''SOLANA_CHAIN_ID'' = Inr (se_chainId s)
     \<and> se_chainId s \<le> max_safe_integer"
  by (auto simp: validate_solana_def bind_sum_eq_Inr requireString_Inr blank_def set_value_def
      split: if_splits option.splits dest: requireChainId_bound)

lemma validate_solana_None: "validate_solana env = Inr None \<Longrightarrow> blank (env ''SOLANA_WS_URL'')"
  by (auto simp: validate_solana_def bind_sum_eq_Inr split: if_splits)

lemma safe_port: "parseNonNegativeInteger raw name d = Inr n \<Longrightarrow> d \<le> max_safe_integer \<Longrightarrow> n \<le> max_safe_integer"
  by (auto simp: parseNonNegativeInteger_def split: option.splits dest: safe_digits_bound)

lemma comma_list_nonempty: "s \<in> set (comma_list v) \<Longrightarrow> s \<noteq> []"
  by (simp add: comma_list_def)

lemma validateEnv_Inr:
  assumes "validateEnv env = Inr v"
  shows "set_value env ''CONTRACT_ID'' (ve_contractId v)"
    and "set_value env ''RELAYER_SECRET_KEY'' (ve_submitterSecretKey v)"
    and "parse_threshold env = Inr (ve_threshold v)"
    and "ve_relayerPrivateKeys v = comma_list (env ''RELAYER_PRIVATE_KEYS'')"
    and "ve_relayerSignerUrls v = comma_list (env ''RELAYER_SIGNER_URLS'')"
    and "ve_relayerPrivateKeys v \<noteq> [] \<or> ve_relayerSignerUrls v \<noteq> []"
    and "validate_eth env = Inr (ve_eth v)" and "validate_solana env = Inr (ve_solana v)"
    and "set_value env ''STELLAR_RPC_URL'' (ve_rpcUrl v)" and "set_value env ''NETWORK_PASSPHRASE'' (ve_networkPassphrase v)"
    and "parseNonNegativeInteger (env ''HEALTH_PORT'') ''HEALTH_PORT'' 3000 = Inr (ve_healthPort v)" and "ve_stateDir v \<noteq> []"
  using assms
  by (auto simp: validateEnv_def bind_sum_eq_Inr requireString_Inr Let_def split: if_splits)

lemma length_keep_first: "length (keep_first k seen xs) \<le> length xs"
  by (induction k seen xs rule: keep_first.induct) auto

lemma length_map_filter: "length (List.map_filter f xs) \<le> length xs"
  by (induction xs) (auto simp: List.map_filter_simps split: option.splits)

lemma length_collect_signatures: "length (collect_signatures K net nodes h) \<le> length nodes"
  unfolding collect_signatures_def using length_keep_first length_map_filter by (rule order_trans)

section \<open>Properties\<close>

text \<open>C18: A validated environment gives the relayer what it needs.  The four required variables (contract, RPC URL,
  network passphrase, submitter key) were set to more than blanks and are used trimmed; the threshold is the one given and at least one,
  there is at least one node, the health port is a safe integer and the state directory is named.  A listener is enabled exactly when its
  endpoint is set, and then all its required variables were set, its chain id was given and is a safe integer, and so is the number of
  confirmations.\<close>

theorem validated_env_is_complete:
  assumes "validateEnv env = Inr v"
  shows "set_value env ''CONTRACT_ID'' (ve_contractId v) \<and> set_value env ''STELLAR_RPC_URL'' (ve_rpcUrl v)
    \<and> set_value env ''NETWORK_PASSPHRASE'' (ve_networkPassphrase v) \<and> set_value env ''RELAYER_SECRET_KEY'' (ve_submitterSecretKey v)
    \<and> parse_threshold env = Inr (rc_threshold (relayer_config_of_env env v))
    \<and> 1 \<le> rc_threshold (relayer_config_of_env env v) \<and> rc_threshold (relayer_config_of_env env v) \<le> max_safe_integer
    \<and> rc_nodes (relayer_config_of_env env v) \<noteq> [] \<and> ve_healthPort v \<le> max_safe_integer \<and> ve_stateDir v \<noteq> []
    \<and> (case ve_eth v of
         None \<Rightarrow> blank (env ''ETH_RPC_URL'')
       | Some e \<Rightarrow> set_value env ''ETH_RPC_URL'' (ee_rpcUrl e) \<and> set_value env ''ETH_BRIDGE_CONTRACT'' (ee_bridgeContractAddress e)
           \<and> set_value env ''ETH_EVENT_TOPIC'' (ee_eventTopic e) \<and> requireChainId env ''ETH_CHAIN_ID'' = Inr (ee_chainId e)
           \<and> ee_chainId e \<le> max_safe_integer \<and> ee_confirmations e \<le> max_safe_integer)
    \<and> (case ve_solana v of
         None \<Rightarrow> blank (env ''SOLANA_WS_URL'')
       | Some s \<Rightarrow> set_value env ''SOLANA_WS_URL'' (se_wsUrl s) \<and> set_value env ''SOLANA_PROGRAM_ID'' (se_programId s)
           \<and> set_value env ''SOLANA_HTTP_URL'' (se_httpUrl s) \<and> requireChainId env ''SOLANA_CHAIN_ID'' = Inr (se_chainId s)
           \<and> se_chainId s \<le> max_safe_integer)"
proof -
  note v = validateEnv_Inr [OF assms]
  have "rc_nodes (relayer_config_of_env env v) \<noteq> []"
    using v(6) by (auto simp: relayer_config_of_env_def nodes_of_env_def)
  moreover have threshold: "parse_threshold env = Inr (rc_threshold (relayer_config_of_env env v))"
    using v(3) by (simp add: relayer_config_of_env_def)
  moreover have "ve_healthPort v \<le> max_safe_integer" by (rule safe_port [OF v(11)]) (simp add: max_safe_integer_def)
  moreover have "ee_confirmations e \<le> max_safe_integer" if "ve_eth v = Some e" for e
  proof -
    from validate_eth_Inr v(7) that
    have "parseNonNegativeInteger (env ''ETH_CONFIRMATIONS'') ''ETH_CONFIRMATIONS'' 12 = Inr (ee_confirmations e)" by simp
    then show ?thesis by (rule safe_port) (simp add: max_safe_integer_def)
  qed
  ultimately show ?thesis
    using v(1,2,9,10,12) v(7,8) parse_threshold_bound [OF threshold]
    by (auto split: option.splits dest: validate_eth_Inr validate_solana_Inr validate_eth_None validate_solana_None)
qed

definition sample_env :: env where
  "sample_env = map_of [(''CONTRACT_ID'', ''C''), (''STELLAR_RPC_URL'', ''r''), (''NETWORK_PASSPHRASE'', ''n''),
     (''RELAYER_SECRET_KEY'', ''S''), (''RELAYER_PRIVATE_KEYS'', ''aa,bb''),
     (''ETH_CHAIN_ID'', dec_of_nat 4294967296)]"

lemma trim_ascii_words [simp]:
  "trim ''C'' = ''C''" "trim ''r'' = ''r''" "trim ''n'' = ''n''" "trim ''S'' = ''S''" "trim ''1'' = ''1''"
  "trim ''aa'' = ''aa''" "trim ''bb'' = ''bb''"
  by (simp_all add: trim_plain)

lemma safe_digits_dec_of_nat: "safe_digits (dec_of_nat n) = (if n \<le> max_safe_integer then Some n else None)"
  by (simp add: safe_digits_def)

lemma sample_env_valid: "\<exists>v. validateEnv sample_env = Inr v"
proof -
  have "''1'' = dec_of_nat 1" by code_simp
  then have "safe_digits ''1'' = Some 1"
    using safe_digits_dec_of_nat [of 1] by (simp add: max_safe_integer_def)
  then show ?thesis
    by (simp add: validateEnv_def sample_env_def requireString_def parse_threshold_def or_default_def
        comma_list_def parseNonNegativeInteger_def validate_eth_def validate_solana_def blank_def)
qed

lemma validated_env_is_complete_witness:
  "\<exists>v. validateEnv sample_env = Inr v \<and> rc_nodes (relayer_config_of_env sample_env v) \<noteq> []
     \<and> set_value sample_env ''STELLAR_RPC_URL'' (ve_rpcUrl v)"
  using sample_env_valid validated_env_is_complete [of sample_env] by blast

text \<open>A chain id the environment check accepts but that does not fit the contract's \<open>u32\<close> disables the
  listener without a word: every event it decodes is dropped as invalid, whatever the state, so
  neither the nonce store nor the dead-letter queue ever hears of it.\<close>

theorem oversized_chain_id_drops_every_event:
  assumes "requireChainId env ''ETH_CHAIN_ID'' = Inr n" "u32_max < int n" "ee_chainId e = n"
    and "eth_decode K (eth_listener_of_env e) log = Some event" "key_of event \<notin> seen_keys st"
  shows "\<exists>err. admit K event st = Invalid err \<and> handleEvent K net cfg submit now event st = (Inr (), st)"
proof -
  have "ev_chainId event = int n"
    using assms(3,4)
    by (auto simp: eth_decode_def eth_listener_of_env_def split: option.splits json.splits sum.splits if_splits)
  then have "validateBridgeEvent K event = Inl ''chainId must be a u32''"
    using assms(2) by (simp add: validateBridgeEvent_def)
  then show ?thesis using assms(5) by (simp add: handleEvent_def admit_def nonce_has_seen_keys)
qed

definition wide_eth :: eth_env where
  "wide_eth = \<lparr>ee_rpcUrl = ''r'', ee_bridgeContractAddress = ''b'', ee_eventTopic = ''t'', ee_chainId = 4294967296,
     ee_confirmations = 12\<rparr>"

lemma oversized_chain_id_drops_every_event_witness:
  "\<exists>event err. eth_decode sample_platform (eth_listener_of_env wide_eth)
       (makeAbiLog ''GA'' ''CA'' 7 (''0x'' @ replicate 64 CHR ''c'') (''0x'' @ hex_of_nat 3)) = Some event
     \<and> admit sample_platform event (sample_relayer [] []) = Invalid err"
proof -
  have chain: "requireChainId sample_env ''ETH_CHAIN_ID'' = Inr 4294967296"
    by (simp add: requireChainId_def sample_env_def safe_digits_dec_of_nat max_safe_integer_def)
  obtain event where event: "eth_decode sample_platform (eth_listener_of_env wide_eth)
       (makeAbiLog ''GA'' ''CA'' 7 (''0x'' @ replicate 64 CHR ''c'') (''0x'' @ hex_of_nat 3)) = Some event"
    using abi_fields_data [of "''GA''" "''CA''" 7] parse_int_0x_hex [of "hex_of_nat 3"]
    by (simp add: eth_decode_def makeAbiLog_def log_index_def replay_preimage_def u32_max_def is_ascii_def)
  from oversized_chain_id_drops_every_event [OF chain _ _ event, of "sample_relayer [] []"]
  show ?thesis using event by (auto simp: u32_max_def wide_eth_def)
qed

text \<open>A threshold above the number of configured nodes passes validation although no event can then
  ever be submitted: whatever the signers answer, the collected signatures stay below it.\<close>

theorem threshold_above_nodes_never_submits:
  assumes "length (rc_nodes cfg) < rc_threshold cfg" "gather_signatures K net cfg e = Inr sigs"
  shows "request_for cfg e sigs = None
    \<and> processEvent K net cfg submit now e st = reject_unsigned now cfg e (length sigs) st"
proof -
  from assms(2) obtain h where "sigs = collect_signatures K net (rc_nodes cfg) h"
    by (auto simp: gather_signatures_def bind_sum_eq_Inr)
  then have "length sigs < rc_threshold cfg"
    using length_collect_signatures [of K net "rc_nodes cfg" h] assms(1) by simp
  with assms(2) show ?thesis by (simp add: request_for_def processEvent_def)
qed

lemma threshold_above_nodes_never_submits_witness:
  "processEvent sample_platform no_network sample_config no_submit 0 sample_event (sample_relayer [] [])
   = reject_unsigned 0 sample_config sample_event 0 (sample_relayer [] [])"
proof -
  obtain h where "computePayloadHash sample_platform sample_event = Inr h"
    using payload_preimage_valid [OF sample_event_valid] by (simp add: computePayloadHash_def)
  then have "gather_signatures sample_platform no_network sample_config sample_event = Inr []"
    by (simp add: gather_signatures_def collect_signatures_def sample_config_def)
  from threshold_above_nodes_never_submits [OF _ this] show ?thesis by (simp add: sample_config_def)
qed

end
