(* ===== verification/Sdk_Retry.thy ===== *)
theory Sdk_Retry
  imports Js_Runtime
begin

text \<open>
  The retry layer of the SDK (\<open>sdk/src/retry.ts\<close>): the classifier of transient errors, the backoff
  delay, the retry loop with its abort signal, and the wrapper that gives every RPC method the
  policy of its name.  The wrapped call, the sleep and the logger are operations on a state \<open>'s\<close> of
  the caller's choice; \<open>Math.floor(Math.random() * n)\<close> is a parameter \<open>pick\<close>.
\<close>

section \<open>Transient errors\<close>

text \<open>A property of a thrown value that is neither \<open>null\<close> nor \<open>undefined\<close>; \<open>er_message\<close> is the message when
  it is a string and \<open>er_text\<close> is \<open>String(error)\<close>.  The thrown value \<open>None\<close> is \<open>null\<close> or \<open>undefined\<close>.\<close>

datatype js_field = FNum int | FStr string | FOther

record js_error =
  er_code :: "js_field option"
  er_status :: "js_field option"
  er_statusCode :: "js_field option"
  er_response_status :: "js_field option"
  er_message :: "string option"
  er_text :: string

type_synonym thrown = "js_error option"

definition RETRYABLE_ERROR_CODES :: "string list" where
  "RETRYABLE_ERROR_CODES =
     [''ECONNRESET'', ''ECONNREFUSED'', ''ECONNABORTED'', ''ENOTFOUND'', ''EAI_AGAIN'', ''ETIMEDOUT'',
      ''EPIPE'', ''ENETUNREACH'', ''EHOSTUNREACH'']"

definition RETRYABLE_HTTP_STATUS :: "int list" where
  "RETRYABLE_HTTP_STATUS = [429, 502, 503, 504]"

definition retryable_phrases :: "string list" where
  "retryable_phrases =
     [''timeout'', ''timed out'', ''rate limit'', ''too many requests'', ''network error'',
      ''socket hang up'', ''fetch failed'', ''service unavailable'', ''temporarily unavailable'',
      ''connection reset'', ''connection refused'', ''econnreset'', ''econnrefused'', ''enotfound'',
      ''eai_again'', ''etimedout'']"

text \<open>\<open>RETRYABLE_MESSAGE_PATTERN.test\<close>: the pattern is an alternation of plain words, matched anywhere
  and without regard to case.\<close>

fun has_substring :: "string \<Rightarrow> string \<Rightarrow> bool" where
  "has_substring p [] = (p = [])"
| "has_substring p (c # s) = (prefix p (c # s) \<or> has_substring p s)"

definition message_retryable :: "string \<Rightarrow> bool" where
  "message_retryable m = list_ex (\<lambda>p. has_substring p (to_lower m)) retryable_phrases"

definition first_field :: "js_field option \<Rightarrow> js_field option \<Rightarrow> js_field option" where
  "first_field a b = (case a of None \<Rightarrow> b | Some x \<Rightarrow> Some x)"

definition isRetryableRpcError :: "thrown \<Rightarrow> bool" where
  "isRetryableRpcError error =
     (case error of
        None \<Rightarrow> False
      | Some err \<Rightarrow>
          (if (case er_code err of Some (FStr c) \<Rightarrow> c \<in> set RETRYABLE_ERROR_CODES | _ \<Rightarrow> False) then True
           else if (case first_field (er_status err) (first_field (er_statusCode err) (er_response_status err)) of
                      Some (FNum n) \<Rightarrow> n \<in> set RETRYABLE_HTTP_STATUS | _ \<Rightarrow> False) then True
           else message_retryable (case er_message err of Some m \<Rightarrow> m | None \<Rightarrow> er_text err)))"

section \<open>Backoff\<close>

text \<open>\<open>pick n\<close> is the result of \<open>Math.floor(Math.random() * n)\<close>.\<close>

definition computeBackoffDelay :: "(int \<Rightarrow> int) \<Rightarrow> nat \<Rightarrow> int \<Rightarrow> int \<Rightarrow> bool \<Rightarrow> int" where
  "computeBackoffDelay pick attempt baseDelayMs maxDelayMs jitter =
     (let exponential = min (baseDelayMs * 2 ^ attempt) maxDelayMs in
      if jitter then pick (exponential + 1) else exponential)"

section \<open>The retry loop\<close>

record 'e retry_attempt =
  ra_attempt :: nat
  ra_maxRetries :: int
  ra_delayMs :: int
  ra_error :: 'e

text \<open>\<open>ro_signal\<close> tells in a state whether the signal has fired, and its reason.\<close>

record ('s, 'e) retry_options =
  ro_maxRetries :: "int option"
  ro_baseDelayMs :: "int option"
  ro_maxDelayMs :: "int option"
  ro_jitter :: "bool option"
  ro_isRetryable :: "('e \<Rightarrow> bool) option"
  ro_onRetry :: "('e retry_attempt \<Rightarrow> ('s, 'e, unit) op) option"
  ro_signal :: "('s \<Rightarrow> 'e option) option"
  ro_sleep :: "(int \<Rightarrow> ('s, 'e, unit) op) option"

text \<open>What the loop takes from its surroundings: the default sleep, the random numbers and the value
  \<open>undefined\<close> it throws when \<open>maxRetries\<close> is negative and no attempt is made.\<close>

record ('s, 'e) surroundings =
  su_sleep :: "int \<Rightarrow> ('s, 'e, unit) op"
  su_pick :: "'s \<Rightarrow> int \<Rightarrow> int"
  su_undefined :: 'e
  su_classify :: "'e \<Rightarrow> bool"

record ('s, 'e) retry_params =
  rp_max :: int
  rp_base :: int
  rp_cap :: int
  rp_jitter :: bool
  rp_retryable :: "'e \<Rightarrow> bool"
  rp_onRetry :: "'e retry_attempt \<Rightarrow> ('s, 'e, unit) op"
  rp_aborted :: "'s \<Rightarrow> 'e option"
  rp_sleep :: "int \<Rightarrow> ('s, 'e, unit) op"
  rp_pick :: "'s \<Rightarrow> int \<Rightarrow> int"
  rp_undefined :: 'e

definition or_else :: "'a option \<Rightarrow> 'a \<Rightarrow> 'a" where
  "or_else x d = (case x of None \<Rightarrow> d | Some v \<Rightarrow> v)"

lemma or_else_simps [simp]: "or_else None d = d" "or_else (Some v) d = v"
  by (simp_all add: or_else_def)

definition retry_params_of :: "('s, 'e) surroundings \<Rightarrow> ('s, 'e) retry_options \<Rightarrow> ('s, 'e) retry_params" where
  "retry_params_of su opts =
     \<lparr>rp_max = or_else (ro_maxRetries opts) 3,
      rp_base = or_else (ro_baseDelayMs opts) 1000,
      rp_cap = or_else (ro_maxDelayMs opts) 30000,
      rp_jitter = or_else (ro_jitter opts) True,
      rp_retryable = or_else (ro_isRetryable opts) (su_classify su),
      rp_onRetry = or_else (ro_onRetry opts) (\<lambda>_. give ()),
      rp_aborted = or_else (ro_signal opts) (\<lambda>_. None),
      rp_sleep = or_else (ro_sleep opts) (su_sleep su),
      rp_pick = su_pick su,
      rp_undefined = su_undefined su\<rparr>"

definition check_abort :: "('s, 'e) retry_params \<Rightarrow> ('s, 'e, unit) op" where
  "check_abort pr s = (case rp_aborted pr s of Some reason \<Rightarrow> (Inl reason, s) | None \<Rightarrow> (Inr (), s))"

text \<open>The sleep raced against the signal: if the signal fired while sleeping, its reason wins.\<close>

definition abortableSleep :: "('s, 'e) retry_params \<Rightarrow> int \<Rightarrow> ('s, 'e, unit) op" where
  "abortableSleep pr ms = and_then (check_abort pr) (\<lambda>_ s.
     case rp_sleep pr ms s of (res, s') \<Rightarrow>
       (case rp_aborted pr s' of Some reason \<Rightarrow> (Inl reason, s') | None \<Rightarrow> (res, s')))"

text \<open>\<open>left\<close> counts the iterations the loop condition still allows.\<close>

fun retry_loop ::
  "('s, 'e) retry_params \<Rightarrow> ('s, 'e, 'a) op \<Rightarrow> nat \<Rightarrow> nat \<Rightarrow> 's \<Rightarrow> ('e + 'a) \<times> 's" where
  "retry_loop pr fn attempt 0 s = (Inl (rp_undefined pr), s)"
| "retry_loop pr fn attempt (Suc left) s =
     and_then (check_abort pr) (\<lambda>_. catching fn (\<lambda>error.
       and_then (check_abort pr) (\<lambda>_ s2.
         if int attempt \<ge> rp_max pr \<or> \<not> rp_retryable pr error then (Inl error, s2)
         else
           let delayMs = computeBackoffDelay (rp_pick pr s2) attempt (rp_base pr) (rp_cap pr) (rp_jitter pr) in
           and_then (rp_onRetry pr \<lparr>ra_attempt = attempt + 1, ra_maxRetries = rp_max pr,
                                     ra_delayMs = delayMs, ra_error = error\<rparr>)
             (\<lambda>_. and_then (abortableSleep pr delayMs)
                (\<lambda>_ s3. retry_loop pr fn (attempt + 1) left s3)) s2))) s"

definition withRetry ::
  "('s, 'e) surroundings \<Rightarrow> ('s, 'e) retry_options \<Rightarrow> ('s, 'e, 'a) op \<Rightarrow> ('s, 'e, 'a) op" where
  "withRetry su opts fn =
     (let pr = retry_params_of su opts in retry_loop pr fn 0 (nat (rp_max pr + 1)))"

section \<open>Policies\<close>

text \<open>\<open>BridgeConfig.retry\<close>; the two policies differ only in the number of retries.\<close>

record ('s, 'e) rpc_retry_options =
  rr_maxRetries :: "int option"
  rr_baseDelayMs :: "int option"
  rr_maxDelayMs :: "int option"
  rr_jitter :: "bool option"
  rr_onRetry :: "('e retry_attempt \<Rightarrow> ('s, 'e, unit) op) option"

definition VIEW_maxRetries :: int where "VIEW_maxRetries = 3"

definition STATE_CHANGING_maxRetries :: int where "STATE_CHANGING_maxRetries = 1"

definition VIEW_RPC_METHODS :: "string list" where
  "VIEW_RPC_METHODS =
     [''getAccount'', ''simulateTransaction'', ''prepareTransaction'', ''getTransaction'', ''getTransactions'',
      ''getLatestLedger'', ''getNetwork'', ''getHealth'', ''getEvents'', ''getLedgerEntries'', ''getContractData'']"

definition STATE_CHANGING_RPC_METHODS :: "string list" where
  "STATE_CHANGING_RPC_METHODS = [''sendTransaction'']"

definition policy_options :: "int \<Rightarrow> ('s, 'e) rpc_retry_options \<Rightarrow> ('s, 'e) retry_options" where
  "policy_options maxRetries opts =
     \<lparr>ro_maxRetries = Some maxRetries,
      ro_baseDelayMs = Some (or_else (rr_baseDelayMs opts) 1000),
      ro_maxDelayMs = Some (or_else (rr_maxDelayMs opts) 30000),
      ro_jitter = Some (or_else (rr_jitter opts) True),
      ro_isRetryable = None,
      ro_onRetry = rr_onRetry opts,
      ro_signal = None,
      ro_sleep = None\<rparr>"

definition resolveViewOptions :: "('s, 'e) rpc_retry_options \<Rightarrow> ('s, 'e) retry_options" where
  "resolveViewOptions opts = policy_options (or_else (rr_maxRetries opts) VIEW_maxRetries) opts"

definition resolveStateOptions :: "('s, 'e) rpc_retry_options \<Rightarrow> ('s, 'e) retry_options" where
  "resolveStateOptions opts =
     (let viewMax = or_else (rr_maxRetries opts) VIEW_maxRetries in
      policy_options (min viewMax STATE_CHANGING_maxRetries) opts)"

definition rpc_policy :: "('s, 'e) rpc_retry_options \<Rightarrow> string \<Rightarrow> ('s, 'e) retry_options option" where
  "rpc_policy opts name =
     (if name \<in> set VIEW_RPC_METHODS then Some (resolveViewOptions opts)
      else if name \<in> set STATE_CHANGING_RPC_METHODS then Some (resolveStateOptions opts)
      else None)"

text \<open>The proxy's call of the method \<open>name\<close>, whose direct call is \<open>fn\<close>.\<close>

definition withRpcRetry ::
  "('s, 'e) surroundings \<Rightarrow> ('s, 'e) rpc_retry_options \<Rightarrow> string \<Rightarrow> ('s, 'e, 'a) op \<Rightarrow> ('s, 'e, 'a) op" where
  "withRpcRetry su opts name fn =
     (case rpc_policy opts name of Some policy \<Rightarrow> withRetry su policy fn | None \<Rightarrow> fn)"

section \<open>Attempts\<close>

text \<open>
  What the attempts of a run leave behind.  \<open>seen s\<close> is any record a state keeps of the attempts of
  the wrapped call: the call adds the \<open>tag\<close> of its outcome, sleeping and logging add nothing.
\<close>

definition keeps_seen :: "('s \<Rightarrow> 'b) \<Rightarrow> ('s, 'e, 'c) op \<Rightarrow> bool" where
  "keeps_seen seen m \<longleftrightarrow> (\<forall>s. seen (snd (m s)) = seen s)"

definition never_throws :: "('s, 'e, 'c) op \<Rightarrow> bool" where
  "never_throws m \<longleftrightarrow> (\<forall>s. \<exists>a s'. m s = (Inr a, s'))"

definition observed :: "('s \<Rightarrow> 'b list) \<Rightarrow> ('e + 'a \<Rightarrow> 'b) \<Rightarrow> ('s, 'e, 'a) op \<Rightarrow> bool" where
  "observed seen tag fn \<longleftrightarrow> (\<forall>s. seen (snd (fn s)) = seen s @ [tag (fst (fn s))])"

definition quiet_params :: "('s \<Rightarrow> 'b) \<Rightarrow> ('s, 'e) retry_params \<Rightarrow> bool" where
  "quiet_params seen pr \<longleftrightarrow> (\<forall>ms. keeps_seen seen (rp_sleep pr ms) \<and> never_throws (rp_sleep pr ms))
     \<and> (\<forall>a. keeps_seen seen (rp_onRetry pr a) \<and> never_throws (rp_onRetry pr a))"

text \<open>What a run made of the outcomes \<open>os\<close> of its attempts may return in the state \<open>s'\<close>.\<close>

definition explained ::
  "('s, 'e) retry_params \<Rightarrow> nat \<Rightarrow> ('e + 'a) list \<Rightarrow> 'e + 'a \<Rightarrow> 's \<Rightarrow> bool" where
  "explained pr bound os r s' \<longleftrightarrow> length os \<le> bound
     \<and> (\<forall>out \<in> set (butlast os). \<exists>e. out = Inl e \<and> rp_retryable pr e)
     \<and> ((\<exists>reason. r = Inl reason \<and> rp_aborted pr s' = Some reason)
        \<or> (os \<noteq> [] \<and> r = last os
           \<and> (\<forall>e. r = Inl e \<longrightarrow> rp_retryable pr e \<longrightarrow> length os = bound)))"

text \<open>The states that were reached since \<open>s\<close>, as far as the record tells.\<close>

definition since :: "('s \<Rightarrow> 'b list) \<Rightarrow> 's \<Rightarrow> 's set" where
  "since seen s = {t. \<exists>us. seen t = seen s @ us}"

lemma since_refl [simp]: "s \<in> since seen s"
  by (simp add: since_def)

lemma since_trans: "seen t = seen s @ us \<Longrightarrow> since seen t \<subseteq> since seen s"
  by (auto simp: since_def)

lemma check_abort_cases:
  obtains (fired) reason where "rp_aborted pr s = Some reason" "check_abort pr s = (Inl reason, s)"
  | (running) "rp_aborted pr s = None" "check_abort pr s = (Inr (), s)"
  by (cases "rp_aborted pr s") (auto simp: check_abort_def)

text \<open>A logger or a sleep of \<open>quiet_params\<close> returns and adds no outcome.\<close>

lemma quiet_onRetry:
  assumes "quiet_params seen pr"
  obtains u s' where "rp_onRetry pr a s = (Inr u, s')" "seen s' = seen s"
  using assms unfolding quiet_params_def never_throws_def keeps_seen_def by (metis snd_conv)

lemma quiet_sleep:
  assumes "quiet_params seen pr"
  obtains u s' where "rp_sleep pr ms s = (Inr u, s')" "seen s' = seen s"
  using assms unfolding quiet_params_def never_throws_def keeps_seen_def by (metis snd_conv)

lemma abortableSleep_cases:
  assumes "quiet_params seen pr"
  obtains (fired) reason s' where "abortableSleep pr ms s = (Inl reason, s')" "rp_aborted pr s' = Some reason" "seen s' = seen s"
  | (slept) u s' where "abortableSleep pr ms s = (Inr u, s')" "seen s' = seen s"
proof (cases "rp_aborted pr s")
  case (Some reason)
  then show ?thesis by (intro fired [of reason s]) (simp_all add: abortableSleep_def check_abort_def and_then_def)
next
  case None
  obtain u s' where s': "rp_sleep pr ms s = (Inr u, s')" "seen s' = seen s" using quiet_sleep [OF assms] by blast
  show ?thesis
  proof (cases "rp_aborted pr s'")
    case (Some reason)
    with None s' show ?thesis
      by (intro fired [of reason s']) (simp_all add: abortableSleep_def check_abort_def and_then_def)
  next
    case none: None
    with None s' show ?thesis
      by (intro slept [of u s']) (simp_all add: abortableSleep_def check_abort_def and_then_def)
  qed
qed

lemma explained_one:
  "1 \<le> bound \<Longrightarrow> (\<exists>reason. r = Inl reason \<and> rp_aborted pr s' = Some reason)
     \<or> (r = x \<and> (\<forall>e. x = Inl e \<longrightarrow> rp_retryable pr e \<longrightarrow> bound = 1)) \<Longrightarrow> explained pr bound [x] r s'"
  by (auto simp: explained_def)

lemma explained_Cons:
  "explained pr bound os r s' \<Longrightarrow> rp_retryable pr e \<Longrightarrow> explained pr (Suc bound) (Inl e # os) r s'"
  by (auto simp: explained_def)

lemma retry_loop_explained:
  assumes fn: "observed seen tag fn" and quiet: "quiet_params seen pr"
  shows "retry_loop pr fn attempt left s = (r, s') \<Longrightarrow> 1 \<le> left \<Longrightarrow> rp_max pr = int attempt + int left - 1 \<Longrightarrow>
    \<exists>os. seen s' = seen s @ map tag os \<and> set os \<subseteq> (fst \<circ> fn) ` since seen s \<and> explained pr left os r s'"
proof (induction left arbitrary: attempt s)
  case 0
  then show ?case by simp
next
  case (Suc n)
  show ?case
  proof (cases rule: check_abort_cases [of pr s])
    case (fired reason)
    with Suc.prems(1) show ?thesis by (intro exI [of _ "[]"]) (auto simp: explained_def)
  next
    case running
    obtain out s1 where out: "fn s = (out, s1)" by force
    then have s1: "seen s1 = seen s @ [tag out]" and ran: "out \<in> (fst \<circ> fn) ` since seen s"
      using fn by (metis observed_def fst_conv snd_conv, metis comp_apply fst_conv image_eqI since_refl)
    have one: ?thesis if "r = Inl reason \<and> rp_aborted pr s' = Some reason \<or>
        r = out \<and> (\<forall>e. out = Inl e \<longrightarrow> rp_retryable pr e \<longrightarrow> n = 0)" "seen s' = seen s1" for reason
      using that s1 ran explained_one [of "Suc n" r pr s' out] by (intro exI [of _ "[out]"]) auto
    show ?thesis
    proof (cases out)
      case (Inr a)
      with Suc.prems(1) running out have "r = out" "s' = s1" by auto
      with Inr show ?thesis by (intro one) auto
    next
      case (Inl e)
      show ?thesis
      proof (cases rule: check_abort_cases [of pr s1])
        case (fired reason)
        with Suc.prems(1) running out Inl have "r = Inl reason" "s' = s1" by auto
        with fired show ?thesis by (intro one [of reason]) auto
      next
        case running1: running
        show ?thesis
        proof (cases "int attempt \<ge> rp_max pr \<or> \<not> rp_retryable pr e")
          case True
          with Suc.prems(1) running running1 out Inl have "r = out" "s' = s1" by auto
          with True Inl Suc.prems(3) show ?thesis by (intro one) auto
        next
          case False
          let ?d = "computeBackoffDelay (rp_pick pr s1) attempt (rp_base pr) (rp_cap pr) (rp_jitter pr)"
          obtain u s2 where s2: "rp_onRetry pr \<lparr>ra_attempt = attempt + 1, ra_maxRetries = rp_max pr,
              ra_delayMs = ?d, ra_error = e\<rparr> s1 = (Inr u, s2)" "seen s2 = seen s1"
            using quiet_onRetry [OF quiet] by blast
          consider (fired) reason s3 where "abortableSleep pr ?d s2 = (Inl reason, s3)"
              "rp_aborted pr s3 = Some reason" "seen s3 = seen s2"
            | (slept) w s3 where "abortableSleep pr ?d s2 = (Inr w, s3)" "seen s3 = seen s2"
            using abortableSleep_cases [OF quiet] by blast
          then show ?thesis
          proof cases
            case (fired reason s3)
            with Suc.prems(1) running running1 out Inl False s2 have "r = Inl reason" "s' = s3" by auto
            with fired s2 show ?thesis by (intro one [of reason]) auto
          next
            case (slept w s3)
            with Suc.prems(1) running running1 out Inl False s2
            have rest: "retry_loop pr fn (attempt + 1) n s3 = (r, s')" by auto
            have "1 \<le> n" "rp_max pr = int (attempt + 1) + int n - 1" using False Suc.prems(3) by auto
            from Suc.IH [OF rest this] obtain os where os: "seen s' = seen s3 @ map tag os"
              "set os \<subseteq> (fst \<circ> fn) ` since seen s3" "explained pr n os r s'" by blast
            moreover from slept(2) s2(2) s1 have s3: "seen s3 = seen s @ [tag out]" by simp
            ultimately show ?thesis
              using ran Inl False since_trans [where seen = seen, OF s3]
              by (intro exI [of _ "out # os"]) (auto intro: explained_Cons)
          qed
        qed
      qed
    qed
  qed
qed

lemma retry_loop_none: "retry_loop pr fn attempt 0 s = (r, s') \<Longrightarrow> r = Inl (rp_undefined pr) \<and> s' = s"
  by simp

lemma rp_simps [simp]:
  "rp_max (retry_params_of su opts) = or_else (ro_maxRetries opts) 3"
  "rp_retryable (retry_params_of su opts) = or_else (ro_isRetryable opts) (su_classify su)"
  "rp_aborted (retry_params_of su opts) = or_else (ro_signal opts) (\<lambda>_. None)"
  "rp_undefined (retry_params_of su opts) = su_undefined su"
  by (simp_all add: retry_params_of_def)

lemma ro_policy_simps [simp]:
  "ro_maxRetries (policy_options m opts) = Some m" "ro_signal (policy_options m opts) = None"
  "ro_isRetryable (policy_options m opts) = None"
  by (simp_all add: policy_options_def)

text \<open>Surroundings and a logger that neither throw nor call the provider make every policy quiet.\<close>

definition quiet_surroundings :: "('s \<Rightarrow> 'b) \<Rightarrow> ('s, 'e) surroundings \<Rightarrow> ('s, 'e) rpc_retry_options \<Rightarrow> bool" where
  "quiet_surroundings seen su opts \<longleftrightarrow> (\<forall>ms. keeps_seen seen (su_sleep su ms) \<and> never_throws (su_sleep su ms))
     \<and> (\<forall>a. keeps_seen seen (or_else (rr_onRetry opts) (\<lambda>_. give ()) a)
          \<and> never_throws (or_else (rr_onRetry opts) (\<lambda>_. give ()) a))"

lemma quiet_policy:
  "quiet_surroundings seen su opts \<Longrightarrow> quiet_params seen (retry_params_of su (policy_options m opts))"
  by (simp add: quiet_surroundings_def quiet_params_def retry_params_of_def policy_options_def)

text \<open>The run of a policy: its attempts, however many retries are configured.\<close>

lemma withRetry_policy:
  assumes "observed seen tag fn" "quiet_surroundings seen su opts"
    and "withRetry su (policy_options m opts) fn s = (r, s')"
  shows "\<exists>os. seen s' = seen s @ map tag os \<and> set os \<subseteq> (fst \<circ> fn) ` since seen s \<and> int (length os) \<le> max 0 (m + 1)
    \<and> (\<forall>out \<in> set (butlast os). \<exists>e. out = Inl e \<and> su_classify su e)
    \<and> (if m < 0 then os = [] \<and> r = Inl (su_undefined su)
       else os \<noteq> [] \<and> r = last os \<and> (\<forall>e. r = Inl e \<longrightarrow> su_classify su e \<longrightarrow> int (length os) = m + 1))"
proof (cases "m < 0")
  case True
  with assms(3) show ?thesis by (simp add: withRetry_def Let_def)
next
  case False
  then have "retry_loop (retry_params_of su (policy_options m opts)) fn 0 (nat (m + 1)) s = (r, s')"
    "1 \<le> nat (m + 1)" "rp_max (retry_params_of su (policy_options m opts)) = int 0 + int (nat (m + 1)) - 1"
    using assms(3) by (simp_all add: withRetry_def Let_def)
  from retry_loop_explained [OF assms(1) quiet_policy [OF assms(2)] this]
  obtain os where "seen s' = seen s @ map tag os" "set os \<subseteq> (fst \<circ> fn) ` since seen s"
    "explained (retry_params_of su (policy_options m opts)) (nat (m + 1)) os r s'" by blast
  with False show ?thesis by (intro exI [of _ os]) (auto simp: explained_def)
qed

section \<open>Properties\<close>

text \<open>C19: Retrying, stated for any record \<open>seen\<close> of the attempts of the wrapped call: with a non-negative
  number of retries the call is made at most \<open>maxRetries + 1\<close> times; every attempt but the last failed
  with an error the classifier accepts; and what is returned or thrown is the outcome of the last
  attempt, or the reason of a signal that has fired.  A retryable error is thrown only when every
  attempt was used up.\<close>

theorem withRetry_attempts:
  assumes "observed seen tag fn" "quiet_params seen (retry_params_of su opts)"
    and "0 \<le> or_else (ro_maxRetries opts) 3"
    and "withRetry su opts fn s = (r, s')"
  shows "\<exists>os. seen s' = seen s @ map tag os \<and> int (length os) \<le> or_else (ro_maxRetries opts) 3 + 1
    \<and> (\<forall>out \<in> set (butlast os). \<exists>e. out = Inl e \<and> or_else (ro_isRetryable opts) (su_classify su) e)
    \<and> ((\<exists>reason signal. ro_signal opts = Some signal \<and> signal s' = Some reason \<and> r = Inl reason)
       \<or> (os \<noteq> [] \<and> r = last os
          \<and> (\<forall>e. r = Inl e \<longrightarrow> or_else (ro_isRetryable opts) (su_classify su) e
               \<longrightarrow> int (length os) = or_else (ro_maxRetries opts) 3 + 1)))"
proof -
  let ?pr = "retry_params_of su opts" and ?n = "nat (or_else (ro_maxRetries opts) 3 + 1)"
  have "retry_loop ?pr fn 0 ?n s = (r, s')" "1 \<le> ?n" "rp_max ?pr = int 0 + int ?n - 1"
    using assms(3,4) by (simp_all add: withRetry_def Let_def)
  from retry_loop_explained [OF assms(1,2) this]
  obtain os where os: "seen s' = seen s @ map tag os" "explained ?pr ?n os r s'" by blast
  have "\<exists>signal. ro_signal opts = Some signal \<and> signal s' = Some reason"
    if "rp_aborted ?pr s' = Some reason" for reason
    using that by (cases "ro_signal opts") auto
  with os assms(3) show ?thesis
    by (intro exI [of _ os]) (fastforce simp: explained_def)
qed

text \<open>A provider that answers from a script and writes down what it answered.\<close>

definition scripted :: "((thrown + nat) list \<times> (thrown + nat) list, thrown, nat) op" where
  "scripted s = (case s of ([], seen) \<Rightarrow> (Inl None, ([], seen @ [Inl None])) | (x # xs, seen) \<Rightarrow> (x, (xs, seen @ [x])))"

lemma scripted_observed: "observed snd (\<lambda>out. out) scripted"
  by (auto simp: observed_def scripted_def split: list.splits)

definition error_named :: "string \<Rightarrow> thrown" where
  "error_named m = Some \<lparr>er_code = None, er_status = None, er_statusCode = None,
                         er_response_status = None, er_message = Some m, er_text = m\<rparr>"

definition plain_surroundings :: "('s, thrown) surroundings" where
  "plain_surroundings = \<lparr>su_sleep = (\<lambda>_. give ()), su_pick = (\<lambda>_ _. 0), su_undefined = None,
                         su_classify = isRetryableRpcError\<rparr>"

definition no_options :: "('s, thrown) rpc_retry_options" where
  "no_options = \<lparr>rr_maxRetries = None, rr_baseDelayMs = None, rr_maxDelayMs = None, rr_jitter = None, rr_onRetry = None\<rparr>"

lemma plain_surroundings_quiet: "quiet_surroundings seen plain_surroundings no_options"
  by (simp add: quiet_surroundings_def plain_surroundings_def no_options_def keeps_seen_def never_throws_def)

lemma withRetry_attempts_witness:
  "\<exists>os. snd (snd (withRetry plain_surroundings (policy_options 1 no_options) scripted
      ([Inl (error_named ''Request Timeout''), Inr 7, Inr 8], []))) = os \<and> length os \<le> 2 \<and> last os = Inr 7"
proof -
  let ?s = "([Inl (error_named ''Request Timeout''), Inr 7, Inr 8], [])"
  obtain r s' where run: "withRetry plain_surroundings (policy_options 1 no_options) scripted ?s = (r, s')" by (rule prod.exhaust)
  have "isRetryableRpcError (error_named ''Request Timeout'')"
    by code_simp
  then have "r = Inr 7"
    using run by (simp add: withRetry_def Let_def eval_nat_numeral retry_params_of_def policy_options_def
        plain_surroundings_def no_options_def scripted_def check_abort_def abortableSleep_def and_then_def catching_def)
  with withRetry_attempts [OF scripted_observed quiet_policy [OF plain_surroundings_quiet] _ run] run
  show ?thesis by auto
qed

text \<open>C20: Whatever the SDK's retry configuration, one call of \<open>sendTransaction\<close> through the wrapped provider
  sends the transaction at most twice, a second time only after a failure the classifier takes for
  transient, and it reports the outcome of the last sending.\<close>

theorem send_attempted_at_most_twice:
  assumes "observed seen tag fn" "quiet_surroundings seen su opts"
    and "withRpcRetry su opts ''sendTransaction'' fn s = (r, s')"
  shows "\<exists>os. seen s' = seen s @ map tag os \<and> set os \<subseteq> range (fst \<circ> fn) \<and> length os \<le> 2
    \<and> (length os = 2 \<longrightarrow> (\<exists>e. hd os = Inl e \<and> su_classify su e))
    \<and> (os \<noteq> [] \<longrightarrow> r = last os) \<and> (os = [] \<longrightarrow> r = Inl (su_undefined su))"
proof -
  let ?m = "min (or_else (rr_maxRetries opts) VIEW_maxRetries) STATE_CHANGING_maxRetries"
  have "withRetry su (policy_options ?m opts) fn s = (r, s')"
    using assms(3) by (simp add: withRpcRetry_def rpc_policy_def VIEW_RPC_METHODS_def
        STATE_CHANGING_RPC_METHODS_def resolveStateOptions_def Let_def)
  from withRetry_policy [OF assms(1,2) this] obtain os where os: "seen s' = seen s @ map tag os"
    "set os \<subseteq> (fst \<circ> fn) ` since seen s"
    "int (length os) \<le> max 0 (?m + 1)" "\<forall>out \<in> set (butlast os). \<exists>e. out = Inl e \<and> su_classify su e"
    "if ?m < 0 then os = [] \<and> r = Inl (su_undefined su) else os \<noteq> [] \<and> r = last os" by (auto split: if_splits)
  moreover have "int (length os) \<le> 2" using os(3) by (auto simp: STATE_CHANGING_maxRetries_def)
  moreover have "hd os \<in> set (butlast os)" if "length os = 2"
    using that by (cases os; cases "tl os") auto
  moreover have "set os \<subseteq> range (fst \<circ> fn)" using os(2) by blast
  ultimately show ?thesis by (intro exI [of _ os]) (auto split: if_splits)
qed

lemma send_attempted_at_most_twice_witness:
  "\<exists>os. snd (snd (withRpcRetry plain_surroundings no_options ''sendTransaction'' scripted ([], []))) = os \<and> length os \<le> 2"
  using send_attempted_at_most_twice [OF scripted_observed plain_surroundings_quiet surjective_pairing, of "([], [])"]
  by auto

text \<open>Methods on neither list are not retried, although the class comment of the SDK says that all RPC calls
  are: \<open>estimateCost\<close> calls \<open>getFeeStats\<close>.\<close>

lemma getFeeStats_not_retried: "withRpcRetry su opts ''getFeeStats'' fn = fn"
  by (simp add: withRpcRetry_def rpc_policy_def VIEW_RPC_METHODS_def STATE_CHANGING_RPC_METHODS_def)

text \<open>Every delay lies between zero and the cap, and without jitter it doubles with each attempt until
  the cap.\<close>

lemma backoff_bounds:
  assumes "0 \<le> base" "0 \<le> cap" "\<And>n. 0 < n \<Longrightarrow> 0 \<le> pick n \<and> pick n < n"
  shows "0 \<le> computeBackoffDelay pick attempt base cap jitter" "computeBackoffDelay pick attempt base cap jitter \<le> cap"
    "computeBackoffDelay pick attempt base cap jitter \<le> base * 2 ^ attempt"
  using assms(1,2) assms(3) [of "min (base * 2 ^ attempt) cap + 1"]
  by (auto simp: computeBackoffDelay_def Let_def min_def split: if_splits)

text \<open>A call that succeeds at once is made once.\<close>

lemma withRetry_first_success:
  assumes "0 \<le> m" "fn s = (Inr a, s')"
  shows "withRetry su (policy_options m opts) fn s = (Inr a, s')"
proof -
  obtain n where "nat (m + 1) = Suc n" using assms(1) by (cases "nat (m + 1)") auto
  then show ?thesis using assms(2) by (simp add: withRetry_def Let_def check_abort_def)
qed

end
