(* ===== verification/Sdk_Encoding.thy ===== *)
theory Sdk_Encoding
  imports Sdk_Types Sdk_Retry
begin

text \<open>
  From the caller's values to the arguments of a contract call: the checks of \<open>sdk/src/validate.ts\<close>,
  the encoder of \<open>sdk/src/encoding.ts\<close>, and the private helpers of \<open>sdk/src/bridge.ts\<close> that build
  byte strings, optional nonces and canonical maps.

  \<open>@stellar/stellar-sdk\<close> is the parameter \<open>stellar\<close>: the address checks of \<open>StrKey\<close>, the constructor of
  \<open>Address\<close>, \<open>nativeToScVal\<close> with and without an explicit type, and \<open>scValToNative\<close>.  What the properties rely on is
  stated once, in \<open>faithful_stellar\<close>.
\<close>

section \<open>Contract values\<close>

text \<open>An integer value carries its type, an address its text; a map is its list of symbol-keyed entries.\<close>

datatype scval =
    ScVoid
  | ScInt string int
  | ScAddress string
  | ScBytes "byte list"
  | ScVec "scval list"
  | ScMap "(string \<times> scval) list"
  | ScOther string

text \<open>The values the encoder is given: \<open>ArgTyped\<close> is the pair \<open>{ value, type }\<close>, \<open>ArgScVal\<close> a value that is
  already a contract value.\<close>

datatype js_arg =
    ArgNull
  | ArgAddress string
  | ArgArray "js_arg list"
  | ArgTyped js_arg "string option"
  | ArgInt int
  | ArgBytes "byte list"
  | ArgScVal scval

record stellar =
  st_is_account :: "string \<Rightarrow> bool"
  st_is_contract :: "string \<Rightarrow> bool"
  st_address :: "string \<Rightarrow> thrown option"
  st_typed :: "string \<Rightarrow> js_arg \<Rightarrow> thrown + scval"
  st_native :: "js_arg \<Rightarrow> thrown + scval"
  st_toNative :: "scval \<Rightarrow> thrown + js_native"

section \<open>Errors\<close>

text \<open>\<open>new Error(message)\<close>.\<close>

definition error_of :: "string \<Rightarrow> thrown" where
  "error_of m = Some \<lparr>er_code = None, er_status = None, er_statusCode = None,
                      er_response_status = None, er_message = Some m, er_text = ''Error: '' @ m\<rparr>"

definition require :: "bool \<Rightarrow> string \<Rightarrow> thrown + unit" where
  "require b m = (if b then Inr () else Inl (error_of m))"

lemma require_simps [simp]: "require b m = Inr () \<longleftrightarrow> b" "require True m = Inr ()" "require False m = Inl (error_of m)"
  by (simp_all add: require_def)

text \<open>\<open>BigInt(x)\<close> as the SDK sees it: a thrown \<open>SyntaxError\<close> or \<open>RangeError\<close> has a message.\<close>

definition to_bigint :: "js_int \<Rightarrow> thrown + int" where
  "to_bigint x = (case BigInt x of Inl m \<Rightarrow> Inl (error_of m) | Inr n \<Rightarrow> Inr n)"

section \<open>validate.ts\<close>

definition assertAccountAddress :: "stellar \<Rightarrow> string \<Rightarrow> string \<Rightarrow> thrown + unit" where
  "assertAccountAddress st address fld = require (st_is_account st address)
     (''Invalid account address for \"'' @ fld @ ''\": expected a G-address (ed25519 public key), got \"'' @ address @ ''\"'')"

definition assertAddress :: "stellar \<Rightarrow> string \<Rightarrow> string \<Rightarrow> thrown + unit" where
  "assertAddress st address fld = require (st_is_account st address \<or> st_is_contract st address)
     (''Invalid address for \"'' @ fld @ ''\": expected a G-address or C-address, got \"'' @ address @ ''\"'')"

definition assertContractAddress :: "stellar \<Rightarrow> string \<Rightarrow> string \<Rightarrow> thrown + unit" where
  "assertContractAddress st address fld = require (st_is_contract st address)
     (''Invalid contract address for \"'' @ fld @ ''\": expected a C-address (contract), got \"'' @ address @ ''\"'')"

definition matches_lower_hex :: "nat \<Rightarrow> string \<Rightarrow> bool" where
  "matches_lower_hex n s = (length s = n \<and> list_all is_lower_hex s)"

definition assertRelayerPubkey :: "string \<Rightarrow> string \<Rightarrow> thrown + unit" where
  "assertRelayerPubkey pubkeyHex fld = require (matches_lower_hex 64 pubkeyHex)
     (''Invalid relayer pubkey for \"'' @ fld @ ''\": expected a 64-character lowercase hex string (32 bytes), got \"''
        @ pubkeyHex @ ''\"'')"

text \<open>\<open>xs.forEach((x, i) => check(x, i))\<close>.\<close>

definition check_each :: "(nat \<Rightarrow> 'a \<Rightarrow> thrown + unit) \<Rightarrow> 'a list \<Rightarrow> thrown + unit" where
  "check_each check xs = first_error (map (\<lambda>(i, x). check i x) (List.enumerate 0 xs))"

lemma check_each_Inr: "check_each check xs = Inr () \<longleftrightarrow> (\<forall>i < length xs. check i (xs ! i) = Inr ())"
proof -
  have "(\<forall>c \<in> set (map (\<lambda>(i, x). check i x) (List.enumerate 0 xs)). c = Inr ()) \<longleftrightarrow>
      (\<forall>i < length xs. check i (xs ! i) = Inr ())"
    by (simp add: all_set_conv_all_nth nth_enumerate_eq)
  then show ?thesis by (simp only: check_each_def first_error_Inr_iff)
qed

definition indexed :: "string \<Rightarrow> nat \<Rightarrow> string" where
  "indexed name i = name @ ''['' @ dec_of_nat i @ '']''"

section \<open>encoding.ts\<close>

fun toSingleScVal :: "stellar \<Rightarrow> js_arg \<Rightarrow> thrown + scval"
  and toScValList :: "stellar \<Rightarrow> js_arg list \<Rightarrow> thrown + scval list" where
  "toSingleScVal st (ArgTyped value ty) =
     (case value of
        ArgNull \<Rightarrow> Inr ScVoid
      | ArgAddress a \<Rightarrow> Inr (ScAddress a)
      | ArgArray items \<Rightarrow> bind_sum (toScValList st items) (\<lambda>vs. Inr (ScVec vs))
      | _ \<Rightarrow> (case ty of Some t \<Rightarrow> st_typed st t value | None \<Rightarrow> st_native st value))"
| "toSingleScVal st ArgNull = Inr ScVoid"
| "toSingleScVal st (ArgAddress a) = Inr (ScAddress a)"
| "toSingleScVal st (ArgArray items) = bind_sum (toScValList st items) (\<lambda>vs. Inr (ScVec vs))"
| "toSingleScVal st (ArgInt n) = st_native st (ArgInt n)"
| "toSingleScVal st (ArgBytes bs) = st_native st (ArgBytes bs)"
| "toSingleScVal st (ArgScVal v) = st_native st (ArgScVal v)"
| "toScValList st [] = Inr []"
| "toScValList st (x # xs) =
     bind_sum (toSingleScVal st x) (\<lambda>v. bind_sum (toScValList st xs) (\<lambda>vs. Inr (v # vs)))"

definition toScVals :: "stellar \<Rightarrow> js_arg list \<Rightarrow> thrown + scval list" where
  "toScVals st args = map_sum_list (\<lambda>arg.
     case arg of
       ArgNull \<Rightarrow> Inr ScVoid
     | ArgArray items \<Rightarrow> bind_sum (toScValList st items) (\<lambda>vs. Inr (ScVec vs))
     | _ \<Rightarrow> toSingleScVal st arg) args"

lemma toScValList_map: "toScValList st xs = map_sum_list (toSingleScVal st) xs"
  by (induction xs) simp_all

lemma toScVals_map: "toScVals st args = map_sum_list (toSingleScVal st) args"
proof -
  have "(case arg of ArgNull \<Rightarrow> Inr ScVoid
      | ArgArray items \<Rightarrow> bind_sum (toScValList st items) (\<lambda>vs. Inr (ScVec vs))
      | _ \<Rightarrow> toSingleScVal st arg) = toSingleScVal st arg" for arg
    by (cases arg) simp_all
  then show ?thesis by (simp add: toScVals_def)
qed

section \<open>Argument helpers of bridge.ts\<close>

definition all_of :: "('e + 'a) list \<Rightarrow> 'e + 'a list" where
  "all_of xs = map_sum_list (\<lambda>x. x) xs"

lemma all_of_simps [simp]:
  "all_of [] = Inr []"
  "all_of (x # xs) = bind_sum x (\<lambda>v. bind_sum (all_of xs) (\<lambda>vs. Inr (v # vs)))"
  by (simp_all add: all_of_def)

text \<open>\<open>new Address(a)\<close>, and \<open>new Address(a).toScVal()\<close>.\<close>

definition newAddress :: "stellar \<Rightarrow> string \<Rightarrow> thrown + js_arg" where
  "newAddress st a = (case st_address st a of Some e \<Rightarrow> Inl e | None \<Rightarrow> Inr (ArgAddress a))"

definition addressScVal :: "stellar \<Rightarrow> string \<Rightarrow> thrown + scval" where
  "addressScVal st a = (case st_address st a of Some e \<Rightarrow> Inl e | None \<Rightarrow> Inr (ScAddress a))"

text \<open>\<open>{ value: BigInt(x), type }\<close>, and \<open>nativeToScVal(BigInt(x), { type })\<close>.\<close>

definition typedBigInt :: "js_int \<Rightarrow> string \<Rightarrow> thrown + js_arg" where
  "typedBigInt x ty = bind_sum (to_bigint x) (\<lambda>n. Inr (ArgTyped (ArgInt n) (Some ty)))"

definition bigIntScVal :: "stellar \<Rightarrow> string \<Rightarrow> js_int \<Rightarrow> thrown + scval" where
  "bigIntScVal st ty x = bind_sum (to_bigint x) (\<lambda>n. st_typed st ty (ArgInt n))"

definition numberScVal :: "stellar \<Rightarrow> string \<Rightarrow> int \<Rightarrow> thrown + scval" where
  "numberScVal st ty n = st_typed st ty (ArgInt n)"

definition optionalNonceToScVal :: "stellar \<Rightarrow> js_int option \<Rightarrow> thrown + scval" where
  "optionalNonceToScVal st nonce = (case nonce of None \<Rightarrow> Inr ScVoid | Some n \<Rightarrow> bigIntScVal st ''u64'' n)"

definition hexBytesToScVal :: "string \<Rightarrow> nat \<Rightarrow> string \<Rightarrow> thrown + scval" where
  "hexBytesToScVal hex expectedBytes fieldName =
     (if \<not> (hex \<noteq> [] \<and> list_all is_hex hex) \<or> length hex \<noteq> expectedBytes * 2
      then Inl (error_of (fieldName @ '' must be a '' @ dec_of_nat expectedBytes @ ''-byte hex string''))
      else Inr (ScBytes (bytes_of_hex hex)))"

definition scMapEntry :: "string \<Rightarrow> thrown + scval \<Rightarrow> thrown + (string \<times> scval)" where
  "scMapEntry key val = bind_sum val (\<lambda>v. Inr (key, v))"

text \<open>\<open>Array.prototype.sort\<close> with the comparator on keys: a stable sort by the code units of the key,
  lexicographically.\<close>

fun key_less :: "string \<Rightarrow> string \<Rightarrow> bool" where
  "key_less _ [] = False"
| "key_less [] (_ # _) = True"
| "key_less (a # s) (b # t) =
     ((of_char a :: nat) < of_char b \<or> (a = b \<and> key_less s t))"

fun insert_entry :: "string \<times> scval \<Rightarrow> (string \<times> scval) list \<Rightarrow> (string \<times> scval) list" where
  "insert_entry e [] = [e]"
| "insert_entry e (f # fs) = (if key_less (fst f) (fst e) then f # insert_entry e fs else e # f # fs)"

definition sortedScMap :: "(string \<times> scval) list \<Rightarrow> scval" where
  "sortedScMap entries = ScMap (foldr insert_entry entries [])"

definition metaFundParamsToScVal :: "stellar \<Rightarrow> meta_fund_params \<Rightarrow> thrown + scval" where
  "metaFundParamsToScVal st params = bind_sum (all_of
     [scMapEntry ''network_id'' (hexBytesToScVal (mf_networkId params) 32 ''networkId''),
      scMapEntry ''source'' (addressScVal st (mf_source params)),
      scMapEntry ''target'' (addressScVal st (mf_target params)),
      scMapEntry ''asset'' (addressScVal st (mf_asset params)),
      scMapEntry ''amount'' (bigIntScVal st ''i128'' (mf_amount params)),
      scMapEntry ''nonce'' (bigIntScVal st ''u64'' (mf_nonce params)),
      scMapEntry ''deadline'' (bigIntScVal st ''u64'' (mf_deadline params))])
     (\<lambda>es. Inr (sortedScMap es))"

definition feeTierToScVal :: "stellar \<Rightarrow> fee_tier \<Rightarrow> thrown + scval" where
  "feeTierToScVal st tier = bind_sum (all_of
     [scMapEntry ''fee_bps'' (numberScVal st ''u32'' (ft_fee_bps tier)),
      scMapEntry ''max_volume'' (bigIntScVal st ''i128'' (ft_max_volume tier)),
      scMapEntry ''min_volume'' (bigIntScVal st ''i128'' (ft_min_volume tier))])
     (\<lambda>es. Inr (sortedScMap es))"

section \<open>Canonical maps\<close>

lemma key_less_irrefl [simp]: "\<not> key_less s s"
  by (induction s) simp_all

lemma key_less_total: "s \<noteq> t \<Longrightarrow> key_less s t \<or> key_less t s"
proof (induction s t rule: key_less.induct)
  case (1 s)
  then show ?case by (cases s) simp_all
next
  case (3 a s b t)
  moreover have "(of_char a :: nat) < of_char b \<or> a = b \<or> (of_char b :: nat) < of_char a"
    using linorder_less_linear [of "of_char a :: nat" "of_char b"] by simp
  ultimately show ?case by auto
qed simp

lemma key_less_trans: "key_less s t \<Longrightarrow> key_less t u \<Longrightarrow> key_less s u"
proof (induction s arbitrary: t u)
  case Nil
  then show ?case by (cases u; cases t) auto
next
  case (Cons a s)
  then obtain b t' where t: "t = b # t'" by (cases t) auto
  with Cons.prems obtain c u' where u: "u = c # u'" by (cases u) auto
  from Cons t u show ?case by auto
qed

definition keys_sorted :: "(string \<times> scval) list \<Rightarrow> bool" where
  "keys_sorted es = sorted_wrt (\<lambda>e f. key_less (fst e) (fst f)) es"

lemma set_insert_entry [simp]: "set (insert_entry e fs) = insert e (set fs)"
  by (induction e fs rule: insert_entry.induct) auto

lemma insert_entry_sorted:
  "keys_sorted fs \<Longrightarrow> fst e \<notin> fst ` set fs \<Longrightarrow> keys_sorted (insert_entry e fs)"
proof (induction e fs rule: insert_entry.induct)
  case (2 e f fs)
  have "key_less (fst e) (fst f)" if "\<not> key_less (fst f) (fst e)"
    using that key_less_total [of "fst e" "fst f"] 2(3) by auto
  with 2 show ?case by (auto simp: keys_sorted_def intro: key_less_trans)
qed (simp add: keys_sorted_def)

lemma foldr_insert_entry:
  "distinct (map fst es) \<Longrightarrow>
     set (foldr insert_entry es []) = set es \<and> keys_sorted (foldr insert_entry es [])"
  by (induction es) (auto simp: insert_entry_sorted keys_sorted_def [of "[]"])

text \<open>A map of the host: its keys ascend strictly.\<close>

definition canonical :: "scval \<Rightarrow> bool" where
  "canonical v = (case v of ScMap es \<Rightarrow> keys_sorted es | _ \<Rightarrow> False)"

lemma sortedScMap_canonical:
  "distinct (map fst es) \<Longrightarrow> canonical (sortedScMap es) \<and> (\<exists>fs. sortedScMap es = ScMap fs \<and> set fs = set es)"
  using foldr_insert_entry [of es] by (simp add: sortedScMap_def canonical_def)

text \<open>C21: The maps the SDK builds are the ones the host accepts: whatever the order of the entries in the
  program, the meta-transaction parameters and the fee tiers are encoded with their symbol keys in
  strictly ascending order and with every field under its own name.\<close>

theorem encoded_maps_are_canonical:
  "(metaFundParamsToScVal st params = Inr v \<longrightarrow> canonical v
      \<and> (\<exists>network src tgt ast amt nce dl.
           hexBytesToScVal (mf_networkId params) 32 ''networkId'' = Inr network
         \<and> addressScVal st (mf_source params) = Inr src \<and> addressScVal st (mf_target params) = Inr tgt
         \<and> addressScVal st (mf_asset params) = Inr ast \<and> bigIntScVal st ''i128'' (mf_amount params) = Inr amt
         \<and> bigIntScVal st ''u64'' (mf_nonce params) = Inr nce \<and> bigIntScVal st ''u64'' (mf_deadline params) = Inr dl
         \<and> v = ScMap [(''amount'', amt), (''asset'', ast), (''deadline'', dl), (''network_id'', network),
                      (''nonce'', nce), (''source'', src), (''target'', tgt)]))
   \<and> (feeTierToScVal st tier = Inr v \<longrightarrow> canonical v
      \<and> (\<exists>bps hi lo. numberScVal st ''u32'' (ft_fee_bps tier) = Inr bps
         \<and> bigIntScVal st ''i128'' (ft_max_volume tier) = Inr hi \<and> bigIntScVal st ''i128'' (ft_min_volume tier) = Inr lo
         \<and> v = ScMap [(''fee_bps'', bps), (''max_volume'', hi), (''min_volume'', lo)]))"
proof (intro conjI impI)
  assume "metaFundParamsToScVal st params = Inr v"
  then show "\<exists>network src tgt ast amt nce dl.
           hexBytesToScVal (mf_networkId params) 32 ''networkId'' = Inr network
         \<and> addressScVal st (mf_source params) = Inr src \<and> addressScVal st (mf_target params) = Inr tgt
         \<and> addressScVal st (mf_asset params) = Inr ast \<and> bigIntScVal st ''i128'' (mf_amount params) = Inr amt
         \<and> bigIntScVal st ''u64'' (mf_nonce params) = Inr nce \<and> bigIntScVal st ''u64'' (mf_deadline params) = Inr dl
         \<and> v = ScMap [(''amount'', amt), (''asset'', ast), (''deadline'', dl), (''network_id'', network),
                      (''nonce'', nce), (''source'', src), (''target'', tgt)]"
    by (auto simp: metaFundParamsToScVal_def scMapEntry_def bind_sum_eq_Inr sortedScMap_def)
  then show "canonical v" by (auto simp: canonical_def keys_sorted_def)
next
  assume "feeTierToScVal st tier = Inr v"
  then show "\<exists>bps hi lo. numberScVal st ''u32'' (ft_fee_bps tier) = Inr bps
         \<and> bigIntScVal st ''i128'' (ft_max_volume tier) = Inr hi \<and> bigIntScVal st ''i128'' (ft_min_volume tier) = Inr lo
         \<and> v = ScMap [(''fee_bps'', bps), (''max_volume'', hi), (''min_volume'', lo)]"
    by (auto simp: feeTierToScVal_def scMapEntry_def bind_sum_eq_Inr sortedScMap_def)
  then show "canonical v" by (auto simp: canonical_def keys_sorted_def)
qed

lemma encoded_maps_are_canonical_witness:
  "canonical (ScMap [(''fee_bps'', ScInt ''u32'' 5), (''max_volume'', ScInt ''i128'' 9), (''min_volume'', ScInt ''i128'' 1)])"
proof -
  let ?st = "\<lparr>st_is_account = (\<lambda>_. True), st_is_contract = (\<lambda>_. True), st_address = (\<lambda>_. None),
     st_typed = (\<lambda>ty x. case x of ArgInt n \<Rightarrow> Inr (ScInt ty n) | _ \<Rightarrow> Inr ScVoid), st_native = (\<lambda>_. Inr ScVoid),
     st_toNative = (\<lambda>_. Inr NNull)\<rparr>"
  let ?tier = "\<lparr>ft_min_volume = IntBig 1, ft_max_volume = IntBig 9, ft_fee_bps = 5\<rparr>"
  have "feeTierToScVal ?st ?tier =
      Inr (ScMap [(''fee_bps'', ScInt ''u32'' 5), (''max_volume'', ScInt ''i128'' 9), (''min_volume'', ScInt ''i128'' 1)])"
    by (simp add: feeTierToScVal_def scMapEntry_def sortedScMap_def numberScVal_def bigIntScVal_def to_bigint_def BigInt_def)
  with encoded_maps_are_canonical show ?thesis by blast
qed

end
