(* ===== verification/Sdk_Submit.thy ===== *)
theory Sdk_Submit
  imports Sdk_Encoding
begin

text \<open>
  The mutating half of \<open>OnboardingBridgeSDK\<close> (\<open>sdk/src/bridge.ts\<close>): every method that submits a
  transaction, with the observability hooks around it (\<open>sdk/src/observability.ts\<close>) and the retrying
  provider below it.

  The RPC server is a parameter: it answers each direct call from the history of the calls and
  sleeps before it.  A prepared transaction is a value \<open>'p\<close> of the server's; signing puts it in an
  envelope.  The hooks are the caller's code: they act on a state \<open>'u\<close> of their own and may throw.
\<close>

section \<open>The RPC server\<close>

record account =
  ac_id :: string
  ac_sequence :: int

record transaction =
  tx_account :: account
  tx_fee :: string
  tx_passphrase :: string
  tx_contract :: string
  tx_method :: string
  tx_args :: "scval list"
  tx_timeout :: int

record 'p envelope =
  en_prepared :: 'p
  en_signers :: "string list"

datatype 'p rpc_call =
    GetAccount string
  | PrepareTransaction transaction
  | SendTransaction "'p envelope"
  | GetTransaction string
  | SimulateTransaction transaction
  | GetLedgerEntries string
  | GetFeeStats

datatype 'p activity = Called "'p rpc_call" | Slept int

record send_reply =
  sr_hash :: string
  sr_status :: string

record transaction_reply =
  gt_status :: string
  gt_returnValue :: "scval option"

record simulation_reply =
  si_error :: "string option"
  si_retval :: "scval option"
  si_minResourceFee :: "string option"

record 'p provider =
  pv_getAccount :: "'p activity list \<Rightarrow> string \<Rightarrow> thrown + account"
  pv_prepareTransaction :: "'p activity list \<Rightarrow> transaction \<Rightarrow> thrown + 'p"
  pv_sendTransaction :: "'p activity list \<Rightarrow> 'p envelope \<Rightarrow> thrown + send_reply"
  pv_getTransaction :: "'p activity list \<Rightarrow> string \<Rightarrow> thrown + transaction_reply"
  pv_simulateTransaction :: "'p activity list \<Rightarrow> transaction \<Rightarrow> thrown + simulation_reply"
  pv_getSubentries :: "'p activity list \<Rightarrow> string \<Rightarrow> thrown + int option"
  pv_getFeeStats :: "'p activity list \<Rightarrow> thrown + string option"

section \<open>Hooks and the SDK object\<close>

datatype hook_result = OneResult tx_result | ManyResults "tx_result list"

record 'u hooks =
  hk_start :: "(string \<Rightarrow> hook_params \<Rightarrow> ('u, string, unit) op) option"
  hk_success :: "(string \<Rightarrow> hook_result \<Rightarrow> int \<Rightarrow> ('u, string, unit) op) option"
  hk_error :: "(string \<Rightarrow> thrown \<Rightarrow> int \<Rightarrow> ('u, string, unit) op) option"
  hk_rpc :: "(string \<Rightarrow> hook_params \<Rightarrow> int \<Rightarrow> ('u, string, unit) op) option"

record ('p, 'u) sdk_world =
  wd_log :: "'p activity list"
  wd_console :: "string list"
  wd_user :: 'u

record ('p, 'u) sdk =
  sd_stellar :: stellar
  sd_contractId :: string
  sd_networkPassphrase :: string
  sd_timeout :: "int option"
  sd_retry :: "(('p, 'u) sdk_world, thrown) rpc_retry_options"
  sd_hooks :: "'u hooks option"
  sd_baseReserve :: "js_int option"
  sd_provider :: "'p provider"
  sd_now :: "('p, 'u) sdk_world \<Rightarrow> int"
  sd_pick :: "('p, 'u) sdk_world \<Rightarrow> int \<Rightarrow> int"
  sd_BASE_FEE :: string

type_synonym ('p, 'u, 'a) sdk_op = "(('p, 'u) sdk_world, thrown, 'a) op"

text \<open>\<open>new OnboardingBridgeSDK(config)\<close>: \<open>connect\<close> is \<open>new rpc.Server(_)\<close>, which may throw; the clock, the
  random numbers and \<open>BASE_FEE\<close> come from the runtime and the library.\<close>

record ('p, 'u) bridge_config =
  bc_contractId :: string
  bc_rpcUrl :: string
  bc_networkPassphrase :: string
  bc_timeout :: "int option"
  bc_retry :: "(('p, 'u) sdk_world, thrown) rpc_retry_options option"
  bc_hooks :: "'u hooks option"
  bc_baseReserveStroops :: "js_int option"

definition new_sdk ::
  "stellar \<Rightarrow> (string \<Rightarrow> thrown + 'p provider) \<Rightarrow> (('p, 'u) sdk_world \<Rightarrow> int) \<Rightarrow> (('p, 'u) sdk_world \<Rightarrow> int \<Rightarrow> int) \<Rightarrow> string
    \<Rightarrow> ('p, 'u) bridge_config \<Rightarrow> thrown + ('p, 'u) sdk" where
  "new_sdk st connect now pick base_fee config =
     bind_sum (assertContractAddress st (bc_contractId config) ''contractId'') (\<lambda>_.
     bind_sum (connect (bc_rpcUrl config)) (\<lambda>server.
     Inr \<lparr>sd_stellar = st, sd_contractId = bc_contractId config,
          sd_networkPassphrase = bc_networkPassphrase config, sd_timeout = bc_timeout config,
          sd_retry = or_else (bc_retry config) no_options, sd_hooks = bc_hooks config,
          sd_baseReserve = bc_baseReserveStroops config, sd_provider = server,
          sd_now = now, sd_pick = pick, sd_BASE_FEE = base_fee\<rparr>))"

text \<open>A throwing hook is reported on the console and otherwise ignored.\<close>

definition safeInvoke :: "string \<Rightarrow> ('u, string, unit) op \<Rightarrow> ('p, 'u) sdk_world \<Rightarrow> ('p, 'u) sdk_world" where
  "safeInvoke hookName fn w =
     (case fn (wd_user w) of
        (Inr _, u) \<Rightarrow> w\<lparr>wd_user := u\<rparr>
      | (Inl err, u) \<Rightarrow>
          w\<lparr>wd_user := u,
            wd_console := wd_console w @ [''[bridge-sdk] observability hook \"'' @ hookName @ ''\" threw: '' @ err]\<rparr>)"

definition fire :: "('p, 'u) sdk \<Rightarrow> string \<Rightarrow> ('u hooks \<Rightarrow> ('u, string, unit) op option) \<Rightarrow> ('p, 'u) sdk_world \<Rightarrow> ('p, 'u) sdk_world" where
  "fire sdk hookName invoke w =
     (case Option.bind (sd_hooks sdk) invoke of None \<Rightarrow> w | Some fn \<Rightarrow> safeInvoke hookName fn w)"

definition fireTransactionStart :: "('p, 'u) sdk \<Rightarrow> string \<Rightarrow> hook_params \<Rightarrow> ('p, 'u) sdk_world \<Rightarrow> ('p, 'u) sdk_world" where
  "fireTransactionStart sdk m params =
     fire sdk ''onTransactionStart'' (\<lambda>h. map_option (\<lambda>f. f m params) (hk_start h))"

definition fireTransactionSuccess :: "('p, 'u) sdk \<Rightarrow> string \<Rightarrow> hook_result \<Rightarrow> int \<Rightarrow> ('p, 'u) sdk_world \<Rightarrow> ('p, 'u) sdk_world" where
  "fireTransactionSuccess sdk m result durationMs =
     fire sdk ''onTransactionSuccess'' (\<lambda>h. map_option (\<lambda>f. f m result durationMs) (hk_success h))"

definition fireTransactionError :: "('p, 'u) sdk \<Rightarrow> string \<Rightarrow> thrown \<Rightarrow> int \<Rightarrow> ('p, 'u) sdk_world \<Rightarrow> ('p, 'u) sdk_world" where
  "fireTransactionError sdk m error durationMs =
     fire sdk ''onTransactionError'' (\<lambda>h. map_option (\<lambda>f. f m error durationMs) (hk_error h))"

definition fireRpcCall :: "('p, 'u) sdk \<Rightarrow> string \<Rightarrow> hook_params \<Rightarrow> int \<Rightarrow> ('p, 'u) sdk_world \<Rightarrow> ('p, 'u) sdk_world" where
  "fireRpcCall sdk m params durationMs =
     fire sdk ''onRpcCall'' (\<lambda>h. map_option (\<lambda>f. f m params durationMs) (hk_rpc h))"

definition withTransactionHooks ::
  "('p, 'u) sdk \<Rightarrow> ('r \<Rightarrow> hook_result) \<Rightarrow> string \<Rightarrow> hook_params \<Rightarrow> ('p, 'u, 'r) sdk_op \<Rightarrow> ('p, 'u, 'r) sdk_op" where
  "withTransactionHooks sdk wrap m params fn w =
     (let w1 = fireTransactionStart sdk m params w; start = sd_now sdk w1 in
      case fn w1 of
        (Inr result, w2) \<Rightarrow> (Inr result, fireTransactionSuccess sdk m (wrap result) (sd_now sdk w2 - start) w2)
      | (Inl err, w2) \<Rightarrow>
          (Inl err, fireTransactionError sdk m (case err of None \<Rightarrow> error_of ''undefined'' | Some _ \<Rightarrow> err)
                      (sd_now sdk w2 - start) w2))"

definition withRpcHook :: "('p, 'u) sdk \<Rightarrow> string \<Rightarrow> hook_params \<Rightarrow> ('p, 'u, 'a) sdk_op \<Rightarrow> ('p, 'u, 'a) sdk_op" where
  "withRpcHook sdk rpcMethod params fn w =
     (case fn w of (r, w1) \<Rightarrow> (r, fireRpcCall sdk rpcMethod params (sd_now sdk w1 - sd_now sdk w) w1))"

section \<open>The retrying provider\<close>

definition raw_call :: "('p activity list \<Rightarrow> thrown + 'a) \<Rightarrow> 'p rpc_call \<Rightarrow> ('p, 'u, 'a) sdk_op" where
  "raw_call answer c w = (answer (wd_log w), w\<lparr>wd_log := wd_log w @ [Called c]\<rparr>)"

definition sleeping :: "int \<Rightarrow> ('p, 'u, unit) sdk_op" where
  "sleeping ms w = (Inr (), w\<lparr>wd_log := wd_log w @ [Slept ms]\<rparr>)"

definition sdk_surroundings :: "('p, 'u) sdk \<Rightarrow> (('p, 'u) sdk_world, thrown) surroundings" where
  "sdk_surroundings sdk =
     \<lparr>su_sleep = sleeping, su_pick = sd_pick sdk, su_undefined = None, su_classify = isRetryableRpcError\<rparr>"

definition provider_call ::
  "('p, 'u) sdk \<Rightarrow> string \<Rightarrow> ('p activity list \<Rightarrow> thrown + 'a) \<Rightarrow> 'p rpc_call \<Rightarrow> ('p, 'u, 'a) sdk_op" where
  "provider_call sdk name answer c =
     withRpcRetry (sdk_surroundings sdk) (sd_retry sdk) name (raw_call answer c)"

definition getAccount :: "('p, 'u) sdk \<Rightarrow> string \<Rightarrow> ('p, 'u, account) sdk_op" where
  "getAccount sdk address = withRpcHook sdk ''getAccount'' [(''address'', VString address)]
     (provider_call sdk ''getAccount'' (\<lambda>h. pv_getAccount (sd_provider sdk) h address) (GetAccount address))"

definition prepareTransaction :: "('p, 'u) sdk \<Rightarrow> hook_params \<Rightarrow> transaction \<Rightarrow> ('p, 'u, 'p) sdk_op" where
  "prepareTransaction sdk params tx = withRpcHook sdk ''prepareTransaction'' params
     (provider_call sdk ''prepareTransaction'' (\<lambda>h. pv_prepareTransaction (sd_provider sdk) h tx) (PrepareTransaction tx))"

definition sendTransaction :: "('p, 'u) sdk \<Rightarrow> hook_params \<Rightarrow> 'p envelope \<Rightarrow> ('p, 'u, send_reply) sdk_op" where
  "sendTransaction sdk params env = withRpcHook sdk ''sendTransaction'' params
     (provider_call sdk ''sendTransaction'' (\<lambda>h. pv_sendTransaction (sd_provider sdk) h env) (SendTransaction env))"

section \<open>Submitting a contract call\<close>

definition checked :: "thrown + 'a \<Rightarrow> ('p, 'u, 'a) sdk_op" where
  "checked x = (case x of Inl e \<Rightarrow> throw e | Inr a \<Rightarrow> give a)"

text \<open>\<open>new TransactionBuilder(...).addOperation(contract.call(method, ...args)).setTimeout(...).build()\<close>.\<close>

definition build_tx :: "('p, 'u) sdk \<Rightarrow> account \<Rightarrow> string \<Rightarrow> scval list \<Rightarrow> transaction" where
  "build_tx sdk account m args =
     \<lparr>tx_account = account, tx_fee = sd_BASE_FEE sdk, tx_passphrase = sd_networkPassphrase sdk,
      tx_contract = sd_contractId sdk, tx_method = m, tx_args = args,
      tx_timeout = or_else (sd_timeout sdk) 30\<rparr>"

definition result_of_reply :: "send_reply \<Rightarrow> tx_result" where
  "result_of_reply response =
     \<lparr>tr_hash = sr_hash response,
      tr_status = (if sr_status response = ''PENDING'' then Pending else Failed), tr_error = None\<rparr>"

text \<open>\<open>catch (error) { return { hash: '', status: 'failed', error: error.message || fallback } }\<close>; reading
  \<open>message\<close> of \<open>undefined\<close> throws out of the handler.\<close>

definition failed_result :: "string \<Rightarrow> tx_result" where
  "failed_result m = \<lparr>tr_hash = '''', tr_status = Failed, tr_error = Some m\<rparr>"

definition message_or :: "string \<Rightarrow> thrown \<Rightarrow> thrown + string" where
  "message_or fallback error =
     (case error of
        None \<Rightarrow> Inl (error_of ''Cannot read properties of undefined'')
      | Some err \<Rightarrow> Inr (case er_message err of Some m \<Rightarrow> if m = [] then fallback else m | None \<Rightarrow> fallback))"

definition catch_failed :: "('p, 'u, tx_result) sdk_op \<Rightarrow> ('p, 'u, tx_result) sdk_op" where
  "catch_failed m = catching m (\<lambda>e. case message_or ''Unknown error'' e of
     Inl te \<Rightarrow> throw te | Inr msg \<Rightarrow> give (failed_result msg))"

text \<open>The steps every submitting method repeats: account, arguments, build, prepare, authorise, sign, send.
  \<open>args\<close> is evaluated after \<open>getAccount\<close>; \<open>authorize\<close> is the caller's callback of \<open>claimTimelocked\<close>.\<close>

definition submit_call ::
  "('p, 'u) sdk \<Rightarrow> hook_params \<Rightarrow> string \<Rightarrow> string \<Rightarrow> thrown + scval list \<Rightarrow> ('p \<Rightarrow> thrown + 'p) \<Rightarrow> string
    \<Rightarrow> ('p, 'u, tx_result) sdk_op" where
  "submit_call sdk rpc_params address m args authorize key =
     and_then (getAccount sdk address) (\<lambda>account.
     and_then (checked args) (\<lambda>vs.
     and_then (prepareTransaction sdk rpc_params (build_tx sdk account m vs)) (\<lambda>prepared.
     and_then (checked (authorize prepared)) (\<lambda>authorized.
     and_then (sendTransaction sdk rpc_params \<lparr>en_prepared = authorized, en_signers = [key]\<rparr>) (\<lambda>response.
     give (result_of_reply response))))))"

definition contract_method :: "string \<Rightarrow> hook_params" where
  "contract_method m = [(''contractMethod'', VString m)]"

text \<open>A submitting method: hooks, input checks, submission, and the catch clause.\<close>

definition mutation ::
  "('p, 'u) sdk \<Rightarrow> string \<Rightarrow> hook_params \<Rightarrow> (thrown + unit) list \<Rightarrow> string \<Rightarrow> string \<Rightarrow> thrown + scval list
    \<Rightarrow> ('p \<Rightarrow> thrown + 'p) \<Rightarrow> string \<Rightarrow> ('p, 'u, tx_result) sdk_op" where
  "mutation sdk name params checks address m args authorize key =
     withTransactionHooks sdk OneResult name params
       (catch_failed (and_then (checked (first_error checks))
         (\<lambda>_. submit_call sdk (contract_method m) address m args authorize key)))"

text \<open>\<open>...toScVals([...])\<close> of arguments whose construction may throw.\<close>

definition encoded :: "stellar \<Rightarrow> (thrown + js_arg) list \<Rightarrow> thrown + scval list" where
  "encoded st as = bind_sum (all_of as) (toScVals st)"

text \<open>The optional nonce and deadline are encoded before the other arguments and passed last.\<close>

definition with_nonce_deadline ::
  "stellar \<Rightarrow> js_int option \<Rightarrow> js_int option \<Rightarrow> thrown + scval list \<Rightarrow> thrown + scval list" where
  "with_nonce_deadline st nonce deadline args =
     bind_sum (optionalNonceToScVal st nonce) (\<lambda>n.
     bind_sum (optionalNonceToScVal st deadline) (\<lambda>d.
     bind_sum args (\<lambda>vs. Inr (vs @ [n, d]))))"

section \<open>Funding\<close>

definition transfer_checks :: "stellar \<Rightarrow> string \<Rightarrow> string \<Rightarrow> string \<Rightarrow> (thrown + unit) list" where
  "transfer_checks st source target asset =
     [assertAccountAddress st source ''source'', assertContractAddress st target ''target'',
      assertContractAddress st asset ''asset'']"

definition fundCAddress :: "('p, 'u) sdk \<Rightarrow> fund_options \<Rightarrow> string \<Rightarrow> ('p, 'u, tx_result) sdk_op" where
  "fundCAddress sdk opts key =
     (let st = sd_stellar sdk in
      mutation sdk ''fundCAddress''
        [(''source'', VString (fo_source opts)), (''target'', VString (fo_target opts)),
         (''asset'', VString (fo_asset opts)), (''amount'', VString (fo_amount opts)),
         (''nonce'', js_of_opt_int (fo_nonce opts)), (''deadline'', js_of_opt_int (fo_deadline opts))]
        (transfer_checks st (fo_source opts) (fo_target opts) (fo_asset opts))
        (fo_source opts) ''fund_c_address''
        (with_nonce_deadline st (fo_nonce opts) (fo_deadline opts)
          (encoded st [newAddress st (fo_source opts), newAddress st (fo_target opts), newAddress st (fo_asset opts),
                       typedBigInt (IntString (fo_amount opts)) ''i128'']))
        Inr key)"

text \<open>An empty referrer is falsy: it is not checked, and then fails to encode.\<close>

definition fundCAddressWithReferral ::
  "('p, 'u) sdk \<Rightarrow> referral_options \<Rightarrow> string \<Rightarrow> ('p, 'u, tx_result) sdk_op" where
  "fundCAddressWithReferral sdk opts key =
     (let st = sd_stellar sdk in
      mutation sdk ''fundCAddressWithReferral''
        [(''source'', VString (fo_source opts)), (''target'', VString (fo_target opts)),
         (''asset'', VString (fo_asset opts)), (''amount'', VString (fo_amount opts)),
         (''referrer'', js_of_opt_string (fo_referrer opts)),
         (''nonce'', js_of_opt_int (fo_nonce opts)), (''deadline'', js_of_opt_int (fo_deadline opts))]
        (transfer_checks st (fo_source opts) (fo_target opts) (fo_asset opts)
         @ (case fo_referrer opts of
              Some r \<Rightarrow> if r \<noteq> [] then [assertAccountAddress st r ''referrer''] else []
            | None \<Rightarrow> []))
        (fo_source opts) ''fund_c_address_with_referral''
        (bind_sum (case fo_referrer opts of None \<Rightarrow> Inr ScVoid | Some r \<Rightarrow> addressScVal st r) (\<lambda>r.
         bind_sum (optionalNonceToScVal st (fo_nonce opts)) (\<lambda>n.
         bind_sum (optionalNonceToScVal st (fo_deadline opts)) (\<lambda>d.
         bind_sum (encoded st [newAddress st (fo_source opts), newAddress st (fo_target opts),
                               newAddress st (fo_asset opts), typedBigInt (IntString (fo_amount opts)) ''i128''])
           (\<lambda>vs. Inr (vs @ [r, n, d]))))))
        Inr key)"

text \<open>The amount hash is decoded as it is: neither its length nor its digits are checked.\<close>

definition strip_hex_prefix :: "string \<Rightarrow> string" where
  "strip_hex_prefix s = (if prefix ''0x'' s then drop 2 s else s)"

definition commitFund :: "('p, 'u) sdk \<Rightarrow> commit_options \<Rightarrow> string \<Rightarrow> ('p, 'u, tx_result) sdk_op" where
  "commitFund sdk opts key =
     (let st = sd_stellar sdk in
      mutation sdk ''commitFund''
        [(''source'', VString (co_source opts)), (''target'', VString (co_target opts)),
         (''asset'', VString (co_asset opts)), (''deadline'', js_of_int (co_deadline opts))]
        (transfer_checks st (co_source opts) (co_target opts) (co_asset opts))
        (co_source opts) ''commit_fund''
        (all_of [addressScVal st (co_source opts), addressScVal st (co_target opts), addressScVal st (co_asset opts),
                 Inr (ScBytes (bytes_of_hex (strip_hex_prefix (co_amountHash opts)))),
                 bigIntScVal st ''u64'' (co_deadline opts)])
        Inr key)"

definition revealFund :: "('p, 'u) sdk \<Rightarrow> reveal_options \<Rightarrow> string \<Rightarrow> ('p, 'u, tx_result) sdk_op" where
  "revealFund sdk opts key =
     (let st = sd_stellar sdk in
      mutation sdk ''revealFund''
        [(''commitmentId'', js_of_int (rv_commitmentId opts)), (''source'', VString (rv_source opts)),
         (''target'', VString (rv_target opts)), (''asset'', VString (rv_asset opts)),
         (''amount'', VString (rv_amount opts))]
        (transfer_checks st (rv_source opts) (rv_target opts) (rv_asset opts))
        (rv_source opts) ''reveal_fund''
        (all_of [bigIntScVal st ''u64'' (rv_commitmentId opts), addressScVal st (rv_source opts),
                 addressScVal st (rv_target opts), addressScVal st (rv_asset opts),
                 bigIntScVal st ''i128'' (IntString (rv_amount opts)), bigIntScVal st ''u64'' (rv_nonce opts)])
        Inr key)"

definition fundCAddressTimelocked :: "('p, 'u) sdk \<Rightarrow> timelock_options \<Rightarrow> string \<Rightarrow> ('p, 'u, tx_result) sdk_op" where
  "fundCAddressTimelocked sdk opts key =
     (let st = sd_stellar sdk in
      mutation sdk ''fundCAddressTimelocked''
        [(''source'', VString (fo_source opts)), (''target'', VString (fo_target opts)),
         (''asset'', VString (fo_asset opts)), (''amount'', VString (fo_amount opts)),
         (''releaseTime'', VNumber (fo_releaseTime opts)), (''cliffTime'', VNumber (or_else (fo_cliffTime opts) 0)),
         (''nonce'', js_of_opt_int (fo_nonce opts)), (''deadline'', js_of_opt_int (fo_deadline opts))]
        (transfer_checks st (fo_source opts) (fo_target opts) (fo_asset opts))
        (fo_source opts) ''fund_c_address_timelocked''
        (with_nonce_deadline st (fo_nonce opts) (fo_deadline opts)
          (all_of [addressScVal st (fo_source opts), addressScVal st (fo_target opts), addressScVal st (fo_asset opts),
                   bigIntScVal st ''i128'' (IntString (fo_amount opts)),
                   bigIntScVal st ''u64'' (IntNumber (Some (fo_releaseTime opts))),
                   bigIntScVal st ''u64'' (IntNumber (Some (or_else (fo_cliffTime opts) 0)))]))
        Inr key)"

text \<open>\<open>authorizeTarget\<close> is required, but only after the transaction was prepared.\<close>

definition claimTimelocked ::
  "('p, 'u) sdk \<Rightarrow> js_int \<Rightarrow> string \<Rightarrow> ('p \<Rightarrow> thrown + 'p) option \<Rightarrow> ('p, 'u, tx_result) sdk_op" where
  "claimTimelocked sdk tid key authorizeTarget =
     (let st = sd_stellar sdk in
      mutation sdk ''claimTimelocked'' [(''id'', js_of_int tid)] []
        key ''claim_timelocked'' (all_of [bigIntScVal st ''u64'' tid])
        (\<lambda>prepared. case authorizeTarget of
           None \<Rightarrow> Inl (error_of ''authorizeTarget is required for the C-address timelock target'')
         | Some authorize \<Rightarrow> authorize prepared)
        key)"

definition fundCAddressWithSwap :: "('p, 'u) sdk \<Rightarrow> swap_options \<Rightarrow> string \<Rightarrow> ('p, 'u, tx_result) sdk_op" where
  "fundCAddressWithSwap sdk opts key =
     (let st = sd_stellar sdk in
      mutation sdk ''fundCAddressWithSwap''
        [(''source'', VString (sw_source opts)), (''target'', VString (sw_target opts)),
         (''sourceAsset'', VString (sw_sourceAsset opts)), (''targetAsset'', VString (sw_targetAsset opts)),
         (''sourceAmount'', VString (sw_sourceAmount opts)), (''minTargetAmount'', VString (sw_minTargetAmount opts)),
         (''nonce'', js_of_opt_int (sw_nonce opts)), (''deadline'', js_of_opt_int (sw_deadline opts))]
        [assertAccountAddress st (sw_source opts) ''source'', assertContractAddress st (sw_target opts) ''target'',
         assertContractAddress st (sw_sourceAsset opts) ''sourceAsset'',
         assertContractAddress st (sw_targetAsset opts) ''targetAsset'',
         check_each (\<lambda>i p. assertContractAddress st p (indexed ''swapRoute'' i)) (sw_swapRoute opts)]
        (sw_source opts) ''fund_c_address_with_swap''
        (with_nonce_deadline st (sw_nonce opts) (sw_deadline opts)
          (encoded st [newAddress st (sw_source opts), newAddress st (sw_target opts),
                       newAddress st (sw_sourceAsset opts), newAddress st (sw_targetAsset opts),
                       typedBigInt (IntString (sw_sourceAmount opts)) ''i128'',
                       typedBigInt (IntString (sw_minTargetAmount opts)) ''i128'',
                       bind_sum (map_sum_list (newAddress st) (sw_swapRoute opts)) (\<lambda>as. Inr (ArgArray as))]))
        Inr key)"

section \<open>Administration\<close>

text \<open>\<open>[call, nonce]\<close>: the nonce is the last argument and is encoded last.\<close>

definition then_nonce :: "stellar \<Rightarrow> js_int option \<Rightarrow> thrown + scval list \<Rightarrow> thrown + scval list" where
  "then_nonce st nonce args =
     bind_sum args (\<lambda>vs. bind_sum (optionalNonceToScVal st nonce) (\<lambda>n. Inr (vs @ [n])))"

text \<open>The variant that encodes the nonce before the other arguments.\<close>

definition nonce_then :: "stellar \<Rightarrow> js_int option \<Rightarrow> thrown + scval list \<Rightarrow> thrown + scval list" where
  "nonce_then st nonce args =
     bind_sum (optionalNonceToScVal st nonce) (\<lambda>n. bind_sum args (\<lambda>vs. Inr (vs @ [n])))"

definition withdrawFees :: "('p, 'u) sdk \<Rightarrow> withdraw_options \<Rightarrow> string \<Rightarrow> ('p, 'u, tx_result) sdk_op" where
  "withdrawFees sdk opts key =
     (let st = sd_stellar sdk in
      mutation sdk ''withdrawFees'' [(''asset'', VString (wd_asset opts)), (''amount'', VString (wd_amount opts))]
        [assertContractAddress st (wd_asset opts) ''asset''] key ''withdraw_fees''
        (then_nonce st (wd_nonce opts)
          (encoded st [newAddress st (wd_asset opts), typedBigInt (IntString (wd_amount opts)) ''i128'']))
        Inr key)"

definition reclaimTokens :: "('p, 'u) sdk \<Rightarrow> reclaim_options \<Rightarrow> string \<Rightarrow> ('p, 'u, tx_result) sdk_op" where
  "reclaimTokens sdk opts key =
     (let st = sd_stellar sdk in
      mutation sdk ''reclaimTokens''
        [(''asset'', VString (rc_asset opts)), (''amount'', VString (rc_amount opts)), (''to'', VString (rc_to opts))]
        [assertContractAddress st (rc_asset opts) ''asset'', assertAccountAddress st (rc_to opts) ''to'']
        key ''reclaim_tokens''
        (then_nonce st (rc_nonce opts)
          (encoded st [newAddress st (rc_asset opts), typedBigInt (IntString (rc_amount opts)) ''i128'',
                       newAddress st (rc_to opts)]))
        Inr key)"

text \<open>The range check of \<open>setFee\<close> returns a failed result with its message, as the catch clause would.\<close>

definition setFee :: "('p, 'u) sdk \<Rightarrow> int \<Rightarrow> string \<Rightarrow> js_int option \<Rightarrow> ('p, 'u, tx_result) sdk_op" where
  "setFee sdk newFeeBps key nonce =
     (let st = sd_stellar sdk in
      mutation sdk ''setFee'' [(''newFeeBps'', VNumber newFeeBps), (''nonce'', js_of_opt_int nonce)]
        [require (\<not> (newFeeBps < 0 \<or> newFeeBps > 1000)) ''Fee basis points must be between 0 and 1000'']
        key ''set_fee_bps''
        (nonce_then st nonce (all_of [numberScVal st ''u32'' newFeeBps])) Inr key)"

definition setReferralRate :: "('p, 'u) sdk \<Rightarrow> int \<Rightarrow> string \<Rightarrow> js_int option \<Rightarrow> ('p, 'u, tx_result) sdk_op" where
  "setReferralRate sdk bps key nonce =
     (let st = sd_stellar sdk in
      mutation sdk ''setReferralRate'' [(''bps'', VNumber bps), (''nonce'', js_of_opt_int nonce)] []
        key ''set_referral_rate'' (then_nonce st nonce (all_of [numberScVal st ''u32'' bps])) Inr key)"

definition setLoyaltyToken ::
  "('p, 'u) sdk \<Rightarrow> string \<Rightarrow> js_int \<Rightarrow> string \<Rightarrow> js_int option \<Rightarrow> ('p, 'u, tx_result) sdk_op" where
  "setLoyaltyToken sdk tok amountPerFund key nonce =
     (let st = sd_stellar sdk in
      mutation sdk ''setLoyaltyToken''
        [(''token'', VString tok), (''amountPerFund'', js_of_int amountPerFund), (''nonce'', js_of_opt_int nonce)]
        [assertContractAddress st tok ''token''] key ''set_loyalty_token''
        (then_nonce st nonce (all_of [addressScVal st tok, bigIntScVal st ''i128'' amountPerFund])) Inr key)"

definition setFeeTiers :: "('p, 'u) sdk \<Rightarrow> fee_tier list \<Rightarrow> string \<Rightarrow> js_int option \<Rightarrow> ('p, 'u, tx_result) sdk_op" where
  "setFeeTiers sdk tiers key nonce =
     (let st = sd_stellar sdk in
      mutation sdk ''setFeeTiers'' [(''tierCount'', VNumber (int (length tiers))), (''nonce'', js_of_opt_int nonce)] []
        key ''set_fee_tiers''
        (then_nonce st nonce (bind_sum (map_sum_list (feeTierToScVal st) tiers) (\<lambda>vs. Inr [ScVec vs]))) Inr key)"

text \<open>\<open>setFeeCollector\<close>, \<open>setAdmin\<close>, \<open>proposeNewAdmin\<close> and \<open>proposeNewFeeCollector\<close> hand one checked account
  address to the contract.\<close>

definition address_mutation ::
  "('p, 'u) sdk \<Rightarrow> string \<Rightarrow> string \<Rightarrow> string \<Rightarrow> string \<Rightarrow> string \<Rightarrow> js_int option \<Rightarrow> ('p, 'u, tx_result) sdk_op" where
  "address_mutation sdk name fld m address key nonce =
     (let st = sd_stellar sdk in
      mutation sdk name [(fld, VString address), (''nonce'', js_of_opt_int nonce)]
        [assertAccountAddress st address fld] key m
        (nonce_then st nonce (all_of [addressScVal st address])) Inr key)"

definition setFeeCollector :: "('p, 'u) sdk \<Rightarrow> string \<Rightarrow> string \<Rightarrow> js_int option \<Rightarrow> ('p, 'u, tx_result) sdk_op" where
  "setFeeCollector sdk newFeeCollector key nonce =
     address_mutation sdk ''setFeeCollector'' ''newFeeCollector'' ''set_fee_collector'' newFeeCollector key nonce"

definition setAdmin :: "('p, 'u) sdk \<Rightarrow> string \<Rightarrow> string \<Rightarrow> js_int option \<Rightarrow> ('p, 'u, tx_result) sdk_op" where
  "setAdmin sdk newAdmin key nonce =
     address_mutation sdk ''setAdmin'' ''newAdmin'' ''set_admin'' newAdmin key nonce"

definition proposeNewAdmin :: "('p, 'u) sdk \<Rightarrow> string \<Rightarrow> string \<Rightarrow> js_int option \<Rightarrow> ('p, 'u, tx_result) sdk_op" where
  "proposeNewAdmin sdk newAdmin key nonce =
     address_mutation sdk ''proposeNewAdmin'' ''newAdmin'' ''propose_new_admin'' newAdmin key nonce"

definition proposeNewFeeCollector ::
  "('p, 'u) sdk \<Rightarrow> string \<Rightarrow> string \<Rightarrow> js_int option \<Rightarrow> ('p, 'u, tx_result) sdk_op" where
  "proposeNewFeeCollector sdk newCollector key nonce =
     address_mutation sdk ''proposeNewFeeCollector'' ''newCollector'' ''propose_new_fee_collector'' newCollector key nonce"

definition acceptAdmin :: "('p, 'u) sdk \<Rightarrow> string \<Rightarrow> ('p, 'u, tx_result) sdk_op" where
  "acceptAdmin sdk key = mutation sdk ''acceptAdmin'' [] [] key ''accept_admin'' (Inr []) Inr key"

definition acceptFeeCollector :: "('p, 'u) sdk \<Rightarrow> string \<Rightarrow> ('p, 'u, tx_result) sdk_op" where
  "acceptFeeCollector sdk key = mutation sdk ''acceptFeeCollector'' [] [] key ''accept_fee_collector'' (Inr []) Inr key"

section \<open>Upgrades\<close>

definition upgrade :: "('p, 'u) sdk \<Rightarrow> upgrade_options \<Rightarrow> string \<Rightarrow> ('p, 'u, tx_result) sdk_op" where
  "upgrade sdk opts key =
     (let st = sd_stellar sdk in
      mutation sdk ''upgrade'' [(''newWasmHash'', VString (ug_newWasmHash opts))]
        [require (matches_hex 64 (ug_newWasmHash opts)) ''newWasmHash must be a 64-character hex string (32 bytes)'']
        key ''upgrade''
        (nonce_then st (ug_nonce opts) (Inr [ScBytes (bytes_of_hex (ug_newWasmHash opts))])) Inr key)"

definition submitAdminWasmHashMutation ::
  "('p, 'u) sdk \<Rightarrow> string \<Rightarrow> string \<Rightarrow> string \<Rightarrow> string \<Rightarrow> js_int option \<Rightarrow> ('p, 'u, tx_result) sdk_op" where
  "submitAdminWasmHashMutation sdk hookName contractMethod wasmHash key nonce =
     (let st = sd_stellar sdk in
      mutation sdk hookName [(''wasmHash'', VString wasmHash), (''nonce'', js_of_opt_int nonce)] []
        key contractMethod
        (then_nonce st nonce (all_of [hexBytesToScVal wasmHash 32 ''wasmHash''])) Inr key)"

definition scheduleUpgrade :: "('p, 'u) sdk \<Rightarrow> upgrade_options \<Rightarrow> string \<Rightarrow> ('p, 'u, tx_result) sdk_op" where
  "scheduleUpgrade sdk opts key =
     submitAdminWasmHashMutation sdk ''scheduleUpgrade'' ''schedule_upgrade'' (ug_newWasmHash opts) key (ug_nonce opts)"

definition executeUpgrade :: "('p, 'u) sdk \<Rightarrow> execute_upgrade_options \<Rightarrow> string \<Rightarrow> ('p, 'u, tx_result) sdk_op" where
  "executeUpgrade sdk opts key =
     submitAdminWasmHashMutation sdk ''executeUpgrade'' ''execute_upgrade'' (ex_expectedHash opts) key (ex_nonce opts)"

definition cancelUpgrade :: "('p, 'u) sdk \<Rightarrow> cancel_upgrade_options \<Rightarrow> string \<Rightarrow> ('p, 'u, tx_result) sdk_op" where
  "cancelUpgrade sdk opts key =
     (let st = sd_stellar sdk in
      mutation sdk ''cancelUpgrade'' [(''nonce'', js_of_opt_int (cu_nonce opts))] []
        key ''cancel_upgrade'' (then_nonce st (cu_nonce opts) (Inr [])) Inr key)"

section \<open>Meta-transactions and relayers\<close>

definition executeMetaFund :: "('p, 'u) sdk \<Rightarrow> meta_fund_options \<Rightarrow> string \<Rightarrow> ('p, 'u, tx_result) sdk_op" where
  "executeMetaFund sdk opts key =
     (let st = sd_stellar sdk; params = mo_params opts in
      mutation sdk ''executeMetaFund''
        [(''source'', VString (mf_source params)), (''target'', VString (mf_target params)),
         (''asset'', VString (mf_asset params)), (''amount'', js_of_int (mf_amount params))]
        [assertAccountAddress st (mf_source params) ''params.source'',
         assertContractAddress st (mf_target params) ''params.target'',
         assertContractAddress st (mf_asset params) ''params.asset'']
        key ''execute_meta_fund''
        (all_of [metaFundParamsToScVal st params, hexBytesToScVal (mo_pubkey opts) 32 ''pubkey'',
                 hexBytesToScVal (mo_signature opts) 64 ''signature''])
        Inr key)"

definition sig_checks :: "nat \<Rightarrow> relayer_sig \<Rightarrow> thrown + unit" where
  "sig_checks i s = first_error
     [require (matches_hex 64 (sig_pubkey s))
        (indexed ''sigs'' i @ ''.pubkey must be a 64-character hex string (32 bytes), got \"'' @ sig_pubkey s @ ''\"''),
      require (matches_hex 128 (sig_signature s))
        (indexed ''sigs'' i @ ''.signature must be a 128-character hex string (64 bytes), got \"'' @ sig_signature s @ ''\"'')]"

definition sigScVal :: "relayer_sig \<Rightarrow> scval" where
  "sigScVal s = ScMap [(''pubkey'', ScBytes (bytes_of_hex (sig_pubkey s))),
                       (''signature'', ScBytes (bytes_of_hex (sig_signature s)))]"

definition fundCrosschain :: "('p, 'u) sdk \<Rightarrow> crosschain_request \<Rightarrow> string \<Rightarrow> ('p, 'u, tx_result) sdk_op" where
  "fundCrosschain sdk opts key =
     (let st = sd_stellar sdk in
      mutation sdk ''fundCrosschain''
        [(''chainId'', VNumber (cr_chainId opts)), (''txHash'', VString (cr_txHash opts)),
         (''target'', VString (cr_target opts)), (''asset'', VString (cr_asset opts)),
         (''amount'', VString (cr_amount opts))]
        [check_each sig_checks (cr_sigs opts)]
        key ''fund_c_address_crosschain''
        (all_of [numberScVal st ''u32'' (cr_chainId opts),
                 Inr (ScBytes (bytes_of_hex (replace_first ''0x'' '''' (cr_txHash opts)))),
                 addressScVal st (cr_target opts), addressScVal st (cr_asset opts),
                 bigIntScVal st ''i128'' (IntString (cr_amount opts)),
                 Inr (ScVec (map sigScVal (cr_sigs opts)))])
        Inr key)"

definition relayer_mutation ::
  "('p, 'u) sdk \<Rightarrow> string \<Rightarrow> string \<Rightarrow> relayer_options \<Rightarrow> string \<Rightarrow> ('p, 'u, tx_result) sdk_op" where
  "relayer_mutation sdk name m opts key =
     (let st = sd_stellar sdk in
      mutation sdk name [(''pubkey'', VString (ro_pubkey opts))]
        [assertRelayerPubkey (ro_pubkey opts) ''pubkey''] key m
        (then_nonce st (ro_nonce opts) (Inr [ScBytes (bytes_of_hex (ro_pubkey opts))])) Inr key)"

definition addRelayer :: "('p, 'u) sdk \<Rightarrow> relayer_options \<Rightarrow> string \<Rightarrow> ('p, 'u, tx_result) sdk_op" where
  "addRelayer sdk opts key = relayer_mutation sdk ''addRelayer'' ''add_relayer'' opts key"

definition removeRelayer :: "('p, 'u) sdk \<Rightarrow> relayer_options \<Rightarrow> string \<Rightarrow> ('p, 'u, tx_result) sdk_op" where
  "removeRelayer sdk opts key = relayer_mutation sdk ''removeRelayer'' ''remove_relayer'' opts key"

definition setRelayerThreshold :: "('p, 'u) sdk \<Rightarrow> int \<Rightarrow> string \<Rightarrow> js_int option \<Rightarrow> ('p, 'u, tx_result) sdk_op" where
  "setRelayerThreshold sdk threshold key nonce =
     (let st = sd_stellar sdk in
      mutation sdk ''setRelayerThreshold'' [(''threshold'', VNumber threshold), (''nonce'', js_of_opt_int nonce)] []
        key ''set_relayer_threshold'' (then_nonce st nonce (all_of [numberScVal st ''u32'' threshold])) Inr key)"

end
