(* ===== verification/Sdk_Mutations.thy ===== *)
theory Sdk_Mutations
  imports Sdk_Submit
begin

text \<open>
  What the submitting methods of the SDK guarantee: the calls each run makes of the RPC server, that a
  method never throws, that it sends one envelope, and that what is sent is what was asked.  The
  methods are the constructors of \<open>bridge_call\<close>; \<open>perform\<close> runs one.
\<close>

section \<open>Every submitting method\<close>

text \<open>The calls a program can make, with the public key of the key pair that signs.\<close>

datatype 'p bridge_call =
    FundCAddress fund_options string
  | FundCAddressWithReferral referral_options string
  | CommitFund commit_options string
  | RevealFund reveal_options string
  | FundCAddressTimelocked timelock_options string
  | ClaimTimelocked js_int string "('p \<Rightarrow> thrown + 'p) option"
  | FundCAddressWithSwap swap_options string
  | WithdrawFees withdraw_options string
  | ReclaimTokens reclaim_options string
  | SetFee int string "js_int option"
  | SetReferralRate int string "js_int option"
  | SetLoyaltyToken string js_int string "js_int option"
  | SetFeeTiers "fee_tier list" string "js_int option"
  | SetFeeCollector string string "js_int option"
  | SetAdmin string string "js_int option"
  | ProposeNewAdmin string string "js_int option"
  | ProposeNewFeeCollector string string "js_int option"
  | AcceptAdmin string
  | AcceptFeeCollector string
  | Upgrade upgrade_options string
  | ScheduleUpgrade upgrade_options string
  | ExecuteUpgrade execute_upgrade_options string
  | CancelUpgrade cancel_upgrade_options string
  | ExecuteMetaFund meta_fund_options string
  | FundCrosschain crosschain_request string
  | AddRelayer relayer_options string
  | RemoveRelayer relayer_options string
  | SetRelayerThreshold int string "js_int option"

fun perform :: "('p, 'u) sdk \<Rightarrow> 'p bridge_call \<Rightarrow> ('p, 'u, tx_result) sdk_op" where
  "perform sdk (FundCAddress opts key) = fundCAddress sdk opts key"
| "perform sdk (FundCAddressWithReferral ropts key) = fundCAddressWithReferral sdk ropts key"
| "perform sdk (CommitFund copts key) = commitFund sdk copts key"
| "perform sdk (RevealFund rvopts key) = revealFund sdk rvopts key"
| "perform sdk (FundCAddressTimelocked tlopts key) = fundCAddressTimelocked sdk tlopts key"
| "perform sdk (ClaimTimelocked tid key auth) = claimTimelocked sdk tid key auth"
| "perform sdk (FundCAddressWithSwap swopts key) = fundCAddressWithSwap sdk swopts key"
| "perform sdk (WithdrawFees wopts key) = withdrawFees sdk wopts key"
| "perform sdk (ReclaimTokens rcopts key) = reclaimTokens sdk rcopts key"
| "perform sdk (SetFee bps key nonce) = setFee sdk bps key nonce"
| "perform sdk (SetReferralRate bps key nonce) = setReferralRate sdk bps key nonce"
| "perform sdk (SetLoyaltyToken tok amount key nonce) = setLoyaltyToken sdk tok amount key nonce"
| "perform sdk (SetFeeTiers tiers key nonce) = setFeeTiers sdk tiers key nonce"
| "perform sdk (SetFeeCollector a key nonce) = setFeeCollector sdk a key nonce"
| "perform sdk (SetAdmin a key nonce) = setAdmin sdk a key nonce"
| "perform sdk (ProposeNewAdmin a key nonce) = proposeNewAdmin sdk a key nonce"
| "perform sdk (ProposeNewFeeCollector a key nonce) = proposeNewFeeCollector sdk a key nonce"
| "perform sdk (AcceptAdmin key) = acceptAdmin sdk key"
| "perform sdk (AcceptFeeCollector key) = acceptFeeCollector sdk key"
| "perform sdk (Upgrade uopts key) = upgrade sdk uopts key"
| "perform sdk (ScheduleUpgrade uopts key) = scheduleUpgrade sdk uopts key"
| "perform sdk (ExecuteUpgrade eopts key) = executeUpgrade sdk eopts key"
| "perform sdk (CancelUpgrade cuopts key) = cancelUpgrade sdk cuopts key"
| "perform sdk (ExecuteMetaFund mopts key) = executeMetaFund sdk mopts key"
| "perform sdk (FundCrosschain req key) = fundCrosschain sdk req key"
| "perform sdk (AddRelayer reopts key) = addRelayer sdk reopts key"
| "perform sdk (RemoveRelayer reopts key) = removeRelayer sdk reopts key"
| "perform sdk (SetRelayerThreshold n key nonce) = setRelayerThreshold sdk n key nonce"

fun signer_of :: "'p bridge_call \<Rightarrow> string" where
  "signer_of (FundCAddress _ key) = key"
| "signer_of (FundCAddressWithReferral _ key) = key"
| "signer_of (CommitFund _ key) = key"
| "signer_of (RevealFund _ key) = key"
| "signer_of (FundCAddressTimelocked _ key) = key"
| "signer_of (ClaimTimelocked _ key _) = key"
| "signer_of (FundCAddressWithSwap _ key) = key"
| "signer_of (WithdrawFees _ key) = key"
| "signer_of (ReclaimTokens _ key) = key"
| "signer_of (SetFee _ key _) = key"
| "signer_of (SetReferralRate _ key _) = key"
| "signer_of (SetLoyaltyToken _ _ key _) = key"
| "signer_of (SetFeeTiers _ key _) = key"
| "signer_of (SetFeeCollector _ key _) = key"
| "signer_of (SetAdmin _ key _) = key"
| "signer_of (ProposeNewAdmin _ key _) = key"
| "signer_of (ProposeNewFeeCollector _ key _) = key"
| "signer_of (AcceptAdmin key) = key"
| "signer_of (AcceptFeeCollector key) = key"
| "signer_of (Upgrade _ key) = key"
| "signer_of (ScheduleUpgrade _ key) = key"
| "signer_of (ExecuteUpgrade _ key) = key"
| "signer_of (CancelUpgrade _ key) = key"
| "signer_of (ExecuteMetaFund _ key) = key"
| "signer_of (FundCrosschain _ key) = key"
| "signer_of (AddRelayer _ key) = key"
| "signer_of (RemoveRelayer _ key) = key"
| "signer_of (SetRelayerThreshold _ key _) = key"

lemmas mutation_defs =
  fundCAddress_def fundCAddressWithReferral_def commitFund_def revealFund_def fundCAddressTimelocked_def
  claimTimelocked_def fundCAddressWithSwap_def withdrawFees_def reclaimTokens_def setFee_def
  setReferralRate_def setLoyaltyToken_def setFeeTiers_def setFeeCollector_def setAdmin_def
  proposeNewAdmin_def proposeNewFeeCollector_def acceptAdmin_def acceptFeeCollector_def upgrade_def
  scheduleUpgrade_def executeUpgrade_def cancelUpgrade_def executeMetaFund_def fundCrosschain_def
  addRelayer_def removeRelayer_def setRelayerThreshold_def
  address_mutation_def submitAdminWasmHashMutation_def relayer_mutation_def

lemma perform_mutation:
  "\<exists>name params checks address m args authorize.
     perform sdk call = mutation sdk name params checks address m args authorize (signer_of call)"
  by (cases call; simp only: perform.simps signer_of.simps mutation_defs Let_def; blast)

section \<open>The calls of a run\<close>

definition calls_of :: "'p activity list \<Rightarrow> 'p rpc_call list" where
  "calls_of as = List.map_filter (\<lambda>a. case a of Called c \<Rightarrow> Some c | Slept _ \<Rightarrow> None) as"

abbreviation calls :: "('p, 'u) sdk_world \<Rightarrow> 'p rpc_call list" where
  "calls w \<equiv> calls_of (wd_log w)"

lemma calls_of_simps [simp]:
  "calls_of [] = []" "calls_of (as @ bs) = calls_of as @ calls_of bs"
  "calls_of [Called c] = [c]" "calls_of [Slept ms] = []"
  by (simp_all add: calls_of_def List.map_filter_def)

text \<open>The retry logger neither throws nor calls the server.\<close>

definition quiet_sdk :: "('p, 'u) sdk \<Rightarrow> bool" where
  "quiet_sdk sdk \<longleftrightarrow> quiet_surroundings calls (sdk_surroundings sdk) (sd_retry sdk)"

lemma fire_log [simp, frame_simps]: "wd_log (fire sdk n iv w) = wd_log w"
  by (simp add: fire_def safeInvoke_def split: option.splits prod.splits sum.splits)

lemma hooks_log [simp, frame_simps]:
  "wd_log (fireTransactionStart sdk m ps w) = wd_log w"
  "wd_log (fireTransactionSuccess sdk m res d w) = wd_log w"
  "wd_log (fireTransactionError sdk m e d w) = wd_log w"
  "wd_log (fireRpcCall sdk m ps d w) = wd_log w"
  by (simp_all add: fireTransactionStart_def fireTransactionSuccess_def fireTransactionError_def fireRpcCall_def)

lemma withRpcHook_result:
  "withRpcHook sdk n ps fn w = (r, w') \<Longrightarrow> \<exists>w1. fn w = (r, w1) \<and> wd_log w' = wd_log w1"
  by (auto simp: withRpcHook_def split: prod.splits)

lemma withTransactionHooks_result:
  assumes "withTransactionHooks sdk wrap n ps fn w = (r, w')"
  shows "\<exists>w0 w1. wd_log w0 = wd_log w \<and> fn w0 = (r, w1) \<and> wd_log w' = wd_log w1"
proof -
  obtain r1 w1 where "fn (fireTransactionStart sdk n ps w) = (r1, w1)" by (rule prod.exhaust)
  with assms show ?thesis
    by (intro exI [of _ "fireTransactionStart sdk n ps w"] exI [of _ w1])
      (cases r1; auto simp: withTransactionHooks_def Let_def)
qed

lemma raw_call_observed: "observed calls (\<lambda>_. c) (raw_call answer c)"
  by (simp add: observed_def raw_call_def)

definition configured_retries :: "('p, 'u) sdk \<Rightarrow> int" where
  "configured_retries sdk = or_else (rr_maxRetries (sd_retry sdk)) VIEW_maxRetries"

lemma rpc_policy_simps [simp]:
  "rpc_policy opts ''getAccount'' = Some (resolveViewOptions opts)"
  "rpc_policy opts ''prepareTransaction'' = Some (resolveViewOptions opts)"
  "rpc_policy opts ''getTransaction'' = Some (resolveViewOptions opts)"
  "rpc_policy opts ''simulateTransaction'' = Some (resolveViewOptions opts)"
  "rpc_policy opts ''getLedgerEntries'' = Some (resolveViewOptions opts)"
  "rpc_policy opts ''sendTransaction'' = Some (resolveStateOptions opts)"
  "rpc_policy opts ''getFeeStats'' = None"
  by (simp_all add: rpc_policy_def VIEW_RPC_METHODS_def STATE_CHANGING_RPC_METHODS_def)

text \<open>One call through the wrapped provider: \<open>k\<close> attempts of the same request, and the outcome of one of
  them, answered when the calls made were those before and \<open>j\<close> of the attempts.\<close>

definition answered :: "('p, 'u) sdk_world \<Rightarrow> 'p rpc_call \<Rightarrow> ('p activity list \<Rightarrow> 'r) \<Rightarrow> 'r \<Rightarrow> bool" where
  "answered w c answer r \<longleftrightarrow> (\<exists>h cs. r = answer h \<and> calls_of h = calls w @ cs)"

lemma answeredD: "answered w c answer r \<Longrightarrow> \<exists>h. r = answer h"
  by (auto simp: answered_def)

lemma policy_call:
  fixes sdk :: "('p, 'u) sdk"
  assumes "quiet_sdk sdk" "withRetry (sdk_surroundings sdk) (policy_options m (sd_retry sdk)) (raw_call answer c) w = (r, w')"
  shows "\<exists>k. calls w' = calls w @ replicate k c \<and> int k \<le> max 0 (m + 1)
    \<and> (if k = 0 then m < 0 \<and> r = Inl None else answered w c answer r)"
proof -
  obtain os where os: "calls w' = calls w @ map (\<lambda>_. c) os
      \<and> set os \<subseteq> (fst \<circ> (raw_call answer c :: ('p, 'u, 'a) sdk_op)) ` since calls w
      \<and> int (length os) \<le> max 0 (m + 1)
      \<and> (\<forall>out \<in> set (butlast os). \<exists>e. out = Inl e \<and> su_classify (sdk_surroundings sdk) e)
      \<and> (if m < 0 then os = [] \<and> r = Inl (su_undefined (sdk_surroundings sdk))
         else os \<noteq> [] \<and> r = last os
           \<and> (\<forall>e. r = Inl e \<longrightarrow> su_classify (sdk_surroundings sdk) e \<longrightarrow> int (length os) = m + 1))"
    using withRetry_policy [OF raw_call_observed assms(1)[unfolded quiet_sdk_def] assms(2)] by (elim exE) (rule that)
  have "answered w c answer r" if "os \<noteq> []"
  proof -
    from that os have "r = last os" by (simp split: if_splits)
    moreover from that os have "last os \<in> (fst \<circ> (raw_call answer c :: ('p, 'u, 'a) sdk_op)) ` since calls w"
      using last_in_set by blast
    ultimately show ?thesis by (auto simp: raw_call_def answered_def since_def)
  qed
  moreover have "m < 0 \<and> r = Inl None" if "os = []"
    using that os by (simp add: sdk_surroundings_def split: if_splits)
  moreover from os have "calls w' = calls w @ replicate (length os) c" "int (length os) \<le> max 0 (m + 1)"
    by (simp_all only: map_replicate_const)
  ultimately show ?thesis by (intro exI [of _ "length os"]) simp
qed

text \<open>The operation \<open>m\<close> makes the request \<open>c\<close> at most \<open>bound\<close> times and returns one of the answers; it makes
  none only if the configured number of retries is negative.\<close>

definition requests ::
  "('p, 'u) sdk \<Rightarrow> 'p rpc_call \<Rightarrow> ('p activity list \<Rightarrow> thrown + 'a) \<Rightarrow> int \<Rightarrow> ('p, 'u, 'a) sdk_op \<Rightarrow> bool" where
  "requests sdk c answer bound m \<longleftrightarrow> (\<forall>w r w'. m w = (r, w') \<longrightarrow>
     (\<exists>k. calls w' = calls w @ replicate k c \<and> int k \<le> bound
        \<and> (if k = 0 then configured_retries sdk < 0 \<and> r = Inl None else answered w c answer r)))"

definition read_bound :: "('p, 'u) sdk \<Rightarrow> int" where
  "read_bound sdk = max 0 (configured_retries sdk + 1)"

lemma wrapped_requests:
  assumes "quiet_sdk sdk" "rpc_policy (sd_retry sdk) name = Some (policy_options m (sd_retry sdk))"
    and "m < 0 \<Longrightarrow> configured_retries sdk < 0" "max 0 (m + 1) \<le> bound"
  shows "requests sdk c answer bound (provider_call sdk name answer c)"
  unfolding requests_def
proof (intro allI impI)
  fix w r w'
  assume "provider_call sdk name answer c w = (r, w')"
  then have "withRetry (sdk_surroundings sdk) (policy_options m (sd_retry sdk)) (raw_call answer c) w = (r, w')"
    using assms(2) by (simp add: provider_call_def withRpcRetry_def)
  from policy_call [OF assms(1) this] obtain k where "calls w' = calls w @ replicate k c"
    "int k \<le> max 0 (m + 1)" "if k = 0 then m < 0 \<and> r = Inl None else answered w c answer r" by blast
  with assms(3,4) show "\<exists>k. calls w' = calls w @ replicate k c \<and> int k \<le> bound
      \<and> (if k = 0 then configured_retries sdk < 0 \<and> r = Inl None else answered w c answer r)"
    by (intro exI [of _ k]) (auto split: if_splits)
qed

lemma requests_hooked:
  assumes "requests sdk c answer bound m"
  shows "requests sdk c answer bound (withRpcHook sdk n ps m)"
  unfolding requests_def
proof (intro allI impI)
  fix w r w'
  assume "withRpcHook sdk n ps m w = (r, w')"
  then obtain w1 where "m w = (r, w1)" "wd_log w' = wd_log w1"
    using withRpcHook_result by blast
  with assms show "\<exists>k. calls w' = calls w @ replicate k c \<and> int k \<le> bound
      \<and> (if k = 0 then configured_retries sdk < 0 \<and> r = Inl None else answered w c answer r)"
    unfolding requests_def by metis
qed

lemmas hooked_requests = requests_hooked [OF wrapped_requests]

lemma view_policy: "resolveViewOptions opts = policy_options (or_else (rr_maxRetries opts) VIEW_maxRetries) opts"
  by (simp add: resolveViewOptions_def)

lemma getAccount_requests:
  assumes "quiet_sdk sdk"
  shows "requests sdk (GetAccount a) (\<lambda>h. pv_getAccount (sd_provider sdk) h a) (read_bound sdk) (getAccount sdk a)"
  unfolding getAccount_def
  by (rule hooked_requests [OF assms, where m = "configured_retries sdk"])
    (simp_all add: configured_retries_def read_bound_def view_policy)

lemma prepareTransaction_requests:
  assumes "quiet_sdk sdk"
  shows "requests sdk (PrepareTransaction tx) (\<lambda>h. pv_prepareTransaction (sd_provider sdk) h tx) (read_bound sdk)
    (prepareTransaction sdk ps tx)"
  unfolding prepareTransaction_def
  by (rule hooked_requests [OF assms, where m = "configured_retries sdk"])
    (simp_all add: configured_retries_def read_bound_def view_policy)

lemma sendTransaction_requests:
  assumes "quiet_sdk sdk"
  shows "requests sdk (SendTransaction env) (\<lambda>h. pv_sendTransaction (sd_provider sdk) h env)
    (min 2 (read_bound sdk)) (sendTransaction sdk ps env)"
  unfolding sendTransaction_def
  by (rule hooked_requests [OF assms, where m = "min (configured_retries sdk) 1"])
    (simp_all add: configured_retries_def read_bound_def resolveStateOptions_def Let_def
       STATE_CHANGING_maxRetries_def min_def split: if_splits)

lemma and_then_cases:
  assumes "and_then m f s = (r, s')"
  obtains (thrown) e where "m s = (Inl e, s')" "r = Inl e"
  | (returned) a s1 where "m s = (Inr a, s1)" "f a s1 = (r, s')"
proof (cases "m s")
  case (Pair x s1)
  then show ?thesis using assms thrown returned by (cases x) (auto simp: and_then_def)
qed

lemma checked_cases:
  assumes "and_then (checked x) f w = (r, w')"
  obtains (thrown) e where "x = Inl e" "r = Inl e" "w' = w" | (returned) a where "x = Inr a" "f a w = (r, w')"
  using assms by (cases x) (auto simp: checked_def)

lemma requests_cases:
  assumes "requests sdk c answer bound m" "m w = (r, w')"
  obtains k where "calls w' = calls w @ replicate k c" "int k \<le> bound"
    "\<And>a. r = Inr a \<Longrightarrow> 0 < k" "\<And>a. r = Inr a \<Longrightarrow> \<exists>h. answer h = Inr a"
    "\<And>e. r = Inl e \<Longrightarrow> (configured_retries sdk < 0 \<and> e = None) \<or> (\<exists>h. answer h = Inl e)"
proof -
  from assms obtain k where k: "calls w' = calls w @ replicate k c" "int k \<le> bound"
    "if k = 0 then configured_retries sdk < 0 \<and> r = Inl None else answered w c answer r"
    unfolding requests_def by blast
  then have "if k = 0 then configured_retries sdk < 0 \<and> r = Inl None else \<exists>h. r = answer h"
    by (auto dest: answeredD)
  then show ?thesis
    by (intro that [OF k(1,2)]) (auto split: if_splits; metis)+
qed

text \<open>The calls of one submission, complete or cut short: requests for the account, then for preparing one
  transaction, then for sending one envelope.\<close>

definition submission ::
  "('p, 'u) sdk \<Rightarrow> string \<Rightarrow> string \<Rightarrow> thrown + scval list \<Rightarrow> ('p \<Rightarrow> thrown + 'p) \<Rightarrow> string \<Rightarrow> 'p rpc_call list \<Rightarrow> bool" where
  "submission sdk address m args authorize key cs \<longleftrightarrow> (\<exists>i j k account vs p q.
     cs = replicate i (GetAccount address) @ replicate j (PrepareTransaction (build_tx sdk account m vs))
          @ replicate k (SendTransaction \<lparr>en_prepared = q, en_signers = [key]\<rparr>)
     \<and> int i \<le> read_bound sdk \<and> int j \<le> read_bound sdk \<and> int k \<le> min 2 (read_bound sdk)
     \<and> (0 < j \<longrightarrow> 0 < i \<and> args = Inr vs \<and> (\<exists>h. pv_getAccount (sd_provider sdk) h address = Inr account))
     \<and> (0 < k \<longrightarrow> 0 < j \<and> authorize p = Inr q
          \<and> (\<exists>h. pv_prepareTransaction (sd_provider sdk) h (build_tx sdk account m vs) = Inr p)))"

lemma submission_accounts:
  assumes "int i \<le> read_bound sdk"
  shows "submission sdk address m args authorize key (replicate i (GetAccount address))"
  unfolding submission_def
  by (insert assms, rule exI [of _ i], rule exI [of _ 0], rule exI [of _ 0]) (simp add: read_bound_def)

lemma submission_prepared:
  assumes "int i \<le> read_bound sdk" "0 < i" "int j \<le> read_bound sdk" "args = Inr vs"
    and "\<exists>h. pv_getAccount (sd_provider sdk) h address = Inr account"
  shows "submission sdk address m args authorize key
    (replicate i (GetAccount address) @ replicate j (PrepareTransaction (build_tx sdk account m vs)))"
  unfolding submission_def
  by (insert assms, rule exI [of _ i], rule exI [of _ j], rule exI [of _ 0], rule exI [of _ account], rule exI [of _ vs])
    (auto simp: read_bound_def)

text \<open>The result is the server's reply to an envelope that was sent.\<close>

definition sent_result :: "('p, 'u) sdk \<Rightarrow> 'p rpc_call list \<Rightarrow> tx_result \<Rightarrow> bool" where
  "sent_result sdk cs res \<longleftrightarrow> (\<exists>env h reply. SendTransaction env \<in> set cs
     \<and> pv_sendTransaction (sd_provider sdk) h env = Inr reply \<and> res = result_of_reply reply)"

lemma submit_call_runs:
  assumes quiet: "quiet_sdk sdk" and run: "submit_call sdk ps address m args authorize key w = (r, w')"
  shows "\<exists>cs. calls w' = calls w @ cs \<and> submission sdk address m args authorize key cs
    \<and> (\<forall>res. r = Inr res \<longrightarrow> sent_result sdk cs res)"
  using run unfolding submit_call_def
proof (cases rule: and_then_cases)
  case (thrown e)
  then obtain i where "calls w' = calls w @ replicate i (GetAccount address)" "int i \<le> read_bound sdk"
    using requests_cases [OF getAccount_requests [OF quiet]] by metis
  with thrown(2) show ?thesis by (intro exI) (auto intro: submission_accounts)
next
  case (returned account w1)
  obtain i where i: "calls w1 = calls w @ replicate i (GetAccount address)" "int i \<le> read_bound sdk" "0 < i"
    "\<exists>h. pv_getAccount (sd_provider sdk) h address = Inr account"
    using requests_cases [OF getAccount_requests [OF quiet] returned(1)] by metis
  from returned(2) show ?thesis
  proof (cases rule: checked_cases)
    case (thrown e)
    with i show ?thesis by (intro exI [of _ "replicate i (GetAccount address)"]) (simp add: submission_accounts)
  next
    case vs: (returned vs)
    let ?tx = "build_tx sdk account m vs"
    from vs(2) show ?thesis
    proof (cases rule: and_then_cases)
      case (thrown e)
      then obtain j where "calls w' = calls w1 @ replicate j (PrepareTransaction ?tx)" "int j \<le> read_bound sdk"
        using requests_cases [OF prepareTransaction_requests [OF quiet]] by metis
      with thrown(2) i vs(1) show ?thesis
        by (intro exI [of _ "replicate i (GetAccount address) @ replicate j (PrepareTransaction ?tx)"])
          (simp add: submission_prepared)
    next
      case p: (returned p w2)
      obtain j where j: "calls w2 = calls w1 @ replicate j (PrepareTransaction ?tx)" "int j \<le> read_bound sdk" "0 < j"
        "\<exists>h. pv_prepareTransaction (sd_provider sdk) h ?tx = Inr p"
        using requests_cases [OF prepareTransaction_requests [OF quiet] p(1)] by metis
      from p(2) show ?thesis
      proof (cases rule: checked_cases)
        case (thrown e)
        with i j vs(1) show ?thesis
          by (intro exI [of _ "replicate i (GetAccount address) @ replicate j (PrepareTransaction ?tx)"])
            (simp add: submission_prepared)
      next
        case q: (returned q)
        let ?env = "\<lparr>en_prepared = q, en_signers = [key]\<rparr>"
        obtain rs w3 where send: "sendTransaction sdk ps ?env w2 = (rs, w3)" by (rule prod.exhaust)
        then obtain k where k: "calls w3 = calls w2 @ replicate k (SendTransaction ?env)" "int k \<le> min 2 (read_bound sdk)"
          "\<And>a. rs = Inr a \<Longrightarrow> 0 < k" "\<And>a. rs = Inr a \<Longrightarrow> \<exists>h. pv_sendTransaction (sd_provider sdk) h ?env = Inr a"
          using requests_cases [OF sendTransaction_requests [OF quiet] send] by metis
        let ?cs = "replicate i (GetAccount address) @ replicate j (PrepareTransaction ?tx) @ replicate k (SendTransaction ?env)"
        have "submission sdk address m args authorize key ?cs"
          unfolding submission_def
          by (insert i j vs(1) q(1) k(2), rule exI [of _ i], rule exI [of _ j], rule exI [of _ k], rule exI [of _ account], rule exI [of _ vs],
              rule exI [of _ p], rule exI [of _ q]) simp
        moreover have "w' = w3" "\<forall>res. r = Inr res \<longrightarrow> (\<exists>a. rs = Inr a \<and> res = result_of_reply a)"
          using q(2) send by (cases rs; auto)+
        ultimately show ?thesis
          using i(1) j(1) k by (intro exI [of _ ?cs]) (fastforce simp: sent_result_def)
      qed
    qed
  qed
qed

lemma catch_failed_result:
  assumes "catch_failed m w = (r, w')"
  obtains (kept) res where "m w = (Inr res, w')" "r = Inr res"
  | (caught) e where "m w = (Inl (Some e), w')"
      "r = Inr (failed_result (case er_message e of Some t \<Rightarrow> if t = [] then ''Unknown error'' else t | None \<Rightarrow> ''Unknown error''))"
  | (escaped) te where "m w = (Inl None, w')" "r = Inl te"
proof (cases "m w")
  case (Pair x w1)
  show ?thesis
  proof (cases x)
    case (Inr res)
    with assms Pair show ?thesis by (intro kept) (auto simp: catch_failed_def)
  next
    case (Inl e)
    with assms Pair show ?thesis
      by (cases e) (auto simp: catch_failed_def message_or_def intro: caught escaped)
  qed
qed

text \<open>A submitting method as a whole: rejected input makes no call; otherwise its calls are those of one
  submission, and its result is the server's reply or a failure.\<close>

lemma mutation_runs:
  assumes "quiet_sdk sdk" "mutation sdk name params checks address m args authorize key w = (r, w')"
  shows "\<exists>cs. calls w' = calls w @ cs
    \<and> (if first_error checks = Inr () then submission sdk address m args authorize key cs else cs = [])
    \<and> (\<forall>res. r = Inr res \<longrightarrow> sent_result sdk cs res \<or> (\<exists>msg. res = failed_result msg))"
proof -
  obtain w0 w1 where w: "wd_log w0 = wd_log w" "wd_log w' = wd_log w1"
    and run: "catch_failed (and_then (checked (first_error checks))
         (\<lambda>_. submit_call sdk (contract_method m) address m args authorize key)) w0 = (r, w1)"
    using withTransactionHooks_result [OF assms(2)[unfolded mutation_def]] by blast
  obtain r1 where r1: "and_then (checked (first_error checks))
         (\<lambda>_. submit_call sdk (contract_method m) address m args authorize key) w0 = (r1, w1)"
    and r: "\<And>res. r = Inr res \<Longrightarrow> r1 = Inr res \<or> (\<exists>msg. res = failed_result msg)"
    using run by (cases rule: catch_failed_result) blast+
  from r1 show ?thesis
  proof (cases rule: checked_cases)
    case (thrown e)
    with w r show ?thesis by auto
  next
    case (returned u)
    from submit_call_runs [OF assms(1) returned(2)] obtain cs where "calls w1 = calls w0 @ cs"
      "submission sdk address m args authorize key cs" "\<forall>res. r1 = Inr res \<longrightarrow> sent_result sdk cs res" by blast
    with w r returned(1) show ?thesis by (intro exI [of _ cs]) (auto simp: unit_eq)
  qed
qed

lemma mutation_rejects:
  assumes "first_error checks = Inl (error_of msg)" "msg \<noteq> []"
  shows "fst (mutation sdk name params checks address m args authorize key w) = Inr (failed_result msg)"
    "calls (snd (mutation sdk name params checks address m args authorize key w)) = calls w"
  using assms
  by (simp_all add: mutation_def withTransactionHooks_def Let_def catch_failed_def checked_def message_or_def error_of_def
      split: prod.splits)

text \<open>The checks of addresses fail with a message.\<close>

definition worded :: "thrown + unit \<Rightarrow> bool" where
  "worded c \<longleftrightarrow> c = Inr () \<or> (\<exists>msg. msg \<noteq> [] \<and> c = Inl (error_of msg))"

lemma worded_require: "msg \<noteq> [] \<Longrightarrow> worded (require b msg)"
  by (auto simp: worded_def require_def)

lemma worded_asserts [simp]: "worded (assertAccountAddress st a f)" "worded (assertContractAddress st a f)"
  unfolding assertAccountAddress_def assertContractAddress_def by (rule worded_require, simp)+

lemma worded_first_error:
  "\<forall>c \<in> set cs. worded c \<Longrightarrow> first_error cs \<noteq> Inr () \<Longrightarrow> \<exists>msg. msg \<noteq> [] \<and> first_error cs = Inl (error_of msg)"
  by (induction cs rule: first_error.induct) (auto simp: worded_def)

section \<open>Errors that have a message\<close>

text \<open>What is thrown is not \<open>undefined\<close>.\<close>

named_theorems real_intros

definition real_error :: "thrown + 'a \<Rightarrow> bool" where
  "real_error x \<longleftrightarrow> x \<noteq> Inl None"

definition real_op :: "('p, 'u, 'a) sdk_op \<Rightarrow> bool" where
  "real_op m \<longleftrightarrow> (\<forall>w. real_error (fst (m w)))"

definition real_stellar :: "stellar \<Rightarrow> bool" where
  "real_stellar st \<longleftrightarrow> (\<forall>a. st_address st a \<noteq> Some None) \<and> (\<forall>t x. real_error (st_typed st t x))
     \<and> (\<forall>x. real_error (st_native st x))"

lemma real_simps [simp, real_intros]: "real_error (Inr a)" "real_error (Inl (error_of m))" "real_error (Inl (Some e))"
  "real_error (require b m)"
  by (simp_all add: real_error_def error_of_def require_def)

lemma real_bind [real_intros]: "real_error x \<Longrightarrow> (\<And>a. real_error (f a)) \<Longrightarrow> real_error (bind_sum x f)"
  by (cases x) (simp_all add: real_error_def)

lemma real_map [real_intros]: "(\<And>x. x \<in> set xs \<Longrightarrow> real_error (f x)) \<Longrightarrow> real_error (map_sum_list f xs)"
  by (induction xs) (auto intro!: real_intros)

lemma real_all_of [real_intros]: "(\<And>x. x \<in> set xs \<Longrightarrow> real_error x) \<Longrightarrow> real_error (all_of xs)"
  unfolding all_of_def by (rule real_map)

lemma real_first_error [real_intros]: "(\<And>x. x \<in> set xs \<Longrightarrow> real_error x) \<Longrightarrow> real_error (first_error xs)"
proof (induction xs rule: first_error.induct)
  case (2 e cs)
  from "2.prems" [of "Inl e"] show ?case by (simp add: real_error_def)
qed (simp_all add: real_error_def)

lemma real_check_each [real_intros]: "(\<And>i x. real_error (check i x)) \<Longrightarrow> real_error (check_each check xs)"
  unfolding check_each_def by (intro real_first_error) auto

lemma real_bigint [real_intros]: "real_error (to_bigint x)" "real_error (typedBigInt x ty)"
  by (auto simp: to_bigint_def typedBigInt_def intro!: real_intros split: sum.splits)

lemma real_asserts [real_intros]:
  "real_error (assertAccountAddress st a f)" "real_error (assertContractAddress st a f)"
  "real_error (assertRelayerPubkey a f)" "real_error (sig_checks i s)"
  by (auto simp: assertAccountAddress_def assertContractAddress_def assertRelayerPubkey_def sig_checks_def
      intro!: real_intros)

lemma real_toScValList: "real_stellar st \<Longrightarrow> real_error (toSingleScVal st x)" "real_stellar st \<Longrightarrow> real_error (toScValList st xs)"
  by (induction x and xs rule: toSingleScVal_toScValList.induct)
    (auto simp: real_stellar_def intro!: real_intros split: js_arg.splits option.splits)

lemma real_stellar_ops [real_intros]:
  assumes "real_stellar st"
  shows "real_error (newAddress st a)" "real_error (addressScVal st a)" "real_error (bigIntScVal st ty x)"
    "real_error (numberScVal st ty n)" "real_error (optionalNonceToScVal st nonce)" "real_error (toScVals st args)"
    "real_error (hexBytesToScVal hex len f)"
proof -
  have "st_address st a \<noteq> Some None" using assms unfolding real_stellar_def by blast
  then show "real_error (newAddress st a)" "real_error (addressScVal st a)"
    by (cases "st_address st a"; simp add: newAddress_def addressScVal_def real_error_def; metis)+
  show big: "real_error (bigIntScVal st ty x)" for ty x
    unfolding bigIntScVal_def using assms by (intro real_bind real_bigint) (simp add: real_stellar_def)
  show "real_error (numberScVal st ty n)" using assms by (simp add: numberScVal_def real_stellar_def)
  show "real_error (optionalNonceToScVal st nonce)"
    by (auto simp: optionalNonceToScVal_def big split: option.splits)
  show "real_error (toScVals st args)"
    using assms by (auto simp: toScVals_map intro!: real_intros real_toScValList)
  show "real_error (hexBytesToScVal hex len f)" by (simp add: hexBytesToScVal_def)
qed

lemma real_args [real_intros]:
  assumes "real_stellar st"
  shows "(\<And>a. a \<in> set as \<Longrightarrow> real_error a) \<Longrightarrow> real_error (encoded st as)"
    "real_error x \<Longrightarrow> real_error (with_nonce_deadline st n d x)"
    "real_error x \<Longrightarrow> real_error (then_nonce st n x)" "real_error x \<Longrightarrow> real_error (nonce_then st n x)"
    "real_error (metaFundParamsToScVal st params)" "real_error (feeTierToScVal st tier)"
  using assms
  by (auto simp: encoded_def with_nonce_deadline_def then_nonce_def nonce_then_def metaFundParamsToScVal_def
      feeTierToScVal_def scMapEntry_def intro!: real_intros)

text \<open>The surroundings throw proper errors only, and at least one attempt is made of every request.\<close>

definition responsive :: "('p, 'u) sdk \<Rightarrow> bool" where
  "responsive sdk \<longleftrightarrow> 0 \<le> configured_retries sdk \<and> real_stellar (sd_stellar sdk)
     \<and> (\<forall>h a. real_error (pv_getAccount (sd_provider sdk) h a))
     \<and> (\<forall>h tx. real_error (pv_prepareTransaction (sd_provider sdk) h tx))
     \<and> (\<forall>h env. real_error (pv_sendTransaction (sd_provider sdk) h env))"

fun proper_callback :: "'p bridge_call \<Rightarrow> bool" where
  "proper_callback (ClaimTimelocked _ _ (Some f)) \<longleftrightarrow> (\<forall>p. f p \<noteq> Inl None)"
| "proper_callback _ \<longleftrightarrow> True"

lemma requests_real:
  assumes "requests sdk c answer bound m" "0 \<le> configured_retries sdk" "\<And>h. real_error (answer h)"
  shows "real_op m"
  unfolding real_op_def
proof
  fix w
  obtain r w' where m: "m w = (r, w')" by (rule prod.exhaust)
  have "r = Inl e \<Longrightarrow> \<exists>h. answer h = Inl e" for e
    using requests_cases [OF assms(1) m] assms(2) by (metis not_le)
  with assms(3) m show "real_error (fst (m w))" unfolding real_error_def by (cases r) (force, simp)
qed

lemma real_and_then:
  assumes "real_op m" "\<And>a. real_op (f a)"
  shows "real_op (and_then m f)"
  unfolding real_op_def
proof
  fix w
  obtain x w1 where m: "m w = (x, w1)" by (rule prod.exhaust)
  show "real_error (fst (and_then m f w))"
  proof (cases x)
    case (Inl e)
    moreover have "real_error x" using assms(1) m unfolding real_op_def by (metis fst_conv)
    ultimately show ?thesis using m by (simp add: real_error_def)
  next
    case (Inr a)
    with m assms(2) show ?thesis by (simp add: real_op_def)
  qed
qed

lemma real_checked: "real_error x \<Longrightarrow> real_op (checked x)"
  by (cases x) (simp_all add: real_op_def checked_def)

lemma submit_call_real:
  assumes "quiet_sdk sdk" "responsive sdk" "real_error args" "\<And>p. real_error (authorize p)"
  shows "real_op (submit_call sdk ps address m args authorize key)"
  unfolding submit_call_def using assms
  by (intro real_and_then real_checked requests_real [OF getAccount_requests]
      requests_real [OF prepareTransaction_requests] requests_real [OF sendTransaction_requests])
    (simp_all add: responsive_def real_op_def)

lemma mutation_returns:
  assumes "quiet_sdk sdk" "responsive sdk" "real_error (first_error checks)" "real_error args"
    and "\<And>p. real_error (authorize p)"
  shows "\<exists>res w'. mutation sdk name params checks address m args authorize key w = (Inr res, w')"
proof -
  obtain r w' where run: "mutation sdk name params checks address m args authorize key w = (r, w')"
    by (rule prod.exhaust)
  let ?body = "and_then (checked (first_error checks)) (\<lambda>_. submit_call sdk (contract_method m) address m args authorize key)"
  obtain w0 w1 where "catch_failed ?body w0 = (r, w1)"
    using withTransactionHooks_result [OF run[unfolded mutation_def]] by blast
  moreover have "real_op ?body"
    using assms by (intro real_and_then real_checked submit_call_real)
  then have "real_error (fst (?body w0))" unfolding real_op_def by blast
  then have "fst (?body w0) \<noteq> Inl None" unfolding real_error_def .
  ultimately show ?thesis
  proof (cases rule: catch_failed_result)
    case (escaped te)
    with \<open>fst (?body w0) \<noteq> Inl None\<close> show ?thesis by (metis fst_conv)
  qed (use run in blast)+
qed

lemma real_checks: "(\<And>c. c \<in> set cs \<Longrightarrow> real_error c) \<Longrightarrow> real_error (first_error cs)"
  by (rule real_first_error)

lemma perform_returns:
  assumes "quiet_sdk sdk" "responsive sdk" "proper_callback call"
  shows "\<exists>res w'. perform sdk call w = (Inr res, w')"
proof -
  have st: "real_stellar (sd_stellar sdk)" using assms(2) by (simp add: responsive_def)
  note ret = mutation_returns [OF assms(1,2)] and ops = real_stellar_ops [OF st] and args = real_args [OF st]
  have each: "real_error (case fo_referrer opts of None \<Rightarrow> Inr ScVoid | Some r \<Rightarrow> addressScVal (sd_stellar sdk) r)" for opts
    using ops by (cases "fo_referrer opts") simp_all
  have tiers: "real_error (bind_sum (map_sum_list (feeTierToScVal (sd_stellar sdk)) tiers) (\<lambda>vs. Inr [ScVec vs]))" for tiers
    by (intro real_bind real_map args) simp
  have route: "real_error (bind_sum (map_sum_list (newAddress (sd_stellar sdk)) as) (\<lambda>xs. Inr (ArgArray xs)))" for as
    by (intro real_bind real_map ops) simp
  have callback: "real_error (case a of None \<Rightarrow> Inl (error_of m) | Some f \<Rightarrow> f p)"
    if "proper_callback (ClaimTimelocked tid key a)" for a :: "('a \<Rightarrow> thrown + 'a) option" and tid key m p
    using that by (cases a) (simp_all add: real_error_def [of "_ p"])
  show ?thesis
    using assms(3)
    by (cases call; simp only: perform.simps mutation_defs Let_def transfer_checks_def; intro ret real_checks;
        auto simp: each tiers route callback ops
          intro!: real_intros ops args real_bind [OF each] split: option.splits if_splits)
qed

section \<open>What is sent\<close>

text \<open>A pending result: the input passed the checks, the arguments were encoded, and the one envelope sent
  holds the transaction that was built from them, prepared and signed.\<close>

lemma pending_submission:
  assumes "quiet_sdk sdk" "mutation sdk name params checks address m args authorize key w = (Inr res, w')"
    and "tr_status res = Pending"
  obtains cs account vs p q where "calls w' = calls w @ cs" "first_error checks = Inr ()" "args = Inr vs"
    "PrepareTransaction (build_tx sdk account m vs) \<in> set cs" "authorize p = Inr q"
    "\<exists>h. pv_prepareTransaction (sd_provider sdk) h (build_tx sdk account m vs) = Inr p"
    "SendTransaction \<lparr>en_prepared = q, en_signers = [key]\<rparr> \<in> set cs"
    "\<And>tx. PrepareTransaction tx \<in> set cs \<Longrightarrow> tx = build_tx sdk account m vs"
    "\<And>env. SendTransaction env \<in> set cs \<Longrightarrow> env = \<lparr>en_prepared = q, en_signers = [key]\<rparr>"
    "\<exists>h reply. pv_sendTransaction (sd_provider sdk) h \<lparr>en_prepared = q, en_signers = [key]\<rparr> = Inr reply
       \<and> res = result_of_reply reply"
proof -
  obtain cs where cs: "calls w' = calls w @ cs"
    "if first_error checks = Inr () then submission sdk address m args authorize key cs else cs = []"
    "sent_result sdk cs res"
    using mutation_runs [OF assms(1,2)] assms(3) by (fastforce simp: failed_result_def)
  from cs(3) obtain env h reply where env: "SendTransaction env \<in> set cs"
    "pv_sendTransaction (sd_provider sdk) h env = Inr reply" "res = result_of_reply reply"
    unfolding sent_result_def by blast
  with cs(2) have ok: "first_error checks = Inr ()" "submission sdk address m args authorize key cs"
    by (auto split: if_splits)
  from ok(2) obtain i j k account vs p q where sub:
    "cs = replicate i (GetAccount address) @ replicate j (PrepareTransaction (build_tx sdk account m vs))
          @ replicate k (SendTransaction \<lparr>en_prepared = q, en_signers = [key]\<rparr>)"
    "0 < j \<longrightarrow> 0 < i \<and> args = Inr vs \<and> (\<exists>h. pv_getAccount (sd_provider sdk) h address = Inr account)"
    "0 < k \<longrightarrow> 0 < j \<and> authorize p = Inr q
       \<and> (\<exists>h. pv_prepareTransaction (sd_provider sdk) h (build_tx sdk account m vs) = Inr p)"
    unfolding submission_def by blast
  from env(1) sub have "0 < k" "env = \<lparr>en_prepared = q, en_signers = [key]\<rparr>" by auto
  with sub env cs(1) ok(1) show ?thesis by (intro that [of cs vs account p q]) auto
qed

lemma pending_call:
  assumes "quiet_sdk sdk" "mutation sdk name params checks address m args authorize key w = (Inr res, w')"
    and "tr_status res = Pending"
  shows "\<exists>account vs p q h. first_error checks = Inr () \<and> args = Inr vs
    \<and> pv_prepareTransaction (sd_provider sdk) h (build_tx sdk account m vs) = Inr p \<and> authorize p = Inr q
    \<and> SendTransaction \<lparr>en_prepared = q, en_signers = [key]\<rparr> \<in> set (calls w')"
proof (rule pending_submission [OF assms])
  fix cs account vs p q
  assume "calls w' = calls w @ cs" "first_error checks = Inr ()" "args = Inr vs" "authorize p = Inr q"
    "\<exists>h. pv_prepareTransaction (sd_provider sdk) h (build_tx sdk account m vs) = Inr p"
    "SendTransaction \<lparr>en_prepared = q, en_signers = [key]\<rparr> \<in> set cs"
  then show ?thesis by auto
qed

lemma pending_unattended_call:
  assumes "quiet_sdk sdk" "mutation sdk name params checks address m args Inr key w = (Inr res, w')"
    and "tr_status res = Pending"
  shows "\<exists>account vs p h. first_error checks = Inr () \<and> args = Inr vs
    \<and> pv_prepareTransaction (sd_provider sdk) h (build_tx sdk account m vs) = Inr p
    \<and> SendTransaction \<lparr>en_prepared = p, en_signers = [key]\<rparr> \<in> set (calls w')"
  using pending_call [OF assms] by auto

text \<open>What the properties below take from the library: checked addresses construct, and a typed integer
  encodes as itself, in its range.\<close>

definition in_range :: "string \<Rightarrow> int \<Rightarrow> bool" where
  "in_range ty n =
     (if ty = ''u32'' then 0 \<le> n \<and> n < 2 ^ 32
      else if ty = ''u64'' then 0 \<le> n \<and> n < 2 ^ 64
      else if ty = ''i128'' then - (2 ^ 127) \<le> n \<and> n < 2 ^ 127
      else True)"

definition faithful_stellar :: "stellar \<Rightarrow> bool" where
  "faithful_stellar st \<longleftrightarrow> (\<forall>a. st_is_account st a \<or> st_is_contract st a \<longrightarrow> st_address st a = None)
     \<and> (\<forall>ty n v. st_typed st ty (ArgInt n) = Inr v \<longrightarrow> v = ScInt ty n \<and> in_range ty n)"

lemma faithful_int:
  "faithful_stellar st \<Longrightarrow> bigIntScVal st ty x = Inr v \<Longrightarrow> \<exists>n. BigInt x = Inr n \<and> v = ScInt ty n \<and> in_range ty n"
  by (auto simp: faithful_stellar_def bigIntScVal_def to_bigint_def bind_sum_eq_Inr split: sum.splits)

lemma faithful_number:
  "faithful_stellar st \<Longrightarrow> numberScVal st ty n = Inr v \<Longrightarrow> v = ScInt ty n \<and> in_range ty n"
  by (simp add: faithful_stellar_def numberScVal_def)

lemma addressScVal_Inr [simp]: "addressScVal st a = Inr v \<longleftrightarrow> st_address st a = None \<and> v = ScAddress a"
  by (auto simp: addressScVal_def split: option.splits)

lemma newAddress_Inr [simp]: "newAddress st a = Inr v \<longleftrightarrow> st_address st a = None \<and> v = ArgAddress a"
  by (auto simp: newAddress_def split: option.splits)

text \<open>The contract value of an optional \<open>u64\<close>.\<close>

definition optional_u64 :: "js_int option \<Rightarrow> scval \<Rightarrow> bool" where
  "optional_u64 x v \<longleftrightarrow> (case x of None \<Rightarrow> v = ScVoid
     | Some i \<Rightarrow> \<exists>n. BigInt i = Inr n \<and> v = ScInt ''u64'' n \<and> 0 \<le> n \<and> n < 2 ^ 64)"

lemma optionalNonce_Inr:
  "faithful_stellar st \<Longrightarrow> optionalNonceToScVal st x = Inr v \<Longrightarrow> optional_u64 x v"
  by (auto simp: optionalNonceToScVal_def optional_u64_def in_range_def dest!: faithful_int split: option.splits)

lemma encoded_transfer:
  assumes "faithful_stellar st"
    and "encoded st [newAddress st s, newAddress st t, newAddress st a, typedBigInt x ''i128''] = Inr vs"
  shows "\<exists>n. BigInt x = Inr n \<and> in_range ''i128'' n \<and> vs = [ScAddress s, ScAddress t, ScAddress a, ScInt ''i128'' n]"
  using assms
  by (auto simp: encoded_def typedBigInt_def to_bigint_def bind_sum_eq_Inr toScVals_map faithful_stellar_def
      split: sum.splits)

lemma encoded_fund_args:
  assumes "faithful_stellar st"
    and "with_nonce_deadline st nonce deadline
        (encoded st [newAddress st s, newAddress st t, newAddress st a, typedBigInt (IntString amt) ''i128'']) = Inr vs"
  shows "\<exists>amount n d. bigint_of_string amt = Some amount \<and> - (2 ^ 127) \<le> amount \<and> amount < 2 ^ 127
    \<and> optional_u64 nonce n \<and> optional_u64 deadline d
    \<and> vs = [ScAddress s, ScAddress t, ScAddress a, ScInt ''i128'' amount, n, d]"
proof -
  from assms(2) obtain n d xs where parts: "optionalNonceToScVal st nonce = Inr n"
    "optionalNonceToScVal st deadline = Inr d" "vs = xs @ [n, d]"
    "encoded st [newAddress st s, newAddress st t, newAddress st a, typedBigInt (IntString amt) ''i128''] = Inr xs"
    by (auto simp: with_nonce_deadline_def bind_sum_eq_Inr)
  from encoded_transfer [OF assms(1) parts(4)] obtain amount where "BigInt (IntString amt) = Inr amount"
    "in_range ''i128'' amount" "xs = [ScAddress s, ScAddress t, ScAddress a, ScInt ''i128'' amount]" by blast
  moreover from this(1) have "bigint_of_string amt = Some amount" by (simp add: BigInt_def split: option.splits)
  ultimately show ?thesis
    using parts optionalNonce_Inr [OF assms(1) parts(1)] optionalNonce_Inr [OF assms(1) parts(2)]
    by (simp add: in_range_def)
qed

section \<open>A concrete server\<close>

text \<open>Addresses are accepted by their first letter, integers in range; the server prepares what it is
  given and accepts what it is sent.\<close>

definition sample_stellar :: stellar where
  "sample_stellar =
     \<lparr>st_is_account = prefix ''G'', st_is_contract = prefix ''C'',
      st_address = (\<lambda>a. if prefix ''G'' a \<or> prefix ''C'' a then None else Some (error_of ''Unsupported address type'')),
      st_typed = (\<lambda>ty x. case x of ArgInt n \<Rightarrow> if in_range ty n then Inr (ScInt ty n) else Inl (error_of ''value out of range'')
                           | _ \<Rightarrow> Inl (error_of ''unsupported'')),
      st_native = (\<lambda>x. case x of ArgScVal v \<Rightarrow> Inr v | ArgBytes bs \<Rightarrow> Inr (ScBytes bs) | _ \<Rightarrow> Inl (error_of ''unsupported'')),
      st_toNative = (\<lambda>v. case v of ScInt ty n \<Rightarrow> Inr (if ty = ''u32'' then NNum n else NBig n) | ScAddress a \<Rightarrow> Inr (NText a)
                             | ScBytes bs \<Rightarrow> Inr (NBytes bs) | ScVoid \<Rightarrow> Inr NNull | _ \<Rightarrow> Inl (error_of ''unsupported''))\<rparr>"

definition sample_provider :: "transaction provider" where
  "sample_provider =
     \<lparr>pv_getAccount = (\<lambda>_ a. Inr \<lparr>ac_id = a, ac_sequence = 4\<rparr>),
      pv_prepareTransaction = (\<lambda>_ tx. Inr tx),
      pv_sendTransaction = (\<lambda>_ _. Inr \<lparr>sr_hash = ''h'', sr_status = ''PENDING''\<rparr>),
      pv_getTransaction = (\<lambda>h _. if length h < 5 then Inr \<lparr>gt_status = ''NOT_FOUND'', gt_returnValue = None\<rparr>
                                  else Inr \<lparr>gt_status = ''SUCCESS'', gt_returnValue = Some (ScInt ''u64'' 9)\<rparr>),
      pv_simulateTransaction = (\<lambda>_ _. Inr \<lparr>si_error = None, si_retval = None, si_minResourceFee = None\<rparr>),
      pv_getSubentries = (\<lambda>_ _. Inr None), pv_getFeeStats = (\<lambda>_. Inr None)\<rparr>"

definition sample_sdk :: "(transaction, unit) sdk" where
  "sample_sdk =
     \<lparr>sd_stellar = sample_stellar, sd_contractId = ''CB'', sd_networkPassphrase = ''net'', sd_timeout = None,
      sd_retry = no_options, sd_hooks = None, sd_baseReserve = None, sd_provider = sample_provider,
      sd_now = (\<lambda>_. 0), sd_pick = (\<lambda>_ _. 0), sd_BASE_FEE = ''100''\<rparr>"

definition sample_world :: "(transaction, unit) sdk_world" where
  "sample_world = \<lparr>wd_log = [], wd_console = [], wd_user = ()\<rparr>"

lemma sample_stellar_faithful: "faithful_stellar sample_stellar"
  by (auto simp: faithful_stellar_def sample_stellar_def split: if_splits)

lemma sample_stellar_real: "real_stellar sample_stellar"
  by (auto simp: real_stellar_def sample_stellar_def error_of_def split: js_arg.splits)

lemma sample_quiet: "quiet_sdk (sample_sdk\<lparr>sd_hooks := hs\<rparr>)" "quiet_sdk sample_sdk"
  by (simp_all add: quiet_sdk_def quiet_surroundings_def sdk_surroundings_def sample_sdk_def no_options_def
      keeps_seen_def never_throws_def sleeping_def)

lemma sample_responsive: "responsive sample_sdk"
  by (simp add: responsive_def sample_sdk_def configured_retries_def no_options_def VIEW_maxRetries_def
      sample_stellar_real sample_provider_def)

definition sample_fund :: fund_options where
  "sample_fund = \<lparr>fo_source = ''GA'', fo_target = ''CT'', fo_asset = ''CA'', fo_amount = ''12'',
                  fo_nonce = Some (IntNumber (Some 3)), fo_deadline = None\<rparr>"

lemma fire_without_hooks [simp]: "sd_hooks sdk = None \<Longrightarrow> fire sdk n iv w = w"
  by (simp add: fire_def)

lemma sample_sdk_simps [simp]:
  "sd_hooks sample_sdk = None" "sd_provider sample_sdk = sample_provider" "sd_stellar sample_sdk = sample_stellar"
  "sd_retry sample_sdk = no_options"
  by (simp_all add: sample_sdk_def)

lemma sample_calls [simp]:
  "getAccount sample_sdk a w = (Inr \<lparr>ac_id = a, ac_sequence = 4\<rparr>, w\<lparr>wd_log := wd_log w @ [Called (GetAccount a)]\<rparr>)"
  "prepareTransaction sample_sdk ps tx w = (Inr tx, w\<lparr>wd_log := wd_log w @ [Called (PrepareTransaction tx)]\<rparr>)"
  "sendTransaction sample_sdk ps env w =
     (Inr \<lparr>sr_hash = ''h'', sr_status = ''PENDING''\<rparr>, w\<lparr>wd_log := wd_log w @ [Called (SendTransaction env)]\<rparr>)"
  by (simp_all add: getAccount_def prepareTransaction_def sendTransaction_def withRpcHook_def fireRpcCall_def
      provider_call_def withRpcRetry_def view_policy resolveStateOptions_def Let_def no_options_def VIEW_maxRetries_def
      STATE_CHANGING_maxRetries_def raw_call_def sample_provider_def withRetry_first_success split: prod.splits)

text \<open>A submission to this server.\<close>

lemma sample_mutation:
  assumes "first_error checks = Inr ()"
  shows "mutation sample_sdk name params checks address m (Inr vs) Inr key sample_world =
     (Inr \<lparr>tr_hash = ''h'', tr_status = Pending, tr_error = None\<rparr>,
      sample_world\<lparr>wd_log :=
        (let tx = build_tx sample_sdk \<lparr>ac_id = address, ac_sequence = 4\<rparr> m vs in
         [Called (GetAccount address), Called (PrepareTransaction tx),
          Called (SendTransaction \<lparr>en_prepared = tx, en_signers = [key]\<rparr>)])\<rparr>)"
  using assms
  by (simp add: mutation_def withTransactionHooks_def fireTransactionStart_def fireTransactionSuccess_def Let_def
      catch_failed_def submit_call_def checked_def result_of_reply_def sample_world_def)

section \<open>Properties\<close>

text \<open>The submitting methods never throw: whatever the call and its arguments, over a server, a library and
  a callback that throw proper errors, every one of the 28 methods returns a result; failures are
  results with status \<open>failed\<close>.  Observability hooks that throw do not change this.\<close>

theorem mutations_never_throw:
  assumes "quiet_sdk sdk" "responsive sdk" "proper_callback call"
  shows "\<exists>res. fst (perform sdk call w) = Inr res"
proof -
  from perform_returns [OF assms, of w] obtain res w' where "perform sdk call w = (Inr res, w')" by blast
  then show ?thesis by simp
qed

lemma mutations_never_throw_witness:
  "\<exists>res. fst (perform sample_sdk (SetFee 2000 ''GA'' None) sample_world) = Inr res"
  using mutations_never_throw [OF sample_quiet(2) sample_responsive, of "SetFee 2000 ''GA'' None" sample_world] by simp

text \<open>C22: One call of a submitting method sends at most one envelope, at most twice and only as a retry of the
  same envelope; it carries exactly one signature, by the key pair of the call, and every transaction
  prepared on the way is one transaction for the configured contract.  A pending result means that an
  envelope was sent and the server answered \<open>PENDING\<close> to it.\<close>

theorem one_envelope_per_call:
  assumes "quiet_sdk sdk" "perform sdk call w = (r, w')"
  shows "\<exists>cs env. calls w' = calls w @ cs
    \<and> {e. SendTransaction e \<in> set cs} \<subseteq> {env} \<and> en_signers env = [signer_of call]
    \<and> length (filter (\<lambda>c. c = SendTransaction env) cs) \<le> 2
    \<and> (\<exists>tx. {t. PrepareTransaction t \<in> set cs} \<subseteq> {tx} \<and> tx_contract tx = sd_contractId sdk)
    \<and> (\<forall>res. r = Inr res \<and> tr_status res = Pending \<longrightarrow>
         SendTransaction env \<in> set cs \<and> (\<exists>h reply. pv_sendTransaction (sd_provider sdk) h env = Inr reply
           \<and> sr_status reply = ''PENDING'' \<and> tr_hash res = sr_hash reply))"
proof -
  obtain name params checks address m args authorize where
    run: "mutation sdk name params checks address m args authorize (signer_of call) w = (r, w')"
    using assms(2) perform_mutation [of sdk call] by metis
  from mutation_runs [OF assms(1) run] obtain cs where cs: "calls w' = calls w @ cs"
    "if first_error checks = Inr () then submission sdk address m args authorize (signer_of call) cs else cs = []"
    "\<forall>res. r = Inr res \<longrightarrow> sent_result sdk cs res \<or> (\<exists>msg. res = failed_result msg)" by blast
  have "\<exists>env tx. {e. SendTransaction e \<in> set cs} \<subseteq> {env} \<and> en_signers env = [signer_of call]
      \<and> length (filter (\<lambda>c. c = SendTransaction env) cs) \<le> 2
      \<and> {t. PrepareTransaction t \<in> set cs} \<subseteq> {tx} \<and> tx_contract tx = sd_contractId sdk"
  proof (cases "first_error checks = Inr ()")
    case True
    with cs(2) have "submission sdk address m args authorize (signer_of call) cs" by simp
    then obtain i j k account vs q where "cs = replicate i (GetAccount address)
          @ replicate j (PrepareTransaction (build_tx sdk account m vs))
          @ replicate k (SendTransaction \<lparr>en_prepared = q, en_signers = [signer_of call]\<rparr>)"
      "int k \<le> min 2 (read_bound sdk)" unfolding submission_def by blast
    then show ?thesis
      by (intro exI [of _ "\<lparr>en_prepared = q, en_signers = [signer_of call]\<rparr>"] exI [of _ "build_tx sdk account m vs"])
        (auto simp: build_tx_def)
  next
    case False
    with cs(2) show ?thesis
      by (intro exI [of _ "\<lparr>en_prepared = undefined, en_signers = [signer_of call]\<rparr>"]
          exI [of _ "build_tx sdk undefined m []"]) (simp add: build_tx_def)
  qed
  then obtain env tx where one: "{e. SendTransaction e \<in> set cs} \<subseteq> {env}" "en_signers env = [signer_of call]"
    "length (filter (\<lambda>c. c = SendTransaction env) cs) \<le> 2"
    "{t. PrepareTransaction t \<in> set cs} \<subseteq> {tx}" "tx_contract tx = sd_contractId sdk" by blast
  have "SendTransaction env \<in> set cs \<and> (\<exists>h reply. pv_sendTransaction (sd_provider sdk) h env = Inr reply
      \<and> sr_status reply = ''PENDING'' \<and> tr_hash res = sr_hash reply)"
    if "r = Inr res" "tr_status res = Pending" for res
    using cs(3) that one(1)
    by (fastforce simp: sent_result_def failed_result_def result_of_reply_def split: if_splits)
  with cs(1) one show ?thesis by blast
qed

lemma one_envelope_per_call_witness:
  "\<exists>cs env. calls (snd (perform sample_sdk (FundCAddress sample_fund ''GK'') sample_world)) = cs
     \<and> {e. SendTransaction e \<in> set cs} \<subseteq> {env} \<and> en_signers env = [''GK'']"
proof -
  obtain r w' where run: "perform sample_sdk (FundCAddress sample_fund ''GK'') sample_world = (r, w')" by (rule prod.exhaust)
  from one_envelope_per_call [OF sample_quiet(2) run] run show ?thesis
    by (auto simp: sample_world_def)
qed

text \<open>C23: What \<open>fundCAddress\<close> sends is what it was asked to send: a pending result means that the source is an
  account, target and asset are contracts, the amount string is an integer in the \<open>i128\<close> range, and the
  envelope sent is the signed preparation of the call of \<open>fund_c_address\<close> with exactly these addresses,
  that amount, and the optional nonce and deadline as \<open>u64\<close>.  A wrong address makes no RPC call.\<close>

theorem fundCAddress_sends_what_was_asked:
  assumes "quiet_sdk sdk" "faithful_stellar (sd_stellar sdk)"
    and "fundCAddress sdk opts key w = (r, w')"
  shows "(\<forall>res. r = Inr res \<and> tr_status res = Pending \<longrightarrow>
      st_is_account (sd_stellar sdk) (fo_source opts) \<and> st_is_contract (sd_stellar sdk) (fo_target opts)
      \<and> st_is_contract (sd_stellar sdk) (fo_asset opts)
      \<and> (\<exists>account amount n d p h. bigint_of_string (fo_amount opts) = Some amount
          \<and> - (2 ^ 127) \<le> amount \<and> amount < 2 ^ 127 \<and> optional_u64 (fo_nonce opts) n \<and> optional_u64 (fo_deadline opts) d
          \<and> pv_prepareTransaction (sd_provider sdk) h (build_tx sdk account ''fund_c_address''
              [ScAddress (fo_source opts), ScAddress (fo_target opts), ScAddress (fo_asset opts),
               ScInt ''i128'' amount, n, d]) = Inr p
          \<and> SendTransaction \<lparr>en_prepared = p, en_signers = [key]\<rparr> \<in> set (calls w')))
    \<and> (\<not> (st_is_account (sd_stellar sdk) (fo_source opts) \<and> st_is_contract (sd_stellar sdk) (fo_target opts)
         \<and> st_is_contract (sd_stellar sdk) (fo_asset opts)) \<longrightarrow>
       calls w' = calls w \<and> (\<exists>msg. r = Inr (failed_result msg)))"
proof -
  let ?st = "sd_stellar sdk"
  let ?checks = "transfer_checks ?st (fo_source opts) (fo_target opts) (fo_asset opts)"
  have valid: "first_error ?checks = Inr () \<longleftrightarrow> st_is_account ?st (fo_source opts)
      \<and> st_is_contract ?st (fo_target opts) \<and> st_is_contract ?st (fo_asset opts)"
    by (simp add: first_error_Inr_iff transfer_checks_def assertAccountAddress_def assertContractAddress_def)
  show ?thesis
  proof (intro conjI allI impI)
    fix res
    assume res: "r = Inr res \<and> tr_status res = Pending"
    then have r: "r = Inr res" and pend: "tr_status res = Pending" by auto
    from pending_unattended_call [OF assms(1) assms(3)[unfolded fundCAddress_def Let_def r] pend]
    obtain account vs p h where ok: "first_error ?checks = Inr ()"
      "with_nonce_deadline ?st (fo_nonce opts) (fo_deadline opts)
        (encoded ?st [newAddress ?st (fo_source opts), newAddress ?st (fo_target opts), newAddress ?st (fo_asset opts),
                      typedBigInt (IntString (fo_amount opts)) ''i128'']) = Inr vs"
      "pv_prepareTransaction (sd_provider sdk) h (build_tx sdk account ''fund_c_address'' vs) = Inr p"
      "SendTransaction \<lparr>en_prepared = p, en_signers = [key]\<rparr> \<in> set (calls w')"
      by blast
    from ok(1) valid show "st_is_account ?st (fo_source opts)" "st_is_contract ?st (fo_target opts)"
      "st_is_contract ?st (fo_asset opts)" by auto
    from encoded_fund_args [OF assms(2) ok(2)] ok(3,4)
    show "\<exists>account amount n d p h. bigint_of_string (fo_amount opts) = Some amount
          \<and> - (2 ^ 127) \<le> amount \<and> amount < 2 ^ 127 \<and> optional_u64 (fo_nonce opts) n \<and> optional_u64 (fo_deadline opts) d
          \<and> pv_prepareTransaction (sd_provider sdk) h (build_tx sdk account ''fund_c_address''
              [ScAddress (fo_source opts), ScAddress (fo_target opts), ScAddress (fo_asset opts),
               ScInt ''i128'' amount, n, d]) = Inr p
          \<and> SendTransaction \<lparr>en_prepared = p, en_signers = [key]\<rparr> \<in> set (calls w')" by blast
  next
    assume "\<not> (st_is_account ?st (fo_source opts) \<and> st_is_contract ?st (fo_target opts) \<and> st_is_contract ?st (fo_asset opts))"
    then have "first_error ?checks \<noteq> Inr ()" using valid by blast
    then obtain msg where "first_error ?checks = Inl (error_of msg)" "msg \<noteq> []"
      using worded_first_error [of ?checks] by (auto simp: transfer_checks_def)
    from mutation_rejects [OF this] assms(3)
    have "fst (fundCAddress sdk opts key w) = Inr (failed_result msg)" "calls (snd (fundCAddress sdk opts key w)) = calls w"
      unfolding fundCAddress_def Let_def by blast+
    with assms(3) show "calls w' = calls w" "\<exists>msg. r = Inr (failed_result msg)" by auto
  qed
qed

lemma sample_fund_run:
  "fundCAddress sample_sdk sample_fund ''GK'' sample_world =
     (Inr \<lparr>tr_hash = ''h'', tr_status = Pending, tr_error = None\<rparr>,
      sample_world\<lparr>wd_log :=
        (let tx = build_tx sample_sdk \<lparr>ac_id = ''GA'', ac_sequence = 4\<rparr> ''fund_c_address''
             [ScAddress ''GA'', ScAddress ''CT'', ScAddress ''CA'', ScInt ''i128'' 12, ScInt ''u64'' 3, ScVoid] in
         [Called (GetAccount ''GA''), Called (PrepareTransaction tx),
          Called (SendTransaction \<lparr>en_prepared = tx, en_signers = [''GK'']\<rparr>)])\<rparr>)"
proof -
  have amount: "bigint_of_string ''12'' = Some 12" by code_simp
  have args: "with_nonce_deadline sample_stellar (fo_nonce sample_fund) (fo_deadline sample_fund)
     (encoded sample_stellar [newAddress sample_stellar (fo_source sample_fund), newAddress sample_stellar (fo_target sample_fund),
        newAddress sample_stellar (fo_asset sample_fund), typedBigInt (IntString (fo_amount sample_fund)) ''i128'']) =
     Inr [ScAddress ''GA'', ScAddress ''CT'', ScAddress ''CA'', ScInt ''i128'' 12, ScInt ''u64'' 3, ScVoid]"
    by (simp add: sample_fund_def sample_stellar_def with_nonce_deadline_def encoded_def newAddress_def typedBigInt_def
      to_bigint_def BigInt_def amount toScVals_map optionalNonceToScVal_def bigIntScVal_def in_range_def)
  have checks: "first_error (transfer_checks sample_stellar (fo_source sample_fund) (fo_target sample_fund)
      (fo_asset sample_fund)) = Inr ()"
    by (simp add: first_error_Inr_iff transfer_checks_def assertAccountAddress_def assertContractAddress_def
        sample_fund_def sample_stellar_def)
  have "fo_source sample_fund = ''GA''" by (simp add: sample_fund_def)
  then show ?thesis
    unfolding fundCAddress_def Let_def sample_sdk_simps args sample_mutation [OF checks] by simp
qed

lemma fundCAddress_sends_what_was_asked_witness:
  "\<exists>w' account amount n d p h. fundCAddress sample_sdk sample_fund ''GK'' sample_world =
       (Inr \<lparr>tr_hash = ''h'', tr_status = Pending, tr_error = None\<rparr>, w')
     \<and> bigint_of_string ''12'' = Some amount
     \<and> pv_prepareTransaction sample_provider h (build_tx sample_sdk account ''fund_c_address''
              [ScAddress ''GA'', ScAddress ''CT'', ScAddress ''CA'', ScInt ''i128'' amount, n, d]) = Inr p
     \<and> SendTransaction \<lparr>en_prepared = p, en_signers = [''GK'']\<rparr> \<in> set (calls w')"
proof -
  have "sd_provider sample_sdk = sample_provider" "sd_stellar sample_sdk = sample_stellar"
    by (simp_all add: sample_sdk_def)
  with fundCAddress_sends_what_was_asked [OF sample_quiet(2) _ sample_fund_run] sample_stellar_faithful
  show ?thesis unfolding sample_fund_run by (fastforce simp: sample_fund_def)
qed

section \<open>The cross-chain submission\<close>

lemma replace_first_absent: "list_all is_hex s \<Longrightarrow> replace_first ''0x'' r s = s"
proof (induction s)
  case (Cons c s)
  then have "\<not> prefix ''0x'' (c # s)" by (cases s) (auto simp: list_all_iff)
  with Cons show ?case by auto
qed simp

text \<open>The arguments of a cross-chain submission that was accepted by the server.\<close>

lemma fundCrosschain_pending:
  assumes "quiet_sdk sdk" "faithful_stellar (sd_stellar sdk)"
    and "fundCrosschain sdk req key w = (Inr res, w')" "tr_status res = Pending"
  obtains account amount p h where
    "\<And>sg. sg \<in> set (cr_sigs req) \<Longrightarrow> matches_hex 64 (sig_pubkey sg) \<and> matches_hex 128 (sig_signature sg)"
    "0 \<le> cr_chainId req" "cr_chainId req < 2 ^ 32" "bigint_of_string (cr_amount req) = Some amount"
    "- (2 ^ 127) \<le> amount" "amount < 2 ^ 127"
    "pv_prepareTransaction (sd_provider sdk) h (build_tx sdk account ''fund_c_address_crosschain''
       [ScInt ''u32'' (cr_chainId req), ScBytes (bytes_of_hex (replace_first ''0x'' [] (cr_txHash req))),
        ScAddress (cr_target req), ScAddress (cr_asset req), ScInt ''i128'' amount,
        ScVec (map sigScVal (cr_sigs req))]) = Inr p"
    "SendTransaction \<lparr>en_prepared = p, en_signers = [key]\<rparr> \<in> set (calls w')"
proof -
  let ?st = "sd_stellar sdk"
  from pending_unattended_call [OF assms(1) assms(3)[unfolded fundCrosschain_def Let_def] assms(4)]
  obtain account vs p h where ok: "first_error [check_each sig_checks (cr_sigs req)] = Inr ()"
    "all_of [numberScVal ?st ''u32'' (cr_chainId req),
             Inr (ScBytes (bytes_of_hex (replace_first ''0x'' [] (cr_txHash req)))),
             addressScVal ?st (cr_target req), addressScVal ?st (cr_asset req),
             bigIntScVal ?st ''i128'' (IntString (cr_amount req)), Inr (ScVec (map sigScVal (cr_sigs req)))] = Inr vs"
    "pv_prepareTransaction (sd_provider sdk) h (build_tx sdk account ''fund_c_address_crosschain'' vs) = Inr p"
    "SendTransaction \<lparr>en_prepared = p, en_signers = [key]\<rparr> \<in> set (calls w')" by blast
  have sigs: "matches_hex 64 (sig_pubkey sg) \<and> matches_hex 128 (sig_signature sg)" if "sg \<in> set (cr_sigs req)" for sg
    using ok(1) that by (auto simp: first_error_Inr_iff check_each_Inr sig_checks_def in_set_conv_nth)
  from ok(2) obtain c t a amt where parts: "numberScVal ?st ''u32'' (cr_chainId req) = Inr c"
    "bigIntScVal ?st ''i128'' (IntString (cr_amount req)) = Inr amt"
    "vs = [c, ScBytes (bytes_of_hex (replace_first ''0x'' [] (cr_txHash req))), ScAddress (cr_target req),
           ScAddress (cr_asset req), amt, ScVec (map sigScVal (cr_sigs req))]"
    by (auto simp: bind_sum_eq_Inr)
  from faithful_number [OF assms(2) parts(1)] have c: "c = ScInt ''u32'' (cr_chainId req)"
    "0 \<le> cr_chainId req" "cr_chainId req < 2 ^ 32" by (simp_all add: in_range_def)
  from faithful_int [OF assms(2) parts(2)] obtain amount where amount: "BigInt (IntString (cr_amount req)) = Inr amount"
    "amt = ScInt ''i128'' amount" "in_range ''i128'' amount" by blast
  then have "bigint_of_string (cr_amount req) = Some amount" "- (2 ^ 127) \<le> amount" "amount < 2 ^ 127"
    by (auto simp: BigInt_def in_range_def split: option.splits)
  with sigs c amount(2) parts(3) ok(3,4) show ?thesis by (intro that [of amount h account p]) auto
qed

end
