(* ===== verification/Sdk_Commitment.thy ===== *)
theory Sdk_Commitment
  imports Sdk_Mutations Bridge_Event
begin

text \<open>
  Commit and reveal: \<open>computeCommitmentHash\<close> of \<open>sdk/src/bridge.ts\<close>, and the hash the contract recomputes in
  \<open>reveal_fund\<close> (\<open>contracts/onboarding-bridge/src/lib.rs\<close>) from the arguments it is called with.
\<close>

record commitment_hash_options =
  ch_contractId :: string
  ch_networkPassphrase :: string
  ch_source :: string
  ch_target :: string
  ch_asset :: string
  ch_amount :: js_int
  ch_nonce :: js_int

definition buffered :: "string + 'a \<Rightarrow> thrown + 'a" where
  "buffered x = (case x of Inl m \<Rightarrow> Inl (error_of m) | Inr a \<Rightarrow> Inr a)"

definition commitment_preimage :: "platform \<Rightarrow> commitment_hash_options \<Rightarrow> thrown + byte list" where
  "commitment_preimage K opts =
     bind_sum (to_bigint (ch_amount opts)) (\<lambda>amount.
     bind_sum (to_bigint (ch_nonce opts)) (\<lambda>nonce.
     if amount \<le> 0 \<or> amount > 2 ^ 127 - 1 then Inl (error_of ''amount must fit a positive i128'')
     else if nonce < 0 \<or> nonce > 2 ^ 64 - 1 then Inl (error_of ''nonce must fit a u64'')
     else
       bind_sum (buffered (write_biguint64_be (amount div 2 ^ 64))) (\<lambda>hi.
       bind_sum (buffered (write_biguint64_be (amount mod 2 ^ 64))) (\<lambda>lo.
       bind_sum (buffered (write_biguint64_be nonce)) (\<lambda>nonceBytes.
       Inr (''onboarding_bridge_commitment_v1'' @ ch_contractId opts @ sha256 K (ch_networkPassphrase opts)
            @ ch_source opts @ ch_target opts @ ch_asset opts @ (hi @ lo) @ nonceBytes))))))"

definition computeCommitmentHash :: "platform \<Rightarrow> commitment_hash_options \<Rightarrow> thrown + string" where
  "computeCommitmentHash K opts =
     bind_sum (commitment_preimage K opts) (\<lambda>bytes. Inr (hex_of_bytes (sha256 K bytes)))"

text \<open>The hash of \<open>reveal_fund\<close>, over the text of the addresses, the network id of the ledger, and the big-endian
  bytes of the \<open>i128\<close> amount and the \<open>u64\<close> nonce.\<close>

definition reveal_hash ::
  "platform \<Rightarrow> string \<Rightarrow> byte list \<Rightarrow> string \<Rightarrow> string \<Rightarrow> string \<Rightarrow> int \<Rightarrow> nat \<Rightarrow> byte list" where
  "reveal_hash K contract network_id source target asset amount nonce =
     sha256 K (''onboarding_bridge_commitment_v1'' @ contract @ network_id @ source @ target @ asset
               @ i128_be_bytes amount @ be_bytes 8 nonce)"

lemma computeCommitmentHash_Inr:
  assumes "computeCommitmentHash K opts = Inr hash"
  obtains amount nonce where "BigInt (ch_amount opts) = Inr amount" "0 < amount" "amount < 2 ^ 127"
    "BigInt (ch_nonce opts) = Inr nonce" "0 \<le> nonce" "nonce < 2 ^ 64"
    "hash = hex_of_bytes (reveal_hash K (ch_contractId opts) (sha256 K (ch_networkPassphrase opts))
       (ch_source opts) (ch_target opts) (ch_asset opts) amount (nat nonce))"
proof -
  from assms obtain amount nonce hi lo nb where
    parse: "BigInt (ch_amount opts) = Inr amount" "BigInt (ch_nonce opts) = Inr nonce"
    and range: "0 < amount" "amount < 2 ^ 127" "0 \<le> nonce" "nonce < 2 ^ 64"
    and bytes: "write_biguint64_be (amount div 2 ^ 64) = Inr hi" "write_biguint64_be (amount mod 2 ^ 64) = Inr lo"
      "write_biguint64_be nonce = Inr nb"
    and hash: "hash = hex_of_bytes (sha256 K (''onboarding_bridge_commitment_v1'' @ ch_contractId opts
        @ sha256 K (ch_networkPassphrase opts) @ ch_source opts @ ch_target opts @ ch_asset opts @ (hi @ lo) @ nb))"
    by (auto simp: computeCommitmentHash_def commitment_preimage_def buffered_def to_bigint_def bind_sum_eq_Inr
        split: sum.splits if_splits)
  define a where "a = nat amount"
  with range have a: "amount = int a" "a \<le> nat i128_max" by (auto simp: i128_max_def)
  have "hi @ lo = i128_be_bytes amount"
    using bytes(1,2) amount_halves [OF a(2)] i128_be_bytes_halves [OF a(2)] by (simp add: a(1))
  moreover have "nb = be_bytes 8 (nat nonce)"
    using bytes(3) by (simp add: write_biguint64_be_def split: if_splits)
  ultimately show ?thesis
    using parse range hash by (intro that [of amount nonce]) (simp_all add: reveal_hash_def)
qed

lemma strip_hex_prefix_hex: "list_all is_hex s \<Longrightarrow> strip_hex_prefix s = s"
proof -
  assume "list_all is_hex s"
  moreover have "\<not> is_hex CHR ''x''" by code_simp
  ultimately have "\<not> prefix ''0x'' s" by (auto simp: prefix_def)
  then show ?thesis by (simp add: strip_hex_prefix_def)
qed

text \<open>What an accepted commitment and an accepted revelation sent.\<close>

lemma commitFund_pending:
  assumes "quiet_sdk sdk" "commitFund sdk opts key w = (Inr res, w')" "tr_status res = Pending"
  obtains account deadline p h where
    "pv_prepareTransaction (sd_provider sdk) h (build_tx sdk account ''commit_fund''
       [ScAddress (co_source opts), ScAddress (co_target opts), ScAddress (co_asset opts),
        ScBytes (bytes_of_hex (strip_hex_prefix (co_amountHash opts))), deadline]) = Inr p"
    "SendTransaction \<lparr>en_prepared = p, en_signers = [key]\<rparr> \<in> set (calls w')"
  using pending_unattended_call [OF assms(1) assms(2)[unfolded commitFund_def Let_def] assms(3)] that
  by (auto simp: bind_sum_eq_Inr)

lemma revealFund_pending:
  assumes "quiet_sdk sdk" "faithful_stellar (sd_stellar sdk)"
    and "revealFund sdk opts key w = (Inr res, w')" "tr_status res = Pending"
  obtains account cid amount nonce p h where
    "BigInt (IntString (rv_amount opts)) = Inr amount" "BigInt (rv_nonce opts) = Inr nonce"
    "pv_prepareTransaction (sd_provider sdk) h (build_tx sdk account ''reveal_fund''
       [cid, ScAddress (rv_source opts), ScAddress (rv_target opts), ScAddress (rv_asset opts),
        ScInt ''i128'' amount, ScInt ''u64'' nonce]) = Inr p"
    "SendTransaction \<lparr>en_prepared = p, en_signers = [key]\<rparr> \<in> set (calls w')"
proof -
  let ?st = "sd_stellar sdk"
  from pending_unattended_call [OF assms(1) assms(3)[unfolded revealFund_def Let_def] assms(4)]
  obtain account vs p h where sent: "all_of [bigIntScVal ?st ''u64'' (rv_commitmentId opts), addressScVal ?st (rv_source opts),
      addressScVal ?st (rv_target opts), addressScVal ?st (rv_asset opts),
      bigIntScVal ?st ''i128'' (IntString (rv_amount opts)), bigIntScVal ?st ''u64'' (rv_nonce opts)] = Inr vs"
    "pv_prepareTransaction (sd_provider sdk) h (build_tx sdk account ''reveal_fund'' vs) = Inr p"
    "SendTransaction \<lparr>en_prepared = p, en_signers = [key]\<rparr> \<in> set (calls w')" by blast
  from sent(1) obtain cid a n where vs: "bigIntScVal ?st ''i128'' (IntString (rv_amount opts)) = Inr a"
    "bigIntScVal ?st ''u64'' (rv_nonce opts) = Inr n"
    "vs = [cid, ScAddress (rv_source opts), ScAddress (rv_target opts), ScAddress (rv_asset opts), a, n]"
    by (auto simp: bind_sum_eq_Inr)
  from faithful_int [OF assms(2) vs(1)] faithful_int [OF assms(2) vs(2)] sent vs(3) show ?thesis
    by (auto intro: that)
qed

text \<open>C27: A commitment made through the SDK can be revealed through the SDK: if the hash of
  \<open>computeCommitmentHash\<close> is committed with \<open>commitFund\<close> and the same payment is revealed with
  \<open>revealFund\<close>, both reported pending, then the 32 bytes the contract stored are the hash it recomputes
  from the very arguments of \<open>reveal_fund\<close>, for a payment with a positive \<open>i128\<close> amount and a \<open>u64\<close> nonce.\<close>

theorem revealed_hash_is_committed_hash:
  assumes "computeCommitmentHash K opts = Inr hash"
    and "ch_contractId opts = sd_contractId sdk" "ch_networkPassphrase opts = sd_networkPassphrase sdk"
    and "quiet_sdk sdk" "faithful_stellar (sd_stellar sdk)" "digest_32 K"
    and "commitFund sdk copts key w = (Inr res, w')" "tr_status res = Pending" "co_amountHash copts = hash"
    and "revealFund sdk ropts key2 v = (Inr res2, v')" "tr_status res2 = Pending"
    and "rv_source ropts = ch_source opts" "rv_target ropts = ch_target opts" "rv_asset ropts = ch_asset opts"
    and "BigInt (IntString (rv_amount ropts)) = BigInt (ch_amount opts)" "BigInt (rv_nonce ropts) = BigInt (ch_nonce opts)"
  shows "\<exists>committed account deadline p h account2 cid amount nonce p2 h2.
      length committed = 32
    \<and> pv_prepareTransaction (sd_provider sdk) h (build_tx sdk account ''commit_fund''
         [ScAddress (co_source copts), ScAddress (co_target copts), ScAddress (co_asset copts),
          ScBytes committed, deadline]) = Inr p
    \<and> SendTransaction \<lparr>en_prepared = p, en_signers = [key]\<rparr> \<in> set (calls w')
    \<and> pv_prepareTransaction (sd_provider sdk) h2 (build_tx sdk account2 ''reveal_fund''
         [cid, ScAddress (rv_source ropts), ScAddress (rv_target ropts), ScAddress (rv_asset ropts),
          ScInt ''i128'' amount, ScInt ''u64'' nonce]) = Inr p2
    \<and> SendTransaction \<lparr>en_prepared = p2, en_signers = [key2]\<rparr> \<in> set (calls v')
    \<and> reveal_hash K (sd_contractId sdk) (sha256 K (sd_networkPassphrase sdk))
        (rv_source ropts) (rv_target ropts) (rv_asset ropts) amount (nat nonce) = committed
    \<and> 0 < amount \<and> amount < 2 ^ 127 \<and> 0 \<le> nonce \<and> nonce < 2 ^ 64"
proof -
  from computeCommitmentHash_Inr [OF assms(1)] obtain amount nonce where h:
    "BigInt (ch_amount opts) = Inr amount" "0 < amount" "amount < 2 ^ 127"
    "BigInt (ch_nonce opts) = Inr nonce" "0 \<le> nonce" "nonce < 2 ^ 64"
    "hash = hex_of_bytes (reveal_hash K (ch_contractId opts) (sha256 K (ch_networkPassphrase opts))
       (ch_source opts) (ch_target opts) (ch_asset opts) amount (nat nonce))" by blast
  let ?committed = "reveal_hash K (sd_contractId sdk) (sha256 K (sd_networkPassphrase sdk))
        (rv_source ropts) (rv_target ropts) (rv_asset ropts) amount (nat nonce)"
  have committed: "bytes_of_hex (strip_hex_prefix (co_amountHash copts)) = ?committed"
    using assms(2,3,9,12-14) h(7) by (simp add: strip_hex_prefix_hex)
  from commitFund_pending [OF assms(4,7,8)] obtain account deadline p h1 where c:
    "pv_prepareTransaction (sd_provider sdk) h1 (build_tx sdk account ''commit_fund''
       [ScAddress (co_source copts), ScAddress (co_target copts), ScAddress (co_asset copts),
        ScBytes ?committed, deadline]) = Inr p"
    "SendTransaction \<lparr>en_prepared = p, en_signers = [key]\<rparr> \<in> set (calls w')"
    unfolding committed by metis
  obtain account2 cid amount2 nonce2 p2 h2 where r:
    "BigInt (IntString (rv_amount ropts)) = Inr amount2" "BigInt (rv_nonce ropts) = Inr nonce2"
    "pv_prepareTransaction (sd_provider sdk) h2 (build_tx sdk account2 ''reveal_fund''
       [cid, ScAddress (rv_source ropts), ScAddress (rv_target ropts), ScAddress (rv_asset ropts),
        ScInt ''i128'' amount2, ScInt ''u64'' nonce2]) = Inr p2"
    "SendTransaction \<lparr>en_prepared = p2, en_signers = [key2]\<rparr> \<in> set (calls v')"
    by (rule revealFund_pending [OF assms(4,5,10,11)])
  have same: "amount2 = amount" "nonce2 = nonce" using h(1,4) r(1,2) assms(15,16) by auto
  have "length ?committed = 32" using assms(6) by (simp add: reveal_hash_def digest_32_def)
  with c r(3,4)[unfolded same] h(2,3,5,6) show ?thesis by blast
qed

definition sample_commitment :: commitment_hash_options where
  "sample_commitment =
     \<lparr>ch_contractId = ''CB'', ch_networkPassphrase = ''net'', ch_source = ''GA'', ch_target = ''CT'', ch_asset = ''CA'',
      ch_amount = IntString ''12'', ch_nonce = IntBig 3\<rparr>"

definition sample_hash :: string where
  "sample_hash = hex_of_bytes (reveal_hash sample_platform ''CB'' (sha256 sample_platform ''net'') ''GA'' ''CT'' ''CA'' 12 3)"

definition sample_commit :: commit_options where
  "sample_commit = \<lparr>co_source = ''GA'', co_target = ''CT'', co_asset = ''CA'', co_amountHash = sample_hash, co_deadline = IntBig 9\<rparr>"

definition sample_reveal :: reveal_options where
  "sample_reveal = \<lparr>rv_commitmentId = IntBig 0, rv_source = ''GA'', rv_target = ''CT'', rv_asset = ''CA'',
                    rv_amount = ''12'', rv_nonce = IntBig 3\<rparr>"

lemma sample_commitment_hash: "computeCommitmentHash sample_platform sample_commitment = Inr sample_hash"
proof -
  have "BigInt (IntString ''12'') = Inr 12" by code_simp
  moreover have "write_biguint64_be 0 = Inr (be_bytes 8 0)" "write_biguint64_be 12 = Inr (be_bytes 8 12)"
    "write_biguint64_be 3 = Inr (be_bytes 8 3)" by (simp_all add: write_biguint64_be_def)
  moreover have "i128_be_bytes 12 = be_bytes 8 0 @ be_bytes 8 12"
    using i128_be_bytes_halves [of 12] by (simp add: i128_max_def)
  ultimately show ?thesis
    by (simp add: computeCommitmentHash_def commitment_preimage_def sample_commitment_def to_bigint_def BigInt_def
        buffered_def sample_hash_def reveal_hash_def)
qed

lemma sample_checks:
  "first_error (transfer_checks sample_stellar (co_source sample_commit) (co_target sample_commit) (co_asset sample_commit)) = Inr ()"
  "first_error (transfer_checks sample_stellar (rv_source sample_reveal) (rv_target sample_reveal) (rv_asset sample_reveal)) = Inr ()"
  by (simp_all add: first_error_Inr_iff transfer_checks_def assertAccountAddress_def assertContractAddress_def
      sample_commit_def sample_reveal_def sample_stellar_def)

lemma sample_commit_args:
  "\<exists>vs. all_of [addressScVal sample_stellar (co_source sample_commit), addressScVal sample_stellar (co_target sample_commit),
      addressScVal sample_stellar (co_asset sample_commit), Inr (ScBytes (bytes_of_hex (strip_hex_prefix (co_amountHash sample_commit)))),
      bigIntScVal sample_stellar ''u64'' (co_deadline sample_commit)] = Inr vs"
  "\<exists>vs. all_of [bigIntScVal sample_stellar ''u64'' (rv_commitmentId sample_reveal), addressScVal sample_stellar (rv_source sample_reveal),
      addressScVal sample_stellar (rv_target sample_reveal), addressScVal sample_stellar (rv_asset sample_reveal),
      bigIntScVal sample_stellar ''i128'' (IntString (rv_amount sample_reveal)), bigIntScVal sample_stellar ''u64'' (rv_nonce sample_reveal)] = Inr vs"
proof -
  have amount: "BigInt (IntString ''12'') = Inr 12" by code_simp
  show "\<exists>vs. all_of [addressScVal sample_stellar (co_source sample_commit), addressScVal sample_stellar (co_target sample_commit),
      addressScVal sample_stellar (co_asset sample_commit), Inr (ScBytes (bytes_of_hex (strip_hex_prefix (co_amountHash sample_commit)))),
      bigIntScVal sample_stellar ''u64'' (co_deadline sample_commit)] = Inr vs"
    by (simp add: sample_commit_def sample_stellar_def addressScVal_def bigIntScVal_def to_bigint_def BigInt_def in_range_def)
  show "\<exists>vs. all_of [bigIntScVal sample_stellar ''u64'' (rv_commitmentId sample_reveal), addressScVal sample_stellar (rv_source sample_reveal),
      addressScVal sample_stellar (rv_target sample_reveal), addressScVal sample_stellar (rv_asset sample_reveal),
      bigIntScVal sample_stellar ''i128'' (IntString (rv_amount sample_reveal)), bigIntScVal sample_stellar ''u64'' (rv_nonce sample_reveal)] = Inr vs"
    by (simp add: sample_reveal_def sample_stellar_def addressScVal_def bigIntScVal_def to_bigint_def amount
        in_range_def) (simp add: BigInt_def)
qed

lemma sample_pending:
  "\<exists>w'. commitFund sample_sdk sample_commit ''GK'' sample_world = (Inr \<lparr>tr_hash = ''h'', tr_status = Pending, tr_error = None\<rparr>, w')"
  "\<exists>w'. revealFund sample_sdk sample_reveal ''GK'' sample_world = (Inr \<lparr>tr_hash = ''h'', tr_status = Pending, tr_error = None\<rparr>, w')"
proof -
  from sample_commit_args(1) obtain vs where vs: "all_of [addressScVal sample_stellar (co_source sample_commit),
      addressScVal sample_stellar (co_target sample_commit), addressScVal sample_stellar (co_asset sample_commit),
      Inr (ScBytes (bytes_of_hex (strip_hex_prefix (co_amountHash sample_commit)))),
      bigIntScVal sample_stellar ''u64'' (co_deadline sample_commit)] = Inr vs" ..
  show "\<exists>w'. commitFund sample_sdk sample_commit ''GK'' sample_world = (Inr \<lparr>tr_hash = ''h'', tr_status = Pending, tr_error = None\<rparr>, w')"
    unfolding commitFund_def Let_def sample_sdk_simps vs by (rule exI, rule sample_mutation) (rule sample_checks)
  from sample_commit_args(2) obtain us where us: "all_of [bigIntScVal sample_stellar ''u64'' (rv_commitmentId sample_reveal),
      addressScVal sample_stellar (rv_source sample_reveal), addressScVal sample_stellar (rv_target sample_reveal),
      addressScVal sample_stellar (rv_asset sample_reveal), bigIntScVal sample_stellar ''i128'' (IntString (rv_amount sample_reveal)),
      bigIntScVal sample_stellar ''u64'' (rv_nonce sample_reveal)] = Inr us" ..
  show "\<exists>w'. revealFund sample_sdk sample_reveal ''GK'' sample_world = (Inr \<lparr>tr_hash = ''h'', tr_status = Pending, tr_error = None\<rparr>, w')"
    unfolding revealFund_def Let_def sample_sdk_simps us by (rule exI, rule sample_mutation) (rule sample_checks)
qed

lemma revealed_hash_is_committed_hash_witness:
  "\<exists>committed. length committed = 32
     \<and> (\<exists>amount nonce. reveal_hash sample_platform ''CB'' (sha256 sample_platform ''net'') ''GA'' ''CT'' ''CA'' amount nonce = committed
          \<and> 0 < amount)"
proof -
  from sample_pending obtain w1 w2 where
    run: "commitFund sample_sdk sample_commit ''GK'' sample_world = (Inr \<lparr>tr_hash = ''h'', tr_status = Pending, tr_error = None\<rparr>, w1)"
      "revealFund sample_sdk sample_reveal ''GK'' sample_world = (Inr \<lparr>tr_hash = ''h'', tr_status = Pending, tr_error = None\<rparr>, w2)"
    by auto
  have sdk: "sd_contractId sample_sdk = ''CB''" "sd_networkPassphrase sample_sdk = ''net''" by (simp_all add: sample_sdk_def)
  have "faithful_stellar (sd_stellar sample_sdk)" by (simp add: sample_stellar_faithful)
  from revealed_hash_is_committed_hash [OF sample_commitment_hash _ _ sample_quiet(2) this sample_digest_32 run(1) _ _ run(2)]
  show ?thesis by (auto simp: sample_commitment_def sample_commit_def sample_reveal_def sdk)
qed

end
