(* ===== verification/Js_Base64.thy ===== *)
theory Js_Base64
  imports Js_Runtime
begin

text \<open>
  \<open>Buffer.toString('base64')\<close> and \<open>Buffer.from(_, 'base64')\<close>, which accepts the URL-safe alphabet too and
  skips every character outside both.
\<close>

definition base64_char :: "nat \<Rightarrow> char" where
  "base64_char v =
     (if v < 26 then char_of (65 + v) else if v < 52 then char_of (71 + v)
      else if v < 62 then char_of (v - 4) else if v = 62 then CHR ''+'' else CHR ''/'')"

definition base64_val :: "char \<Rightarrow> nat option" where
  "base64_val c =
     (let n = of_char c :: nat in
      if 65 \<le> n \<and> n \<le> 90 then Some (n - 65)
      else if 97 \<le> n \<and> n \<le> 122 then Some (n - 71)
      else if 48 \<le> n \<and> n \<le> 57 then Some (n + 4)
      else if c = CHR ''+'' \<or> c = CHR ''-'' then Some 62
      else if c = CHR ''/'' \<or> c = CHR ''_'' then Some 63
      else None)"

fun sextets :: "nat list \<Rightarrow> nat list" where
  "sextets [] = []"
| "sextets [a] = [a div 4, a mod 4 * 16]"
| "sextets [a, b] = [a div 4, a mod 4 * 16 + b div 16, b mod 16 * 4]"
| "sextets (a # b # c # r) =
     a div 4 # (a mod 4 * 16 + b div 16) # (b mod 16 * 4 + c div 64) # c mod 64 # sextets r"

fun octets :: "nat list \<Rightarrow> nat list" where
  "octets (v # w # x # y # r) =
     (v * 4 + w div 16) # (w mod 16 * 16 + x div 4) # (x mod 4 * 64 + y) # octets r"
| "octets [v, w, x] = [v * 4 + w div 16, w mod 16 * 16 + x div 4]"
| "octets [v, w] = [v * 4 + w div 16]"
| "octets _ = []"

definition base64_encode :: "byte list \<Rightarrow> string" where
  "base64_encode bs =
     map base64_char (sextets (map of_char bs)) @ replicate ((3 - length bs mod 3) mod 3) CHR ''=''"

definition base64_decode :: "string \<Rightarrow> byte list" where
  "base64_decode s = map char_of (octets (List.map_filter base64_val s))"

lemma octets_sextets: "\<forall>n \<in> set ns. n < 256 \<Longrightarrow> octets (sextets ns) = ns"
  by (induction ns rule: sextets.induct) auto

lemma sextets_less: "\<forall>n \<in> set ns. n < 256 \<Longrightarrow> \<forall>v \<in> set (sextets ns). v < 64"
proof (induction ns rule: sextets.induct)
  case (4 a b c r)
  then have "a div 4 < 64" "b div 16 < 16" "c div 64 < 4" by auto
  then have "a mod 4 * 16 + b div 16 < 64" "b mod 16 * 4 + c div 64 < 64" by linarith+
  with 4 \<open>a div 4 < 64\<close> show ?case by simp
next
  case (3 a b)
  then have "a div 4 < 64" "b div 16 < 16" by auto
  then have "a mod 4 * 16 + b div 16 < 64" by linarith
  with \<open>a div 4 < 64\<close> show ?case by simp
qed auto

lemma base64_val_char: "v < 64 \<Longrightarrow> base64_val (base64_char v) = Some v"
proof -
  assume "v < 64"
  then consider "v < 26" | "26 \<le> v" "v < 52" | "52 \<le> v" "v < 62" | "v = 62" | "v = 63" by linarith
  then show ?thesis
  proof cases
    case 3
    define n where "n = v - 4"
    with 3 have n: "48 \<le> n" "n \<le> 57" "n + 4 = v" by linarith+
    have "base64_char v = char_of n" using 3 by (simp add: base64_char_def n_def)
    then show ?thesis using n by (simp add: base64_val_def)
  qed (simp_all add: base64_val_def base64_char_def)
qed

lemma map_filter_chars: "\<forall>v \<in> set vs. v < 64 \<Longrightarrow> List.map_filter base64_val (map base64_char vs) = vs"
  by (induction vs) (simp_all add: List.map_filter_simps base64_val_char)

lemma base64_roundtrip [simp]: "base64_decode (base64_encode bs) = bs"
proof -
  let ?ns = "map of_char bs :: nat list"
  have less: "\<forall>n \<in> set ?ns. n < 256" by (auto simp: nat_of_char_less_256)
  have pad: "List.map_filter base64_val (replicate n CHR ''='') = []" for n
    by (induction n) (simp_all add: List.map_filter_simps base64_val_def)
  have "List.map_filter base64_val (base64_encode bs) = sextets ?ns"
    using map_filter_chars [OF sextets_less [OF less]] pad
    by (simp add: base64_encode_def List.map_filter_def)
  with less show ?thesis by (simp add: base64_decode_def octets_sextets comp_def)
qed

end
