(* ===== verification/Sdk_Queries.thy ===== *)
theory Sdk_Queries
  imports Sdk_Mutations Js_Base64
begin

text \<open>
  The reading half of \<open>OnboardingBridgeSDK\<close> (\<open>sdk/src/bridge.ts\<close>): every method that simulates a call of
  a view function and decodes its return value, the paginated asset list, and the cost estimate.
  Reading methods throw; none of them submits anything.
\<close>

section \<open>Simulations\<close>

definition SIMULATION_SOURCE :: string where
  "SIMULATION_SOURCE = ''GAAAAAAAAAAAAAAAAAAAAAAAAAAAAAAAAAAAAAAAAAAAAAAAAAAAAWHF''"

text \<open>\<open>buildSimulationTxWithScVals\<close>, and \<open>buildSimulationTx\<close> of \<open>encoding.ts\<close>, which encodes the arguments
  first: a transaction of an account with sequence number zero that is never signed.\<close>

definition buildSimulationTxWithScVals :: "('p, 'u) sdk \<Rightarrow> string \<Rightarrow> scval list \<Rightarrow> transaction" where
  "buildSimulationTxWithScVals sdk m vs =
     \<lparr>tx_account = \<lparr>ac_id = SIMULATION_SOURCE, ac_sequence = 0\<rparr>, tx_fee = ''100'',
      tx_passphrase = sd_networkPassphrase sdk, tx_contract = sd_contractId sdk, tx_method = m,
      tx_args = vs, tx_timeout = or_else (sd_timeout sdk) 30\<rparr>"

definition buildSimulationTx :: "('p, 'u) sdk \<Rightarrow> string \<Rightarrow> thrown + js_arg list \<Rightarrow> thrown + transaction" where
  "buildSimulationTx sdk m args =
     bind_sum args (\<lambda>as. bind_sum (toScVals (sd_stellar sdk) as) (\<lambda>vs. Inr (buildSimulationTxWithScVals sdk m vs)))"

definition simulateTransaction :: "('p, 'u) sdk \<Rightarrow> thrown + transaction \<Rightarrow> ('p, 'u, simulation_reply) sdk_op" where
  "simulateTransaction sdk built = and_then (checked built) (\<lambda>tx.
     provider_call sdk ''simulateTransaction'' (\<lambda>h. pv_simulateTransaction (sd_provider sdk) h tx) (SimulateTransaction tx))"

text \<open>The transaction is built inside the function the hook wraps.\<close>

definition hooked_simulation :: "('p, 'u) sdk \<Rightarrow> string \<Rightarrow> thrown + transaction \<Rightarrow> ('p, 'u, simulation_reply) sdk_op" where
  "hooked_simulation sdk m built =
     withRpcHook sdk ''simulateTransaction'' (contract_method m) (simulateTransaction sdk built)"

text \<open>\<open>'error' in result && result.error\<close>, and the return value \<open>result.results?.[0]?.retval\<close>.\<close>

definition reply_error :: "simulation_reply \<Rightarrow> string option" where
  "reply_error result = (case si_error result of Some e \<Rightarrow> if e = [] then None else Some e | None \<Rightarrow> None)"

definition decode_reply :: "stellar \<Rightarrow> string \<Rightarrow> 'a \<Rightarrow> (js_native \<Rightarrow> thrown + 'a) \<Rightarrow> simulation_reply \<Rightarrow> thrown + 'a" where
  "decode_reply st failure absent decode result =
     (case reply_error result of
        Some e \<Rightarrow> Inl (error_of (failure @ '': '' @ e))
      | None \<Rightarrow>
          (case si_retval result of
             None \<Rightarrow> Inr absent
           | Some v \<Rightarrow> bind_sum (st_toNative st v) decode))"

definition view_call ::
  "('p, 'u) sdk \<Rightarrow> (thrown + unit) list \<Rightarrow> string \<Rightarrow> thrown + transaction \<Rightarrow> (simulation_reply \<Rightarrow> thrown + 'a)
    \<Rightarrow> ('p, 'u, 'a) sdk_op" where
  "view_call sdk checks m built decode =
     and_then (checked (first_error checks)) (\<lambda>_.
     and_then (hooked_simulation sdk m built) (\<lambda>result. checked (decode result)))"

section \<open>View methods\<close>

definition as_number :: "js_native \<Rightarrow> thrown + int option" where
  "as_number v = Inr (native_number v)"

definition as_bool :: "js_native \<Rightarrow> thrown + bool" where
  "as_bool v = Inr (native_truthy v)"

text \<open>\<open>v.toString()\<close> throws on null.\<close>

definition as_text :: "js_native \<Rightarrow> thrown + string" where
  "as_text v = (if v = NNull then Inl (error_of ''Cannot read properties of null'') else Inr (native_text v))"

definition as_optional_text :: "js_native \<Rightarrow> thrown + string option" where
  "as_optional_text v = Inr (if native_truthy v then Some (native_text v) else None)"

definition as_optional :: "js_native \<Rightarrow> thrown + js_native option" where
  "as_optional v = Inr (Some v)"

definition getFee :: "('p, 'u) sdk \<Rightarrow> ('p, 'u, int option) sdk_op" where
  "getFee sdk = view_call sdk [] ''query_fee_bps'' (buildSimulationTx sdk ''query_fee_bps'' (Inr []))
     (decode_reply (sd_stellar sdk) ''Failed to get fee'' (Some 0) as_number)"

definition queryReferralRate :: "('p, 'u) sdk \<Rightarrow> ('p, 'u, int option) sdk_op" where
  "queryReferralRate sdk = view_call sdk [] ''query_referral_rate'' (buildSimulationTx sdk ''query_referral_rate'' (Inr []))
     (decode_reply (sd_stellar sdk) ''Failed to get referral rate'' (Some 0) as_number)"

definition getFeeCollector :: "('p, 'u) sdk \<Rightarrow> ('p, 'u, string) sdk_op" where
  "getFeeCollector sdk = view_call sdk [] ''query_fee_collector'' (buildSimulationTx sdk ''query_fee_collector'' (Inr []))
     (decode_reply (sd_stellar sdk) ''Failed to get fee collector'' [] as_text)"

definition getAdmin :: "('p, 'u) sdk \<Rightarrow> ('p, 'u, string) sdk_op" where
  "getAdmin sdk = view_call sdk [] ''query_admin'' (buildSimulationTx sdk ''query_admin'' (Inr []))
     (decode_reply (sd_stellar sdk) ''Failed to get admin'' [] as_text)"

definition getCAddressBalance :: "('p, 'u) sdk \<Rightarrow> string \<Rightarrow> string \<Rightarrow> ('p, 'u, string) sdk_op" where
  "getCAddressBalance sdk cAddress asset =
     (let st = sd_stellar sdk in
      view_call sdk [assertContractAddress st cAddress ''cAddress'', assertContractAddress st asset ''asset'']
        ''query_balance''
        (buildSimulationTx sdk ''query_balance'' (all_of [newAddress st cAddress, newAddress st asset]))
        (decode_reply st ''Failed to get balance'' ''0'' as_text))"

definition queryCommitment :: "('p, 'u) sdk \<Rightarrow> js_int \<Rightarrow> ('p, 'u, js_native option) sdk_op" where
  "queryCommitment sdk cid =
     view_call sdk [] ''query_commitment''
       (bind_sum (bigIntScVal (sd_stellar sdk) ''u64'' cid) (\<lambda>v. Inr (buildSimulationTxWithScVals sdk ''query_commitment'' [v])))
       (decode_reply (sd_stellar sdk) ''Failed to get commitment'' None as_optional)"

text \<open>\<open>/Error\(Contract,\s*#?14\)/.test(error)\<close>: contract error 14 means that no loyalty token is set.\<close>

definition error_14_here :: "string \<Rightarrow> bool" where
  "error_14_here s =
     (prefix ''Error(Contract,'' s \<and>
       (let r = trim_start (drop (length ''Error(Contract,'') s) in prefix ''14)'' r \<or> prefix ''#14)'' r))"

fun is_error_14 :: "string \<Rightarrow> bool" where
  "is_error_14 [] = False"
| "is_error_14 (c # s) = (error_14_here (c # s) \<or> is_error_14 s)"

record loyalty_token =
  lt_token :: js_native
  lt_amount_per_fund :: string

definition as_loyalty_token :: "js_native \<Rightarrow> thrown + loyalty_token option" where
  "as_loyalty_token v =
     (case v of
        NList (t # a # _) \<Rightarrow> bind_sum (as_text a) (\<lambda>s. Inr (Some \<lparr>lt_token = t, lt_amount_per_fund = s\<rparr>))
      | NText (t # a # _) \<Rightarrow> Inr (Some \<lparr>lt_token = NText [t], lt_amount_per_fund = [a]\<rparr>)
      | NBytes (t # a # _) \<Rightarrow>
          Inr (Some \<lparr>lt_token = NNum (of_char t), lt_amount_per_fund = dec_of_nat (of_char a)\<rparr>)
      | NList _ \<Rightarrow> Inl (error_of ''Cannot read properties of undefined'')
      | NText _ \<Rightarrow> Inl (error_of ''Cannot read properties of undefined'')
      | NBytes _ \<Rightarrow> Inl (error_of ''Cannot read properties of undefined'')
      | _ \<Rightarrow> Inl (error_of ''object is not iterable''))"

definition queryLoyaltyToken :: "('p, 'u) sdk \<Rightarrow> ('p, 'u, loyalty_token option) sdk_op" where
  "queryLoyaltyToken sdk = view_call sdk [] ''query_loyalty_token'' (buildSimulationTx sdk ''query_loyalty_token'' (Inr []))
     (\<lambda>result. if (case reply_error result of Some e \<Rightarrow> is_error_14 e | None \<Rightarrow> False) then Inr None
               else decode_reply (sd_stellar sdk) ''Failed to get loyalty token'' None as_loyalty_token result)"

definition queryFeeTiers :: "('p, 'u) sdk \<Rightarrow> ('p, 'u, js_native) sdk_op" where
  "queryFeeTiers sdk = view_call sdk [] ''query_fee_tiers'' (buildSimulationTx sdk ''query_fee_tiers'' (Inr []))
     (decode_reply (sd_stellar sdk) ''Failed to get fee tiers'' (NList []) Inr)"

definition queryCurrentTier :: "('p, 'u) sdk \<Rightarrow> string \<Rightarrow> string \<Rightarrow> ('p, 'u, js_native option) sdk_op" where
  "queryCurrentTier sdk source asset =
     (let st = sd_stellar sdk in
      view_call sdk [assertAccountAddress st source ''source'', assertContractAddress st asset ''asset'']
        ''query_current_tier''
        (buildSimulationTx sdk ''query_current_tier'' (all_of [newAddress st source, newAddress st asset]))
        (decode_reply st ''Failed to get current tier'' None as_optional))"

text \<open>\<open>getFeeBalance\<close> and \<open>getContractBalance\<close> ask for the balance of one asset.\<close>

definition asset_balance :: "('p, 'u) sdk \<Rightarrow> string \<Rightarrow> string \<Rightarrow> string \<Rightarrow> ('p, 'u, string) sdk_op" where
  "asset_balance sdk m failure asset =
     (let st = sd_stellar sdk in
      view_call sdk [assertContractAddress st asset ''asset''] m
        (buildSimulationTx sdk m (all_of [newAddress st asset])) (decode_reply st failure ''0'' as_text))"

definition getFeeBalance :: "('p, 'u) sdk \<Rightarrow> string \<Rightarrow> ('p, 'u, string) sdk_op" where
  "getFeeBalance sdk asset = asset_balance sdk ''query_accrued_fees'' ''Failed to get fee balance'' asset"

definition getContractBalance :: "('p, 'u) sdk \<Rightarrow> string \<Rightarrow> ('p, 'u, string) sdk_op" where
  "getContractBalance sdk asset = asset_balance sdk ''query_contract_balance'' ''Failed to get contract balance'' asset"

text \<open>The entries of the returned map, whose keys are distinct, in its order.\<close>

definition as_balances :: "js_native \<Rightarrow> thrown + (string \<times> string) list" where
  "as_balances v =
     (case v of
        NDict es \<Rightarrow> map_sum_list (\<lambda>(k, b). bind_sum (as_text b) (\<lambda>s. Inr (k, s))) es
      | NNull \<Rightarrow> Inl (error_of ''Cannot convert undefined or null to object'')
      | NList xs \<Rightarrow> map_sum_list (\<lambda>(i, b). bind_sum (as_text b) (\<lambda>s. Inr (dec_of_nat i, s))) (List.enumerate 0 xs)
      | NText s \<Rightarrow> Inr (map (\<lambda>(i, c). (dec_of_nat i, [c])) (List.enumerate 0 s))
      | NBytes bs \<Rightarrow> Inr (map (\<lambda>(i, b). (dec_of_nat i, dec_of_nat (of_char b))) (List.enumerate 0 bs))
      | _ \<Rightarrow> Inr [])"

definition getAllBalances :: "('p, 'u) sdk \<Rightarrow> string list \<Rightarrow> ('p, 'u, (string \<times> string) list) sdk_op" where
  "getAllBalances sdk assets =
     (let st = sd_stellar sdk in
      view_call sdk [check_each (\<lambda>i a. assertContractAddress st a (indexed ''assets'' i)) assets]
        ''query_all_balances''
        (buildSimulationTx sdk ''query_all_balances''
          (bind_sum (map_sum_list (newAddress st) assets) (\<lambda>as. Inr [ArgArray as])))
        (decode_reply st ''Failed to get all balances'' [] as_balances))"

definition isInitialized :: "('p, 'u) sdk \<Rightarrow> ('p, 'u, bool) sdk_op" where
  "isInitialized sdk = view_call sdk [] ''query_is_initialized'' (buildSimulationTx sdk ''query_is_initialized'' (Inr []))
     (decode_reply (sd_stellar sdk) ''Failed to check initialization'' False as_bool)"

definition getPendingAdmin :: "('p, 'u) sdk \<Rightarrow> ('p, 'u, string option) sdk_op" where
  "getPendingAdmin sdk = view_call sdk [] ''query_pending_admin'' (buildSimulationTx sdk ''query_pending_admin'' (Inr []))
     (decode_reply (sd_stellar sdk) ''Failed to get pending admin'' None as_optional_text)"

definition getPendingFeeCollector :: "('p, 'u) sdk \<Rightarrow> ('p, 'u, string option) sdk_op" where
  "getPendingFeeCollector sdk =
     view_call sdk [] ''query_pending_fee_collector'' (buildSimulationTx sdk ''query_pending_fee_collector'' (Inr []))
       (decode_reply (sd_stellar sdk) ''Failed to get pending fee collector'' None as_optional_text)"

definition queryRelayerThreshold :: "('p, 'u) sdk \<Rightarrow> ('p, 'u, int option) sdk_op" where
  "queryRelayerThreshold sdk =
     view_call sdk [] ''query_relayer_threshold'' (buildSimulationTx sdk ''query_relayer_threshold'' (Inr []))
       (decode_reply (sd_stellar sdk) ''Failed to query relayer threshold'' (Some 0) as_number)"

definition queryIsRelayer :: "('p, 'u) sdk \<Rightarrow> string \<Rightarrow> ('p, 'u, bool) sdk_op" where
  "queryIsRelayer sdk pubkeyHex =
     view_call sdk [] ''query_is_relayer''
       (buildSimulationTx sdk ''query_is_relayer'' (Inr [ArgBytes (bytes_of_hex pubkeyHex)]))
       (decode_reply (sd_stellar sdk) ''Failed to query relayer'' False as_bool)"

text \<open>\<open>isBlocked\<close> and \<open>isAllowlisted\<close> ask whether an address is on a list.\<close>

definition membership :: "('p, 'u) sdk \<Rightarrow> string \<Rightarrow> string \<Rightarrow> string \<Rightarrow> ('p, 'u, bool) sdk_op" where
  "membership sdk m failure address =
     (let st = sd_stellar sdk in
      view_call sdk [assertAddress st address ''address''] m
        (buildSimulationTx sdk m (all_of [newAddress st address])) (decode_reply st failure False as_bool))"

definition isBlocked :: "('p, 'u) sdk \<Rightarrow> string \<Rightarrow> ('p, 'u, bool) sdk_op" where
  "isBlocked sdk address = membership sdk ''query_is_blocked'' ''Failed to query blocklist status'' address"

definition isAllowlisted :: "('p, 'u) sdk \<Rightarrow> string \<Rightarrow> ('p, 'u, bool) sdk_op" where
  "isAllowlisted sdk address = membership sdk ''query_is_allowlisted'' ''Failed to query allowlist status'' address"

section \<open>Records returned without the hook\<close>

text \<open>\<open>native.x?.toString?.() ?? String(native.x)\<close>.\<close>

definition field_text :: "js_native \<Rightarrow> string \<Rightarrow> string" where
  "field_text v k = (case native_field v k of None \<Rightarrow> ''undefined'' | Some x \<Rightarrow> native_text x)"

definition field_number :: "js_native \<Rightarrow> string \<Rightarrow> string \<Rightarrow> int option" where
  "field_number v k k' = Option.bind (nullish_or (native_field v k) (native_field v k')) native_number"

record timelock_entry =
  te_source :: string
  te_target :: string
  te_asset :: string
  te_amount :: string
  te_releaseTime :: "int option"
  te_cliffTime :: "int option"
  te_claimed :: bool

definition as_timelock_entry :: "js_native \<Rightarrow> thrown + timelock_entry option" where
  "as_timelock_entry v =
     (if v = NNull then Inl (error_of ''Cannot read properties of null'')
      else Inr (Some
        \<lparr>te_source = field_text v ''source'', te_target = field_text v ''target'', te_asset = field_text v ''asset'',
         te_amount = field_text v ''amount'', te_releaseTime = field_number v ''release_time'' ''releaseTime'',
         te_cliffTime = field_number v ''cliff_time'' ''cliffTime'',
         te_claimed = (case native_field v ''claimed'' of Some x \<Rightarrow> native_truthy x | None \<Rightarrow> False)\<rparr>))"

definition queryTimelocked :: "('p, 'u) sdk \<Rightarrow> js_int \<Rightarrow> ('p, 'u, timelock_entry option) sdk_op" where
  "queryTimelocked sdk tid =
     and_then (simulateTransaction sdk
       (bind_sum (bigIntScVal (sd_stellar sdk) ''u64'' tid) (\<lambda>v. Inr (buildSimulationTxWithScVals sdk ''query_timelocked'' [v]))))
     (\<lambda>result. checked (decode_reply (sd_stellar sdk) ''Failed to query timelocked entry'' None as_timelock_entry result))"

text \<open>A buffer is written in hexadecimal; \<open>toString('hex')\<close> of a number is a \<open>RangeError\<close>.\<close>

definition bytesToHex :: "js_native option \<Rightarrow> thrown + string" where
  "bytesToHex value =
     (case value of
        None \<Rightarrow> Inr []
      | Some (NText s) \<Rightarrow> Inr s
      | Some (NBytes bs) \<Rightarrow> Inr (hex_of_bytes bs)
      | Some v \<Rightarrow>
          if \<not> native_truthy v then Inr []
          else (case v of
                  NNum _ \<Rightarrow> Inl (error_of ''toString() radix must be between 2 and 36'')
                | NBig _ \<Rightarrow> Inl (error_of ''toString() radix must be between 2 and 36'')
                | _ \<Rightarrow> Inr (native_text v)))"

record pending_upgrade =
  pu_newWasmHash :: string
  pu_executableAfterLedger :: "int option"
  pu_expiresAfterLedger :: "int option"

definition as_pending_upgrade :: "js_native \<Rightarrow> thrown + pending_upgrade option" where
  "as_pending_upgrade v =
     (if \<not> native_truthy v then Inr None
      else bind_sum (bytesToHex (nullish_or (native_field v ''new_wasm_hash'') (native_field v ''newWasmHash''))) (\<lambda>h.
        Inr (Some \<lparr>pu_newWasmHash = h,
                   pu_executableAfterLedger = field_number v ''executable_after_ledger'' ''executableAfterLedger'',
                   pu_expiresAfterLedger = field_number v ''expires_after_ledger'' ''expiresAfterLedger''\<rparr>)))"

definition queryPendingUpgrade :: "('p, 'u) sdk \<Rightarrow> ('p, 'u, pending_upgrade option) sdk_op" where
  "queryPendingUpgrade sdk =
     and_then (simulateTransaction sdk (buildSimulationTx sdk ''query_pending_upgrade'' (Inr [])))
     (\<lambda>result. checked (decode_reply (sd_stellar sdk) ''Failed to query pending upgrade'' None as_pending_upgrade result))"

section \<open>The list of assets, page by page\<close>

text \<open>A cursor is the offset of the next page in decimal, in base 64.\<close>

definition encodeCursor :: "int \<Rightarrow> string" where
  "encodeCursor offset = base64_encode (dec_of_int offset)"

definition decodeCursor :: "string option \<Rightarrow> int" where
  "decodeCursor cursor =
     (case cursor of
        None \<Rightarrow> 0
      | Some c \<Rightarrow>
          if c = [] then 0
          else (case parse_int 10 (utf8_to_string (base64_decode c)) of
                  Some n \<Rightarrow> if 0 \<le> n then n else 0
                | None \<Rightarrow> 0))"

record 'a paginated_result =
  pr_items :: "'a list"
  pr_cursor :: "string option"
  pr_hasMore :: bool

definition as_asset_list :: "js_native \<Rightarrow> thrown + string list" where
  "as_asset_list v =
     (case v of NList xs \<Rightarrow> map_sum_list as_text xs | _ \<Rightarrow> Inl (error_of ''map is not a function''))"

definition page_of :: "int \<Rightarrow> int \<Rightarrow> string list \<Rightarrow> string paginated_result" where
  "page_of offset effectiveLimit page =
     (let full = int (length page) = effectiveLimit in
      \<lparr>pr_items = page,
       pr_cursor = (if full then Some (encodeCursor (offset + int (length page))) else None),
       pr_hasMore = full\<rparr>)"

text \<open>\<open>limit\<close> is \<open>Some None\<close> for a number that is not an integer.  The two arguments are contract values
  already; what becomes of a contract value in \<open>toSingleScVal\<close> is up to the library.\<close>

definition getWhitelistedAssets ::
  "('p, 'u) sdk \<Rightarrow> string option \<Rightarrow> int option option \<Rightarrow> ('p, 'u, string paginated_result) sdk_op" where
  "getWhitelistedAssets sdk cursor limit =
     (let st = sd_stellar sdk in
      case or_else limit (Some 20) of
        None \<Rightarrow> throw (error_of ''limit must be a positive integer'')
      | Some lim \<Rightarrow>
          if lim < 1 then throw (error_of ''limit must be a positive integer'')
          else
            let effectiveLimit = min lim 100; offset = decodeCursor cursor in
            and_then (view_call sdk [] ''query_whitelisted_assets''
                (bind_sum (all_of [numberScVal st ''u32'' offset, numberScVal st ''u32'' effectiveLimit])
                  (\<lambda>vs. buildSimulationTx sdk ''query_whitelisted_assets'' (Inr (map ArgScVal vs))))
                (decode_reply st ''Failed to query whitelisted assets'' [] as_asset_list))
              (\<lambda>page. give (page_of offset effectiveLimit page)))"

lemma decode_encode_cursor:
  assumes "js_finite (int n) = Some (int n)"
  shows "decodeCursor (Some (encodeCursor (int n))) = int n"
proof -
  have "base64_encode (dec_of_nat n) \<noteq> []"
  proof
    assume empty: "base64_encode (dec_of_nat n) = []"
    have "dec_of_nat n = base64_decode (base64_encode (dec_of_nat n))" by simp
    also have "\<dots> = []" by (simp only: empty) (simp add: base64_decode_def List.map_filter_simps)
    finally have "dec_of_nat n = []" .
    then show False using parse_int_dec_of_nat [of n] assms by (simp add: parse_int_def)
  qed
  moreover have "is_ascii (dec_of_nat n)"
    using matches_digits_dec_of_nat [of n] is_dec_ascii
    by (auto simp: is_ascii_def matches_digits_def list_all_iff)
  ultimately show ?thesis
    using assms by (simp add: decodeCursor_def encodeCursor_def dec_of_int_def parse_int_dec_of_nat)
qed

section \<open>The cost estimate\<close>

record cost_estimate =
  ct_fee :: string
  ct_inclusionFee :: string
  ct_totalFee :: string
  ct_minBalance :: string
  ct_resourceFee :: string
  ct_executionTimeMs :: int

definition BASE_RESERVE_STROOPS :: int where "BASE_RESERVE_STROOPS = 5000000"

text \<open>The provider's \<open>pv_getSubentries\<close> answers with \<open>numSubEntries()\<close> of the first entry, if there is one.\<close>

definition getSubentryCount :: "('p, 'u) sdk \<Rightarrow> string \<Rightarrow> ('p, 'u, int) sdk_op" where
  "getSubentryCount sdk address =
     and_then (withRpcHook sdk ''getLedgerEntries'' [(''address'', VString address)]
        (provider_call sdk ''getLedgerEntries'' (\<lambda>h. pv_getSubentries (sd_provider sdk) h address) (GetLedgerEntries address)))
       (\<lambda>entry. give (or_else entry 0))"

text \<open>The proxy has no policy for \<open>getFeeStats\<close>.\<close>

definition getFeeStats :: "('p, 'u) sdk \<Rightarrow> ('p, 'u, string option) sdk_op" where
  "getFeeStats sdk = provider_call sdk ''getFeeStats'' (pv_getFeeStats (sd_provider sdk)) GetFeeStats"

definition reading_clock :: "('p, 'u) sdk \<Rightarrow> ('p, 'u, int) sdk_op" where
  "reading_clock sdk w = (Inr (sd_now sdk w), w)"

definition estimate_transaction :: "('p, 'u) sdk \<Rightarrow> fund_options \<Rightarrow> thrown + transaction" where
  "estimate_transaction sdk opts =
     (let st = sd_stellar sdk in
      bind_sum (with_nonce_deadline st (fo_nonce opts) (fo_deadline opts)
        (encoded st [newAddress st (fo_source opts), newAddress st (fo_target opts), newAddress st (fo_asset opts),
                     typedBigInt (IntString (fo_amount opts)) ''i128''])) (\<lambda>vs.
      Inr ((buildSimulationTxWithScVals sdk ''fund_c_address'' vs)\<lparr>tx_fee := sd_BASE_FEE sdk\<rparr>)))"

definition cost_of :: "string \<Rightarrow> string \<Rightarrow> int \<Rightarrow> int \<Rightarrow> int \<Rightarrow> int \<Rightarrow> int \<Rightarrow> cost_estimate" where
  "cost_of inclusionFee resourceFee inclusion resource subentries reserve elapsed =
     \<lparr>ct_fee = inclusionFee, ct_inclusionFee = inclusionFee, ct_totalFee = dec_of_int (inclusion + resource),
      ct_minBalance = dec_of_int ((2 + subentries) * reserve), ct_resourceFee = resourceFee,
      ct_executionTimeMs = elapsed\<rparr>"

definition estimateCost :: "('p, 'u) sdk \<Rightarrow> fund_options \<Rightarrow> ('p, 'u, cost_estimate) sdk_op" where
  "estimateCost sdk opts =
     and_then (checked (first_error (transfer_checks (sd_stellar sdk) (fo_source opts) (fo_target opts) (fo_asset opts)))) (\<lambda>_.
     and_then (reading_clock sdk) (\<lambda>start.
     and_then (checked (estimate_transaction sdk opts)) (\<lambda>tx.
     and_then (hooked_simulation sdk ''fund_c_address'' (Inr tx)) (\<lambda>result.
     and_then (reading_clock sdk) (\<lambda>stop.
     and_then (checked (case reply_error result of
         Some e \<Rightarrow> Inl (error_of (''Cost estimation failed: '' @ e)) | None \<Rightarrow> Inr ())) (\<lambda>_.
     let resourceFee = or_else (si_minResourceFee result) ''0'' in
     and_then (getFeeStats sdk) (\<lambda>p50.
     let inclusionFee = or_else p50 (sd_BASE_FEE sdk) in
     and_then (checked (to_bigint (IntString inclusionFee))) (\<lambda>inclusion.
     and_then (checked (to_bigint (IntString resourceFee))) (\<lambda>resource.
     and_then (getSubentryCount sdk (fo_source opts)) (\<lambda>subentries.
     and_then (checked (to_bigint (or_else (sd_baseReserve sdk) (IntNumber (Some BASE_RESERVE_STROOPS))))) (\<lambda>reserve.
     give (cost_of inclusionFee resourceFee inclusion resource subentries reserve (stop - start)))))))))))))"

section \<open>Every reading method\<close>

datatype bridge_read =
    GetFee | QueryReferralRate | GetFeeCollector | GetAdmin | QueryLoyaltyToken | QueryFeeTiers | IsInitialized
  | GetPendingAdmin | GetPendingFeeCollector | QueryRelayerThreshold | QueryPendingUpgrade
  | GetCAddressBalance string string | QueryCurrentTier string string
  | QueryCommitment js_int | QueryTimelocked js_int
  | GetFeeBalance string | GetContractBalance string | GetAllBalances "string list"
  | QueryIsRelayer string | IsBlocked string | IsAllowlisted string
  | GetWhitelistedAssets "string option" "int option option"
  | EstimateCost fund_options

definition ran :: "('s, 'e, 'a) op \<Rightarrow> ('s, 'e, unit) op" where
  "ran m = and_then m (\<lambda>_. give ())"

fun run_read :: "('p, 'u) sdk \<Rightarrow> bridge_read \<Rightarrow> ('p, 'u, unit) sdk_op" where
  "run_read sdk GetFee = ran (getFee sdk)"
| "run_read sdk QueryReferralRate = ran (queryReferralRate sdk)"
| "run_read sdk GetFeeCollector = ran (getFeeCollector sdk)"
| "run_read sdk GetAdmin = ran (getAdmin sdk)"
| "run_read sdk QueryLoyaltyToken = ran (queryLoyaltyToken sdk)"
| "run_read sdk QueryFeeTiers = ran (queryFeeTiers sdk)"
| "run_read sdk IsInitialized = ran (isInitialized sdk)"
| "run_read sdk GetPendingAdmin = ran (getPendingAdmin sdk)"
| "run_read sdk GetPendingFeeCollector = ran (getPendingFeeCollector sdk)"
| "run_read sdk QueryRelayerThreshold = ran (queryRelayerThreshold sdk)"
| "run_read sdk QueryPendingUpgrade = ran (queryPendingUpgrade sdk)"
| "run_read sdk (GetCAddressBalance c a) = ran (getCAddressBalance sdk c a)"
| "run_read sdk (QueryCurrentTier s a) = ran (queryCurrentTier sdk s a)"
| "run_read sdk (QueryCommitment i) = ran (queryCommitment sdk i)"
| "run_read sdk (QueryTimelocked i) = ran (queryTimelocked sdk i)"
| "run_read sdk (GetFeeBalance a) = ran (getFeeBalance sdk a)"
| "run_read sdk (GetContractBalance a) = ran (getContractBalance sdk a)"
| "run_read sdk (GetAllBalances as) = ran (getAllBalances sdk as)"
| "run_read sdk (QueryIsRelayer pk) = ran (queryIsRelayer sdk pk)"
| "run_read sdk (IsBlocked a) = ran (isBlocked sdk a)"
| "run_read sdk (IsAllowlisted a) = ran (isAllowlisted sdk a)"
| "run_read sdk (GetWhitelistedAssets c l) = ran (getWhitelistedAssets sdk c l)"
| "run_read sdk (EstimateCost opts) = ran (estimateCost sdk opts)"

lemmas read_defs =
  getFee_def queryReferralRate_def getFeeCollector_def getAdmin_def queryLoyaltyToken_def queryFeeTiers_def
  isInitialized_def getPendingAdmin_def getPendingFeeCollector_def queryRelayerThreshold_def queryPendingUpgrade_def
  getCAddressBalance_def queryCurrentTier_def queryCommitment_def queryTimelocked_def getFeeBalance_def
  getContractBalance_def asset_balance_def getAllBalances_def queryIsRelayer_def isBlocked_def isAllowlisted_def
  membership_def

text \<open>The operation makes only calls that satisfy \<open>P\<close>.\<close>

named_theorems only_intros

definition only_calls :: "('p rpc_call \<Rightarrow> bool) \<Rightarrow> ('p, 'u, 'a) sdk_op \<Rightarrow> bool" where
  "only_calls P m \<longleftrightarrow> (\<forall>w. \<exists>cs. calls (snd (m w)) = calls w @ cs \<and> (\<forall>c \<in> set cs. P c))"

lemma only_silent: "(\<And>w. snd (m w) = w) \<Longrightarrow> only_calls P m"
  by (simp add: only_calls_def)

lemma only_basic [only_intros]: "only_calls P (checked x)" "only_calls P (give a)" "only_calls P (throw e)"
  "only_calls P (reading_clock sdk)"
  by (rule only_silent; cases x; simp add: checked_def reading_clock_def)+

lemma only_and_then [only_intros]:
  assumes "only_calls P m" "\<And>a. only_calls P (f a)"
  shows "only_calls P (and_then m f)"
  unfolding only_calls_def
proof
  fix w
  obtain x w1 where m: "m w = (x, w1)" by (rule prod.exhaust)
  with assms(1) obtain cs where cs: "calls w1 = calls w @ cs" "\<forall>c \<in> set cs. P c"
    unfolding only_calls_def by (metis snd_conv)
  show "\<exists>cs. calls (snd (and_then m f w)) = calls w @ cs \<and> (\<forall>c \<in> set cs. P c)"
  proof (cases x)
    case (Inl e)
    with m cs show ?thesis by auto
  next
    case (Inr a)
    obtain cs' where "calls (snd (f a w1)) = calls w1 @ cs'" "\<forall>c \<in> set cs'. P c"
      using assms(2) [of a] unfolding only_calls_def by blast
    with m cs Inr show ?thesis by (intro exI [of _ "cs @ cs'"]) auto
  qed
qed

lemma only_hooked [only_intros]: "only_calls P m \<Longrightarrow> only_calls P (withRpcHook sdk n ps m)"
  by (auto simp: only_calls_def withRpcHook_def split: prod.splits) (metis snd_conv)

lemma only_requests: "requests sdk c answer bound m \<Longrightarrow> P c \<Longrightarrow> only_calls P m"
proof -
  assume req: "requests sdk c answer bound m" and P: "P c"
  have "\<exists>cs. calls (snd (m w)) = calls w @ cs \<and> (\<forall>d \<in> set cs. P d)" for w
    using requests_cases [OF req surjective_pairing [of "m w"]] P by (metis in_set_replicate)
  then show ?thesis by (simp add: only_calls_def)
qed

lemma simulateTransaction_requests:
  assumes "quiet_sdk sdk"
  shows "requests sdk (SimulateTransaction tx) (\<lambda>h. pv_simulateTransaction (sd_provider sdk) h tx) (read_bound sdk)
    (provider_call sdk ''simulateTransaction'' (\<lambda>h. pv_simulateTransaction (sd_provider sdk) h tx) (SimulateTransaction tx))"
  by (rule wrapped_requests [OF assms, where m = "configured_retries sdk"])
    (simp_all add: configured_retries_def read_bound_def view_policy)

lemma getLedgerEntries_requests:
  assumes "quiet_sdk sdk"
  shows "requests sdk (GetLedgerEntries a) (\<lambda>h. pv_getSubentries (sd_provider sdk) h a) (read_bound sdk)
    (provider_call sdk ''getLedgerEntries'' (\<lambda>h. pv_getSubentries (sd_provider sdk) h a) (GetLedgerEntries a))"
  by (rule wrapped_requests [OF assms, where m = "configured_retries sdk"])
    (simp_all add: configured_retries_def read_bound_def view_policy)

text \<open>What a read may ask the server for: simulations of unsigned calls of the bridge contract by the
  account with sequence number zero, and for an estimate the fee statistics and the account entry.\<close>

definition reading_call :: "('p, 'u) sdk \<Rightarrow> 'p rpc_call \<Rightarrow> bool" where
  "reading_call sdk c \<longleftrightarrow>
     (case c of
        SimulateTransaction tx \<Rightarrow> tx_contract tx = sd_contractId sdk \<and> ac_id (tx_account tx) = SIMULATION_SOURCE
          \<and> ac_sequence (tx_account tx) = 0
      | GetLedgerEntries a \<Rightarrow> st_is_account (sd_stellar sdk) a
      | GetFeeStats \<Rightarrow> True
      | _ \<Rightarrow> False)"

definition simulation_of :: "('p, 'u) sdk \<Rightarrow> thrown + transaction \<Rightarrow> bool" where
  "simulation_of sdk built \<longleftrightarrow> (\<forall>tx. built = Inr tx \<longrightarrow>
     (\<exists>m vs fee. tx = (buildSimulationTxWithScVals sdk m vs)\<lparr>tx_fee := fee\<rparr>))"

lemma simulation_of_built [simp]: "simulation_of sdk (buildSimulationTx sdk m args)"
  "simulation_of sdk (bind_sum x (\<lambda>v. Inr (buildSimulationTxWithScVals sdk m (f v))))"
  "simulation_of sdk (bind_sum x (\<lambda>v. buildSimulationTx sdk m (g v)))"
  "simulation_of sdk (estimate_transaction sdk opts)"
proof -
  have "buildSimulationTxWithScVals sdk m vs = (buildSimulationTxWithScVals sdk m vs)\<lparr>tx_fee := ''100''\<rparr>" for m vs
    by (simp add: buildSimulationTxWithScVals_def)
  then show "simulation_of sdk (buildSimulationTx sdk m args)"
    "simulation_of sdk (bind_sum x (\<lambda>v. Inr (buildSimulationTxWithScVals sdk m (f v))))"
    "simulation_of sdk (bind_sum x (\<lambda>v. buildSimulationTx sdk m (g v)))"
    unfolding simulation_of_def buildSimulationTx_def bind_sum_eq_Inr by (metis sum.inject(2))+
  show "simulation_of sdk (estimate_transaction sdk opts)"
    by (auto simp: simulation_of_def estimate_transaction_def Let_def bind_sum_eq_Inr)
qed

lemma only_simulation:
  assumes "quiet_sdk sdk" "simulation_of sdk built"
  shows "only_calls (reading_call sdk) (simulateTransaction sdk built)"
proof (cases built)
  case (Inl e)
  then show ?thesis unfolding simulateTransaction_def
    by (intro only_silent) (simp add: checked_def)
next
  case (Inr tx)
  with assms(2) have tx: "reading_call sdk (SimulateTransaction tx)"
    by (auto simp: simulation_of_def reading_call_def buildSimulationTxWithScVals_def)
  have "only_calls (reading_call sdk) (provider_call sdk ''simulateTransaction''
      (\<lambda>h. pv_simulateTransaction (sd_provider sdk) h tx) (SimulateTransaction tx))"
    by (rule only_requests [OF simulateTransaction_requests [OF assms(1)]]) (rule tx)
  then show ?thesis using Inr by (simp add: simulateTransaction_def checked_def and_then_def only_calls_def)
qed

lemma only_view_call:
  assumes "quiet_sdk sdk" "simulation_of sdk built"
  shows "only_calls (reading_call sdk) (view_call sdk checks m built decode)"
  unfolding view_call_def hooked_simulation_def
  by (intro only_intros only_simulation assms)

lemma only_subentries:
  assumes "quiet_sdk sdk" "st_is_account (sd_stellar sdk) a"
  shows "only_calls (reading_call sdk) (getSubentryCount sdk a)"
  unfolding getSubentryCount_def
  by (intro only_intros only_requests [OF getLedgerEntries_requests [OF assms(1)]])
    (simp add: reading_call_def assms(2))

lemma only_fee_stats: "only_calls (reading_call sdk) (getFeeStats sdk)"
  by (simp add: getFeeStats_def provider_call_def withRpcRetry_def only_calls_def raw_call_def reading_call_def)

lemma only_after_checks:
  assumes "first_error checks = Inr () \<Longrightarrow> only_calls P m"
  shows "only_calls P (and_then (checked (first_error checks)) (\<lambda>_. m))"
proof (cases "first_error checks")
  case (Inl e)
  then show ?thesis by (intro only_silent) (simp add: checked_def)
next
  case (Inr u)
  with assms show ?thesis by (simp add: checked_def and_then_def only_calls_def)
qed

lemma only_estimate:
  assumes "quiet_sdk sdk"
  shows "only_calls (reading_call sdk) (estimateCost sdk opts)"
  unfolding estimateCost_def Let_def
proof (rule only_after_checks)
  assume "first_error (transfer_checks (sd_stellar sdk) (fo_source opts) (fo_target opts) (fo_asset opts)) = Inr ()"
  then have source: "st_is_account (sd_stellar sdk) (fo_source opts)"
    by (simp add: first_error_Inr_iff transfer_checks_def assertAccountAddress_def)
  have built: "only_calls (reading_call sdk) (and_then (checked (estimate_transaction sdk opts)) (\<lambda>tx.
      and_then (hooked_simulation sdk ''fund_c_address'' (Inr tx)) (f tx)))"
    if "\<And>tx result. only_calls (reading_call sdk) (f tx result)" for f
  proof (cases "estimate_transaction sdk opts")
    case (Inl e)
    then show ?thesis by (intro only_silent) (simp add: checked_def)
  next
    case (Inr tx)
    then have "simulation_of sdk (Inr tx)" using simulation_of_built(4) [of sdk opts] by simp
    then have "only_calls (reading_call sdk) (and_then (hooked_simulation sdk ''fund_c_address'' (Inr tx)) (f tx))"
      unfolding hooked_simulation_def using that by (intro only_intros only_simulation assms)
    with Inr show ?thesis by (simp add: checked_def and_then_def only_calls_def)
  qed
  show "only_calls (reading_call sdk) (and_then (reading_clock sdk) (\<lambda>start.
     and_then (checked (estimate_transaction sdk opts)) (\<lambda>tx.
     and_then (hooked_simulation sdk ''fund_c_address'' (Inr tx)) (\<lambda>result.
     and_then (reading_clock sdk) (\<lambda>stop.
     and_then (checked (case reply_error result of
         Some e \<Rightarrow> Inl (error_of (''Cost estimation failed: '' @ e)) | None \<Rightarrow> Inr ())) (\<lambda>_.
     and_then (getFeeStats sdk) (\<lambda>p50.
     and_then (checked (to_bigint (IntString (or_else p50 (sd_BASE_FEE sdk))))) (\<lambda>inclusion.
     and_then (checked (to_bigint (IntString (or_else (si_minResourceFee result) ''0'')))) (\<lambda>resource.
     and_then (getSubentryCount sdk (fo_source opts)) (\<lambda>subentries.
     and_then (checked (to_bigint (or_else (sd_baseReserve sdk) (IntNumber (Some BASE_RESERVE_STROOPS))))) (\<lambda>reserve.
     give (cost_of (or_else p50 (sd_BASE_FEE sdk)) (or_else (si_minResourceFee result) ''0'')
       inclusion resource subentries reserve (stop - start)))))))))))))"
    by (intro only_intros built only_fee_stats only_subentries assms source)
qed

lemma only_assets:
  assumes "quiet_sdk sdk"
  shows "only_calls (reading_call sdk) (getWhitelistedAssets sdk cursor limit)"
  unfolding getWhitelistedAssets_def Let_def
  by (auto intro!: only_intros only_view_call assms split: option.splits)

text \<open>C30: Reading never changes anything on the chain: whatever it reads and however it ends, a reading method of
  the SDK sends, prepares and signs nothing.  Its only requests are simulations of calls of the
  configured bridge contract by the account with sequence number zero and, for a cost estimate, the
  fee statistics and the entry of the (valid) source account.\<close>

theorem reads_never_submit:
  assumes "quiet_sdk sdk" "run_read sdk read w = (r, w')"
  shows "\<exists>cs. calls w' = calls w @ cs \<and> (\<forall>c \<in> set cs. reading_call sdk c)"
proof -
  have "only_calls (reading_call sdk) (run_read sdk read)"
    by (cases read; simp only: run_read.simps ran_def)
      ((simp only: read_defs Let_def)?;
        intro only_intros only_view_call only_simulation only_estimate only_assets assms(1) simulation_of_built)+
  with assms(2) show ?thesis unfolding only_calls_def by (metis snd_conv)
qed

lemma reads_never_submit_witness:
  "\<exists>cs. calls (snd (run_read sample_sdk (GetFeeBalance ''CA'') sample_world)) = cs
     \<and> list_all (reading_call sample_sdk) cs"
proof -
  have "calls sample_world = []" by (simp add: sample_world_def)
  with reads_never_submit [OF sample_quiet(2) surjective_pairing [of "run_read sample_sdk (GetFeeBalance ''CA'') sample_world"]]
  show ?thesis by (simp add: list_all_iff)
qed

end
