(* ===== verification/Sdk_Confirm.thy ===== *)
theory Sdk_Confirm
  imports Sdk_Queries
begin

text \<open>
  Waiting for a submitted transaction (\<open>sdk/src/bridge.ts\<close>): \<open>waitForContractReturnValue\<close> polls
  \<open>getTransaction\<close> every second until the server knows the transaction.  The loop has no limit, so a
  waiting method is a function to an option: \<open>None\<close> is a promise that never settles.
\<close>

section \<open>Polling\<close>

type_synonym ('p, 'u, 'a) waiting = "('p, 'u) sdk_world \<Rightarrow> ((thrown + 'a) \<times> ('p, 'u) sdk_world) option"

definition later :: "int \<Rightarrow> ('p, 'u) sdk_world \<Rightarrow> ('p, 'u) sdk_world" where
  "later ms w = w\<lparr>wd_log := wd_log w @ [Slept ms]\<rparr>"

partial_function (option) poll_transaction ::
  "('p, 'u, transaction_reply) sdk_op \<Rightarrow> ('p, 'u, transaction_reply) waiting" where
  "poll_transaction get w =
     (case get w of
        (Inl e, w1) \<Rightarrow> Some (Inl e, w1)
      | (Inr response, w1) \<Rightarrow>
          if gt_status response = ''NOT_FOUND'' then poll_transaction get (later 1000 w1)
          else Some (Inr response, w1))"

declare poll_transaction.simps [code]

lemma poll_transaction_steps:
  "get w = (Inl e, w1) \<Longrightarrow> poll_transaction get w = Some (Inl e, w1)"
  "get w = (Inr reply, w1) \<Longrightarrow> gt_status reply \<noteq> ''NOT_FOUND'' \<Longrightarrow> poll_transaction get w = Some (Inr reply, w1)"
  "get w = (Inr reply, w1) \<Longrightarrow> gt_status reply = ''NOT_FOUND'' \<Longrightarrow> poll_transaction get w = poll_transaction get (later 1000 w1)"
  by (subst poll_transaction.simps, simp)+

text \<open>The provider's \<open>getTransaction\<close>, with the hook and without it.\<close>

definition raw_getTransaction :: "('p, 'u) sdk \<Rightarrow> string \<Rightarrow> ('p, 'u, transaction_reply) sdk_op" where
  "raw_getTransaction sdk hash =
     provider_call sdk ''getTransaction'' (\<lambda>h. pv_getTransaction (sd_provider sdk) h hash) (GetTransaction hash)"

definition hooked_getTransaction :: "('p, 'u) sdk \<Rightarrow> string \<Rightarrow> string \<Rightarrow> ('p, 'u, transaction_reply) sdk_op" where
  "hooked_getTransaction sdk m hash =
     withRpcHook sdk ''getTransaction'' [(''hash'', VString hash), (''contractMethod'', VString m)]
       (raw_getTransaction sdk hash)"

text \<open>What is made of the final reply inside the \<open>try\<close>, and the \<open>catch\<close>.\<close>

definition confirm_reply ::
  "string \<Rightarrow> string \<Rightarrow> (scval \<Rightarrow> thrown + 'a) \<Rightarrow> transaction_reply \<Rightarrow> thrown + 'a confirmed" where
  "confirm_reply hash m decode response =
     (if gt_status response = ''FAILED''
      then Inr (Unconfirmed hash (Some (''Transaction '' @ hash @ '' failed on chain'')))
      else case gt_returnValue response of
        None \<Rightarrow> Inl (error_of (''Confirmed '' @ m @ '' transaction did not include a return value''))
      | Some v \<Rightarrow> bind_sum (decode v) (\<lambda>a. Inr (Confirmed hash a)))"

definition confirm_caught :: "string \<Rightarrow> thrown + 'a confirmed \<Rightarrow> thrown + 'a confirmed" where
  "confirm_caught hash x =
     (case x of
        Inr c \<Rightarrow> Inr c
      | Inl e \<Rightarrow> bind_sum (message_or ''Failed while waiting for transaction confirmation'' e)
                   (\<lambda>msg. Inr (Unconfirmed hash (Some msg))))"

definition waitForContractReturnValue ::
  "('p, 'u) sdk \<Rightarrow> tx_result \<Rightarrow> string \<Rightarrow> (scval \<Rightarrow> thrown + 'a) \<Rightarrow> ('p, 'u, 'a confirmed) waiting" where
  "waitForContractReturnValue sdk submitted m decode w =
     (if tr_status submitted = Failed
      then Some (Inr (Unconfirmed (tr_hash submitted) (tr_error submitted)), w)
      else case poll_transaction (hooked_getTransaction sdk m (tr_hash submitted)) w of
        None \<Rightarrow> None
      | Some (r, w1) \<Rightarrow>
          Some (confirm_caught (tr_hash submitted)
                  (bind_sum r (confirm_reply (tr_hash submitted) m decode)), w1))"

section \<open>Decoding the return value\<close>

definition decodeU64ReturnValue :: "stellar \<Rightarrow> scval \<Rightarrow> thrown + int" where
  "decodeU64ReturnValue st returnValue =
     bind_sum (st_toNative st returnValue) (\<lambda>value.
     bind_sum (case value of
         NBig n \<Rightarrow> Inr n
       | NNum n \<Rightarrow> Inr n
       | NText s \<Rightarrow> to_bigint (IntString s)
       | _ \<Rightarrow> Inl (error_of ''Expected a u64 transaction return value'')) (\<lambda>decoded.
     if decoded < 0 \<or> decoded > 2 ^ 64 - 1
     then Inl (error_of ''Transaction return value is outside the u64 range'')
     else Inr decoded))"

definition decodeU32ReturnValue :: "stellar \<Rightarrow> scval \<Rightarrow> thrown + int" where
  "decodeU32ReturnValue st returnValue =
     bind_sum (decodeU64ReturnValue st returnValue) (\<lambda>value.
     if value > 2 ^ 32 - 1 then Inl (error_of ''Transaction return value is outside the u32 range'')
     else Inr value)"

section \<open>Submit and wait\<close>

definition and_wait ::
  "('p, 'u, tx_result) sdk_op \<Rightarrow> (tx_result \<Rightarrow> ('p, 'u, 'a) waiting) \<Rightarrow> ('p, 'u, 'a) waiting" where
  "and_wait submit wait w = (case submit w of (Inl e, w1) \<Rightarrow> Some (Inl e, w1) | (Inr result, w1) \<Rightarrow> wait result w1)"

definition commitFundAndWait :: "('p, 'u) sdk \<Rightarrow> commit_options \<Rightarrow> string \<Rightarrow> ('p, 'u, int confirmed) waiting" where
  "commitFundAndWait sdk opts key =
     and_wait (commitFund sdk opts key) (\<lambda>result.
       waitForContractReturnValue sdk result ''commitFund'' (decodeU64ReturnValue (sd_stellar sdk)))"

definition fundCAddressTimelockedAndWait ::
  "('p, 'u) sdk \<Rightarrow> timelock_options \<Rightarrow> string \<Rightarrow> ('p, 'u, int confirmed) waiting" where
  "fundCAddressTimelockedAndWait sdk opts key =
     and_wait (fundCAddressTimelocked sdk opts key) (\<lambda>result.
       waitForContractReturnValue sdk result ''fundCAddressTimelocked'' (decodeU64ReturnValue (sd_stellar sdk)))"

definition scheduleUpgradeAndWait :: "('p, 'u) sdk \<Rightarrow> upgrade_options \<Rightarrow> string \<Rightarrow> ('p, 'u, int confirmed) waiting" where
  "scheduleUpgradeAndWait sdk opts key =
     and_wait (scheduleUpgrade sdk opts key) (\<lambda>result.
       waitForContractReturnValue sdk result ''scheduleUpgrade'' (decodeU32ReturnValue (sd_stellar sdk)))"

section \<open>When the waiting ends\<close>

text \<open>The number of polls of the transaction the server has seen, and a server that knows the transaction
  once it was asked often enough.\<close>

definition polls :: "string \<Rightarrow> 'p rpc_call list \<Rightarrow> nat" where
  "polls hash cs = length (filter (\<lambda>c. c = GetTransaction hash) cs)"

lemma polls_simps [simp]: "polls hash (cs @ ds) = polls hash cs + polls hash ds"
  "polls hash (replicate k (GetTransaction hash)) = k"
  by (simp_all add: polls_def)

definition settles :: "('p, 'u) sdk \<Rightarrow> string \<Rightarrow> nat \<Rightarrow> bool" where
  "settles sdk hash n \<longleftrightarrow> (\<forall>h reply. n \<le> polls hash (calls_of h) \<longrightarrow>
     pv_getTransaction (sd_provider sdk) h hash = Inr reply \<longrightarrow> gt_status reply \<noteq> ''NOT_FOUND'')"

lemma getTransaction_requests:
  assumes "quiet_sdk sdk"
  shows "requests sdk (GetTransaction hash) (\<lambda>h. pv_getTransaction (sd_provider sdk) h hash) (read_bound sdk)
      (raw_getTransaction sdk hash)"
    "requests sdk (GetTransaction hash) (\<lambda>h. pv_getTransaction (sd_provider sdk) h hash) (read_bound sdk)
      (hooked_getTransaction sdk m hash)"
proof -
  show raw: "requests sdk (GetTransaction hash) (\<lambda>h. pv_getTransaction (sd_provider sdk) h hash) (read_bound sdk)
      (raw_getTransaction sdk hash)"
    unfolding raw_getTransaction_def
    by (rule wrapped_requests [OF assms, where m = "configured_retries sdk"])
      (simp_all add: configured_retries_def read_bound_def view_policy)
  show "requests sdk (GetTransaction hash) (\<lambda>h. pv_getTransaction (sd_provider sdk) h hash) (read_bound sdk)
      (hooked_getTransaction sdk m hash)"
    unfolding hooked_getTransaction_def by (rule requests_hooked [OF raw])
qed

lemma calls_later [simp]: "calls (later ms w) = calls w"
  by (simp add: later_def)

text \<open>One poll: the server is asked at least once more, and a reply is one it gives when it has been asked at
  least as often as before.\<close>

lemma poll_once:
  assumes "requests sdk (GetTransaction hash) (\<lambda>h. pv_getTransaction (sd_provider sdk) h hash) bound get"
    and "get w = (Inr reply, w1)"
  shows "polls hash (calls w) < polls hash (calls w1)"
    "\<exists>h. pv_getTransaction (sd_provider sdk) h hash = Inr reply \<and> polls hash (calls w) \<le> polls hash (calls_of h)"
proof -
  from assms obtain k where k: "calls w1 = calls w @ replicate k (GetTransaction hash)"
    "if k = 0 then Inr reply = (Inl None :: thrown + transaction_reply)
     else answered w (GetTransaction hash) (\<lambda>h. pv_getTransaction (sd_provider sdk) h hash) (Inr reply)"
    unfolding requests_def by fastforce
  then have "0 < k" by (auto split: if_splits)
  with k(1) show "polls hash (calls w) < polls hash (calls w1)" by simp
  from k(2) \<open>0 < k\<close> obtain h cs where "Inr reply = pv_getTransaction (sd_provider sdk) h hash" "calls_of h = calls w @ cs"
    unfolding answered_def by auto
  then show "\<exists>h. pv_getTransaction (sd_provider sdk) h hash = Inr reply \<and> polls hash (calls w) \<le> polls hash (calls_of h)"
    by (intro exI [of _ h]) simp
qed

text \<open>What a loop that ended made and saw.\<close>

lemma poll_outcome:
  assumes "requests sdk (GetTransaction hash) answer bound get" "poll_transaction get w = Some (r, w')"
  shows "\<exists>k. calls w' = calls w @ replicate k (GetTransaction hash)
    \<and> (case r of
         Inr reply \<Rightarrow> gt_status reply \<noteq> ''NOT_FOUND'' \<and> (\<exists>h. answer h = Inr reply)
       | Inl e \<Rightarrow> (configured_retries sdk < 0 \<and> e = None) \<or> (\<exists>h. answer h = Inl e))"
proof -
  let ?P = "\<lambda>g w y. g = get \<longrightarrow> (\<exists>k. calls (snd y) = calls w @ replicate k (GetTransaction hash)
    \<and> (case fst y of
         Inr reply \<Rightarrow> gt_status reply \<noteq> ''NOT_FOUND'' \<and> (\<exists>h. answer h = Inr reply)
       | Inl e \<Rightarrow> (configured_retries sdk < 0 \<and> e = None) \<or> (\<exists>h. answer h = Inl e)))"
  have "?P get w (r, w')"
  proof (rule poll_transaction.raw_induct [where P = ?P, OF _ assms(2)])
    fix f and g :: "('a, 'b, transaction_reply) sdk_op" and w y
    assume ih: "\<And>g w y. f g w = Some y \<Longrightarrow> ?P g w y"
      and body: "(case g w of (Inl e, w1) \<Rightarrow> Some (Inl e, w1)
        | (Inr response, w1) \<Rightarrow> if gt_status response = ''NOT_FOUND'' then f g (later 1000 w1) else Some (Inr response, w1)) = Some y"
    show "?P g w y"
    proof
      assume g: "g = get"
      obtain x w1 where w1: "get w = (x, w1)" by (rule prod.exhaust)
      obtain k where k: "calls w1 = calls w @ replicate k (GetTransaction hash)"
        "\<And>a. x = Inr a \<Longrightarrow> \<exists>h. answer h = Inr a"
        "\<And>e. x = Inl e \<Longrightarrow> (configured_retries sdk < 0 \<and> e = None) \<or> (\<exists>h. answer h = Inl e)"
        using requests_cases [OF assms(1) w1] that by metis
      show "\<exists>k. calls (snd y) = calls w @ replicate k (GetTransaction hash)
        \<and> (case fst y of
             Inr reply \<Rightarrow> gt_status reply \<noteq> ''NOT_FOUND'' \<and> (\<exists>h. answer h = Inr reply)
           | Inl e \<Rightarrow> (configured_retries sdk < 0 \<and> e = None) \<or> (\<exists>h. answer h = Inl e))"
      proof (cases "\<exists>response. x = Inr response \<and> gt_status response = ''NOT_FOUND''")
        case True
        with body g w1 have "f get (later 1000 w1) = Some y" by auto
        from ih [OF this] obtain k2 where "calls (snd y) = calls (later 1000 w1) @ replicate k2 (GetTransaction hash)"
          and k2: "case fst y of
             Inr reply \<Rightarrow> gt_status reply \<noteq> ''NOT_FOUND'' \<and> (\<exists>h. answer h = Inr reply)
           | Inl e \<Rightarrow> (configured_retries sdk < 0 \<and> e = None) \<or> (\<exists>h. answer h = Inl e)" by blast
        with k(1) have "calls (snd y) = calls w @ replicate (k + k2) (GetTransaction hash)"
          by (simp add: replicate_add)
        with k2 show ?thesis by blast
      next
        case False
        with body g w1 have "y = (x, w1)" by (cases x) auto
        with k False show ?thesis by (intro exI [of _ k]) (cases x; simp)
      qed
    qed
  qed
  then show ?thesis by simp
qed

lemma poll_returns:
  assumes "requests sdk (GetTransaction hash) (\<lambda>h. pv_getTransaction (sd_provider sdk) h hash) bound get" "settles sdk hash n"
  shows "\<exists>r w'. poll_transaction get w = Some (r, w')
    \<and> (\<forall>reply. r = Inr reply \<longrightarrow> gt_status reply \<noteq> ''NOT_FOUND''
         \<and> (\<exists>h. pv_getTransaction (sd_provider sdk) h hash = Inr reply))"
proof (induction "n - polls hash (calls w)" arbitrary: w rule: less_induct)
  case less
  obtain x w1 where get: "get w = (x, w1)" by (rule prod.exhaust)
  show ?case
  proof (cases x)
    case (Inl e)
    with get have "poll_transaction get w = Some (Inl e, w1)" by (simp add: poll_transaction_steps(1))
    then show ?thesis by blast
  next
    case (Inr reply)
    note once = poll_once [OF assms(1) get[unfolded Inr]]
    show ?thesis
    proof (cases "gt_status reply = ''NOT_FOUND''")
      case False
      with get Inr have "poll_transaction get w = Some (Inr reply, w1)" by (simp add: poll_transaction_steps(2))
      with False once(2) show ?thesis by blast
    next
      case True
      from once(2) True assms(2) have "polls hash (calls w) < n"
        unfolding settles_def by (metis order.trans not_le)
      with once(1) have "n - polls hash (calls (later 1000 w1)) < n - polls hash (calls w)" by simp
      from less [OF this] poll_transaction_steps(3) [of get w reply w1, OF get[unfolded Inr] True] show ?thesis by simp
    qed
  qed
qed

text \<open>A server that never knows the transaction: the loop does not end.\<close>

lemma poll_forever:
  assumes "\<And>w. \<exists>reply w1. get w = (Inr reply, w1) \<and> gt_status reply = ''NOT_FOUND''"
  shows "poll_transaction get w = None"
proof -
  have "g \<noteq> get" if "poll_transaction g v = Some y" for g v y
  proof (rule poll_transaction.raw_induct [where P = "\<lambda>g v y. g \<noteq> get", OF _ that])
    fix f and g :: "('a, 'b, transaction_reply) sdk_op" and v y
    assume ih: "\<And>g v y. f g v = Some y \<Longrightarrow> g \<noteq> get"
      and body: "(case g v of (Inl e, w1) \<Rightarrow> Some (Inl e, w1)
        | (Inr response, w1) \<Rightarrow> if gt_status response = ''NOT_FOUND'' then f g (later 1000 w1) else Some (Inr response, w1)) = Some y"
    from assms [of v] obtain reply w1 where "get v = (Inr reply, w1)" "gt_status reply = ''NOT_FOUND''" by blast
    show "g \<noteq> get"
    proof
      assume "g = get"
      with body \<open>get v = (Inr reply, w1)\<close> \<open>gt_status reply = ''NOT_FOUND''\<close> have "f get (later 1000 w1) = Some y" by simp
      from ih [OF this] show False by simp
    qed
  qed
  then show ?thesis by (cases "poll_transaction get w") auto
qed

lemma hooked_never_found:
  assumes "quiet_sdk sdk" "0 \<le> configured_retries sdk"
    and "\<And>h. \<exists>reply. pv_getTransaction (sd_provider sdk) h hash = Inr reply \<and> gt_status reply = ''NOT_FOUND''"
  shows "\<exists>reply w1. hooked_getTransaction sdk m hash w = (Inr reply, w1) \<and> gt_status reply = ''NOT_FOUND''"
proof -
  obtain r w1 where get: "hooked_getTransaction sdk m hash w = (r, w1)" by (rule prod.exhaust)
  obtain k where "if k = (0 :: nat) then configured_retries sdk < 0 \<and> r = Inl None
      else answered w (GetTransaction hash) (\<lambda>h. pv_getTransaction (sd_provider sdk) h hash) r"
    using getTransaction_requests(2) [OF assms(1), of hash m] get unfolding requests_def by blast
  with assms(2) obtain h where "r = pv_getTransaction (sd_provider sdk) h hash"
    by (auto simp: answered_def split: if_splits)
  with assms(3) [of h] get show ?thesis by auto
qed

lemma poll_never_ends:
  fixes sdk :: "('p, 'u) sdk"
  assumes "quiet_sdk sdk" "0 \<le> configured_retries sdk"
    and "\<And>h. \<exists>reply. pv_getTransaction (sd_provider sdk) h hash = Inr reply \<and> gt_status reply = ''NOT_FOUND''"
  shows "poll_transaction (hooked_getTransaction sdk m hash) w = None"
  by (rule poll_forever) (rule hooked_never_found [OF assms])

lemma poll_real:
  assumes "quiet_sdk sdk" "0 \<le> configured_retries sdk" "settles sdk hash n"
    and "\<And>h. real_error (pv_getTransaction (sd_provider sdk) h hash)"
  shows "\<exists>r w'. poll_transaction (hooked_getTransaction sdk m hash) w = Some (r, w') \<and> real_error r
    \<and> (\<forall>reply. r = Inr reply \<longrightarrow> gt_status reply \<noteq> ''NOT_FOUND''
         \<and> (\<exists>h. pv_getTransaction (sd_provider sdk) h hash = Inr reply))"
proof -
  let ?get = "hooked_getTransaction sdk m hash"
  from poll_returns [OF getTransaction_requests(2) [OF assms(1)] assms(3), of m w] obtain r w' where
    run: "poll_transaction ?get w = Some (r, w')" and reply: "\<forall>reply. r = Inr reply \<longrightarrow> gt_status reply \<noteq> ''NOT_FOUND''
         \<and> (\<exists>h. pv_getTransaction (sd_provider sdk) h hash = Inr reply)" by blast
  from poll_outcome [OF getTransaction_requests(2) [OF assms(1)] run] assms(2,4) have "real_error r"
    unfolding real_error_def by (cases r) fastforce+
  with run reply show ?thesis by blast
qed

text \<open>C25: Waiting for a submitted transaction: if the server knows it once it has been asked often enough, the
  waiting method returns a result and does not throw, and it reports success only for the transaction
  that was submitted, on a reply of the server that is neither \<open>NOT_FOUND\<close> nor \<open>FAILED\<close> and whose return
  value it decoded.  If the server never knows it, the method never returns: nothing bounds the wait.\<close>

theorem confirmation_wait_settles:
  assumes "quiet_sdk sdk" "responsive sdk" "tr_status submitted = Pending"
    and "\<And>h. real_error (pv_getTransaction (sd_provider sdk) h (tr_hash submitted))" "\<And>v. real_error (decode v)"
  shows "(settles sdk (tr_hash submitted) n \<longrightarrow>
      (\<exists>c w'. waitForContractReturnValue sdk submitted m decode w = Some (Inr c, w')
        \<and> (\<forall>hash a. c = Confirmed hash a \<longrightarrow> hash = tr_hash submitted
             \<and> (\<exists>h reply v. pv_getTransaction (sd_provider sdk) h hash = Inr reply
                  \<and> gt_status reply \<noteq> ''NOT_FOUND'' \<and> gt_status reply \<noteq> ''FAILED''
                  \<and> gt_returnValue reply = Some v \<and> decode v = Inr a))))
    \<and> ((\<forall>h. \<exists>reply. pv_getTransaction (sd_provider sdk) h (tr_hash submitted) = Inr reply
          \<and> gt_status reply = ''NOT_FOUND'')
        \<longrightarrow> waitForContractReturnValue sdk submitted m decode w = None)"
proof (intro conjI impI)
  let ?hash = "tr_hash submitted"
  have retries: "0 \<le> configured_retries sdk" using assms(2) by (simp add: responsive_def)
  assume "settles sdk ?hash n"
  from poll_real [OF assms(1) retries this assms(4), of m w] obtain r w' where
    run: "poll_transaction (hooked_getTransaction sdk m ?hash) w = Some (r, w')" and "real_error r"
    and reply: "\<forall>reply. r = Inr reply \<longrightarrow> gt_status reply \<noteq> ''NOT_FOUND''
         \<and> (\<exists>h. pv_getTransaction (sd_provider sdk) h ?hash = Inr reply)" by blast
  let ?x = "bind_sum r (confirm_reply ?hash m decode)"
  have "real_error ?x"
    using \<open>real_error r\<close> assms(5)
    by (auto simp: confirm_reply_def intro!: real_intros split: option.splits)
  then have "\<exists>c. confirm_caught ?hash ?x = Inr c \<and> (\<forall>h a. c = Confirmed h a \<longrightarrow> ?x = Inr c)"
    by (cases ?x) (auto simp: real_error_def confirm_caught_def message_or_def)
  then obtain c where c: "confirm_caught ?hash ?x = Inr c" "\<And>h a. c = Confirmed h a \<Longrightarrow> ?x = Inr c" by blast
  have "hash = ?hash \<and> (\<exists>h reply v. pv_getTransaction (sd_provider sdk) h hash = Inr reply
                  \<and> gt_status reply \<noteq> ''NOT_FOUND'' \<and> gt_status reply \<noteq> ''FAILED''
                  \<and> gt_returnValue reply = Some v \<and> decode v = Inr a)" if "c = Confirmed hash a" for hash a
    using c(2) [OF that] that reply
    by (fastforce simp: bind_sum_eq_Inr confirm_reply_def split: if_splits option.splits)
  with run c(1) assms(3) show "\<exists>c w'. waitForContractReturnValue sdk submitted m decode w = Some (Inr c, w')
        \<and> (\<forall>hash a. c = Confirmed hash a \<longrightarrow> hash = ?hash
             \<and> (\<exists>h reply v. pv_getTransaction (sd_provider sdk) h hash = Inr reply
                  \<and> gt_status reply \<noteq> ''NOT_FOUND'' \<and> gt_status reply \<noteq> ''FAILED''
                  \<and> gt_returnValue reply = Some v \<and> decode v = Inr a))"
    by (simp add: waitForContractReturnValue_def)
next
  assume "\<forall>h. \<exists>reply. pv_getTransaction (sd_provider sdk) h (tr_hash submitted) = Inr reply
          \<and> gt_status reply = ''NOT_FOUND''"
  then have "poll_transaction (hooked_getTransaction sdk m (tr_hash submitted)) w = None"
    using assms(2) by (intro poll_never_ends [OF assms(1)]) (simp_all add: responsive_def)
  with assms(3) show "waitForContractReturnValue sdk submitted m decode w = None"
    by (simp add: waitForContractReturnValue_def)
qed

lemma polls_bound: "polls hash (calls_of h) \<le> length h"
proof -
  have "length (calls_of h) \<le> length h" by (induction h) (auto simp: calls_of_def List.map_filter_simps split: activity.splits)
  moreover have "polls hash cs \<le> length cs" for cs by (simp add: polls_def)
  ultimately show ?thesis using order.trans by blast
qed

lemma decodeU64_real: "(\<And>v. real_error (st_toNative st v)) \<Longrightarrow> real_error (decodeU64ReturnValue st v)"
  unfolding decodeU64ReturnValue_def
  by (intro real_bind) (auto intro!: real_intros split: js_native.splits)

lemma confirmation_wait_settles_witness:
  "\<exists>c w'. waitForContractReturnValue sample_sdk \<lparr>tr_hash = ''h'', tr_status = Pending, tr_error = None\<rparr> ''commitFund''
     (decodeU64ReturnValue sample_stellar) sample_world = Some (Inr c, w')"
proof -
  have "settles sample_sdk ''h'' 5"
  proof -
    have "5 \<le> length h" if "5 \<le> polls ''h'' (calls_of h)" for h :: "transaction activity list"
      using that polls_bound [of "''h''" h] by simp
    then show ?thesis by (auto simp: settles_def sample_provider_def not_less [symmetric])
  qed
  moreover have "real_error (st_toNative sample_stellar v)" for v
    by (auto simp: sample_stellar_def split: scval.splits)
  moreover have "real_error (pv_getTransaction (sd_provider sample_sdk) h ''h'')" for h
    by (simp add: sample_provider_def)
  ultimately show ?thesis
    using confirmation_wait_settles [OF sample_quiet(2) sample_responsive, of "\<lparr>tr_hash = ''h'', tr_status = Pending, tr_error = None\<rparr>"
        "decodeU64ReturnValue sample_stellar" 5 "''commitFund''" sample_world]
    by (simp add: decodeU64_real) blast
qed

end
