(* ===== verification/Sdk_Batch.thy ===== *)
theory Sdk_Batch
  imports Sdk_Confirm
begin

text \<open>
  \<open>batchFundCAddresses\<close> of \<open>sdk/src/bridge.ts\<close>: the recipients are split into chunks of at most 100, one
  transaction each; with a nonce, the next chunk is submitted only after the last one was confirmed.
\<close>

section \<open>The batch\<close>

definition BATCH_TX_LIMIT :: nat where "BATCH_TX_LIMIT = 100"

type_synonym 'u progress_callback = "int \<Rightarrow> int \<Rightarrow> string option \<Rightarrow> ('u, thrown, unit) op"

definition report_progress ::
  "'u progress_callback option \<Rightarrow> nat \<Rightarrow> nat \<Rightarrow> tx_result \<Rightarrow> ('p, 'u, unit) sdk_op" where
  "report_progress onProgress completed recipients result w =
     (case onProgress of
        None \<Rightarrow> (Inr (), w)
      | Some f \<Rightarrow>
          (case f (int completed) (int recipients) (if tr_hash result = [] then None else Some (tr_hash result)) (wd_user w) of
             (r, u) \<Rightarrow> (r, w\<lparr>wd_user := u\<rparr>)))"

text \<open>The transaction of one chunk; the nonce and the deadline are encoded before.\<close>

definition chunk_args ::
  "stellar \<Rightarrow> batch_options \<Rightarrow> nat \<Rightarrow> scval \<Rightarrow> scval \<Rightarrow> thrown + scval list" where
  "chunk_args st opts offset nonceScVal deadlineScVal =
     bind_sum (encoded st
       [newAddress st (ba_source opts),
        bind_sum (map_sum_list (newAddress st) (take BATCH_TX_LIMIT (drop offset (ba_targets opts)))) (\<lambda>as. Inr (ArgArray as)),
        bind_sum (map_sum_list (\<lambda>a. typedBigInt (IntString a) ''i128'') (take BATCH_TX_LIMIT (drop offset (ba_amounts opts))))
          (\<lambda>as. Inr (ArgArray as)),
        newAddress st (ba_asset opts)])
     (\<lambda>vs. Inr (vs @ [nonceScVal, deadlineScVal]))"

definition submit_chunk ::
  "('p, 'u) sdk \<Rightarrow> batch_options \<Rightarrow> string \<Rightarrow> nat \<Rightarrow> scval \<Rightarrow> scval \<Rightarrow> ('p, 'u, tx_result) sdk_op" where
  "submit_chunk sdk opts key offset nonceScVal deadlineScVal =
     catch_failed (submit_call sdk
       [(''contractMethod'', VString ''batch_fund_c_address''),
        (''chunkSize'', VNumber (int (length (take BATCH_TX_LIMIT (drop offset (ba_targets opts))))))]
       (ba_source opts) ''batch_fund_c_address''
       (chunk_args (sd_stellar sdk) opts offset nonceScVal deadlineScVal) Inr key)"

definition chunk_nonce :: "stellar \<Rightarrow> int option \<Rightarrow> nat \<Rightarrow> thrown + scval" where
  "chunk_nonce st baseNonce offset =
     (case baseNonce of
        None \<Rightarrow> Inr ScVoid
      | Some b \<Rightarrow> st_typed st ''u64'' (ArgInt (b + int (offset div BATCH_TX_LIMIT))))"

text \<open>What the chunks after \<open>offset\<close> get when they are not submitted.\<close>

definition chunk_count :: "nat \<Rightarrow> nat" where
  "chunk_count n = (n + BATCH_TX_LIMIT - 1) div BATCH_TX_LIMIT"

definition not_submitted :: "batch_options \<Rightarrow> nat \<Rightarrow> string \<Rightarrow> tx_result list" where
  "not_submitted opts offset reason =
     replicate (chunk_count (length (ba_targets opts) - offset - length (take BATCH_TX_LIMIT (drop offset (ba_targets opts)))))
       (failed_result reason)"

definition failed_earlier :: string where
  "failed_earlier = ''Not submitted because an earlier nonce transaction failed''"

definition unconfirmed_earlier :: string where
  "unconfirmed_earlier = ''Not submitted because an earlier nonce transaction could not be confirmed''"

definition marked_failed :: "tx_result \<Rightarrow> string \<Rightarrow> tx_result" where
  "marked_failed result msg = result\<lparr>tr_status := Failed, tr_error := Some msg\<rparr>"

text \<open>Whether the loop goes on after a chunk, and with which results: \<open>Inr\<close> of the results to return.\<close>

definition after_chunk ::
  "('p, 'u) sdk \<Rightarrow> batch_options \<Rightarrow> int option \<Rightarrow> nat \<Rightarrow> tx_result \<Rightarrow> ('p, 'u, tx_result list option) waiting" where
  "after_chunk sdk opts baseNonce offset result w =
     (if baseNonce \<noteq> None \<and> offset + BATCH_TX_LIMIT < length (ba_targets opts) then
        (if tr_status result = Failed then Some (Inr (Some (result # not_submitted opts offset failed_earlier)), w)
         else case poll_transaction (raw_getTransaction sdk (tr_hash result)) w of
           None \<Rightarrow> None
         | Some (Inr confirmation, w1) \<Rightarrow>
             Some (Inr (if gt_status confirmation = ''FAILED''
                        then Some (marked_failed result ''Transaction failed on-chain'' # not_submitted opts offset failed_earlier)
                        else None), w1)
         | Some (Inl e, w1) \<Rightarrow>
             Some (bind_sum (message_or ''Unable to confirm nonce transaction'' e) (\<lambda>msg.
                     Inr (Some (marked_failed result msg # not_submitted opts offset unconfirmed_earlier))), w1))
      else Some (Inr None, w))"

text \<open>The loop, from the chunk that starts at \<open>offset\<close>; \<open>results\<close> holds one result for each chunk before.\<close>

function batch_loop ::
  "('p, 'u) sdk \<Rightarrow> batch_options \<Rightarrow> string \<Rightarrow> 'u progress_callback option \<Rightarrow> int option \<Rightarrow> scval \<Rightarrow> nat
    \<Rightarrow> tx_result list \<Rightarrow> nat \<Rightarrow> ('p, 'u, tx_result list) waiting" where
  "batch_loop sdk opts key onProgress baseNonce deadlineScVal offset results completed w =
     (if length (ba_targets opts) \<le> offset then Some (Inr results, w)
      else case and_then (checked (chunk_nonce (sd_stellar sdk) baseNonce offset)) (\<lambda>nonceScVal.
             and_then (submit_chunk sdk opts key offset nonceScVal deadlineScVal) (\<lambda>result.
             and_then (report_progress onProgress
                 (completed + length (take BATCH_TX_LIMIT (drop offset (ba_targets opts))))
                 (length (ba_targets opts)) result) (\<lambda>_.
             give result))) w of
        (Inl e, w1) \<Rightarrow> Some (Inl e, w1)
      | (Inr result, w1) \<Rightarrow>
          (case after_chunk sdk opts baseNonce offset result w1 of
             None \<Rightarrow> None
           | Some (Inl e, w2) \<Rightarrow> Some (Inl e, w2)
           | Some (Inr (Some rest), w2) \<Rightarrow> Some (Inr (results @ rest), w2)
           | Some (Inr None, w2) \<Rightarrow>
               batch_loop sdk opts key onProgress baseNonce deadlineScVal (offset + BATCH_TX_LIMIT) (results @ [result])
                 (completed + length (take BATCH_TX_LIMIT (drop offset (ba_targets opts)))) w2))"
  by pat_completeness auto

termination
  by (relation "measure (\<lambda>(sdk, opts, key, pr, b, d, offset, rs, c, w). length (ba_targets opts) - offset)")
    (auto simp: BATCH_TX_LIMIT_def)

declare batch_loop.simps [simp del]

definition batch_checks :: "stellar \<Rightarrow> batch_options \<Rightarrow> (thrown + unit) list" where
  "batch_checks st opts =
     [assertAccountAddress st (ba_source opts) ''source'',
      require (length (ba_targets opts) = length (ba_amounts opts))
        (''targets and amounts must have the same length (got '' @ dec_of_nat (length (ba_targets opts)) @ '' targets vs ''
           @ dec_of_nat (length (ba_amounts opts)) @ '' amounts)''),
      check_each (\<lambda>i t. assertContractAddress st t (indexed ''targets'' i)) (ba_targets opts),
      assertContractAddress st (ba_asset opts) ''asset'']"

definition optional_bigint :: "js_int option \<Rightarrow> thrown + int option" where
  "optional_bigint x = (case x of None \<Rightarrow> Inr None | Some i \<Rightarrow> bind_sum (to_bigint i) (\<lambda>n. Inr (Some n)))"

definition batch_body ::
  "('p, 'u) sdk \<Rightarrow> batch_options \<Rightarrow> string \<Rightarrow> 'u progress_callback option \<Rightarrow> ('p, 'u, tx_result list) waiting" where
  "batch_body sdk opts key onProgress w =
     (let st = sd_stellar sdk in
      case first_error (batch_checks st opts) of
        Inl e \<Rightarrow> Some (bind_sum (message_or ''Unknown error'' e) (\<lambda>msg. Inr [failed_result msg]), w)
      | Inr _ \<Rightarrow>
          (case bind_sum (optional_bigint (ba_nonce opts)) (\<lambda>b.
                bind_sum (optionalNonceToScVal st (ba_deadline opts)) (\<lambda>d. Inr (b, d))) of
             Inl e \<Rightarrow> Some (Inl e, w)
           | Inr (b, d) \<Rightarrow> batch_loop sdk opts key onProgress b d 0 [] 0 w))"

text \<open>The hooks around a function that may never settle.\<close>

definition waiting_hooks ::
  "('p, 'u) sdk \<Rightarrow> ('r \<Rightarrow> hook_result) \<Rightarrow> string \<Rightarrow> hook_params \<Rightarrow> ('p, 'u, 'r) waiting \<Rightarrow> ('p, 'u, 'r) waiting" where
  "waiting_hooks sdk wrap m params fn w =
     map_option (\<lambda>outcome. withTransactionHooks sdk wrap m params (\<lambda>_. outcome) w)
       (fn (fireTransactionStart sdk m params w))"

definition batchFundCAddresses ::
  "('p, 'u) sdk \<Rightarrow> batch_options \<Rightarrow> string \<Rightarrow> 'u progress_callback option \<Rightarrow> ('p, 'u, tx_result list) waiting" where
  "batchFundCAddresses sdk opts key onProgress =
     waiting_hooks sdk ManyResults ''batchFundCAddresses''
       [(''source'', VString (ba_source opts)), (''targetCount'', VNumber (int (length (ba_targets opts)))),
        (''asset'', VString (ba_asset opts)), (''nonce'', js_of_opt_int (ba_nonce opts)),
        (''deadline'', js_of_opt_int (ba_deadline opts))]
       (batch_body sdk opts key onProgress)"

section \<open>What a batch does\<close>

lemma limit_pos [simp]: "0 < BATCH_TX_LIMIT"
  by (simp add: BATCH_TX_LIMIT_def)

lemma chunk_count_0 [simp]: "chunk_count 0 = 0"
  by (simp add: chunk_count_def BATCH_TX_LIMIT_def)

lemma chunk_count_Suc: "0 < n \<Longrightarrow> chunk_count n = Suc (chunk_count (n - BATCH_TX_LIMIT))"
proof (cases "n < 100")
  case True
  assume "0 < n"
  with True have "(n + 99) div 100 = 1" by (intro div_nat_eqI) simp_all
  with True show ?thesis by (simp add: chunk_count_def BATCH_TX_LIMIT_def)
next
  case False
  then obtain m where "n = m + 100" by (metis add.commute le_Suc_ex not_less)
  moreover have "(m + 99 + 100) div 100 = (m + 99) div 100 + 1" by (rule div_add_self2) simp
  ultimately show ?thesis by (simp add: chunk_count_def BATCH_TX_LIMIT_def)
qed

text \<open>The chunks partition the list.\<close>

lemma concat_chunks:
  "concat (map (\<lambda>i. take BATCH_TX_LIMIT (drop (BATCH_TX_LIMIT * i) xs)) [0..<chunk_count (length xs)]) = xs"
proof (induction "length xs" arbitrary: xs rule: less_induct)
  case less
  show ?case
  proof (cases "xs = []")
    case False
    let ?ys = "drop BATCH_TX_LIMIT xs"
    have "length ?ys < length xs" using False by simp
    from less [OF this] have ys:
      "concat (map (\<lambda>i. take BATCH_TX_LIMIT (drop (BATCH_TX_LIMIT * i) ?ys)) [0..<chunk_count (length ?ys)]) = ?ys" .
    have "chunk_count (length xs) = Suc (chunk_count (length ?ys))" using False by (simp add: chunk_count_Suc)
    then have "[0..<chunk_count (length xs)] = 0 # map Suc [0..<chunk_count (length ?ys)]"
      by (simp only: upt_conv_Cons map_Suc_upt zero_less_Suc)
    then show ?thesis using ys by (simp add: comp_def add.commute)
  qed simp
qed

text \<open>The calls made for the chunk that starts at \<open>offset\<close>: one submission of that chunk's recipients, then
  polls of one transaction.\<close>

definition chunk_calls ::
  "('p, 'u) sdk \<Rightarrow> batch_options \<Rightarrow> string \<Rightarrow> int option \<Rightarrow> scval \<Rightarrow> nat \<Rightarrow> 'p rpc_call list \<Rightarrow> bool" where
  "chunk_calls sdk opts key b d offset cs \<longleftrightarrow> (\<exists>sub k hash n. chunk_nonce (sd_stellar sdk) b offset = Inr n
     \<and> cs = sub @ replicate k (GetTransaction hash)
     \<and> submission sdk (ba_source opts) ''batch_fund_c_address'' (chunk_args (sd_stellar sdk) opts offset n d) Inr key sub)"

definition confirmed_on_chain :: "('p, 'u) sdk \<Rightarrow> tx_result \<Rightarrow> bool" where
  "confirmed_on_chain sdk res \<longleftrightarrow> tr_status res = Pending
     \<and> (\<exists>h reply. pv_getTransaction (sd_provider sdk) h (tr_hash res) = Inr reply
          \<and> gt_status reply \<noteq> ''NOT_FOUND'' \<and> gt_status reply \<noteq> ''FAILED'')"

lemma report_progress_log [simp]: "report_progress pr c n res w = (r, w') \<Longrightarrow> wd_log w' = wd_log w"
  by (auto simp: report_progress_def split: option.splits prod.splits)

lemma submit_chunk_runs:
  assumes "quiet_sdk sdk" "submit_chunk sdk opts key offset n d w = (r, w')"
  shows "\<exists>cs. calls w' = calls w @ cs
    \<and> submission sdk (ba_source opts) ''batch_fund_c_address'' (chunk_args (sd_stellar sdk) opts offset n d) Inr key cs
    \<and> (\<forall>res. r = Inr res \<longrightarrow> sent_result sdk cs res \<or> (\<exists>msg. res = failed_result msg))"
  using assms(2) unfolding submit_chunk_def
proof (cases rule: catch_failed_result)
  case (kept res)
  from submit_call_runs [OF assms(1) kept(1)] kept(2) show ?thesis by blast
next
  case (caught e)
  from submit_call_runs [OF assms(1) caught(1)] caught(2) show ?thesis by blast
next
  case (escaped te)
  from submit_call_runs [OF assms(1) escaped(1)] escaped(2) show ?thesis by blast
qed

lemma run_chunk:
  assumes "quiet_sdk sdk"
    and "and_then (checked (chunk_nonce (sd_stellar sdk) b offset)) (\<lambda>n.
       and_then (submit_chunk sdk opts key offset n d) (\<lambda>result.
       and_then (report_progress pr c m result) (\<lambda>_. give result))) w = (Inr res, w')"
  shows "\<exists>n cs. calls w' = calls w @ cs \<and> chunk_nonce (sd_stellar sdk) b offset = Inr n
    \<and> submission sdk (ba_source opts) ''batch_fund_c_address'' (chunk_args (sd_stellar sdk) opts offset n d) Inr key cs
    \<and> (sent_result sdk cs res \<or> (\<exists>msg. res = failed_result msg))"
  using assms(2)
proof (cases rule: checked_cases)
  case (returned n)
  from returned(2) show ?thesis
  proof (cases rule: and_then_cases)
    case sent: (returned result w1)
    from sent(2) have "res = result" "wd_log w' = wd_log w1"
      by (cases rule: and_then_cases; auto)+
    with submit_chunk_runs [OF assms(1) sent(1)] returned(1) show ?thesis by auto
  qed simp
qed simp

lemma after_chunk_runs:
  assumes "quiet_sdk sdk" "after_chunk sdk opts b offset result w = Some (Inr x, w')"
  shows "\<exists>k. calls w' = calls w @ replicate k (GetTransaction (tr_hash result))
    \<and> (case x of
         None \<Rightarrow> b \<noteq> None \<and> offset + BATCH_TX_LIMIT < length (ba_targets opts) \<longrightarrow> confirmed_on_chain sdk result
       | Some rest \<Rightarrow> b \<noteq> None \<and> (\<exists>res reason. tr_status res = Failed \<and> reason \<in> {failed_earlier, unconfirmed_earlier}
           \<and> rest = res # replicate (chunk_count (length (ba_targets opts) - offset - BATCH_TX_LIMIT)) (failed_result reason)))"
proof (cases "b \<noteq> None \<and> offset + BATCH_TX_LIMIT < length (ba_targets opts)")
  case False
  with assms(2) show ?thesis by (intro exI [of _ 0]) (auto simp: after_chunk_def)
next
  case True
  then have rest: "not_submitted opts offset reason
      = replicate (chunk_count (length (ba_targets opts) - offset - BATCH_TX_LIMIT)) (failed_result reason)" for reason
    by (auto simp: not_submitted_def min_def)
  show ?thesis
  proof (cases "tr_status result = Failed")
    case failed: True
    with assms(2) True have "x = Some (result # not_submitted opts offset failed_earlier)" "w' = w"
      by (simp_all add: after_chunk_def)
    with failed True show ?thesis by (intro exI [of _ 0]) (auto simp: rest)
  next
    case False
    then have pending: "tr_status result = Pending" by (cases "tr_status result") simp_all
    with assms(2) True obtain r w1 where poll: "poll_transaction (raw_getTransaction sdk (tr_hash result)) w = Some (r, w1)"
      by (auto simp: after_chunk_def split: option.splits)
    from poll_outcome [OF getTransaction_requests(1) [OF assms(1)] poll] obtain k where
      k: "calls w1 = calls w @ replicate k (GetTransaction (tr_hash result))"
      and seen: "\<And>reply. r = Inr reply \<Longrightarrow> gt_status reply \<noteq> ''NOT_FOUND''
        \<and> (\<exists>h. pv_getTransaction (sd_provider sdk) h (tr_hash result) = Inr reply)" by (cases r) auto
    show ?thesis
    proof (cases r)
      case (Inl e)
      with assms(2) True pending poll obtain msg where
        "x = Some (marked_failed result msg # not_submitted opts offset unconfirmed_earlier)" "w' = w1"
        by (auto simp: after_chunk_def bind_sum_eq_Inr)
      moreover have "tr_status (marked_failed result msg) = Failed" by (simp add: marked_failed_def)
      ultimately show ?thesis
        using k True by (intro exI [of _ k] conjI) (simp, simp only: rest option.case, blast)
    next
      case (Inr reply)
      show ?thesis
      proof (cases "gt_status reply = ''FAILED''")
        case True
        with assms(2) \<open>b \<noteq> None \<and> offset + BATCH_TX_LIMIT < length (ba_targets opts)\<close> pending poll Inr
        have "x = Some (marked_failed result ''Transaction failed on-chain'' # not_submitted opts offset failed_earlier)" "w' = w1"
          by (auto simp: after_chunk_def)
        moreover have "tr_status (marked_failed result ''Transaction failed on-chain'') = Failed" by (simp add: marked_failed_def)
        ultimately show ?thesis
          using k \<open>b \<noteq> None \<and> _\<close> by (intro exI [of _ k] conjI) (simp, simp only: rest option.case, blast)
      next
        case False
        with assms(2) True pending poll Inr have "x = None" "w' = w1" by (auto simp: after_chunk_def)
        with k pending seen [OF Inr] False show ?thesis
          by (intro exI [of _ k]) (auto simp: confirmed_on_chain_def)
      qed
    qed
  qed
qed

text \<open>The outcome of the loop from the chunk at \<open>offset\<close> on: \<open>css\<close> are the calls of the chunks that were
  submitted, \<open>tail\<close> the results of all the chunks that were left.\<close>

definition batch_outcome ::
  "('p, 'u) sdk \<Rightarrow> batch_options \<Rightarrow> string \<Rightarrow> int option \<Rightarrow> scval \<Rightarrow> nat \<Rightarrow> 'p rpc_call list list \<Rightarrow> tx_result list \<Rightarrow> bool" where
  "batch_outcome sdk opts key b d offset css tail \<longleftrightarrow>
     length tail = chunk_count (length (ba_targets opts) - offset) \<and> length css \<le> length tail
   \<and> (\<forall>j < length css. chunk_calls sdk opts key b d (offset + BATCH_TX_LIMIT * j) (css ! j))
   \<and> (\<forall>j < length css. tr_status (tail ! j) = Pending \<longrightarrow> sent_result sdk (css ! j) (tail ! j))
   \<and> (\<forall>j < length tail. length css \<le> j \<longrightarrow> tail ! j \<in> {failed_result failed_earlier, failed_result unconfirmed_earlier})
   \<and> (b = None \<longrightarrow> length css = length tail)
   \<and> (b \<noteq> None \<longrightarrow> (\<forall>j. Suc j < length css \<longrightarrow> confirmed_on_chain sdk (tail ! j)))"

lemma batch_outcome_Nil: "length (ba_targets opts) \<le> offset \<Longrightarrow> batch_outcome sdk opts key b d offset [] []"
  by (simp add: batch_outcome_def)

lemma all_less_Suc_shift: "(\<forall>j < Suc n. P j) \<longleftrightarrow> P 0 \<and> (\<forall>j < n. P (Suc j))"
  by (metis less_Suc_eq_0_disj)

lemma batch_outcome_stop:
  assumes "offset < length (ba_targets opts)" "chunk_calls sdk opts key b d offset cs" "b \<noteq> None" "tr_status res = Failed"
    and "reason \<in> {failed_earlier, unconfirmed_earlier}"
  shows "batch_outcome sdk opts key b d offset [cs]
    (res # replicate (chunk_count (length (ba_targets opts) - offset - BATCH_TX_LIMIT)) (failed_result reason))"
  using assms by (auto simp: batch_outcome_def chunk_count_Suc nth_Cons split: nat.splits)

lemma batch_outcome_Cons:
  assumes "offset < length (ba_targets opts)" "chunk_calls sdk opts key b d offset cs"
    and "tr_status res = Pending \<Longrightarrow> sent_result sdk cs res"
    and "b \<noteq> None \<Longrightarrow> offset + BATCH_TX_LIMIT < length (ba_targets opts) \<Longrightarrow> confirmed_on_chain sdk res"
    and rest: "batch_outcome sdk opts key b d (offset + BATCH_TX_LIMIT) css tail"
  shows "batch_outcome sdk opts key b d offset (cs # css) (res # tail)"
proof -
  have more: "offset + BATCH_TX_LIMIT < length (ba_targets opts)" if "0 < length tail"
    using that rest by (cases "length (ba_targets opts) - (offset + BATCH_TX_LIMIT)") (auto simp: batch_outcome_def)
  have conf: "confirmed_on_chain sdk ((res # tail) ! j)" if "b \<noteq> None" "Suc j < length (cs # css)" for j
  proof (cases j)
    case 0
    from that(2) rest have "0 < length tail" by (auto simp: batch_outcome_def)
    from assms(4) [OF that(1) more [OF this]] 0 show ?thesis by simp
  next
    case (Suc i)
    with that rest show ?thesis by (simp add: batch_outcome_def)
  qed
  from rest assms(1-3) conf show ?thesis
    by (auto simp: batch_outcome_def chunk_count_Suc all_less_Suc_shift algebra_simps)
qed

lemma batch_loop_runs:
  assumes quiet: "quiet_sdk sdk"
  shows "batch_loop sdk opts key pr b d offset results completed w = Some (Inr rs, w') \<Longrightarrow>
    \<exists>css tail. rs = results @ tail \<and> calls w' = calls w @ concat css \<and> batch_outcome sdk opts key b d offset css tail"
proof (induction "length (ba_targets opts) - offset" arbitrary: offset results completed w rule: less_induct)
  case less
  show ?case
  proof (cases "length (ba_targets opts) \<le> offset")
    case True
    with less.prems have "rs = results" "w' = w" by (simp_all add: batch_loop.simps)
    with True show ?thesis by (intro exI [of _ "[]"]) (simp add: batch_outcome_Nil)
  next
    case False
    let ?c = "completed + length (take BATCH_TX_LIMIT (drop offset (ba_targets opts)))"
    obtain r w1 where chunk: "and_then (checked (chunk_nonce (sd_stellar sdk) b offset)) (\<lambda>n.
       and_then (submit_chunk sdk opts key offset n d) (\<lambda>result.
       and_then (report_progress pr ?c (length (ba_targets opts)) result) (\<lambda>_. give result))) w = (r, w1)"
      by (rule prod.exhaust)
    with False less.prems obtain res where r: "r = Inr res"
      by (cases r) (auto simp: batch_loop.simps)
    from run_chunk [OF quiet chunk[unfolded r]] obtain n cs where
      cs: "calls w1 = calls w @ cs" "chunk_nonce (sd_stellar sdk) b offset = Inr n"
      "submission sdk (ba_source opts) ''batch_fund_c_address'' (chunk_args (sd_stellar sdk) opts offset n d) Inr key cs"
      "sent_result sdk cs res \<or> (\<exists>msg. res = failed_result msg)" by blast
    from False less.prems chunk r obtain x w2 where after: "after_chunk sdk opts b offset res w1 = Some (Inr x, w2)"
      by (auto simp: batch_loop.simps split: option.splits sum.splits)
    from after_chunk_runs [OF quiet after] obtain k where
      k: "calls w2 = calls w1 @ replicate k (GetTransaction (tr_hash res))"
      and x: "case x of
         None \<Rightarrow> b \<noteq> None \<and> offset + BATCH_TX_LIMIT < length (ba_targets opts) \<longrightarrow> confirmed_on_chain sdk res
       | Some rest \<Rightarrow> b \<noteq> None \<and> (\<exists>res reason. tr_status res = Failed \<and> reason \<in> {failed_earlier, unconfirmed_earlier}
           \<and> rest = res # replicate (chunk_count (length (ba_targets opts) - offset - BATCH_TX_LIMIT)) (failed_result reason))"
      by blast
    let ?cs = "cs @ replicate k (GetTransaction (tr_hash res))"
    have trace: "chunk_calls sdk opts key b d offset ?cs" using cs(2,3) unfolding chunk_calls_def by blast
    have sent: "sent_result sdk ?cs res" if "tr_status res = Pending"
      using that cs(4) by (auto simp: sent_result_def failed_result_def)
    show ?thesis
    proof (cases x)
      case (Some rest)
      with False less.prems chunk r after have "rs = results @ rest" "w' = w2" by (simp_all add: batch_loop.simps)
      moreover from x Some obtain res2 reason where "b \<noteq> None" "tr_status res2 = Failed"
        "reason \<in> {failed_earlier, unconfirmed_earlier}"
        "rest = res2 # replicate (chunk_count (length (ba_targets opts) - offset - BATCH_TX_LIMIT)) (failed_result reason)"
        by auto
      ultimately show ?thesis
        using batch_outcome_stop [OF _ trace, of res2 reason] False cs(1) k
        by (intro exI [of _ "[?cs]"] exI [of _ rest]) simp
    next
      case None
      with False less.prems chunk r after
      have rest: "batch_loop sdk opts key pr b d (offset + BATCH_TX_LIMIT) (results @ [res]) ?c w2 = Some (Inr rs, w')"
        by (simp add: batch_loop.simps [of sdk opts key pr b d offset])
      have "length (ba_targets opts) - (offset + BATCH_TX_LIMIT) < length (ba_targets opts) - offset"
        using False by (simp add: BATCH_TX_LIMIT_def)
      from less.hyps [OF this rest] obtain css tail where
        tail: "rs = (results @ [res]) @ tail" "calls w' = calls w2 @ concat css"
        "batch_outcome sdk opts key b d (offset + BATCH_TX_LIMIT) css tail" by blast
      have "batch_outcome sdk opts key b d offset (?cs # css) (res # tail)"
        using False x None sent by (intro batch_outcome_Cons [OF _ trace _ _ tail(3)]) auto
      with tail(1,2) cs(1) k show ?thesis
        by (intro exI [of _ "?cs # css"] exI [of _ "res # tail"]) simp
    qed
  qed
qed

lemma waiting_hooks_result:
  assumes "waiting_hooks sdk wrap m params fn w = Some (r, w')"
  shows "\<exists>w0 w1. wd_log w0 = wd_log w \<and> fn w0 = Some (r, w1) \<and> wd_log w' = wd_log w1"
proof -
  from assms obtain outcome where fn: "fn (fireTransactionStart sdk m params w) = Some outcome"
    and run: "withTransactionHooks sdk wrap m params (\<lambda>_. outcome) w = (r, w')"
    by (auto simp: waiting_hooks_def)
  from withTransactionHooks_result [OF run] obtain w1 where "outcome = (r, w1)" "wd_log w' = wd_log w1" by auto
  with fn show ?thesis by (intro exI [of _ "fireTransactionStart sdk m params w"] exI [of _ w1]) simp
qed

text \<open>C24: A batch pays every recipient at most once, in order, and stops in time.  The recipients are cut into
  consecutive chunks of at most 100 that partition them; a batch that returns made, for a first part of
  the chunks, one submission each, with the chunk's own recipients, amounts and nonce, and has one result for
  every chunk.  Without a nonce every chunk is submitted.  With a nonce a chunk is submitted only if
  the server reported every chunk before as included and not failed; all chunks after the first that
  was not are reported failed and never submitted.  Invalid input makes no call.\<close>

theorem batch_submits_chunks_in_order:
  assumes "quiet_sdk sdk" "batchFundCAddresses sdk opts key onProgress w = Some (Inr results, w')"
  shows "(first_error (batch_checks (sd_stellar sdk) opts) = Inr () \<longrightarrow>
      (\<exists>b d css. optional_bigint (ba_nonce opts) = Inr b \<and> calls w' = calls w @ concat css
        \<and> length results = chunk_count (length (ba_targets opts)) \<and> length css \<le> length results
        \<and> (\<forall>j < length css. chunk_calls sdk opts key b d (BATCH_TX_LIMIT * j) (css ! j)
             \<and> (tr_status (results ! j) = Pending \<longrightarrow> sent_result sdk (css ! j) (results ! j)))
        \<and> (\<forall>j < length results. length css \<le> j \<longrightarrow>
             results ! j \<in> {failed_result failed_earlier, failed_result unconfirmed_earlier})
        \<and> (b = None \<longrightarrow> length css = length results)
        \<and> (b \<noteq> None \<longrightarrow> (\<forall>j. Suc j < length css \<longrightarrow> confirmed_on_chain sdk (results ! j)))))
    \<and> (first_error (batch_checks (sd_stellar sdk) opts) \<noteq> Inr () \<longrightarrow>
        calls w' = calls w \<and> (\<exists>msg. results = [failed_result msg]))
    \<and> concat (map (\<lambda>i. take BATCH_TX_LIMIT (drop (BATCH_TX_LIMIT * i) (zip (ba_targets opts) (ba_amounts opts))))
         [0..<chunk_count (length (zip (ba_targets opts) (ba_amounts opts)))]) = zip (ba_targets opts) (ba_amounts opts)"
proof (intro conjI impI)
  from waiting_hooks_result [OF assms(2)[unfolded batchFundCAddresses_def]] obtain w0 w1 where
    logs: "wd_log w0 = wd_log w" "wd_log w' = wd_log w1"
    and run: "batch_body sdk opts key onProgress w0 = Some (Inr results, w1)" by blast
  {
    assume "first_error (batch_checks (sd_stellar sdk) opts) = Inr ()"
    with run obtain b d where loop: "optional_bigint (ba_nonce opts) = Inr b"
      "batch_loop sdk opts key onProgress b d 0 [] 0 w0 = Some (Inr results, w1)"
      by (auto simp: batch_body_def Let_def bind_sum_eq_Inr split: sum.splits)
    from batch_loop_runs [OF assms(1) loop(2)] obtain css where
      "calls w1 = calls w0 @ concat css" "batch_outcome sdk opts key b d 0 css results" by auto
    with logs loop(1) show "\<exists>b d css. optional_bigint (ba_nonce opts) = Inr b \<and> calls w' = calls w @ concat css
        \<and> length results = chunk_count (length (ba_targets opts)) \<and> length css \<le> length results
        \<and> (\<forall>j < length css. chunk_calls sdk opts key b d (BATCH_TX_LIMIT * j) (css ! j)
             \<and> (tr_status (results ! j) = Pending \<longrightarrow> sent_result sdk (css ! j) (results ! j)))
        \<and> (\<forall>j < length results. length css \<le> j \<longrightarrow>
             results ! j \<in> {failed_result failed_earlier, failed_result unconfirmed_earlier})
        \<and> (b = None \<longrightarrow> length css = length results)
        \<and> (b \<noteq> None \<longrightarrow> (\<forall>j. Suc j < length css \<longrightarrow> confirmed_on_chain sdk (results ! j)))"
      by (intro exI [of _ b] exI [of _ d] exI [of _ css]) (simp add: batch_outcome_def)
  next
    assume "first_error (batch_checks (sd_stellar sdk) opts) \<noteq> Inr ()"
    with run logs show "calls w' = calls w" "\<exists>msg. results = [failed_result msg]"
      by (auto simp: batch_body_def Let_def bind_sum_eq_Inr unit_eq split: sum.splits)
  }
qed (rule concat_chunks)

definition sample_batch :: batch_options where
  "sample_batch = \<lparr>ba_source = ''GA'', ba_targets = [''CT'', ''CU''], ba_amounts = [''5'', ''7''], ba_asset = ''CA'',
                   ba_nonce = Some (IntBig 4), ba_deadline = None\<rparr>"

lemma sample_chunk:
  "\<exists>w1. submit_chunk sample_sdk sample_batch ''GK'' 0 n d w = (Inr \<lparr>tr_hash = ''h'', tr_status = Pending, tr_error = None\<rparr>, w1)"
proof -
  have "bigint_of_string ''5'' = Some 5" "bigint_of_string ''7'' = Some 7" by code_simp+
  then have "\<exists>vs. chunk_args sample_stellar sample_batch 0 n d = Inr vs"
    by (simp add: chunk_args_def sample_batch_def BATCH_TX_LIMIT_def encoded_def newAddress_def sample_stellar_def
        typedBigInt_def to_bigint_def BigInt_def toScVals_map toScValList_map in_range_def)
  then obtain vs where "chunk_args sample_stellar sample_batch 0 n d = Inr vs" ..
  then show ?thesis
    by (simp add: submit_chunk_def catch_failed_def submit_call_def checked_def result_of_reply_def)
qed

lemma batch_submits_chunks_in_order_witness:
  "\<exists>results w'. batchFundCAddresses sample_sdk sample_batch ''GK'' None sample_world = Some (Inr results, w')
     \<and> length results = 1"
proof -
  have checks: "first_error (batch_checks (sd_stellar sample_sdk) sample_batch) = Inr ()"
    by (simp add: first_error_Inr_iff batch_checks_def check_each_Inr sample_batch_def sample_stellar_def
        assertAccountAddress_def assertContractAddress_def less_Suc_eq)
  have two: "length (ba_targets sample_batch) = 2" by (simp add: sample_batch_def)
  obtain w1 where chunk: "submit_chunk sample_sdk sample_batch ''GK'' 0 (ScInt ''u64'' 4) ScVoid sample_world
      = (Inr \<lparr>tr_hash = ''h'', tr_status = Pending, tr_error = None\<rparr>, w1)" using sample_chunk by blast
  have nonce: "chunk_nonce sample_stellar (Some 4) 0 = Inr (ScInt ''u64'' 4)"
    by (simp add: chunk_nonce_def sample_stellar_def in_range_def)
  have "\<exists>results w'. batch_loop sample_sdk sample_batch ''GK'' None (Some 4) ScVoid 0 [] 0 sample_world = Some (Inr results, w')"
    using chunk two
    by (subst batch_loop.simps, subst batch_loop.simps)
      (simp add: nonce checked_def report_progress_def after_chunk_def BATCH_TX_LIMIT_def)
  moreover have "optional_bigint (ba_nonce sample_batch) = Inr (Some 4)"
    "optionalNonceToScVal sample_stellar (ba_deadline sample_batch) = Inr ScVoid"
    by (simp_all add: sample_batch_def optional_bigint_def to_bigint_def BigInt_def optionalNonceToScVal_def)
  ultimately obtain results w' where "batch_body sample_sdk sample_batch ''GK'' None sample_world = Some (Inr results, w')"
    using checks by (auto simp: batch_body_def)
  then have run: "batchFundCAddresses sample_sdk sample_batch ''GK'' None sample_world = Some (Inr results, w')"
    by (simp add: batchFundCAddresses_def waiting_hooks_def fireTransactionStart_def fireTransactionSuccess_def
        withTransactionHooks_def Let_def)
  have "chunk_count 2 = 1" by (simp add: chunk_count_def BATCH_TX_LIMIT_def)
  with batch_submits_chunks_in_order [OF sample_quiet(2) run] checks two have "length results = 1" by auto
  with run show ?thesis by blast
qed

end
