(* ===== verification/Sdk_Cache.thy ===== *)
theory Sdk_Cache
  imports Bridge_Prelude
begin

text \<open>
  The SDK's in-memory cache (\<open>InMemoryCache\<close> of \<open>sdk/src/cache.ts\<close>) and the read-through pattern
  of the cached contract client (\<open>sdk/src/cachedBridge.ts\<close>).  The \<open>Map\<close> is a list of entries in
  insertion order; \<open>now\<close> is the clock of the call.
\<close>

section \<open>InMemoryCache\<close>

record 'v cache_entry =
  ce_value :: 'v
  ce_expiresAt :: "int option"

record 'v cache =
  ca_store :: "(string \<times> 'v cache_entry) list"
  ca_maxEntries :: "int option"
  ca_sweepIntervalMs :: int
  ca_lastSweep :: int

definition new_cache :: "int option \<Rightarrow> int option \<Rightarrow> 'v cache" where
  "new_cache maxEntries sweepIntervalMs =
     \<lparr>ca_store = [], ca_maxEntries = maxEntries,
      ca_sweepIntervalMs = (case sweepIntervalMs of None \<Rightarrow> 1000 | Some i \<Rightarrow> i), ca_lastSweep = 0\<rparr>"

definition map_delete :: "'k \<Rightarrow> ('k \<times> 'v) list \<Rightarrow> ('k \<times> 'v) list" where
  "map_delete k s = filter (\<lambda>e. fst e \<noteq> k) s"

definition map_set :: "'k \<Rightarrow> 'v \<Rightarrow> ('k \<times> 'v) list \<Rightarrow> ('k \<times> 'v) list" where
  "map_set k v s =
     (if k \<in> fst ` set s then map (\<lambda>e. if fst e = k then (k, v) else e) s else s @ [(k, v)])"

definition expired :: "int \<Rightarrow> 'v cache_entry \<Rightarrow> bool" where
  "expired now e = (case ce_expiresAt e of None \<Rightarrow> False | Some t \<Rightarrow> now > t)"

definition cache_get :: "int \<Rightarrow> string \<Rightarrow> 'v cache \<Rightarrow> 'v option \<times> 'v cache" where
  "cache_get now key c =
     (case map_of (ca_store c) key of
        None \<Rightarrow> (None, c)
      | Some entry \<Rightarrow>
          if expired now entry then (None, c\<lparr>ca_store := map_delete key (ca_store c)\<rparr>)
          else (Some (ce_value entry), c\<lparr>ca_store := map_set key entry (map_delete key (ca_store c))\<rparr>))"

definition sweepExpired :: "int \<Rightarrow> 'v cache \<Rightarrow> 'v cache" where
  "sweepExpired now c =
     (if ca_sweepIntervalMs c > 0 \<and> now - ca_lastSweep c < ca_sweepIntervalMs c then c
      else c\<lparr>ca_lastSweep := now, ca_store := filter (\<lambda>e. \<not> expired now (snd e)) (ca_store c)\<rparr>)"

fun evict_loop :: "int \<Rightarrow> 'a list \<Rightarrow> 'a list" where
  "evict_loop maxEntries [] = []"
| "evict_loop maxEntries (e # es) =
     (if int (length (e # es)) > maxEntries then evict_loop maxEntries es else e # es)"

definition evictOverflow :: "'v cache \<Rightarrow> 'v cache" where
  "evictOverflow c =
     (case ca_maxEntries c of None \<Rightarrow> c | Some m \<Rightarrow> c\<lparr>ca_store := evict_loop m (ca_store c)\<rparr>)"

definition cache_set :: "int \<Rightarrow> string \<Rightarrow> 'v \<Rightarrow> int option \<Rightarrow> 'v cache \<Rightarrow> 'v cache" where
  "cache_set now key value ttlMs c =
     evictOverflow (sweepExpired now
       (c\<lparr>ca_store := map_set key \<lparr>ce_value = value, ce_expiresAt = map_option ((+) now) ttlMs\<rparr>
                        (map_delete key (ca_store c))\<rparr>))"

definition cache_delete :: "string \<Rightarrow> 'v cache \<Rightarrow> 'v cache" where
  "cache_delete key c = c\<lparr>ca_store := map_delete key (ca_store c)\<rparr>"

definition cache_clear :: "'v cache \<Rightarrow> 'v cache" where
  "cache_clear c = c\<lparr>ca_store := []\<rparr>"

section \<open>The cached client\<close>

text \<open>\<open>getFee\<close>, \<open>getFeeCollector\<close>, \<open>getAdmin\<close> and \<open>isInitialized\<close> share one shape: the cached value
  if there is one, else the value loaded from the contract, stored with the key's time to live.
  A load that throws stores nothing.\<close>

definition cached_read ::
  "int \<Rightarrow> string \<Rightarrow> int \<Rightarrow> ('e + 'v) \<Rightarrow> 'v cache \<Rightarrow> ('e + 'v) \<times> 'v cache" where
  "cached_read now key ttl loaded c =
     (case cache_get now key c of
        (Some v, c') \<Rightarrow> (Inr v, c')
      | (None, c') \<Rightarrow>
          (case loaded of Inl e \<Rightarrow> (Inl e, c') | Inr v \<Rightarrow> (Inr v, cache_set now key v (Some ttl) c')))"

definition cache_keys :: "string list" where
  "cache_keys = [''getFee'', ''getFeeCollector'', ''getAdmin'', ''isInitialized'']"

definition invalidate_keys :: "string list \<Rightarrow> 'v cache \<Rightarrow> 'v cache" where
  "invalidate_keys ks c = fold cache_delete ks c"

text \<open>\<open>invalidateCache(keys?)\<close>: \<open>None\<close> clears everything.\<close>

definition invalidateCache :: "string list option \<Rightarrow> 'v cache \<Rightarrow> 'v cache" where
  "invalidateCache ks c = (case ks of None \<Rightarrow> cache_clear c | Some ks' \<Rightarrow> invalidate_keys ks' c)"

section \<open>Expiring stores\<close>

text \<open>
  What the read-through needs of a cache: a hit is what is held and has not expired, and no
  operation makes the cache hold anything but what was put there.  Eviction may drop entries.
\<close>

locale expiring_store =
  fixes get :: "int \<Rightarrow> string \<Rightarrow> 'c \<Rightarrow> 'v option \<times> 'c"
    and put :: "int \<Rightarrow> string \<Rightarrow> 'v \<Rightarrow> int option \<Rightarrow> 'c \<Rightarrow> 'c"
    and remove :: "string \<Rightarrow> 'c \<Rightarrow> 'c"
    and held :: "'c \<Rightarrow> string \<Rightarrow> ('v \<times> int option) option"
    and ok :: "'c \<Rightarrow> bool"
  assumes get_ok: "ok c \<Longrightarrow> ok (snd (get now k c))"
    and put_ok: "ok c \<Longrightarrow> ok (put now k v ttl c)"
    and remove_ok: "ok c \<Longrightarrow> ok (remove k c)"
    and get_hit: "ok c \<Longrightarrow> fst (get now k c) = Some v \<Longrightarrow>
      \<exists>x. held c k = Some (v, x) \<and> (\<forall>t. x = Some t \<longrightarrow> now \<le> t)"
    and get_held: "ok c \<Longrightarrow> held (snd (get now k c)) k' = Some p \<Longrightarrow> held c k' = Some p"
    and put_held: "ok c \<Longrightarrow> held (put now k v ttl c) k' = Some p \<Longrightarrow>
      (k' = k \<and> p = (v, map_option ((+) now) ttl)) \<or> held c k' = Some p"
    and remove_held: "ok c \<Longrightarrow> held (remove k c) k' = Some p \<Longrightarrow> k' \<noteq> k \<and> held c k' = Some p"
begin

text \<open>Every held value under \<open>k\<close> was loaded at some time since \<open>since\<close> and expires \<open>ttl\<close> later.\<close>

definition fresh_since :: "string \<Rightarrow> int \<Rightarrow> (int \<Rightarrow> 'v) \<Rightarrow> int \<Rightarrow> int \<Rightarrow> 'c \<Rightarrow> bool" where
  "fresh_since k ttl source since now c \<longleftrightarrow> ok c
     \<and> (\<forall>v x. held c k = Some (v, x) \<longrightarrow>
          (\<exists>t. since \<le> t \<and> t \<le> now \<and> v = source t \<and> x = Some (t + ttl)))"

definition read_through :: "int \<Rightarrow> string \<Rightarrow> int \<Rightarrow> ('e + 'v) \<Rightarrow> 'c \<Rightarrow> ('e + 'v) \<times> 'c" where
  "read_through now k ttl loaded c =
     (case get now k c of
        (Some v, c') \<Rightarrow> (Inr v, c')
      | (None, c') \<Rightarrow> (case loaded of Inl e \<Rightarrow> (Inl e, c') | Inr v \<Rightarrow> (Inr v, put now k v (Some ttl) c')))"

lemma read_through_fresh:
  assumes "fresh_since k ttl source since now c" "now \<le> now'" "since \<le> now'" "0 \<le> ttl"
    and "loaded = Inr (source now') \<or> loaded = Inl e"
    and "read_through now' k ttl loaded c = (r, c')"
  shows "fresh_since k ttl source since now' c'
    \<and> (r = Inl e \<or> (\<exists>t. since \<le> t \<and> t \<le> now' \<and> now' \<le> t + ttl \<and> r = Inr (source t)))"
proof -
  obtain hit c1 where g: "get now' k c = (hit, c1)" by force
  have c1: "fresh_since k ttl source since now' c1"
    using assms(1,2) get_ok [of c now' k] get_held [of c now' k k] g by (fastforce simp: fresh_since_def)
  show ?thesis
  proof (cases hit)
    case (Some v)
    then obtain x where "held c k = Some (v, x)" "\<forall>t. x = Some t \<longrightarrow> now' \<le> t"
      using get_hit [of c now' k v] g assms(1) by (auto simp: fresh_since_def)
    moreover from this(1) assms(1) obtain t where "since \<le> t" "t \<le> now" "v = source t" "x = Some (t + ttl)"
      unfolding fresh_since_def by blast
    ultimately have "since \<le> t" "t \<le> now'" "now' \<le> t + ttl" "v = source t"
      using assms(2) by auto
    with c1 Some g assms(6) show ?thesis by (auto simp: read_through_def)
  next
    case None
    have "fresh_since k ttl source since now' (put now' k (source now') (Some ttl) c1)"
      unfolding fresh_since_def
    proof (intro conjI allI impI)
      show "ok (put now' k (source now') (Some ttl) c1)" using c1 put_ok by (simp add: fresh_since_def)
      fix v x assume "held (put now' k (source now') (Some ttl) c1) k = Some (v, x)"
      then have "(v, x) = (source now', Some (now' + ttl)) \<or> held c1 k = Some (v, x)"
        using c1 put_held [of c1 now' k "source now'" "Some ttl" k] by (simp add: fresh_since_def)
      then show "\<exists>t. since \<le> t \<and> t \<le> now' \<and> v = source t \<and> x = Some (t + ttl)"
        using c1 assms(3) unfolding fresh_since_def by blast
    qed
    with c1 None g assms(3-6) show ?thesis by (auto simp: read_through_def)
  qed
qed

lemma remove_fresh:
  assumes "fresh_since k ttl source since now c"
  shows "fresh_since k ttl source now' now'' (remove k c)"
proof -
  have ok: "ok c" using assms by (simp add: fresh_since_def)
  have "held (remove k c) k \<noteq> Some p" for p using remove_held [OF ok, of k k p] by blast
  then show ?thesis using remove_ok [OF ok] by (simp add: fresh_since_def)
qed

end

section \<open>Lemmas\<close>

lemma map_delete_keys [simp]: "fst ` set (map_delete k s) = fst ` set s - {k}"
  by (auto simp: map_delete_def)

lemma map_set_delete [simp]: "map_set k v (map_delete k s) = map_delete k s @ [(k, v)]"
  by (simp add: map_set_def)

lemma map_of_delete [simp]: "map_of (map_delete k s) k' = (if k' = k then None else map_of s k')"
  by (induction s) (auto simp: map_delete_def)

lemma map_of_append_fresh: "map_of (s @ [(k, v)]) k' = (case map_of s k' of None \<Rightarrow> if k' = k then Some v else None | Some w \<Rightarrow> Some w)"
  by (induction s) auto

lemma distinct_map_filter: "distinct (map f s) \<Longrightarrow> distinct (map f (filter P s))"
  by (induction s) auto

lemma map_of_filter_subset:
  "distinct (map fst s) \<Longrightarrow> map_of (filter P s) k = Some v \<Longrightarrow> map_of s k = Some v"
  by (metis (no_types, lifting) distinct_map_filter filter_is_subset map_of_SomeD map_of_is_SomeI subset_iff)

lemma evict_loop_suffix: "\<exists>ds. xs = ds @ evict_loop m xs"
proof (induction m xs rule: evict_loop.induct)
  case (2 m e es)
  show ?case
  proof (cases "int (length (e # es)) > m")
    case True
    with 2 obtain ds where "es = ds @ evict_loop m es" by auto
    then have "e # es = (e # ds) @ evict_loop m es" by simp
    moreover from True have "evict_loop m (e # es) = evict_loop m es" by simp
    ultimately show ?thesis by (intro exI [of _ "e # ds"]) (simp only:)
  qed auto
qed simp

lemma evict_loop_length: "0 \<le> m \<Longrightarrow> int (length (evict_loop m xs)) \<le> m"
  by (induction m xs rule: evict_loop.induct) auto

lemma evict_loop_id: "int (length xs) \<le> m \<Longrightarrow> evict_loop m xs = xs"
  by (cases xs) auto

lemma evict_loop_distinct: "distinct (map f xs) \<Longrightarrow> distinct (map f (evict_loop m xs))"
  using evict_loop_suffix [of xs m] by (metis distinct_append map_append)

lemma map_of_suffix:
  assumes "distinct (map fst (ds @ s))" "map_of s k = Some v"
  shows "map_of (ds @ s) k = Some v"
proof (rule map_of_is_SomeI [OF assms(1)])
  show "(k, v) \<in> set (ds @ s)" using map_of_SomeD [OF assms(2)] by simp
qed

definition cache_ok :: "'v cache \<Rightarrow> bool" where
  "cache_ok c = distinct (map fst (ca_store c))"

definition cache_held :: "'v cache \<Rightarrow> string \<Rightarrow> ('v \<times> int option) option" where
  "cache_held c k = map_option (\<lambda>e. (ce_value e, ce_expiresAt e)) (map_of (ca_store c) k)"

lemma map_delete_distinct: "distinct (map fst s) \<Longrightarrow> distinct (map fst (map_delete k s))"
  by (simp add: map_delete_def distinct_map_filter)

lemma map_delete_snoc_distinct: "distinct (map fst s) \<Longrightarrow> distinct (map fst (map_delete k s @ [(k, v)]))"
  by (simp add: map_delete_distinct)

lemma sweep_ok: "cache_ok c \<Longrightarrow> cache_ok (sweepExpired now c)"
  by (simp add: sweepExpired_def cache_ok_def distinct_map_filter)

lemma evict_ok: "cache_ok c \<Longrightarrow> cache_ok (evictOverflow c)"
  by (simp add: evictOverflow_def cache_ok_def evict_loop_distinct split: option.splits)

lemma sweep_held: "cache_ok c \<Longrightarrow> map_of (ca_store (sweepExpired now c)) k = Some e \<Longrightarrow> map_of (ca_store c) k = Some e"
  unfolding sweepExpired_def
  by (auto simp: cache_ok_def simp del: map_of_eq_Some_iff dest: map_of_filter_subset split: if_splits)

lemma evict_held: "cache_ok c \<Longrightarrow> map_of (ca_store (evictOverflow c)) k = Some e \<Longrightarrow> map_of (ca_store c) k = Some e"
proof -
  assume ok: "cache_ok c" and e: "map_of (ca_store (evictOverflow c)) k = Some e"
  show ?thesis
  proof (cases "ca_maxEntries c")
    case None
    with e show ?thesis by (simp add: evictOverflow_def)
  next
    case (Some m)
    obtain ds where "ca_store c = ds @ evict_loop m (ca_store c)" using evict_loop_suffix by blast
    with ok e Some show ?thesis
      using map_of_suffix [of ds "evict_loop m (ca_store c)" k e] by (simp add: evictOverflow_def cache_ok_def)
  qed
qed

lemma cache_get_ok: "cache_ok c \<Longrightarrow> cache_ok (snd (cache_get now k c))"
  by (auto simp: cache_get_def cache_ok_def map_delete_distinct split: option.splits)

lemma cache_set_ok: "cache_ok c \<Longrightarrow> cache_ok (cache_set now k v ttl c)"
  unfolding cache_set_def by (intro evict_ok sweep_ok) (simp add: cache_ok_def map_delete_distinct)

lemma cache_get_held: "map_of (ca_store (snd (cache_get now k c))) k' = Some e \<Longrightarrow> map_of (ca_store c) k' = Some e"
  by (auto simp: cache_get_def map_of_append_fresh split: option.splits if_splits)

interpretation memory: expiring_store cache_get cache_set cache_delete cache_held cache_ok
proof unfold_locales
  fix c :: "'v cache" and now k k' v p ttl
  assume ok: "cache_ok c"
  show "cache_ok (snd (cache_get now k c))" using ok by (rule cache_get_ok)
  show "cache_ok (cache_set now k v ttl c)" using ok by (rule cache_set_ok)
  show "cache_ok (cache_delete k c)" using ok by (simp add: cache_ok_def cache_delete_def map_delete_distinct)
  show "\<exists>x. cache_held c k = Some (v, x) \<and> (\<forall>t. x = Some t \<longrightarrow> now \<le> t)" if "fst (cache_get now k c) = Some v"
    using that by (auto simp: cache_get_def cache_held_def expired_def split: option.splits if_splits)
  show "cache_held c k' = Some p" if "cache_held (snd (cache_get now k c)) k' = Some p"
    using that cache_get_held [of now k c k'] by (auto simp: cache_held_def)
  show "k' \<noteq> k \<and> cache_held c k' = Some p" if "cache_held (cache_delete k c) k' = Some p"
    using that by (auto simp: cache_held_def cache_delete_def split: if_splits)
  show "(k' = k \<and> p = (v, map_option ((+) now) ttl)) \<or> cache_held c k' = Some p"
    if "cache_held (cache_set now k v ttl c) k' = Some p"
  proof -
    let ?c = "c\<lparr>ca_store := map_delete k (ca_store c) @ [(k, \<lparr>ce_value = v, ce_expiresAt = map_option ((+) now) ttl\<rparr>)]\<rparr>"
    have ok1: "cache_ok ?c" using ok by (simp add: cache_ok_def map_delete_distinct)
    from that obtain e where "map_of (ca_store (evictOverflow (sweepExpired now ?c))) k' = Some e"
      and p: "p = (ce_value e, ce_expiresAt e)"
      by (auto simp: cache_held_def cache_set_def)
    then have "map_of (ca_store ?c) k' = Some e"
      using evict_held [OF sweep_ok [OF ok1]] sweep_held [OF ok1] by blast
    with p show ?thesis
      by (auto simp: map_of_append_fresh cache_held_def split: option.splits if_splits)
  qed
qed

lemma read_through_cached_read: "memory.read_through now k ttl loaded c = cached_read now k ttl loaded c"
  by (simp add: memory.read_through_def cached_read_def)

section \<open>Runs of the cached client\<close>

text \<open>One cached view method over time: reads, and invalidations by a submitted mutation, by
  \<open>invalidateCache\<close> with the key or without one.  \<open>source t\<close> is the contract's value at time \<open>t\<close>; a read's
  load may also fail.\<close>

datatype client_event = Read bool | Mutated | InvalidateAll

definition client_step ::
  "string \<Rightarrow> int \<Rightarrow> (int \<Rightarrow> 'v) \<Rightarrow> int \<times> client_event \<Rightarrow> 'v cache \<Rightarrow> (string + 'v) option \<times> 'v cache" where
  "client_step key ttl source ev c =
     (case ev of
        (now, Read ok) \<Rightarrow>
          (case cached_read now key ttl (if ok then Inr (source now) else Inl ''load failed'') c of
             (r, c') \<Rightarrow> (Some r, c'))
      | (now, Mutated) \<Rightarrow> (None, invalidate_keys cache_keys c)
      | (now, InvalidateAll) \<Rightarrow> (None, invalidateCache None c))"

fun client_run ::
  "string \<Rightarrow> int \<Rightarrow> (int \<Rightarrow> 'v) \<Rightarrow> (int \<times> client_event) list \<Rightarrow> 'v cache \<Rightarrow> (string + 'v) option list \<times> 'v cache" where
  "client_run key ttl source [] c = ([], c)"
| "client_run key ttl source (ev # evs) c =
     (case client_step key ttl source ev c of (r, c1) \<Rightarrow>
        case client_run key ttl source evs c1 of (rs, c2) \<Rightarrow> (r # rs, c2))"

text \<open>The time of the last invalidation in a prefix of the run.\<close>

fun last_invalidation :: "int \<Rightarrow> (int \<times> client_event) list \<Rightarrow> int" where
  "last_invalidation t [] = t"
| "last_invalidation t ((now, Read ok) # evs) = last_invalidation t evs"
| "last_invalidation t ((now, e) # evs) = last_invalidation now evs"

abbreviation "mem_fresh \<equiv> memory.fresh_since"

lemma invalidate_fresh:
  assumes "mem_fresh k ttl source since now c" "k \<in> set ks"
  shows "mem_fresh k ttl source now' now'' (invalidate_keys ks c)"
proof -
  have step: "mem_fresh k ttl source a b (cache_delete k' c)" if "mem_fresh k ttl source a b c" for k' a b and c :: "'a cache"
    using that memory.remove_ok [of c k'] memory.remove_held [of c k' k]
    unfolding memory.fresh_since_def by blast
  have "mem_fresh k ttl source now' now'' (fold cache_delete ks c)"
    if "mem_fresh k ttl source now' now'' c \<or> (mem_fresh k ttl source since now c \<and> k \<in> set ks)" for c :: "'a cache"
    using that
  proof (induction ks arbitrary: c)
    case Nil
    then show ?case by simp
  next
    case (Cons k' ks)
    then have "mem_fresh k ttl source now' now'' (cache_delete k' c)
        \<or> (mem_fresh k ttl source since now (cache_delete k' c) \<and> k \<in> set ks)"
      using step memory.remove_fresh [of k ttl source since now c now' now''] by auto
    with Cons.IH show ?case by simp
  qed
  with assms show ?thesis by (simp add: invalidate_keys_def)
qed

lemma clear_fresh: "mem_fresh k ttl source since now (cache_clear c)"
  by (simp add: memory.fresh_since_def cache_ok_def cache_held_def cache_clear_def)

lemma client_step_fresh:
  assumes "mem_fresh key ttl source since now0 c" "now0 \<le> now" "since \<le> now" "0 \<le> ttl" "key \<in> set cache_keys"
    and "client_step key ttl source (now, e) c = (r, c')"
  shows "mem_fresh key ttl source (last_invalidation since [(now, e)]) now c'
    \<and> (\<forall>v. r = Some (Inr v) \<longrightarrow> (\<exists>t. since \<le> t \<and> t \<le> now \<and> now \<le> t + ttl \<and> v = source t))"
proof (cases e)
  case (Read ok)
  from assms(6) Read obtain r' where
    r': "cached_read now key ttl (if ok then Inr (source now) else Inl ''load failed'') c = (r', c')" and "r = Some r'"
    by (auto simp: client_step_def split: prod.splits)
  have "(if ok then Inr (source now) else Inl ''load failed'') = Inr (source now)
      \<or> (if ok then Inr (source now) else Inl ''load failed'' :: string + 'a) = Inl ''load failed''" by simp
  from memory.read_through_fresh [OF assms(1,2,3,4) this] r' \<open>r = Some r'\<close> Read show ?thesis
    by (auto simp: read_through_cached_read)
next
  case Mutated
  with assms show ?thesis by (auto simp: client_step_def intro: invalidate_fresh)
next
  case InvalidateAll
  with assms show ?thesis by (auto simp: client_step_def invalidateCache_def clear_fresh)
qed

lemma last_invalidation_Cons:
  "last_invalidation t (ev # evs) = last_invalidation (last_invalidation t [ev]) evs"
  by (cases ev; cases "snd ev") auto

lemma last_invalidation_le: "t \<le> now \<Longrightarrow> last_invalidation t [(now, e)] \<le> now"
  by (cases e) auto

lemma client_run_fresh:
  assumes "mem_fresh key ttl source since now0 c" "since \<le> now0" "0 \<le> ttl" "key \<in> set cache_keys"
    and "sorted (map fst evs)" "\<forall>ev \<in> set evs. now0 \<le> fst ev"
    and "i < length evs" "fst (client_run key ttl source evs c) ! i = Some (Inr v)"
  shows "\<exists>t. last_invalidation since (take i evs) \<le> t \<and> t \<le> fst (evs ! i) \<and> fst (evs ! i) \<le> t + ttl \<and> v = source t"
  using assms(1,2,5-8)
proof (induction evs arbitrary: c since now0 i)
  case Nil
  then show ?case by simp
next
  case (Cons ev evs)
  obtain now e where ev: "ev = (now, e)" by force
  obtain r c1 where r: "client_step key ttl source (now, e) c = (r, c1)" by force
  have now: "now0 \<le> now" "since \<le> now" using Cons.prems(2,4) ev by auto
  note step = client_step_fresh [OF Cons.prems(1) now assms(3,4) r]
  show ?case
  proof (cases i)
    case 0
    with Cons.prems(6) r ev have "r = Some (Inr v)" by (simp split: prod.splits)
    with step 0 ev show ?thesis by auto
  next
    case (Suc j)
    have run: "fst (client_run key ttl source evs c1) ! j = Some (Inr v)"
      using Cons.prems(6) r ev Suc by (simp split: prod.splits)
    have "\<exists>t. last_invalidation (last_invalidation since [ev]) (take j evs) \<le> t \<and> t \<le> fst (evs ! j)
        \<and> fst (evs ! j) \<le> t + ttl \<and> v = source t"
    proof (rule Cons.IH [OF _ _ _ _ _ run])
      show "mem_fresh key ttl source (last_invalidation since [ev]) now c1" using step ev by simp
      show "last_invalidation since [ev] \<le> now" using last_invalidation_le [OF now(2)] ev by simp
    qed (use Cons.prems(3,5) ev Suc in auto)
    moreover have "last_invalidation since (take i (ev # evs)) = last_invalidation (last_invalidation since [ev]) (take j evs)"
      using Suc last_invalidation_Cons [of since ev "take j evs"] by simp
    ultimately show ?thesis using Suc by simp
  qed
qed

section \<open>The cache as a timed map\<close>

text \<open>What the cache promises: a map from keys to values with an expiry, without order, sweeps or eviction.\<close>

type_synonym 'v timed_map = "string \<Rightarrow> ('v \<times> int option) option"

datatype 'v cache_op = CacheGet string | CacheSet string 'v "int option" | CacheDelete string | CacheClear

definition live :: "int \<Rightarrow> ('v \<times> int option) option \<Rightarrow> 'v option" where
  "live now p =
     (case p of
        None \<Rightarrow> None
      | Some (v, x) \<Rightarrow> if (case x of None \<Rightarrow> False | Some t \<Rightarrow> now > t) then None else Some v)"

fun timed_step :: "int \<times> 'v cache_op \<Rightarrow> 'v timed_map \<Rightarrow> 'v option \<times> 'v timed_map" where
  "timed_step (now, CacheGet k) m = (live now (m k), m)"
| "timed_step (now, CacheSet k v ttl) m = (None, m(k := Some (v, map_option ((+) now) ttl)))"
| "timed_step (now, CacheDelete k) m = (None, m(k := None))"
| "timed_step (now, CacheClear) m = (None, \<lambda>_. None)"

fun timed_run :: "(int \<times> 'v cache_op) list \<Rightarrow> 'v timed_map \<Rightarrow> 'v option list" where
  "timed_run [] m = []"
| "timed_run (op # ops) m = (case timed_step op m of (r, m') \<Rightarrow> r # timed_run ops m')"

fun cache_step :: "int \<times> 'v cache_op \<Rightarrow> 'v cache \<Rightarrow> 'v option \<times> 'v cache" where
  "cache_step (now, CacheGet k) c = cache_get now k c"
| "cache_step (now, CacheSet k v ttl) c = (None, cache_set now k v ttl c)"
| "cache_step (now, CacheDelete k) c = (None, cache_delete k c)"
| "cache_step (now, CacheClear) c = (None, cache_clear c)"

fun cache_run :: "(int \<times> 'v cache_op) list \<Rightarrow> 'v cache \<Rightarrow> 'v option list" where
  "cache_run [] c = []"
| "cache_run (op # ops) c = (case cache_step op c of (r, c') \<Rightarrow> r # cache_run ops c')"

text \<open>The simulation: from \<open>now\<close> on the cache shows what the map shows, or nothing when it is bounded.\<close>

definition agrees :: "'v cache \<Rightarrow> 'v option \<Rightarrow> 'v option \<Rightarrow> bool" where
  "agrees c x y \<longleftrightarrow> x = y \<or> (ca_maxEntries c \<noteq> None \<and> x = None)"

definition refines :: "int \<Rightarrow> 'v cache \<Rightarrow> 'v timed_map \<Rightarrow> bool" where
  "refines now c m \<longleftrightarrow> cache_ok c \<and> (\<forall>t k. now \<le> t \<longrightarrow> agrees c (live t (cache_held c k)) (live t (m k)))"

lemma live_entry: "live now (cache_held c k)
    = (case map_of (ca_store c) k of None \<Rightarrow> None | Some e \<Rightarrow> if expired now e then None else Some (ce_value e))"
  by (simp add: live_def cache_held_def expired_def split: option.splits)

lemma expired_mono: "expired now e \<Longrightarrow> now \<le> t \<Longrightarrow> expired t e"
  by (auto simp: expired_def split: option.splits)

lemma cache_get_answer: "fst (cache_get now k c) = live now (cache_held c k)"
  by (simp add: cache_get_def live_entry split: option.splits)

lemma cache_get_live: "now \<le> t \<Longrightarrow> live t (cache_held (snd (cache_get now k c)) k') = live t (cache_held c k')"
  by (auto simp: live_entry cache_get_def map_of_append_fresh dest: expired_mono split: option.splits if_splits)

lemma map_of_filter_snd:
  "distinct (map fst s) \<Longrightarrow>
     map_of (filter (\<lambda>e. P (snd e)) s) k = (case map_of s k of None \<Rightarrow> None | Some e \<Rightarrow> if P e then Some e else None)"
  by (induction s) (auto split: option.splits simp: map_of_eq_None_iff)

lemma sweep_live: "cache_ok c \<Longrightarrow> now \<le> t \<Longrightarrow> live t (cache_held (sweepExpired now c) k) = live t (cache_held c k)"
  by (auto simp: sweepExpired_def live_entry cache_ok_def map_of_filter_snd [where P = "\<lambda>e. \<not> expired now e"]
      simp del: map_of_eq_Some_iff dest: expired_mono split: option.splits)

lemma evict_live: "cache_ok c \<Longrightarrow> agrees c (live t (cache_held (evictOverflow c) k)) (live t (cache_held c k))"
proof (cases "ca_maxEntries c")
  case None
  then show ?thesis by (simp add: evictOverflow_def agrees_def)
next
  case (Some m)
  assume "cache_ok c"
  then show ?thesis
    using evict_held [of c k] Some by (cases "map_of (ca_store (evictOverflow c)) k") (auto simp: agrees_def live_entry)
qed

lemma cache_set_live:
  assumes "cache_ok c" "now \<le> t"
  shows "agrees c (live t (cache_held (cache_set now k v ttl c) k'))
    (live t (if k' = k then Some (v, map_option ((+) now) ttl) else cache_held c k'))"
proof -
  let ?c = "c\<lparr>ca_store := map_delete k (ca_store c) @ [(k, \<lparr>ce_value = v, ce_expiresAt = map_option ((+) now) ttl\<rparr>)]\<rparr>"
  have ok: "cache_ok ?c" using assms(1) by (simp add: cache_ok_def map_delete_distinct)
  have "live t (cache_held ?c k') = live t (if k' = k then Some (v, map_option ((+) now) ttl) else cache_held c k')"
    by (simp add: cache_held_def map_of_append_fresh del: map_of_append split: option.splits)
  moreover have "ca_maxEntries (sweepExpired now ?c) = ca_maxEntries c" by (simp add: sweepExpired_def)
  ultimately show ?thesis
    using evict_live [OF sweep_ok [OF ok, of now], of t k'] sweep_live [OF ok assms(2), of k']
    by (simp add: cache_set_def agrees_def)
qed

lemma step_maxEntries: "ca_maxEntries (snd (cache_step op c)) = ca_maxEntries c"
  by (cases op; cases "snd op")
    (auto simp: cache_get_def cache_set_def cache_delete_def cache_clear_def evictOverflow_def sweepExpired_def
      split: option.splits)

lemma step_refines:
  assumes "refines now0 c m" "now0 \<le> now" "cache_step (now, e) c = (x, c')" "timed_step (now, e) m = (y, m')"
  shows "agrees c x y \<and> refines now c' m'"
proof -
  have ok: "cache_ok c" and sim: "\<And>t k. now \<le> t \<Longrightarrow> agrees c (live t (cache_held c k)) (live t (m k))"
    using assms(1,2) by (auto simp: refines_def)
  have max: "ca_maxEntries c' = ca_maxEntries c" using step_maxEntries [of "(now, e)" c] assms(3) by simp
  show ?thesis
  proof (cases e)
    case (CacheGet k)
    with assms(3,4) have "x = live now (cache_held c k)" "y = live now (m k)" "c' = snd (cache_get now k c)" "m' = m"
      using cache_get_answer [of now k c] by auto
    with ok sim max cache_get_ok [OF ok] show ?thesis by (simp add: refines_def agrees_def cache_get_live)
  next
    case (CacheSet k v ttl)
    with assms(3,4) have c': "c' = cache_set now k v ttl c" and "x = None" "y = None"
      and m': "m' = m(k := Some (v, map_option ((+) now) ttl))" by auto
    moreover have "agrees c' (live t (cache_held c' k')) (live t (m' k'))" if "now \<le> t" for t k'
      using cache_set_live [OF ok that, of k v ttl k'] sim [OF that, of k'] max c' m'
      by (auto simp: agrees_def split: if_splits)
    ultimately show ?thesis using cache_set_ok [OF ok] by (simp add: refines_def agrees_def)
  next
    case (CacheDelete k)
    have "cache_held (cache_delete k c) k' = (if k' = k then None else cache_held c k')" for k'
      by (simp add: cache_held_def cache_delete_def)
    moreover have "cache_ok (cache_delete k c)" using ok by (rule memory.remove_ok)
    moreover have "agrees c' (live t (cache_held (cache_delete k c) k')) (live t ((m(k := None)) k'))" if "now \<le> t" for t k'
      using sim [OF that, of k'] max calculation(1) [of k'] by (simp add: agrees_def)
    moreover have "x = None" "y = None" "c' = cache_delete k c" "m' = m(k := None)"
      using CacheDelete assms(3,4) by auto
    ultimately show ?thesis unfolding refines_def by (metis agrees_def)
  next
    case CacheClear
    with assms(3,4) show ?thesis
      by (auto simp: refines_def agrees_def cache_ok_def cache_clear_def cache_held_def live_def)
  qed
qed

lemma run_refines:
  assumes "refines now0 c m" "sorted (map fst ops)" "\<forall>op \<in> set ops. now0 \<le> fst op"
  shows "list_all2 (agrees c) (cache_run ops c) (timed_run ops m)"
  using assms
proof (induction ops arbitrary: now0 c m)
  case (Cons op ops)
  obtain now e where op: "op = (now, e)" by force
  obtain x c' y m' where steps: "cache_step (now, e) c = (x, c')" "timed_step (now, e) m = (y, m')"
    by (metis surj_pair)
  have "agrees c x y" "refines now c' m'" using step_refines [OF Cons.prems(1) _ steps] Cons.prems(3) op by auto
  moreover have "list_all2 (agrees c') (cache_run ops c') (timed_run ops m')"
    by (rule Cons.IH [OF \<open>refines now c' m'\<close>]) (use Cons.prems(2) op in auto)
  moreover have "agrees c' = agrees c" using step_maxEntries [of op c] steps op by (simp add: agrees_def fun_eq_iff)
  ultimately show ?case using steps op by simp
qed simp

section \<open>Properties\<close>

text \<open>Cached views are never older than their time to live nor than the last invalidation: in any run
  of reads (with loads that may fail), submitted mutations and invalidations, a read that returns a
  value returns one the contract had at some time since the last invalidation and at most \<open>ttl\<close>
  milliseconds earlier.\<close>

theorem cached_reads_boundedly_stale:
  assumes "0 \<le> ttl" "key \<in> set cache_keys" "sorted (map fst evs)" "\<forall>ev \<in> set evs. t0 \<le> fst ev"
    and "i < length evs" "fst (client_run key ttl source evs (new_cache m s)) ! i = Some (Inr v)"
  shows "\<exists>t. last_invalidation t0 (take i evs) \<le> t \<and> t \<le> fst (evs ! i) \<and> fst (evs ! i) \<le> t + ttl \<and> v = source t"
proof (rule client_run_fresh [OF _ _ assms(1-6)])
  show "mem_fresh key ttl source t0 t0 (new_cache m s)"
    by (simp add: memory.fresh_since_def cache_ok_def cache_held_def new_cache_def)
qed simp

lemma cached_reads_boundedly_stale_witness:
  "\<exists>t. 2 \<le> t \<and> t \<le> (9 :: int) \<and> 9 \<le> t + 5 \<and> 4 = t"
proof -
  let ?evs = "[(1, Read True), (2, Mutated), (4, Read True), (9, Read False)] :: (int \<times> client_event) list"
  have "fst (client_run ''getFee'' 5 (\<lambda>t. t) ?evs (new_cache None None)) ! 3 = Some (Inr 4)"
    by (simp add: client_step_def cached_read_def cache_get_def cache_set_def new_cache_def expired_def
        sweepExpired_def evictOverflow_def map_set_def map_delete_def invalidate_keys_def cache_keys_def
        cache_delete_def)
  with cached_reads_boundedly_stale [of 5 "''getFee''" ?evs 0 3 "\<lambda>t. t" None None 4] show ?thesis
    by (simp add: cache_keys_def)
qed

text \<open>A bounded cache stays within its bound after every \<open>set\<close>, and the value just set is the one the
  next \<open>get\<close> of its key returns while its time to live lasts: the entry set last is never the one
  that is evicted.\<close>

theorem cache_set_bounded_and_visible:
  assumes "cache_ok c" "ca_maxEntries c = Some m" "1 \<le> m" "\<forall>t. ttl = Some t \<longrightarrow> now' \<le> now + t" "now \<le> now'"
  shows "int (length (ca_store (cache_set now k v ttl c))) \<le> m
    \<and> fst (cache_get now' k (cache_set now k v ttl c)) = Some v"
proof -
  let ?e = "\<lparr>ce_value = v, ce_expiresAt = map_option ((+) now) ttl\<rparr>"
  let ?c = "c\<lparr>ca_store := map_delete k (ca_store c) @ [(k, ?e)]\<rparr>"
  have live: "\<not> expired now ?e" "\<not> expired now' ?e"
    using assms(4,5) by (cases ttl; force simp: expired_def)+
  have swept: "\<exists>xs. ca_store (sweepExpired now ?c) = xs @ [(k, ?e)]"
    using live(1) by (simp add: sweepExpired_def)
  then obtain xs where xs: "ca_store (sweepExpired now ?c) = xs @ [(k, ?e)]" by blast
  have max: "ca_maxEntries (sweepExpired now ?c) = Some m" using assms(2) by (simp add: sweepExpired_def)
  have store: "ca_store (cache_set now k v ttl c) = evict_loop m (xs @ [(k, ?e)])"
    using max xs by (simp add: cache_set_def evictOverflow_def)
  have last: "\<exists>ys. evict_loop m (zs @ [x]) = ys @ [x]" for zs and x :: "string \<times> 'a cache_entry"
    using assms(3) by (induction zs) auto
  then obtain ys where ys: "evict_loop m (xs @ [(k, ?e)]) = ys @ [(k, ?e)]" by blast
  have "cache_ok (cache_set now k v ttl c)" by (rule cache_set_ok [OF assms(1)])
  then have "map_of (ca_store (cache_set now k v ttl c)) k = Some ?e"
    unfolding store ys cache_ok_def by (intro map_of_is_SomeI) simp_all
  then have "fst (cache_get now' k (cache_set now k v ttl c)) = Some v"
    using live(2) by (simp add: cache_get_def)
  moreover have "int (length (ca_store (cache_set now k v ttl c))) \<le> m"
    using evict_loop_length [of m "xs @ [(k, ?e)]"] assms(3) store by simp
  ultimately show ?thesis by simp
qed

lemma cache_set_bounded_and_visible_witness:
  "fst (cache_get 3 ''b'' (cache_set 2 ''b'' (8 :: int) (Some 1) (cache_set 1 ''a'' 7 None (new_cache (Some 1) None)))) = Some 8"
proof -
  have "cache_ok (cache_set 1 ''a'' 7 None (new_cache (Some 1) None) :: int cache)"
    by (rule cache_set_ok) (simp add: cache_ok_def new_cache_def)
  moreover have "ca_maxEntries (cache_set 1 ''a'' 7 None (new_cache (Some 1) None) :: int cache) = Some 1"
    by (simp add: cache_set_def evictOverflow_def sweepExpired_def new_cache_def)
  ultimately show ?thesis using cache_set_bounded_and_visible [of _ 1 "Some 1" 3 2 "''b''" "8 :: int"] by simp
qed

text \<open>C29: The cache refines a map with expiring values: in any run of \<open>get\<close>, \<open>set\<close>, \<open>delete\<close> and \<open>clear\<close> under a
  clock that does not go back, a cache without \<open>maxEntries\<close> answers every \<open>get\<close> as the map does, for
  every sweep interval; a cache with \<open>maxEntries\<close> answers as the map does or has forgotten the key.\<close>

theorem cache_refines_timed_map:
  assumes "sorted (map fst ops)"
  shows "list_all2 (\<lambda>x y. x = y \<or> (maxEntries \<noteq> None \<and> x = None))
    (cache_run ops (new_cache maxEntries sweepIntervalMs)) (timed_run ops (\<lambda>_. None))"
proof -
  have "refines t (new_cache maxEntries sweepIntervalMs) (\<lambda>_. None)" for t
    by (simp add: refines_def agrees_def cache_ok_def cache_held_def new_cache_def)
  moreover have "\<forall>op \<in> set ops. (if ops = [] then 0 else fst (hd ops)) \<le> fst op"
    using assms by (cases ops) auto
  ultimately have "list_all2 (agrees (new_cache maxEntries sweepIntervalMs))
      (cache_run ops (new_cache maxEntries sweepIntervalMs)) (timed_run ops (\<lambda>_. None))"
    using assms by (intro run_refines)
  then show ?thesis by (simp add: agrees_def [abs_def] new_cache_def)
qed

lemma cache_refines_timed_map_witness:
  "cache_run [(1, CacheSet ''a'' (7 :: int) (Some 3)), (4, CacheGet ''a''), (5, CacheGet ''a'')] (new_cache None None)
     = [None, Some 7, None]"
proof -
  let ?ops = "[(1, CacheSet ''a'' (7 :: int) (Some 3)), (4, CacheGet ''a''), (5, CacheGet ''a'')]"
  have "timed_run ?ops (\<lambda>_. None) = [None, Some 7, None]" by (simp add: live_def)
  moreover have "list_all2 (=) (cache_run ?ops (new_cache None None)) (timed_run ?ops (\<lambda>_. None))"
    using cache_refines_timed_map [of ?ops None None] by simp
  ultimately show ?thesis by (simp only: list.rel_eq)
qed

end
