(* ===== verification/Sdk_Cached_Client.thy ===== *)
theory Sdk_Cached_Client
  imports Sdk_Cache Sdk_Confirm
begin

text \<open>
  \<open>ContractClient\<close> of \<open>sdk/src/cachedBridge.ts\<close>: four view methods read through an \<open>InMemoryCache\<close>, and
  mutations that drop the cached values when they are submitted and once more when they are confirmed.
  Unlike the methods of \<open>OnboardingBridgeSDK\<close> they have no hooks and throw.  The confirmation is awaited
  in the background: \<open>cl_background\<close> lists the transactions whose \<open>invalidateAfterConfirmation\<close> was
  started; it may run at any later time.
\<close>

section \<open>State\<close>

datatype cached_value = CNumber "int option" | CText string | CBool bool

record ('p, 'u) client_world =
  cl_sdk :: "('p, 'u) sdk_world"
  cl_cache :: "cached_value cache"
  cl_background :: "string list"

type_synonym ('p, 'u, 'a) client_op = "(('p, 'u) client_world, thrown, 'a) op"

definition on_sdk :: "('p, 'u, 'a) sdk_op \<Rightarrow> ('p, 'u, 'a) client_op" where
  "on_sdk m W = (case m (cl_sdk W) of (r, w) \<Rightarrow> (r, W\<lparr>cl_sdk := w\<rparr>))"

definition on_cache :: "(cached_value cache \<Rightarrow> cached_value cache) \<Rightarrow> ('p, 'u, unit) client_op" where
  "on_cache f W = (Inr (), W\<lparr>cl_cache := f (cl_cache W)\<rparr>)"

section \<open>Views\<close>

definition default_ttl :: "string \<Rightarrow> int" where
  "default_ttl key = (if key = ''getFee'' \<or> key = ''isInitialized'' then 5 * 60 * 1000 else 24 * 60 * 60 * 1000)"

text \<open>Unlike the SDK's, these methods throw when the simulation returns no value.\<close>

definition present_reply :: "stellar \<Rightarrow> string \<Rightarrow> string \<Rightarrow> (js_native \<Rightarrow> thrown + cached_value) \<Rightarrow> simulation_reply \<Rightarrow> thrown + cached_value" where
  "present_reply st failure m decode result =
     (case reply_error result of
        Some e \<Rightarrow> Inl (error_of (failure @ '': '' @ e))
      | None \<Rightarrow>
          (case si_retval result of
             None \<Rightarrow> Inl (error_of (m @ '' returned no value''))
           | Some v \<Rightarrow> bind_sum (st_toNative st v) decode))"

definition client_view ::
  "('p, 'u) sdk \<Rightarrow> (string \<Rightarrow> int) \<Rightarrow> string \<Rightarrow> string \<Rightarrow> string \<Rightarrow> (js_native \<Rightarrow> thrown + cached_value)
    \<Rightarrow> ('p, 'u, cached_value) client_op" where
  "client_view sdk ttls key m failure decode W =
     (case cache_get (sd_now sdk (cl_sdk W)) key (cl_cache W) of
        (Some cached, c) \<Rightarrow> (Inr cached, W\<lparr>cl_cache := c\<rparr>)
      | (None, c) \<Rightarrow>
          and_then (on_sdk (and_then (simulateTransaction sdk (buildSimulationTx sdk m (Inr [])))
              (\<lambda>result. checked (present_reply (sd_stellar sdk) failure m decode result)))) (\<lambda>v W1.
            (Inr v, W1\<lparr>cl_cache := cache_set (sd_now sdk (cl_sdk W1)) key v (Some (ttls key)) (cl_cache W1)\<rparr>))
          (W\<lparr>cl_cache := c\<rparr>))"

definition client_getFee :: "('p, 'u) sdk \<Rightarrow> (string \<Rightarrow> int) \<Rightarrow> ('p, 'u, cached_value) client_op" where
  "client_getFee sdk ttls = client_view sdk ttls ''getFee'' ''query_fee_bps'' ''Failed to get fee'' (\<lambda>v. Inr (CNumber (native_number v)))"

definition client_getFeeCollector :: "('p, 'u) sdk \<Rightarrow> (string \<Rightarrow> int) \<Rightarrow> ('p, 'u, cached_value) client_op" where
  "client_getFeeCollector sdk ttls =
     client_view sdk ttls ''getFeeCollector'' ''query_fee_collector'' ''Failed to get fee collector''
       (\<lambda>v. bind_sum (as_text v) (\<lambda>s. Inr (CText s)))"

definition client_getAdmin :: "('p, 'u) sdk \<Rightarrow> (string \<Rightarrow> int) \<Rightarrow> ('p, 'u, cached_value) client_op" where
  "client_getAdmin sdk ttls =
     client_view sdk ttls ''getAdmin'' ''query_admin'' ''Failed to get admin'' (\<lambda>v. bind_sum (as_text v) (\<lambda>s. Inr (CText s)))"

definition client_isInitialized :: "('p, 'u) sdk \<Rightarrow> (string \<Rightarrow> int) \<Rightarrow> ('p, 'u, cached_value) client_op" where
  "client_isInitialized sdk ttls =
     client_view sdk ttls ''isInitialized'' ''query_is_initialized'' ''Failed to check initialization''
       (\<lambda>v. Inr (CBool (native_truthy v)))"

section \<open>Mutations\<close>

text \<open>The provider without hooks.\<close>

definition raw_getAccount :: "('p, 'u) sdk \<Rightarrow> string \<Rightarrow> ('p, 'u, account) sdk_op" where
  "raw_getAccount sdk a = provider_call sdk ''getAccount'' (\<lambda>h. pv_getAccount (sd_provider sdk) h a) (GetAccount a)"

definition raw_prepareTransaction :: "('p, 'u) sdk \<Rightarrow> transaction \<Rightarrow> ('p, 'u, 'p) sdk_op" where
  "raw_prepareTransaction sdk tx =
     provider_call sdk ''prepareTransaction'' (\<lambda>h. pv_prepareTransaction (sd_provider sdk) h tx) (PrepareTransaction tx)"

definition raw_sendTransaction :: "('p, 'u) sdk \<Rightarrow> 'p envelope \<Rightarrow> ('p, 'u, send_reply) sdk_op" where
  "raw_sendTransaction sdk env =
     provider_call sdk ''sendTransaction'' (\<lambda>h. pv_sendTransaction (sd_provider sdk) h env) (SendTransaction env)"

definition start_background :: "string \<Rightarrow> ('p, 'u, unit) client_op" where
  "start_background hash W = (Inr (), W\<lparr>cl_background := cl_background W @ [hash]\<rparr>)"

definition submitMutation :: "('p, 'u) sdk \<Rightarrow> transaction \<Rightarrow> string \<Rightarrow> ('p, 'u, tx_result) client_op" where
  "submitMutation sdk tx signer =
     and_then (on_sdk (raw_getAccount sdk signer)) (\<lambda>_.
     and_then (on_sdk (raw_prepareTransaction sdk tx)) (\<lambda>prepared.
     and_then (on_sdk (raw_sendTransaction sdk \<lparr>en_prepared = prepared, en_signers = [signer]\<rparr>)) (\<lambda>response.
     and_then (if sr_status response = ''PENDING''
               then and_then (on_cache (invalidate_keys cache_keys)) (\<lambda>_. start_background (sr_hash response))
               else give ())
       (\<lambda>_. give (result_of_reply response)))))"

text \<open>\<open>invalidateAfterConfirmation\<close>: \<open>left\<close> counts the polls the loop may still add.  Errors are swallowed.\<close>

fun poll_bounded ::
  "('p, 'u, transaction_reply) sdk_op \<Rightarrow> nat \<Rightarrow> ('p, 'u) sdk_world \<Rightarrow> (thrown + transaction_reply) \<times> ('p, 'u) sdk_world" where
  "poll_bounded get left w =
     (case get w of
        (Inl e, w1) \<Rightarrow> (Inl e, w1)
      | (Inr result, w1) \<Rightarrow>
          (case left of
             0 \<Rightarrow> (Inr result, w1)
           | Suc n \<Rightarrow> if gt_status result = ''NOT_FOUND'' then poll_bounded get n (later 500 w1) else (Inr result, w1)))"

declare poll_bounded.simps [simp del]

definition max_attempts :: "('p, 'u) sdk \<Rightarrow> nat" where
  "max_attempts sdk = nat (max 1 (or_else (sd_timeout sdk) 30 * 2))"

definition invalidateAfterConfirmation :: "('p, 'u) sdk \<Rightarrow> string \<Rightarrow> ('p, 'u) client_world \<Rightarrow> ('p, 'u) client_world" where
  "invalidateAfterConfirmation sdk hash W =
     (case poll_bounded (raw_getTransaction sdk hash) (max_attempts sdk) (cl_sdk W) of
        (Inl _, w) \<Rightarrow> W\<lparr>cl_sdk := w\<rparr>
      | (Inr result, w) \<Rightarrow>
          if gt_status result = ''NOT_FOUND'' then W\<lparr>cl_sdk := w\<rparr>
          else W\<lparr>cl_sdk := w, cl_cache := invalidate_keys cache_keys (cl_cache W)\<rparr>)"

text \<open>A mutation: checks, the account whose sequence number is used, the arguments, the submission.\<close>

definition client_mutation ::
  "('p, 'u) sdk \<Rightarrow> (thrown + unit) list \<Rightarrow> string \<Rightarrow> string \<Rightarrow> thrown + scval list \<Rightarrow> string \<Rightarrow> ('p, 'u, tx_result) client_op" where
  "client_mutation sdk checks address m args key =
     and_then (on_sdk (checked (first_error checks))) (\<lambda>_.
     and_then (on_sdk (raw_getAccount sdk address)) (\<lambda>account.
     and_then (on_sdk (checked args)) (\<lambda>vs.
     submitMutation sdk (build_tx sdk account m vs) key)))"

text \<open>The optional nonce and deadline are encoded after the other arguments.\<close>

definition then_nonce_deadline ::
  "stellar \<Rightarrow> js_int option \<Rightarrow> js_int option \<Rightarrow> thrown + scval list \<Rightarrow> thrown + scval list" where
  "then_nonce_deadline st nonce deadline args =
     bind_sum args (\<lambda>vs.
     bind_sum (optionalNonceToScVal st nonce) (\<lambda>n.
     bind_sum (optionalNonceToScVal st deadline) (\<lambda>d. Inr (vs @ [n, d]))))"

definition client_fundCAddress :: "('p, 'u) sdk \<Rightarrow> fund_options \<Rightarrow> string \<Rightarrow> ('p, 'u, tx_result) client_op" where
  "client_fundCAddress sdk opts key =
     (let st = sd_stellar sdk in
      client_mutation sdk (transfer_checks st (fo_source opts) (fo_target opts) (fo_asset opts))
        (fo_source opts) ''fund_c_address''
        (then_nonce_deadline st (fo_nonce opts) (fo_deadline opts)
          (encoded st [newAddress st (fo_source opts), newAddress st (fo_target opts), newAddress st (fo_asset opts),
                       typedBigInt (IntString (fo_amount opts)) ''i128'']))
        key)"

definition client_fundCAddressWithSwap :: "('p, 'u) sdk \<Rightarrow> swap_options \<Rightarrow> string \<Rightarrow> ('p, 'u, tx_result) client_op" where
  "client_fundCAddressWithSwap sdk opts key =
     (let st = sd_stellar sdk in
      client_mutation sdk
        [assertAccountAddress st (sw_source opts) ''source'', assertContractAddress st (sw_target opts) ''target'',
         assertContractAddress st (sw_sourceAsset opts) ''sourceAsset'',
         assertContractAddress st (sw_targetAsset opts) ''targetAsset'',
         check_each (\<lambda>i p. assertContractAddress st p (indexed ''swapRoute'' i)) (sw_swapRoute opts)]
        (sw_source opts) ''fund_c_address_with_swap''
        (then_nonce_deadline st (sw_nonce opts) (sw_deadline opts)
          (encoded st [newAddress st (sw_source opts), newAddress st (sw_target opts),
                       newAddress st (sw_sourceAsset opts), newAddress st (sw_targetAsset opts),
                       typedBigInt (IntString (sw_sourceAmount opts)) ''i128'',
                       typedBigInt (IntString (sw_minTargetAmount opts)) ''i128'',
                       bind_sum (map_sum_list (newAddress st) (sw_swapRoute opts)) (\<lambda>as. Inr (ArgArray as))]))
        key)"

definition client_withdrawFees :: "('p, 'u) sdk \<Rightarrow> withdraw_options \<Rightarrow> string \<Rightarrow> ('p, 'u, tx_result) client_op" where
  "client_withdrawFees sdk opts key =
     (let st = sd_stellar sdk in
      client_mutation sdk [assertContractAddress st (wd_asset opts) ''asset''] key ''withdraw_fees''
        (then_nonce st (wd_nonce opts)
          (encoded st [newAddress st (wd_asset opts), typedBigInt (IntString (wd_amount opts)) ''i128'']))
        key)"

text \<open>The administrative methods take no nonce: they pass a void one.\<close>

definition client_setFee :: "('p, 'u) sdk \<Rightarrow> int \<Rightarrow> string \<Rightarrow> ('p, 'u, tx_result) client_op" where
  "client_setFee sdk newFeeBps key =
     client_mutation sdk [] key ''set_fee_bps''
       (all_of [numberScVal (sd_stellar sdk) ''u32'' newFeeBps, Inr ScVoid]) key"

definition client_setFeeCollector :: "('p, 'u) sdk \<Rightarrow> string \<Rightarrow> string \<Rightarrow> ('p, 'u, tx_result) client_op" where
  "client_setFeeCollector sdk newFeeCollector key =
     (let st = sd_stellar sdk in
      client_mutation sdk [assertAccountAddress st newFeeCollector ''newFeeCollector''] key ''set_fee_collector''
        (bind_sum (encoded st [newAddress st newFeeCollector]) (\<lambda>vs. Inr (vs @ [ScVoid]))) key)"

definition client_setAdmin :: "('p, 'u) sdk \<Rightarrow> string \<Rightarrow> string \<Rightarrow> ('p, 'u, tx_result) client_op" where
  "client_setAdmin sdk newAdmin key =
     (let st = sd_stellar sdk in
      client_mutation sdk [assertAccountAddress st newAdmin ''newAdmin''] key ''set_admin''
        (bind_sum (encoded st [newAddress st newAdmin]) (\<lambda>vs. Inr (vs @ [ScVoid]))) key)"

definition client_upgrade :: "('p, 'u) sdk \<Rightarrow> upgrade_options \<Rightarrow> string \<Rightarrow> ('p, 'u, tx_result) client_op" where
  "client_upgrade sdk opts key =
     client_mutation sdk
       [require (matches_hex 64 (ug_newWasmHash opts)) ''newWasmHash must be a 64-character hex string (32 bytes)'']
       key ''upgrade''
       (nonce_then (sd_stellar sdk) (ug_nonce opts) (Inr [ScBytes (bytes_of_hex (ug_newWasmHash opts))])) key"

section \<open>The calls of the client\<close>

datatype client_call =
    ClientFund fund_options string
  | ClientSwap swap_options string
  | ClientWithdraw withdraw_options string
  | ClientSetFee int string
  | ClientSetFeeCollector string string
  | ClientSetAdmin string string
  | ClientUpgrade upgrade_options string

fun run_client :: "('p, 'u) sdk \<Rightarrow> client_call \<Rightarrow> ('p, 'u, tx_result) client_op" where
  "run_client sdk (ClientFund opts key) = client_fundCAddress sdk opts key"
| "run_client sdk (ClientSwap opts key) = client_fundCAddressWithSwap sdk opts key"
| "run_client sdk (ClientWithdraw opts key) = client_withdrawFees sdk opts key"
| "run_client sdk (ClientSetFee bps key) = client_setFee sdk bps key"
| "run_client sdk (ClientSetFeeCollector a key) = client_setFeeCollector sdk a key"
| "run_client sdk (ClientSetAdmin a key) = client_setAdmin sdk a key"
| "run_client sdk (ClientUpgrade opts key) = client_upgrade sdk opts key"

datatype client_read = ReadFee | ReadFeeCollector | ReadAdmin | ReadInitialized

fun run_view :: "('p, 'u) sdk \<Rightarrow> (string \<Rightarrow> int) \<Rightarrow> client_read \<Rightarrow> ('p, 'u, cached_value) client_op" where
  "run_view sdk ttls ReadFee = client_getFee sdk ttls"
| "run_view sdk ttls ReadFeeCollector = client_getFeeCollector sdk ttls"
| "run_view sdk ttls ReadAdmin = client_getAdmin sdk ttls"
| "run_view sdk ttls ReadInitialized = client_isInitialized sdk ttls"

text \<open>The contract method a view asks, and what it makes of the native value.\<close>

fun view_method :: "client_read \<Rightarrow> string" where
  "view_method ReadFee = ''query_fee_bps''"
| "view_method ReadFeeCollector = ''query_fee_collector''"
| "view_method ReadAdmin = ''query_admin''"
| "view_method ReadInitialized = ''query_is_initialized''"

fun view_key :: "client_read \<Rightarrow> string" where
  "view_key ReadFee = ''getFee''"
| "view_key ReadFeeCollector = ''getFeeCollector''"
| "view_key ReadAdmin = ''getAdmin''"
| "view_key ReadInitialized = ''isInitialized''"

fun view_value :: "client_read \<Rightarrow> js_native \<Rightarrow> thrown + cached_value" where
  "view_value ReadFee n = Inr (CNumber (native_number n))"
| "view_value ReadInitialized n = Inr (CBool (native_truthy n))"
| "view_value _ n = bind_sum (as_text n) (\<lambda>s. Inr (CText s))"

lemma view_values: "view_value ReadFee = (\<lambda>n. Inr (CNumber (native_number n)))"
  "view_value ReadInitialized = (\<lambda>n. Inr (CBool (native_truthy n)))"
  "view_value ReadFeeCollector = (\<lambda>n. bind_sum (as_text n) (\<lambda>s. Inr (CText s)))"
  "view_value ReadAdmin = (\<lambda>n. bind_sum (as_text n) (\<lambda>s. Inr (CText s)))"
  by (simp_all add: fun_eq_iff)

lemma run_view_shape:
  "\<exists>failure. run_view sdk ttls view =
     client_view sdk ttls (view_key view) (view_method view) failure (view_value view)"
  by (cases view; simp only: run_view.simps view_key.simps view_method.simps view_values client_getFee_def
       client_getFeeCollector_def client_getAdmin_def client_isInitialized_def; rule exI; rule refl)

lemma run_client_shape:
  "\<exists>checks a m args key. run_client sdk call = client_mutation sdk checks a m args key"
  by (cases call; simp only: run_client.simps client_fundCAddress_def client_fundCAddressWithSwap_def client_withdrawFees_def
       client_setFee_def client_setFeeCollector_def client_setAdmin_def client_upgrade_def Let_def; (rule exI)+; rule refl)

section \<open>Lemmas\<close>

lemma on_sdk_cases:
  assumes "on_sdk m W = (r, W')"
  obtains w where "m (cl_sdk W) = (r, w)" "W' = W\<lparr>cl_sdk := w\<rparr>"
  using assms by (auto simp: on_sdk_def split: prod.splits)

lemma held_invalidated: "cache_held (invalidate_keys ks c) k = (if k \<in> set ks then None else cache_held c k)"
proof (induction ks arbitrary: c)
  case (Cons k' ks)
  have "cache_held (cache_delete k' c) k = (if k = k' then None else cache_held c k)"
    by (simp add: cache_held_def cache_delete_def)
  with Cons show ?case by (auto simp: invalidate_keys_def)
qed (simp add: invalidate_keys_def)

lemma view_key_known [simp]: "view_key view \<in> set cache_keys"
  by (cases view) (simp_all add: cache_keys_def)

lemma cache_get_unheld: "cache_held c k = None \<Longrightarrow> cache_get now k c = (None, c)"
  by (simp add: cache_held_def cache_get_def)

text \<open>What a client method does to the cache and the background work.\<close>

definition dropped :: "('p, 'u) client_world \<Rightarrow> thrown + tx_result \<Rightarrow> ('p, 'u) client_world \<Rightarrow> bool" where
  "dropped W r W' \<longleftrightarrow>
     (case r of
        Inr res \<Rightarrow>
          if tr_status res = Pending
          then cl_cache W' = invalidate_keys cache_keys (cl_cache W) \<and> cl_background W' = cl_background W @ [tr_hash res]
          else cl_cache W' = cl_cache W \<and> cl_background W' = cl_background W
      | Inl _ \<Rightarrow> cl_cache W' = cl_cache W \<and> cl_background W' = cl_background W)"

lemma dropped_after_sdk: "dropped (W\<lparr>cl_sdk := w\<rparr>) r W' \<Longrightarrow> dropped W r W'"
  by (simp add: dropped_def split: sum.splits)

lemma dropped_then:
  assumes "and_then (on_sdk m) f W = (r, W')" "\<And>a W1. f a W1 = (r, W') \<Longrightarrow> dropped W1 r W'"
  shows "dropped W r W'"
  using assms(1)
proof (cases rule: and_then_cases)
  case (thrown e)
  from thrown(1) obtain w where "W' = W\<lparr>cl_sdk := w\<rparr>" by (rule on_sdk_cases)
  with thrown(2) show ?thesis by (simp add: dropped_def)
next
  case (returned a W1)
  from returned(1) obtain w where "W1 = W\<lparr>cl_sdk := w\<rparr>" by (rule on_sdk_cases)
  with assms(2) [OF returned(2)] show ?thesis by (auto intro: dropped_after_sdk)
qed

lemma submitMutation_drops:
  assumes "submitMutation sdk tx key W = (r, W')"
  shows "dropped W r W'"
  using assms unfolding submitMutation_def
proof (elim dropped_then)
  fix response W3
  assume "and_then (if sr_status response = ''PENDING''
      then and_then (on_cache (invalidate_keys cache_keys)) (\<lambda>_. start_background (sr_hash response)) else give ())
    (\<lambda>_. give (result_of_reply response)) W3 = (r, W')"
  then show "dropped W3 r W'"
    by (auto simp: dropped_def result_of_reply_def and_then_def on_cache_def start_background_def give_def
        split: if_splits)
qed

lemma client_mutation_drops: "client_mutation sdk checks a m args key W = (r, W') \<Longrightarrow> dropped W r W'"
  unfolding client_mutation_def by (elim dropped_then) (rule submitMutation_drops)

lemma run_client_drops: "run_client sdk call W = (r, W') \<Longrightarrow> dropped W r W'"
  using run_client_shape [of sdk call] client_mutation_drops by metis

text \<open>A view of a key that is not held asks the contract.\<close>

lemma view_asks:
  assumes "quiet_sdk sdk" "cache_held (cl_cache W) key = None"
    and "client_view sdk ttls key m failure decode W = (Inr v, W')"
  shows "\<exists>h cs reply native sv. pv_simulateTransaction (sd_provider sdk) h (buildSimulationTxWithScVals sdk m []) = Inr reply
    \<and> calls_of h = calls (cl_sdk W) @ cs \<and> reply_error reply = None \<and> si_retval reply = Some sv
    \<and> st_toNative (sd_stellar sdk) sv = Inr native \<and> decode native = Inr v"
proof -
  let ?tx = "buildSimulationTxWithScVals sdk m []"
  have built: "buildSimulationTx sdk m (Inr []) = Inr ?tx" by (simp add: buildSimulationTx_def toScVals_map)
  from assms(3) have "and_then (on_sdk (and_then (simulateTransaction sdk (Inr ?tx))
      (\<lambda>result. checked (present_reply (sd_stellar sdk) failure m decode result)))) (\<lambda>v W1.
      (Inr v, W1\<lparr>cl_cache := cache_set (sd_now sdk (cl_sdk W1)) key v (Some (ttls key)) (cl_cache W1)\<rparr>)) W = (Inr v, W')"
    by (simp add: client_view_def cache_get_unheld [OF assms(2)] built)
  then obtain W1 where "on_sdk (and_then (simulateTransaction sdk (Inr ?tx))
      (\<lambda>result. checked (present_reply (sd_stellar sdk) failure m decode result))) W = (Inr v, W1)"
    by (elim and_then_cases) auto
  then obtain w where "and_then (simulateTransaction sdk (Inr ?tx))
      (\<lambda>result. checked (present_reply (sd_stellar sdk) failure m decode result)) (cl_sdk W) = (Inr v, w)"
    by (rule on_sdk_cases)
  then obtain reply w1 where reply: "simulateTransaction sdk (Inr ?tx) (cl_sdk W) = (Inr reply, w1)"
    and present: "present_reply (sd_stellar sdk) failure m decode reply = Inr v"
    by (elim and_then_cases) (auto simp: checked_def split: sum.splits)
  from reply have "provider_call sdk ''simulateTransaction'' (\<lambda>h. pv_simulateTransaction (sd_provider sdk) h ?tx)
      (SimulateTransaction ?tx) (cl_sdk W) = (Inr reply, w1)"
    by (simp add: simulateTransaction_def checked_def)
  with simulateTransaction_requests [OF assms(1), of ?tx]
  have "answered (cl_sdk W) (SimulateTransaction ?tx) (\<lambda>h. pv_simulateTransaction (sd_provider sdk) h ?tx) (Inr reply)"
    unfolding requests_def by (metis sum.distinct(1))
  then obtain h cs where "pv_simulateTransaction (sd_provider sdk) h ?tx = Inr reply" "calls_of h = calls (cl_sdk W) @ cs"
    by (auto simp: answered_def)
  with present show ?thesis
    by (fastforce simp: present_reply_def bind_sum_eq_Inr split: option.splits)
qed

text \<open>The bounded polling: each poll asks at least once, so a server that knows the transaction after \<open>n\<close>
  requests is asked often enough when the polls left and those made are \<open>n\<close>.\<close>

lemma poll_bounded_runs:
  assumes "requests sdk (GetTransaction hash) (\<lambda>h. pv_getTransaction (sd_provider sdk) h hash) bound get" "0 \<le> bound"
    and "poll_bounded get left w = (r, w')"
  shows "\<exists>k. calls w' = calls w @ replicate k (GetTransaction hash) \<and> int k \<le> (int left + 1) * bound
    \<and> (\<forall>reply. r = Inr reply \<longrightarrow> (\<exists>h. pv_getTransaction (sd_provider sdk) h hash = Inr reply
         \<and> polls hash (calls w) \<le> polls hash (calls_of h)
         \<and> (gt_status reply = ''NOT_FOUND'' \<longrightarrow> polls hash (calls w) + left \<le> polls hash (calls_of h))))"
  using assms(3)
proof (induction left arbitrary: w)
  case 0
  then have get: "get w = (r, w')" by (auto simp: poll_bounded.simps split: prod.splits sum.splits)
  from requests_cases [OF assms(1) get] obtain k where "calls w' = calls w @ replicate k (GetTransaction hash)" "int k \<le> bound"
    by metis
  moreover have "\<exists>h. pv_getTransaction (sd_provider sdk) h hash = Inr reply \<and> polls hash (calls w) \<le> polls hash (calls_of h)"
    if "r = Inr reply" for reply
    using poll_once(2) [OF assms(1)] get that by blast
  ultimately show ?case by (intro exI [of _ k]) auto
next
  case (Suc n)
  obtain x w1 where get: "get w = (x, w1)" by (rule prod.exhaust)
  obtain k where k: "calls w1 = calls w @ replicate k (GetTransaction hash)" "int k \<le> bound"
    using requests_cases [OF assms(1) get] by metis
  have wide: "int k \<le> (int (Suc n) + 1) * bound"
  proof -
    have "int k \<le> 1 * bound" using k(2) by simp
    also have "\<dots> \<le> (int (Suc n) + 1) * bound" using assms(2) by (intro mult_right_mono) auto
    finally show ?thesis .
  qed
  show ?case
  proof (cases "\<exists>reply. x = Inr reply \<and> gt_status reply = ''NOT_FOUND''")
    case False
    with Suc.prems get have rw: "r = x" "w' = w1"
      by (auto simp: poll_bounded.simps [of get "Suc n"] split: sum.splits)
    with False k(1) wide poll_once(2) [OF assms(1)] get show ?thesis by (intro exI [of _ k]) fastforce
  next
    case True
    with get have "polls hash (calls w) < polls hash (calls w1)"
      using poll_once(1) [OF assms(1)] by auto
    from True Suc.prems get have "poll_bounded get n (later 500 w1) = (r, w')"
      by (auto simp: poll_bounded.simps [of get "Suc n"])
    from Suc.IH [OF this] obtain k2 where k2: "calls w' = calls w1 @ replicate k2 (GetTransaction hash)"
      "int k2 \<le> (int n + 1) * bound"
      "\<And>reply. r = Inr reply \<Longrightarrow> (\<exists>h. pv_getTransaction (sd_provider sdk) h hash = Inr reply
         \<and> polls hash (calls w1) \<le> polls hash (calls_of h)
         \<and> (gt_status reply = ''NOT_FOUND'' \<longrightarrow> polls hash (calls w1) + n \<le> polls hash (calls_of h)))"
      by auto
    have "int (k + k2) \<le> (int (Suc n) + 1) * bound" using k(2) k2(2) by (simp add: algebra_simps)
    moreover have "calls w' = calls w @ replicate (k + k2) (GetTransaction hash)"
      using k(1) k2(1) by (simp add: replicate_add)
    moreover have "\<exists>h. pv_getTransaction (sd_provider sdk) h hash = Inr reply
         \<and> polls hash (calls w) \<le> polls hash (calls_of h)
         \<and> (gt_status reply = ''NOT_FOUND'' \<longrightarrow> polls hash (calls w) + Suc n \<le> polls hash (calls_of h))"
      if "r = Inr reply" for reply
    proof -
      from k2(3) [OF that] obtain h where h: "pv_getTransaction (sd_provider sdk) h hash = Inr reply"
        "polls hash (calls w1) \<le> polls hash (calls_of h)"
        "gt_status reply = ''NOT_FOUND'' \<Longrightarrow> polls hash (calls w1) + n \<le> polls hash (calls_of h)" by blast
      with \<open>polls hash (calls w) < polls hash (calls w1)\<close> show ?thesis
        by (intro exI [of _ h] conjI impI) simp_all
    qed
    ultimately show ?thesis by blast
  qed
qed

lemma poll_bounded_never_throws:
  assumes "\<And>w. \<exists>reply. fst (get w) = Inr reply"
  shows "\<exists>reply. fst (poll_bounded get left w) = Inr reply"
proof (induction left arbitrary: w)
  case 0
  from assms [of w] show ?case by (auto simp: poll_bounded.simps [of get 0] split: prod.splits)
next
  case (Suc n)
  from assms [of w] show ?case using Suc by (auto simp: poll_bounded.simps [of get "Suc n"] split: prod.splits)
qed

section \<open>Properties\<close>

text \<open>C28: After a mutation that was submitted, the cached client does not answer from before it: whatever the
  cache held, a pending result of any of the seven client mutations drops the four cached values and
  starts waiting for its confirmation, and the next read of any view returns the decoded value of a
  simulation the server answered after the submission.  A mutation that throws or is not accepted
  leaves the cache and the background work as they were.\<close>

theorem read_after_mutation_asks_contract:
  assumes "quiet_sdk sdk" "run_client sdk call W = (r, W1)"
  shows "(\<forall>res v W2. r = Inr res \<and> tr_status res = Pending \<longrightarrow>
        (\<forall>k \<in> set cache_keys. cache_held (cl_cache W1) k = None) \<and> cl_background W1 = cl_background W @ [tr_hash res]
        \<and> (run_view sdk ttls view W1 = (Inr v, W2) \<longrightarrow>
            (\<exists>h cs reply native sv. calls_of h = calls (cl_sdk W1) @ cs
              \<and> pv_simulateTransaction (sd_provider sdk) h (buildSimulationTxWithScVals sdk (view_method view) []) = Inr reply
              \<and> reply_error reply = None \<and> si_retval reply = Some sv
              \<and> st_toNative (sd_stellar sdk) sv = Inr native \<and> view_value view native = Inr v)))
    \<and> ((\<forall>res. r = Inr res \<longrightarrow> tr_status res = Failed) \<longrightarrow>
        cl_cache W1 = cl_cache W \<and> cl_background W1 = cl_background W)"
proof -
  have dropped: "dropped W r W1" using assms(2) by (rule run_client_drops)
  have "(\<forall>k \<in> set cache_keys. cache_held (cl_cache W1) k = None) \<and> cl_background W1 = cl_background W @ [tr_hash res]"
    if "r = Inr res" "tr_status res = Pending" for res
    using dropped that by (simp add: dropped_def held_invalidated)
  moreover have "cl_cache W1 = cl_cache W \<and> cl_background W1 = cl_background W"
    if "\<forall>res. r = Inr res \<longrightarrow> tr_status res = Failed"
    using dropped that by (cases r) (auto simp: dropped_def)
  moreover have "\<exists>h cs reply native sv. calls_of h = calls (cl_sdk W1) @ cs
      \<and> pv_simulateTransaction (sd_provider sdk) h (buildSimulationTxWithScVals sdk (view_method view) []) = Inr reply
      \<and> reply_error reply = None \<and> si_retval reply = Some sv
      \<and> st_toNative (sd_stellar sdk) sv = Inr native \<and> view_value view native = Inr v"
    if "cache_held (cl_cache W1) (view_key view) = None" "run_view sdk ttls view W1 = (Inr v, W2)" for v W2
  proof -
    obtain failure where "run_view sdk ttls view
      = client_view sdk ttls (view_key view) (view_method view) failure (view_value view)"
      using run_view_shape by blast
    with that(2) view_asks [OF assms(1) that(1)] show ?thesis by simp blast
  qed
  ultimately show ?thesis using view_key_known [of view] by blast
qed

text \<open>C26: The background wait of a mutation ends: it asks for its transaction at most \<open>max(1, 2 * timeout) + 1\<close>
  times, each with the provider's retries, makes no other request, and either leaves the cache alone or
  drops exactly the four cached values.  If the server answers every request, and knows the transaction
  once it has been asked for it \<open>max(1, 2 * timeout)\<close> times, the values are dropped.\<close>

theorem background_wait_ends:
  assumes "quiet_sdk sdk"
  shows "(\<exists>k. calls (cl_sdk (invalidateAfterConfirmation sdk hash W)) = calls (cl_sdk W) @ replicate k (GetTransaction hash)
      \<and> int k \<le> (max 1 (or_else (sd_timeout sdk) 30 * 2) + 1) * read_bound sdk)
    \<and> cl_cache (invalidateAfterConfirmation sdk hash W) \<in> {cl_cache W, invalidate_keys cache_keys (cl_cache W)}
    \<and> cl_background (invalidateAfterConfirmation sdk hash W) = cl_background W
    \<and> (0 \<le> configured_retries sdk \<and> settles sdk hash n \<and> int n \<le> max 1 (or_else (sd_timeout sdk) 30 * 2)
        \<and> (\<forall>h. \<exists>reply. pv_getTransaction (sd_provider sdk) h hash = Inr reply)
        \<longrightarrow> cl_cache (invalidateAfterConfirmation sdk hash W) = invalidate_keys cache_keys (cl_cache W))"
proof -
  let ?get = "raw_getTransaction sdk hash" and ?W' = "invalidateAfterConfirmation sdk hash W"
  note asks = getTransaction_requests(1) [OF assms, of hash]
  obtain r w' where run: "poll_bounded ?get (max_attempts sdk) (cl_sdk W) = (r, w')" by (rule prod.exhaust)
  have sdk': "cl_sdk ?W' = w'" and cache': "cl_cache ?W' \<in> {cl_cache W, invalidate_keys cache_keys (cl_cache W)}"
    and background: "cl_background ?W' = cl_background W"
    by (cases r; simp add: invalidateAfterConfirmation_def run)+
  have attempts: "int (max_attempts sdk) = max 1 (or_else (sd_timeout sdk) 30 * 2)" by (simp add: max_attempts_def)
  have "0 \<le> read_bound sdk" by (simp add: read_bound_def)
  from poll_bounded_runs [OF asks this run] obtain k where
    k: "calls w' = calls (cl_sdk W) @ replicate k (GetTransaction hash)" "int k \<le> (int (max_attempts sdk) + 1) * read_bound sdk"
    and seen: "\<And>reply. r = Inr reply \<Longrightarrow> \<exists>h. pv_getTransaction (sd_provider sdk) h hash = Inr reply
       \<and> (gt_status reply = ''NOT_FOUND'' \<longrightarrow> polls hash (calls (cl_sdk W)) + max_attempts sdk \<le> polls hash (calls_of h))"
    by blast
  have "cl_cache ?W' = invalidate_keys cache_keys (cl_cache W)"
    if retries: "0 \<le> configured_retries sdk" and settles: "settles sdk hash n" and n: "int n \<le> max 1 (or_else (sd_timeout sdk) 30 * 2)"
      and answers: "\<forall>h. \<exists>reply. pv_getTransaction (sd_provider sdk) h hash = Inr reply"
  proof -
    have "\<exists>reply. fst (?get w) = Inr reply" for w
    proof -
      obtain x w1 where get: "?get w = (x, w1)" by (rule prod.exhaust)
      have "x \<noteq> Inl e" for e
        using requests_cases [OF asks get] retries answers by (metis linorder_not_le sum.distinct(1))
      with get show ?thesis by (cases x) auto
    qed
    from poll_bounded_never_throws [where get = ?get, OF this, where left = "max_attempts sdk" and w = "cl_sdk W"] run obtain reply where r: "r = Inr reply" by auto
    have "gt_status reply \<noteq> ''NOT_FOUND''"
    proof
      assume "gt_status reply = ''NOT_FOUND''"
      with seen [OF r] obtain h where "pv_getTransaction (sd_provider sdk) h hash = Inr reply" "max_attempts sdk \<le> polls hash (calls_of h)"
        by (auto dest: add_leD2)
      moreover from this(2) n attempts have "n \<le> polls hash (calls_of h)" by linarith
      ultimately show False using settles \<open>gt_status reply = ''NOT_FOUND''\<close> unfolding settles_def by blast
    qed
    with r show ?thesis by (simp add: invalidateAfterConfirmation_def run)
  qed
  with k attempts sdk' cache' background show ?thesis by auto
qed

definition fee_sdk :: "(transaction, unit) sdk" where
  "fee_sdk = sample_sdk\<lparr>sd_provider := sample_provider\<lparr>pv_simulateTransaction :=
     (\<lambda>_ _. Inr \<lparr>si_error = None, si_retval = Some (ScInt ''u32'' 30), si_minResourceFee = None\<rparr>),
     pv_getTransaction := (\<lambda>_ _. Inr \<lparr>gt_status = ''SUCCESS'', gt_returnValue = None\<rparr>)\<rparr>\<rparr>"

definition client_start :: "(transaction, unit) client_world" where
  "client_start = \<lparr>cl_sdk = sample_world,
     cl_cache = cache_set 0 ''getFee'' (CNumber (Some 5)) (Some 300000) (new_cache None None), cl_background = []\<rparr>"

lemma fee_sdk_quiet: "quiet_sdk fee_sdk"
  by (simp add: fee_sdk_def quiet_sdk_def quiet_surroundings_def sdk_surroundings_def sample_sdk_def no_options_def
      keeps_seen_def never_throws_def sleeping_def)

lemma fee_sdk_simps [simp]: "sd_stellar fee_sdk = sample_stellar" "sd_timeout fee_sdk = None" "configured_retries fee_sdk = 3"
  by (simp_all add: fee_sdk_def sample_sdk_def configured_retries_def no_options_def VIEW_maxRetries_def)

lemma fee_calls [simp]:
  "raw_getAccount fee_sdk a w = (Inr \<lparr>ac_id = a, ac_sequence = 4\<rparr>, w\<lparr>wd_log := wd_log w @ [Called (GetAccount a)]\<rparr>)"
  "raw_prepareTransaction fee_sdk tx w = (Inr tx, w\<lparr>wd_log := wd_log w @ [Called (PrepareTransaction tx)]\<rparr>)"
  "raw_sendTransaction fee_sdk env w =
     (Inr \<lparr>sr_hash = ''h'', sr_status = ''PENDING''\<rparr>, w\<lparr>wd_log := wd_log w @ [Called (SendTransaction env)]\<rparr>)"
  "simulateTransaction fee_sdk (Inr tx) w =
     (Inr \<lparr>si_error = None, si_retval = Some (ScInt ''u32'' 30), si_minResourceFee = None\<rparr>,
      w\<lparr>wd_log := wd_log w @ [Called (SimulateTransaction tx)]\<rparr>)"
  by (simp_all add: raw_getAccount_def raw_prepareTransaction_def raw_sendTransaction_def simulateTransaction_def checked_def
      provider_call_def withRpcRetry_def view_policy resolveStateOptions_def Let_def no_options_def VIEW_maxRetries_def
      STATE_CHANGING_maxRetries_def raw_call_def fee_sdk_def sample_provider_def withRetry_first_success split: prod.splits)

lemma read_after_mutation_asks_contract_witness:
  "\<exists>res W1 W2. run_client fee_sdk (ClientSetFee 30 ''GA'') client_start = (Inr res, W1) \<and> tr_status res = Pending
     \<and> cache_held (cl_cache client_start) ''getFee'' = Some (CNumber (Some 5), Some 300000)
     \<and> cache_held (cl_cache W1) ''getFee'' = None \<and> cl_background W1 = [''h'']
     \<and> run_view fee_sdk default_ttl ReadFee W1 = (Inr (CNumber (Some 30)), W2)"
proof -
  have args: "numberScVal sample_stellar ''u32'' 30 = Inr (ScInt ''u32'' 30)"
    by (simp add: numberScVal_def sample_stellar_def in_range_def)
  obtain W1 where W1: "run_client fee_sdk (ClientSetFee 30 ''GA'') client_start
      = (Inr \<lparr>tr_hash = ''h'', tr_status = Pending, tr_error = None\<rparr>, W1)"
    by (simp add: client_setFee_def client_mutation_def submitMutation_def and_then_def on_sdk_def checked_def args
        on_cache_def start_background_def give_def throw_def result_of_reply_def)
  from read_after_mutation_asks_contract [OF fee_sdk_quiet W1, of default_ttl ReadFee]
  have empty: "cache_held (cl_cache W1) ''getFee'' = None" and "cl_background W1 = cl_background client_start @ [''h'']"
    by (simp_all add: cache_keys_def)
  moreover have "cache_held (cl_cache client_start) ''getFee'' = Some (CNumber (Some 5), Some 300000)"
    by (simp add: client_start_def cache_held_def cache_set_def new_cache_def sweepExpired_def evictOverflow_def map_delete_def map_set_def)
  moreover have "\<exists>W2. run_view fee_sdk default_ttl ReadFee W1 = (Inr (CNumber (Some 30)), W2)"
    by (simp add: client_getFee_def client_view_def cache_get_unheld [OF empty] buildSimulationTx_def toScVals_map and_then_def
        on_sdk_def present_reply_def reply_error_def checked_def sample_stellar_def give_def js_finite_def)
  ultimately show ?thesis using W1 by (auto simp: client_start_def)
qed

lemma background_wait_ends_witness:
  "cl_cache (invalidateAfterConfirmation fee_sdk ''h'' client_start) = invalidate_keys cache_keys (cl_cache client_start)"
proof -
  have "settles fee_sdk ''h'' 0" "\<forall>h. \<exists>reply. pv_getTransaction (sd_provider fee_sdk) h ''h'' = Inr reply"
    by (simp_all add: settles_def fee_sdk_def)
  with background_wait_ends [OF fee_sdk_quiet, of "''h''" client_start 0] show ?thesis by simp
qed

end
