(* ===== verification/Sdk_Events.thy ===== *)
theory Sdk_Events
  imports Sdk_Encoding
begin

text \<open>
  The polling event subscriber (\<open>sdk/src/events.ts\<close>): listeners, the polling timer, the fetches in flight,
  parsing and dispatch.  The file is cut off inside the function \<open>on\<close> returns: of it only the removal of the
  callback is there, and what it does to the timer is left open here.  Callbacks are identities: what one
  returns or throws is ignored, so a call leaves its entry in \<open>ew_calls\<close> and no other trace.  They do not
  call the subscriber's methods before they return.
\<close>

section \<open>Payloads\<close>

datatype event_body =
    CAddressFunded string string string "string option" "string option"
  | FeesWithdrawn string "string option" "string option"
  | AdminProposed string string
  | AdminTransferred string string
  | FeeCollectorTransferProposed string string
  | FeeCollectorTransferred string string
  | MetaFundExecuted string string string "string option" "string option" "string option"
  | GenericEvent string "js_native list" js_native

record event_payload =
  ep_body :: event_body
  ep_ledger :: int
  ep_pagingToken :: "string option"

record raw_event =
  re_topic :: "scval list"
  re_value :: scval
  re_ledger :: int
  re_pagingToken :: "string option"

fun event_name :: "event_body \<Rightarrow> string" where
  "event_name (CAddressFunded _ _ _ _ _) = ''CAddressFunded''"
| "event_name (FeesWithdrawn _ _ _) = ''FeesWithdrawn''"
| "event_name (AdminProposed _ _) = ''AdminProposed''"
| "event_name (AdminTransferred _ _) = ''AdminTransferred''"
| "event_name (FeeCollectorTransferProposed _ _) = ''FeeCollectorTransferProposed''"
| "event_name (FeeCollectorTransferred _ _) = ''FeeCollectorTransferred''"
| "event_name (MetaFundExecuted _ _ _ _ _ _) = ''MetaFundExecuted''"
| "event_name (GenericEvent name _ _) = name"

section \<open>Parsing\<close>

text \<open>\<open>xs[i]\<close>, and \<open>String(topics[i] ?? '')\<close>.\<close>

definition at :: "'a list \<Rightarrow> nat \<Rightarrow> 'a option" where
  "at xs i = (if i < length xs then Some (xs ! i) else None)"

definition topic_text :: "js_native list \<Rightarrow> nat \<Rightarrow> string" where
  "topic_text topics i = (case at topics i of None \<Rightarrow> [] | Some v \<Rightarrow> if v = NNull then [] else native_text v)"

text \<open>\<open>Array.isArray(value) ? value.map(String) : [String(value), ...defaults]\<close>.\<close>

definition value_texts :: "js_native \<Rightarrow> string list \<Rightarrow> string list" where
  "value_texts value defaults =
     (case value of NList vs \<Rightarrow> map native_text vs | _ \<Rightarrow> native_text value # defaults)"

definition event_title :: "js_native list \<Rightarrow> string" where
  "event_title topics = (case at topics 0 of None \<Rightarrow> ''undefined'' | Some v \<Rightarrow> native_text v)"

definition event_body_of :: "js_native list \<Rightarrow> js_native \<Rightarrow> event_body" where
  "event_body_of topics value =
     (let name = event_title topics; t = topic_text topics in
      if name = ''CAddressFunded'' then
        let vs = value_texts value [''0''] in CAddressFunded (t 1) (t 2) (t 3) (at vs 0) (at vs 1)
      else if name = ''FeesWithdrawn'' then
        let vs = value_texts value [''''] in FeesWithdrawn (t 1) (at vs 0) (at vs 1)
      else if name = ''AdminProposed'' then AdminProposed (t 1) (t 2)
      else if name = ''AdminTransferred'' then AdminTransferred (t 1) (t 2)
      else if name = ''FeeCollectorTransferProposed'' then FeeCollectorTransferProposed (t 1) (t 2)
      else if name = ''FeeCollectorTransferred'' then FeeCollectorTransferred (t 1) (t 2)
      else if name = ''MetaFundExecuted'' then
        let vs = value_texts value [''0'', ''0''] in
        MetaFundExecuted (t 1) (t 2) (t 3) (at vs 0) (at vs 1) (at vs 2)
      else GenericEvent name topics value)"

definition parseEvent :: "stellar \<Rightarrow> raw_event \<Rightarrow> event_payload option" where
  "parseEvent st raw =
     (case bind_sum (map_sum_list (st_toNative st) (re_topic raw)) (\<lambda>topics.
           bind_sum (st_toNative st (re_value raw)) (\<lambda>value. Inr (event_body_of topics value))) of
        Inl _ \<Rightarrow> None
      | Inr body \<Rightarrow> Some \<lparr>ep_body = body, ep_ledger = re_ledger raw, ep_pagingToken = re_pagingToken raw\<rparr>)"

section \<open>The subscriber\<close>

datatype event_cursor = CursorNumber int | CursorText string

type_synonym callback = nat

record subscriber =
  es_contractId :: string
  es_pollingIntervalMs :: int
  es_limit :: int
  es_cursor :: event_cursor
  es_listeners :: "(string \<times> callback list) list"
  es_timer :: bool
  es_destroyed :: bool

text \<open>\<open>new EventSubscriber(config)\<close>; \<open>startLedger\<close> is a ledger number or \<open>'now'\<close>.\<close>

definition new_subscriber :: "string \<Rightarrow> int option \<Rightarrow> event_cursor option \<Rightarrow> int option \<Rightarrow> subscriber" where
  "new_subscriber contractId pollingIntervalMs startLedger limit =
     \<lparr>es_contractId = contractId, es_pollingIntervalMs = or_else pollingIntervalMs 5000, es_limit = or_else limit 100,
      es_cursor = or_else startLedger (CursorText ''now''), es_listeners = [], es_timer = False, es_destroyed = False\<rparr>"

definition callbacks :: "subscriber \<Rightarrow> string \<Rightarrow> callback list" where
  "callbacks s name = or_else (map_of (es_listeners s) name) []"

definition startPolling :: "subscriber \<Rightarrow> subscriber" where
  "startPolling s = (if es_timer s then s else s\<lparr>es_timer := True\<rparr>)"

definition stopPolling :: "subscriber \<Rightarrow> subscriber" where
  "stopPolling s = (if es_timer s then s\<lparr>es_timer := False\<rparr> else s)"

text \<open>Sets keep the order of insertion; adding a member again changes nothing.\<close>

definition callbacks_add :: "'a \<Rightarrow> 'a list \<Rightarrow> 'a list" where
  "callbacks_add x xs = (if x \<in> set xs then xs else xs @ [x])"

definition es_on :: "string \<Rightarrow> callback \<Rightarrow> subscriber \<Rightarrow> thrown + subscriber" where
  "es_on name cb s =
     (if es_destroyed s then Inl (error_of ''EventSubscriber has been destroyed'')
      else
        let s1 = (if map_of (es_listeners s) name = None then s\<lparr>es_listeners := es_listeners s @ [(name, [])]\<rparr> else s);
            s2 = s1\<lparr>es_listeners := map (\<lambda>(n, cbs). (n, if n = name then callbacks_add cb cbs else cbs)) (es_listeners s1)\<rparr>
        in Inr (if es_timer s2 then s2 else startPolling s2))"

text \<open>The part of the unsubscribe function that is there.\<close>

definition remove_callback :: "string \<Rightarrow> callback \<Rightarrow> subscriber \<Rightarrow> subscriber" where
  "remove_callback name cb s =
     s\<lparr>es_listeners := filter (\<lambda>(n, cbs). n \<noteq> name \<or> cbs \<noteq> [])
        (map (\<lambda>(n, cbs). (n, if n = name then filter (\<lambda>c. c \<noteq> cb) cbs else cbs)) (es_listeners s))\<rparr>"

definition listenerCount :: "subscriber \<Rightarrow> nat" where
  "listenerCount s = sum_list (map (\<lambda>(n, cbs). length cbs) (es_listeners s))"

definition es_destroy :: "subscriber \<Rightarrow> subscriber" where
  "es_destroy s = (stopPolling s)\<lparr>es_listeners := [], es_destroyed := True\<rparr>"

section \<open>Fetching and dispatching\<close>

record events_request =
  eq_contractIds :: "string list"
  eq_limit :: int
  eq_startLedger :: "int option"
  eq_cursor :: "string option"

definition fetch_request :: "subscriber \<Rightarrow> events_request" where
  "fetch_request s =
     \<lparr>eq_contractIds = [es_contractId s], eq_limit = es_limit s,
      eq_startLedger = (case es_cursor s of CursorNumber n \<Rightarrow> Some n | CursorText _ \<Rightarrow> None),
      eq_cursor = (case es_cursor s of CursorNumber _ \<Rightarrow> None | CursorText t \<Rightarrow> if t = ''now'' then None else Some t)\<rparr>"

datatype notice = Payload event_payload | Failure thrown

type_synonym call_log = "(callback \<times> notice) list"

definition notify :: "subscriber \<Rightarrow> string \<Rightarrow> notice \<Rightarrow> call_log" where
  "notify s name n = map (\<lambda>cb. (cb, n)) (callbacks s name)"

definition dispatch :: "subscriber \<Rightarrow> event_payload \<Rightarrow> call_log" where
  "dispatch s p = notify s (event_name (ep_body p)) (Payload p) @ notify s ''*'' (Payload p)"

text \<open>What is not an \<open>Error\<close> is wrapped; \<open>undefined\<close> is the value of \<open>thrown\<close> that is not one.\<close>

definition dispatchError :: "subscriber \<Rightarrow> thrown \<Rightarrow> call_log" where
  "dispatchError s err = notify s ''error'' (Failure (case err of None \<Rightarrow> error_of ''undefined'' | Some _ \<Rightarrow> err))"

definition event_calls :: "stellar \<Rightarrow> subscriber \<Rightarrow> raw_event \<Rightarrow> call_log" where
  "event_calls st s raw = (case parseEvent st raw of None \<Rightarrow> [] | Some p \<Rightarrow> dispatch s p)"

text \<open>An empty token is falsy.\<close>

definition advance_cursor :: "raw_event \<Rightarrow> subscriber \<Rightarrow> subscriber" where
  "advance_cursor raw s =
     (case re_pagingToken raw of
        None \<Rightarrow> s
      | Some t \<Rightarrow> if t = [] then s else s\<lparr>es_cursor := CursorText t\<rparr>)"

fun handle_events :: "stellar \<Rightarrow> raw_event list \<Rightarrow> subscriber \<Rightarrow> call_log \<times> subscriber" where
  "handle_events st [] s = ([], s)"
| "handle_events st (raw # raws) s =
     (case handle_events st raws (advance_cursor raw s) of (cs, s') \<Rightarrow> (event_calls st s raw @ cs, s'))"

text \<open>The subscriber with the fetches whose \<open>getEvents\<close> has not settled, and the callbacks called so far.\<close>

record event_world =
  ew_sub :: subscriber
  ew_pending :: "events_request list"
  ew_calls :: call_log

definition start_fetch :: "event_world \<Rightarrow> event_world" where
  "start_fetch w = w\<lparr>ew_pending := ew_pending w @ [fetch_request (ew_sub w)]\<rparr>"

definition remove_nth :: "nat \<Rightarrow> 'a list \<Rightarrow> 'a list" where
  "remove_nth i xs = take i xs @ drop (Suc i) xs"

text \<open>The rest of \<open>fetchAndDispatch\<close> after its \<open>await\<close>, with the \<open>catch\<close> of the timer or of \<open>poll\<close>, which also
  throws the error on to its caller.\<close>

definition settle_fetch :: "stellar \<Rightarrow> nat \<Rightarrow> thrown + raw_event list \<Rightarrow> event_world \<Rightarrow> event_world" where
  "settle_fetch st i outcome w =
     (case outcome of
        Inl err \<Rightarrow> w\<lparr>ew_pending := remove_nth i (ew_pending w), ew_calls := ew_calls w @ dispatchError (ew_sub w) err\<rparr>
      | Inr raws \<Rightarrow>
          (case handle_events st raws (ew_sub w) of (cs, s) \<Rightarrow>
             w\<lparr>ew_sub := s, ew_pending := remove_nth i (ew_pending w), ew_calls := ew_calls w @ cs\<rparr>))"

text \<open>One step: a listener added or removed, a tick of the timer, a manual \<open>poll\<close>, a \<open>getEvents\<close> that settles, \<open>destroy\<close>.\<close>

inductive event_step :: "stellar \<Rightarrow> event_world \<Rightarrow> event_world \<Rightarrow> bool" for st :: stellar where
  listened: "es_on name cb (ew_sub w) = Inr s \<Longrightarrow> event_step st w (w\<lparr>ew_sub := s\<rparr>)"
| unlistened: "(timer \<Longrightarrow> es_timer (ew_sub w)) \<Longrightarrow>
    event_step st w (w\<lparr>ew_sub := (remove_callback name cb (ew_sub w))\<lparr>es_timer := timer\<rparr>\<rparr>)"
| ticked: "es_timer (ew_sub w) \<Longrightarrow> event_step st w (start_fetch w)"
| polled: "event_step st w (start_fetch w)"
| settled: "i < length (ew_pending w) \<Longrightarrow> event_step st w (settle_fetch st i outcome w)"
| destroyed: "event_step st w (w\<lparr>ew_sub := es_destroy (ew_sub w)\<rparr>)"

inductive_cases event_stepE: "event_step st w w'"

definition fresh_events :: "subscriber \<Rightarrow> event_world" where
  "fresh_events s = \<lparr>ew_sub = s, ew_pending = [], ew_calls = []\<rparr>"

section \<open>A destroyed subscriber\<close>

definition silent :: "subscriber \<Rightarrow> bool" where
  "silent s \<longleftrightarrow> (es_destroyed s \<longrightarrow> es_listeners s = [] \<and> \<not> es_timer s)"

lemma advance_cursor_frame [simp]:
  "es_listeners (advance_cursor raw s) = es_listeners s" "es_timer (advance_cursor raw s) = es_timer s"
  "es_destroyed (advance_cursor raw s) = es_destroyed s" "es_limit (advance_cursor raw s) = es_limit s"
  "es_contractId (advance_cursor raw s) = es_contractId s"
  by (auto simp: advance_cursor_def split: option.splits)

lemma handle_events_frame:
  assumes "handle_events st raws s = (cs, s')"
  shows "es_listeners s' = es_listeners s" "es_timer s' = es_timer s" "es_destroyed s' = es_destroyed s"
    "es_limit s' = es_limit s" "es_contractId s' = es_contractId s"
  using assms by (induction raws arbitrary: s cs) (auto split: prod.splits)

lemma no_listeners_no_calls: "es_listeners s = [] \<Longrightarrow> event_calls st s raw = []" "es_listeners s = [] \<Longrightarrow> dispatchError s e = []"
  by (auto simp: event_calls_def dispatch_def dispatchError_def notify_def callbacks_def split: option.splits)

lemma handle_events_silent: "es_listeners s = [] \<Longrightarrow> fst (handle_events st raws s) = []"
  by (induction raws arbitrary: s) (auto simp: no_listeners_no_calls split: prod.splits)

lemma es_on_alive: "es_on name cb s = Inr s' \<Longrightarrow> \<not> es_destroyed s \<and> \<not> es_destroyed s'"
  by (auto simp: es_on_def startPolling_def Let_def split: if_splits)

text \<open>Every step keeps the invariant, a destroyed subscriber destroyed, and then calls nothing.\<close>

lemma step_silent:
  assumes "event_step st w w'" "silent (ew_sub w)"
  shows "silent (ew_sub w') \<and> (es_destroyed (ew_sub w) \<longrightarrow> es_destroyed (ew_sub w') \<and> ew_calls w' = ew_calls w)"
  using assms
proof (cases rule: event_step.cases)
  case (settled i outcome)
  show ?thesis
  proof (cases outcome)
    case (Inl e)
    with settled assms(2) show ?thesis by (auto simp: settle_fetch_def silent_def no_listeners_no_calls)
  next
    case (Inr raws)
    obtain cs s where h: "handle_events st raws (ew_sub w) = (cs, s)" by (rule prod.exhaust)
    from handle_events_frame [OF h] handle_events_silent [of "ew_sub w" st raws] h settled Inr assms(2) show ?thesis
      by (auto simp: settle_fetch_def silent_def)
  qed
qed (auto simp: silent_def remove_callback_def dest: es_on_alive
    simp: start_fetch_def es_destroy_def stopPolling_def)

section \<open>Polls one after the other\<close>

text \<open>A server with a history of events: what comes after the cursor, or from the starting ledger on; a request with
  neither starts at the current ledger of that moment, as the comment in \<open>fetchAndDispatch\<close> has it.  An answer is
  a failure, or the number of events visible so far with the current ledger, and is cut at the limit.\<close>

type_synonym poll_answer = "thrown + nat \<times> int"

definition events_after :: "raw_event list \<Rightarrow> int \<Rightarrow> events_request \<Rightarrow> raw_event list" where
  "events_after chain current q =
     (case eq_cursor q of
        Some t \<Rightarrow> tl (dropWhile (\<lambda>r. re_pagingToken r \<noteq> Some t) chain)
      | None \<Rightarrow> dropWhile (\<lambda>r. re_ledger r < or_else (eq_startLedger q) current) chain)"

definition server_answer :: "raw_event list \<Rightarrow> poll_answer \<Rightarrow> events_request \<Rightarrow> thrown + raw_event list" where
  "server_answer chain x q =
     (case x of
        Inl e \<Rightarrow> Inl e
      | Inr (visible, current) \<Rightarrow> Inr (take (min visible (nat (eq_limit q))) (events_after chain current q)))"

text \<open>A poll whose fetch settles before anything else happens.\<close>

definition settled_poll :: "stellar \<Rightarrow> raw_event list \<Rightarrow> poll_answer \<Rightarrow> event_world \<Rightarrow> event_world" where
  "settled_poll st chain x w =
     settle_fetch st (length (ew_pending w)) (server_answer chain x (fetch_request (ew_sub w))) (start_fetch w)"

fun poll_all :: "stellar \<Rightarrow> raw_event list \<Rightarrow> poll_answer list \<Rightarrow> event_world \<Rightarrow> event_world" where
  "poll_all st chain [] w = w"
| "poll_all st chain (x # xs) w = poll_all st chain xs (settled_poll st chain x w)"

lemma settled_poll_steps: "rtranclp (event_step st) w (settled_poll st chain x w)"
proof -
  have "event_step st w (start_fetch w)" by (rule polled)
  moreover have "event_step st (start_fetch w) (settled_poll st chain x w)"
    unfolding settled_poll_def by (rule settled) (simp add: start_fetch_def)
  ultimately show ?thesis by simp
qed

text \<open>The tokens of the history tell its events apart and can be sent back as a cursor.\<close>

definition good_history :: "raw_event list \<Rightarrow> bool" where
  "good_history chain \<longleftrightarrow> distinct (map re_pagingToken chain)
     \<and> (\<forall>r \<in> set chain. \<exists>t. re_pagingToken r = Some t \<and> t \<noteq> [] \<and> t \<noteq> ''now'')"

definition payloads :: "call_log \<Rightarrow> call_log" where
  "payloads cs = filter (\<lambda>(cb, n). case n of Payload _ \<Rightarrow> True | Failure _ \<Rightarrow> False) cs"

lemma payloads_simps [simp]: "payloads [] = []" "payloads (cs @ ds) = payloads cs @ payloads ds"
  "payloads (dispatchError s e) = []" "payloads (event_calls st s raw) = event_calls st s raw"
  by (auto simp: payloads_def dispatchError_def event_calls_def dispatch_def notify_def filter_empty_conv filter_map o_def
      split: option.splits)

lemma handle_events_calls:
  "fst (handle_events st raws s) = concat (map (event_calls st s) raws)"
proof (induction raws arbitrary: s)
  case (Cons r rs)
  have "event_calls st (advance_cursor r s) = event_calls st s"
    by (auto simp: fun_eq_iff event_calls_def dispatch_def notify_def callbacks_def split: option.splits)
  with Cons [of "advance_cursor r s"] show ?case by (auto split: prod.splits)
qed simp

lemma handle_events_cursor:
  assumes "\<forall>r \<in> set raws. \<exists>t. re_pagingToken r = Some t \<and> t \<noteq> []" "raws \<noteq> []"
  shows "es_cursor (snd (handle_events st raws s)) = CursorText (the (re_pagingToken (last raws)))"
  using assms
proof (induction raws arbitrary: s)
  case (Cons r rs)
  show ?case
  proof (cases rs)
    case Nil
    with Cons.prems(1) show ?thesis by (auto simp: advance_cursor_def)
  next
    case (Cons r' rs')
    with Cons.IH [of "advance_cursor r s"] Cons.prems(1) show ?thesis by (auto split: prod.splits)
  qed
qed simp

text \<open>After the first \<open>n\<close> of what was to come, the cursor is the token of the last of them and the rest is to come.\<close>

lemma after_token:
  assumes "distinct (map re_pagingToken chain)" "chain = pre @ r # post"
  shows "events_after chain current \<lparr>eq_contractIds = ids, eq_limit = l, eq_startLedger = None, eq_cursor = re_pagingToken r\<rparr> =
    (if re_pagingToken r = None then dropWhile (\<lambda>r. re_ledger r < current) chain else post)"
proof (cases "re_pagingToken r")
  case (Some t)
  from assms have "\<forall>x \<in> set pre. re_pagingToken x \<noteq> Some t" using Some by force
  with assms(2) Some show ?thesis by (simp add: events_after_def dropWhile_append2)
qed (simp add: events_after_def or_else_def)

text \<open>A subscriber that knows where it is, from a ledger number or a token, asks for the same events at any moment.\<close>

definition positioned :: "subscriber \<Rightarrow> bool" where
  "positioned s \<longleftrightarrow> es_cursor s \<noteq> CursorText ''now''"

lemma events_after_positioned:
  "positioned s \<Longrightarrow> events_after chain current (fetch_request s) = events_after chain current' (fetch_request s)"
  by (cases "es_cursor s") (simp_all add: positioned_def events_after_def fetch_request_def or_else_def)

lemma after_suffix: "\<exists>pre. chain = pre @ events_after chain current q"
proof -
  have drop: "\<exists>pre. chain = pre @ dropWhile P chain" for P
    by (metis takeWhile_dropWhile_id)
  have "\<exists>pre. chain = pre @ tl (dropWhile P chain)" for P
  proof (cases "dropWhile P chain")
    case Nil
    show ?thesis by (rule exI [of _ chain]) (simp only: Nil list.sel(2) append_Nil2)
  next
    case (Cons y ys)
    with drop [of P] show ?thesis by (metis append.assoc append_Cons append_Nil list.sel(3))
  qed
  with drop show ?thesis unfolding events_after_def by (cases "eq_cursor q") auto
qed

lemma fetch_request_frame:
  assumes "handle_events st raws s = (cs, s')"
  shows "eq_limit (fetch_request s') = eq_limit (fetch_request s)"
  using handle_events_frame [OF assms] by (simp add: fetch_request_def)

lemma settled_poll_progress:
  fixes current :: int
  assumes good: "good_history chain" and pos: "positioned (ew_sub w)"
  defines "rest \<equiv> \<lambda>w. events_after chain current (fetch_request (ew_sub w))"
  shows "\<exists>m. payloads (ew_calls (settled_poll st chain x w))
        = payloads (ew_calls w) @ concat (map (event_calls st (ew_sub w)) (take m (rest w)))
    \<and> rest (settled_poll st chain x w) = drop m (rest w)
    \<and> (1 \<le> es_limit (ew_sub w) \<and> x = Inr (k, c) \<and> 1 \<le> k \<longrightarrow> min (length (rest w)) 1 \<le> m)
    \<and> positioned (ew_sub (settled_poll st chain x w))
    \<and> es_listeners (ew_sub (settled_poll st chain x w)) = es_listeners (ew_sub w)
    \<and> es_limit (ew_sub (settled_poll st chain x w)) = es_limit (ew_sub w)"
proof (cases x)
  case (Inl e)
  with pos show ?thesis
    by (intro exI [of _ 0]) (simp add: settled_poll_def server_answer_def settle_fetch_def start_fetch_def rest_def)
next
  case (Inr y)
  obtain visible now where y: "y = (visible, now)" by (rule prod.exhaust)
  note Inr = Inr [unfolded y]
  define m where "m = min visible (nat (es_limit (ew_sub w)))"
  define got where "got = take m (rest w)"
  obtain cs s where h: "handle_events st got (ew_sub w) = (cs, s)" by (rule prod.exhaust)
  have sub: "ew_sub (settled_poll st chain x w) = s" and log: "ew_calls (settled_poll st chain x w) = ew_calls w @ cs"
    using h Inr events_after_positioned [OF pos, of chain now current]
    by (simp_all add: settled_poll_def server_answer_def settle_fetch_def start_fetch_def got_def m_def rest_def)
      (simp_all add: fetch_request_def)
  have cs: "cs = concat (map (event_calls st (ew_sub w)) got)" using handle_events_calls [of st got "ew_sub w"] h by simp
  have "payloads cs = cs" unfolding cs by (induction got) simp_all
  moreover have "rest (settled_poll st chain x w) = drop m (rest w) \<and> positioned (ew_sub (settled_poll st chain x w))"
  proof (cases "got = []")
    case True
    then have "m = 0 \<or> rest w = []" by (auto simp: got_def)
    with True h sub pos show ?thesis by (auto simp: rest_def)
  next
    case False
    define r where "r = last got"
    obtain pre where pre: "chain = pre @ rest w" using after_suffix unfolding rest_def by blast
    have split: "rest w = butlast got @ r # drop m (rest w)"
    proof -
      have "rest w = got @ drop m (rest w)" by (simp add: got_def)
      also have "got = butlast got @ [r]" using False by (simp add: r_def)
      finally show ?thesis by (simp only: append_assoc append_Cons append_Nil)
    qed
    have chain: "chain = (pre @ butlast got) @ r # drop m (rest w)"
      by (subst pre, subst split) simp
    have inside: "set got \<subseteq> set chain" using pre set_take_subset [of m "rest w"] unfolding got_def by (metis Un_iff set_append subset_iff)
    have "r \<in> set got" using False by (simp add: r_def)
    then obtain t where t: "re_pagingToken r = Some t" "t \<noteq> []" "t \<noteq> ''now''"
      using good inside unfolding good_history_def by blast
    have "\<forall>r \<in> set got. \<exists>t. re_pagingToken r = Some t \<and> t \<noteq> []"
      using good inside unfolding good_history_def by blast
    from handle_events_cursor [OF this False, of st "ew_sub w"] h t have "es_cursor s = CursorText t" by (simp add: r_def)
    with t have "fetch_request s = \<lparr>eq_contractIds = [es_contractId s], eq_limit = es_limit s, eq_startLedger = None,
        eq_cursor = re_pagingToken r\<rparr>" by (simp add: fetch_request_def)
    with after_token [OF _ chain] good t sub \<open>es_cursor s = CursorText t\<close> show ?thesis
      by (simp add: rest_def good_history_def positioned_def)
  qed
  moreover have "min (length (rest w)) 1 \<le> m" if "1 \<le> es_limit (ew_sub w) \<and> x = Inr (k, c) \<and> 1 \<le> k"
  proof -
    have "1 \<le> visible" "1 \<le> nat (es_limit (ew_sub w))" using that Inr by auto
    then have "1 \<le> m" unfolding m_def by simp
    then show ?thesis by simp
  qed
  ultimately show ?thesis
    using log cs sub handle_events_frame [OF h] by (intro exI [of _ m]) (simp add: got_def)
qed

lemma event_calls_listeners:
  "es_listeners s = es_listeners s' \<Longrightarrow> event_calls st s = event_calls st s'"
  by (auto simp: fun_eq_iff event_calls_def dispatch_def notify_def callbacks_def split: option.splits)

definition useful :: "poll_answer \<Rightarrow> bool" where
  "useful x = (case x of Inl _ \<Rightarrow> False | Inr (k, _) \<Rightarrow> 1 \<le> k)"

lemma poll_all_progress:
  assumes "good_history chain" "1 \<le> es_limit (ew_sub w)" "positioned (ew_sub w)"
  shows "\<exists>m. payloads (ew_calls (poll_all st chain xs w))
        = payloads (ew_calls w) @ concat (map (event_calls st (ew_sub w)) (take m (events_after chain current (fetch_request (ew_sub w)))))
    \<and> events_after chain current (fetch_request (ew_sub (poll_all st chain xs w))) = drop m (events_after chain current (fetch_request (ew_sub w)))
    \<and> min (length (events_after chain current (fetch_request (ew_sub w)))) (length (filter useful xs)) \<le> m"
  using assms(2,3)
proof (induction xs arbitrary: w)
  case Nil
  then show ?case by (intro exI [of _ 0]) simp
next
  case (Cons x xs)
  let ?rest = "events_after chain current (fetch_request (ew_sub w))" and ?w = "settled_poll st chain x w"
  obtain k c where k: "useful x \<Longrightarrow> x = Inr (k, c) \<and> 1 \<le> k" by (cases x) (auto simp: useful_def)
  obtain m where m: "payloads (ew_calls ?w) = payloads (ew_calls w) @ concat (map (event_calls st (ew_sub w)) (take m ?rest))"
    "events_after chain current (fetch_request (ew_sub ?w)) = drop m ?rest"
    "1 \<le> es_limit (ew_sub w) \<and> x = Inr (k, c) \<and> 1 \<le> k \<longrightarrow> min (length ?rest) 1 \<le> m"
    "es_listeners (ew_sub ?w) = es_listeners (ew_sub w)" "es_limit (ew_sub ?w) = es_limit (ew_sub w)"
    "positioned (ew_sub ?w)"
    using settled_poll_progress [OF assms(1) Cons.prems(2), where current = current and st = st and x = x and k = k and c = c] by blast
  have "1 \<le> es_limit (ew_sub ?w)" using m(5) Cons.prems by simp
  from Cons.IH [OF this m(6)] obtain n where n: "payloads (ew_calls (poll_all st chain xs ?w))
        = payloads (ew_calls ?w) @ concat (map (event_calls st (ew_sub ?w)) (take n (drop m ?rest)))"
    "events_after chain current (fetch_request (ew_sub (poll_all st chain xs ?w))) = drop n (drop m ?rest)"
    "min (length (drop m ?rest)) (length (filter useful xs)) \<le> n" unfolding m(2) by blast
  have "take m ?rest @ take n (drop m ?rest) = take (m + n) ?rest" by (simp add: take_add)
  then have "payloads (ew_calls (poll_all st chain (x # xs) w))
      = payloads (ew_calls w) @ concat (map (event_calls st (ew_sub w)) (take (m + n) ?rest))"
    using n(1) m(1) event_calls_listeners [OF m(4), of st] by (metis append.assoc concat_append map_append poll_all.simps(2))
  moreover have "min (length ?rest) (length (filter useful (x # xs))) \<le> m + n"
    using n(3) m(3) k Cons.prems(1) by (auto split: if_splits)
  ultimately show ?case using n(2) by (intro exI [of _ "m + n"]) (simp add: add.commute)
qed

text \<open>From \<open>'now'\<close> on, a request names no position: as long as nothing has come, an event whose ledger closes between two
  polls is before the current ledger of the later one and reaches nobody.\<close>

definition too_early_or_late :: "int \<Rightarrow> poll_answer \<Rightarrow> bool" where
  "too_early_or_late ledger x = (case x of Inl _ \<Rightarrow> True | Inr (visible, current) \<Rightarrow> visible = 0 \<or> ledger < current)"

lemma starting_now_misses_event:
  assumes "es_cursor (ew_sub w) = CursorText ''now''" "list_all (too_early_or_late (re_ledger raw)) xs"
  shows "payloads (ew_calls (poll_all st [raw] xs w)) = payloads (ew_calls w)
    \<and> es_cursor (ew_sub (poll_all st [raw] xs w)) = CursorText ''now''"
  using assms
proof (induction xs arbitrary: w)
  case (Cons x xs)
  let ?w = "settled_poll st [raw] x w"
  have "server_answer [raw] x (fetch_request (ew_sub w)) = Inr [] \<or> (\<exists>e. x = Inl e)"
    using Cons.prems by (auto simp: server_answer_def too_early_or_late_def events_after_def fetch_request_def split: sum.splits)
  then have "payloads (ew_calls ?w) = payloads (ew_calls w)" "es_cursor (ew_sub ?w) = CursorText ''now''"
    using Cons.prems(1) by (auto simp: settled_poll_def settle_fetch_def start_fetch_def server_answer_def split: sum.splits)
  with Cons.IH [of ?w] Cons.prems(2) show ?case by simp
qed simp

section \<open>Properties\<close>

text \<open>A subscriber that was destroyed stays silent: in every world reached from a new subscriber by
  listening, unsubscribing, ticks, polls, answers and \<open>destroy\<close> in any order, a destroyed subscriber has no
  listener and no timer, \<open>on\<close> throws, and whatever happens later, answers of fetches that were still under
  way included, no callback is called any more.\<close>

theorem destroyed_subscriber_is_silent:
  assumes "rtranclp (event_step st) (fresh_events (new_subscriber c p start limit)) w" "es_destroyed (ew_sub w)"
    and "rtranclp (event_step st) w w'"
  shows "ew_calls w' = ew_calls w \<and> listenerCount (ew_sub w') = 0 \<and> \<not> es_timer (ew_sub w')
    \<and> (\<exists>e. es_on name cb (ew_sub w') = Inl e)"
proof -
  have "silent (ew_sub w)" using assms(1)
    by (induction rule: rtranclp_induct)
      (auto simp: fresh_events_def new_subscriber_def silent_def dest: step_silent)
  with assms(3,2) have "silent (ew_sub w') \<and> es_destroyed (ew_sub w') \<and> ew_calls w' = ew_calls w"
    by (induction rule: rtranclp_induct) (auto dest: step_silent)
  then show ?thesis by (auto simp: silent_def listenerCount_def es_on_def)
qed

text \<open>C31: Polls that do not overlap deliver the contract's events completely and once, from a known position: over a server
  that answers from a history with distinct paging tokens, a subscriber that was given a starting ledger, or that
  has a paging token from an earlier event, calls its listeners in any sequence of polls, some of which fail and some of which
  see only a part of the history, with exactly the first \<open>m\<close> events after that position, in order, each
  once; every successful poll that sees something advances \<open>m\<close>.  The default \<open>'now'\<close> names no position and misses
  events (\<open>starting_now_misses_event\<close>).\<close>

theorem sequential_polls_deliver_each_event_once:
  assumes "good_history chain" "1 \<le> es_limit s" "es_cursor s \<noteq> CursorText ''now''"
  shows "\<exists>m. payloads (ew_calls (poll_all st chain xs (fresh_events s)))
        = concat (map (event_calls st s) (take m (events_after chain current (fetch_request s))))
    \<and> min (length (events_after chain current (fetch_request s))) (length (filter useful xs)) \<le> m"
  using poll_all_progress [where chain = chain and w = "fresh_events s" and st = st and xs = xs and current = current] assms by (auto simp: fresh_events_def positioned_def)

text \<open>C32: The timer does not wait for a fetch to settle: the interval may tick twice before the first answer comes,
  and both fetches then ask with the same cursor, so that every event they return is handed to its
  listeners twice.\<close>

theorem overlapping_fetches_dispatch_twice:
  assumes "es_timer (ew_sub w)" "ew_pending w = []" "1 \<le> es_limit (ew_sub w)"
    and "events_after chain current (fetch_request (ew_sub w)) = raw # later" "event_calls st (ew_sub w) raw = cs"
  shows "\<exists>w1 w2 w3. event_step st w w1 \<and> event_step st w1 w2 \<and> ew_pending w2 = [fetch_request (ew_sub w), fetch_request (ew_sub w)]
    \<and> w3 = settle_fetch st 0 (server_answer chain (Inr (1, current)) (fetch_request (ew_sub w)))
             (settle_fetch st 0 (server_answer chain (Inr (1, current)) (fetch_request (ew_sub w))) w2)
    \<and> rtranclp (event_step st) w w3 \<and> ew_calls w3 = ew_calls w @ cs @ cs"
proof -
  let ?q = "fetch_request (ew_sub w)" and ?w1 = "start_fetch w" and ?w2 = "start_fetch (start_fetch w)"
  have steps: "event_step st w ?w1" "event_step st ?w1 ?w2"
    using ticked [of w st] ticked [of "start_fetch w" st] assms(1) by (simp_all add: start_fetch_def)
  have pending: "ew_pending ?w2 = [?q, ?q]" using assms(2) by (simp add: start_fetch_def)
  have answer: "server_answer chain (Inr (1, current)) ?q = Inr [raw]"
    using assms(3,4) by (simp add: server_answer_def fetch_request_def min_def take_Cons')
  let ?once = "settle_fetch st 0 (server_answer chain (Inr (1, current)) ?q) ?w2"
  let ?twice = "settle_fetch st 0 (server_answer chain (Inr (1, current)) ?q) ?once"
  have "event_step st ?w2 ?once" by (rule settled) (simp add: pending)
  moreover have "event_step st ?once ?twice"
    by (rule settled) (simp only: settle_fetch_def answer, simp add: pending remove_nth_def)
  ultimately have "rtranclp (event_step st) w ?twice" using steps by (meson converse_rtranclp_into_rtranclp rtranclp.rtrancl_refl)
  moreover have "ew_calls ?twice = ew_calls w @ cs @ cs"
  proof -
    have "event_calls st (advance_cursor raw (ew_sub w)) raw = cs"
      using assms(5) event_calls_listeners [of "advance_cursor raw (ew_sub w)" "ew_sub w" st] by simp
    with assms(5) show ?thesis by (simp only: settle_fetch_def answer) (simp add: start_fetch_def)
  qed
  ultimately show ?thesis using steps pending by blast
qed

section \<open>Concrete runs\<close>

text \<open>Symbols are texts; a history of two events.\<close>

definition text_stellar :: stellar where
  "text_stellar =
     \<lparr>st_is_account = (\<lambda>_. True), st_is_contract = (\<lambda>_. True), st_address = (\<lambda>_. None),
      st_typed = (\<lambda>ty x. Inl (error_of ''unsupported'')), st_native = (\<lambda>x. Inl (error_of ''unsupported'')),
      st_toNative = (\<lambda>v. case v of ScInt ty n \<Rightarrow> Inr (NBig n) | ScAddress a \<Rightarrow> Inr (NText a) | ScVoid \<Rightarrow> Inr NNull
                             | _ \<Rightarrow> Inl (error_of ''unsupported''))\<rparr>"

definition proposal :: "string \<Rightarrow> raw_event" where
  "proposal t = \<lparr>re_topic = map ScAddress [''AdminProposed'', ''GA'', ''GB''], re_value = ScVoid, re_ledger = 7,
                     re_pagingToken = Some t\<rparr>"

definition proposed :: "string \<Rightarrow> notice" where
  "proposed t = Payload \<lparr>ep_body = AdminProposed ''GA'' ''GB'', ep_ledger = 7, ep_pagingToken = Some t\<rparr>"

definition listening :: subscriber where
  "listening = (new_subscriber ''CB'' None (Some (CursorNumber 5)) None)\<lparr>es_listeners := [(''*'', [9])], es_timer := True\<rparr>"

lemma listening_on: "es_on ''*'' 9 (new_subscriber ''CB'' None (Some (CursorNumber 5)) None) = Inr listening"
  by (simp add: es_on_def new_subscriber_def listening_def startPolling_def callbacks_add_def Let_def)

lemma proposal_calls: "event_calls text_stellar listening (proposal t) = [(9, proposed t)]"
proof -
  have "parseEvent text_stellar (proposal t)
      = Some \<lparr>ep_body = AdminProposed ''GA'' ''GB'', ep_ledger = 7, ep_pagingToken = Some t\<rparr>"
    by (simp add: parseEvent_def proposal_def text_stellar_def event_body_of_def event_title_def at_def topic_text_def)
  then show ?thesis
    by (simp add: event_calls_def dispatch_def notify_def callbacks_def listening_def proposed_def)
qed

lemma sample_request: "events_after [proposal ''t1'', proposal ''t2''] 9 (fetch_request listening) = [proposal ''t1'', proposal ''t2'']"
  by (simp add: fetch_request_def listening_def new_subscriber_def events_after_def proposal_def)

lemma destroyed_subscriber_is_silent_witness:
  "ew_calls (settle_fetch text_stellar 0 (Inr [proposal ''t1''])
     \<lparr>ew_sub = es_destroy listening, ew_pending = [fetch_request listening], ew_calls = []\<rparr>) = []"
proof -
  let ?s = "new_subscriber ''CB'' None (Some (CursorNumber 5)) None"
  let ?w1 = "(fresh_events ?s)\<lparr>ew_sub := listening\<rparr>"
  let ?w = "(start_fetch ?w1)\<lparr>ew_sub := es_destroy (ew_sub (start_fetch ?w1))\<rparr>"
  have w: "?w = \<lparr>ew_sub = es_destroy listening, ew_pending = [fetch_request listening], ew_calls = []\<rparr>"
    by (simp add: start_fetch_def fresh_events_def)
  have "event_step text_stellar (fresh_events ?s) ?w1"
    by (rule listened [of "''*''" 9]) (simp add: fresh_events_def listening_on)
  moreover have "event_step text_stellar ?w1 (start_fetch ?w1)" by (rule polled)
  moreover have "event_step text_stellar (start_fetch ?w1) ?w" by (rule destroyed)
  ultimately have "rtranclp (event_step text_stellar) (fresh_events ?s) ?w" by (meson rtranclp.rtrancl_into_rtrancl rtranclp.rtrancl_refl)
  moreover have "rtranclp (event_step text_stellar) ?w (settle_fetch text_stellar 0 (Inr [proposal ''t1'']) ?w)"
    by (rule r_into_rtranclp, rule settled) (simp add: w)
  moreover have "es_destroyed (ew_sub ?w)" by (simp add: es_destroy_def)
  ultimately have "ew_calls (settle_fetch text_stellar 0 (Inr [proposal ''t1'']) ?w) = ew_calls ?w"
    using destroyed_subscriber_is_silent by blast
  then show ?thesis unfolding w by simp
qed

lemma sequential_polls_deliver_each_event_once_witness:
  "\<exists>m. payloads (ew_calls (poll_all text_stellar [proposal ''t1'', proposal ''t2''] [Inr (1, 9), Inl None, Inr (2, 9)] (fresh_events listening)))
     = concat (map (event_calls text_stellar listening) (take m [proposal ''t1'', proposal ''t2''])) \<and> 2 \<le> m"
proof -
  have "good_history [proposal ''t1'', proposal ''t2'']" by (simp add: good_history_def proposal_def)
  moreover have "1 \<le> es_limit listening" "es_cursor listening \<noteq> CursorText ''now''"
    by (simp_all add: listening_def new_subscriber_def)
  ultimately show ?thesis
    using sequential_polls_deliver_each_event_once [of "[proposal ''t1'', proposal ''t2'']" listening text_stellar "[Inr (1, 9), Inl None, Inr (2, 9)]" 9]
    by (simp add: sample_request useful_def numeral_2_eq_2)
qed

lemma overlapping_fetches_dispatch_twice_witness:
  "\<exists>w3. rtranclp (event_step text_stellar) (fresh_events listening) w3
     \<and> ew_calls w3 = [(9, proposed ''t1''), (9, proposed ''t1'')]"
proof -
  have "es_timer listening" "1 \<le> es_limit listening" by (simp_all add: listening_def new_subscriber_def)
  then show ?thesis
    using overlapping_fetches_dispatch_twice [of "fresh_events listening" "[proposal ''t1'', proposal ''t2'']" 9
        "proposal ''t1''" "[proposal ''t2'']" text_stellar "[(9, proposed ''t1'')]"]
    by (auto simp: fresh_events_def sample_request proposal_calls)
qed

end
