(* ===== verification/Js_Number.thy ===== *)
theory Js_Number
  imports Js_Runtime Complex_Main "HOL-Library.Log_Nat"
begin

text \<open>
  JavaScript numbers that are not integers: the values are rationals, and an operation is the exact one
  followed by rounding to the nearest double (\<open>dbl\<close>: 53 bits, ties to even, subnormals below \<open>2 ^ -1022\<close>).
  Only values that are not negative occur.  A value above the largest double, \<open>Infinity\<close> in the program, keeps
  its size here.
\<close>

section \<open>Rounding\<close>

definition round_even :: "rat \<Rightarrow> int" where
  "round_even y =
     (let f = \<lfloor>y\<rfloor>; r = y - of_int f in
      if r < 1 / 2 then f else if 1 / 2 < r then f + 1 else if even f then f else f + 1)"

text \<open>The exponent \<open>e\<close> with \<open>2 ^ e \<le> x < 2 ^ (e + 1)\<close>.\<close>

definition exponent :: "rat \<Rightarrow> int" where
  "exponent x =
     (case quotient_of x of (n, d) \<Rightarrow>
        let e = bitlen n - bitlen d in if 2 powi e \<le> x then e else e - 1)"

definition unit_last_place :: "rat \<Rightarrow> rat" where
  "unit_last_place x = 2 powi (max (exponent x - 52) (- 1074))"

definition dbl :: "rat \<Rightarrow> rat" where
  "dbl x = (if x \<le> 0 then 0 else of_int (round_even (x / unit_last_place x)) * unit_last_place x)"

section \<open>Text\<close>

text \<open>\<open>/^\d+(\.\d+)?$/\<close>, and the value of what it matches.\<close>

definition is_decimal :: "string \<Rightarrow> bool" where
  "is_decimal s =
     (case split_on CHR ''.'' s of
        [a] \<Rightarrow> matches_digits a
      | [a, b] \<Rightarrow> matches_digits a \<and> matches_digits b
      | _ \<Rightarrow> False)"

definition decimal_value :: "string \<Rightarrow> rat" where
  "decimal_value s =
     (case split_on CHR ''.'' s of
        [a] \<Rightarrow> of_nat (num_of_string 10 a)
      | [a, b] \<Rightarrow> of_nat (num_of_string 10 a) + of_nat (num_of_string 10 b) / 10 ^ length b
      | _ \<Rightarrow> 0)"

text \<open>\<open>parseFloat\<close> of such a text.\<close>

definition parse_float :: "string \<Rightarrow> rat" where
  "parse_float s = dbl (decimal_value s)"

text \<open>\<open>x.toFixed(2)\<close>: the integer nearest to \<open>100 * x\<close>, the larger of two, for \<open>x\<close> below \<open>10 ^ 21\<close>.\<close>

definition hundredths :: "rat \<Rightarrow> int" where
  "hundredths x = \<lfloor>100 * x + 1 / 2\<rfloor>"

definition pad2 :: "nat \<Rightarrow> string" where
  "pad2 n = (if n < 10 then ''0'' @ dec_of_nat n else dec_of_nat n)"

definition to_fixed2 :: "rat \<Rightarrow> string" where
  "to_fixed2 x =
     (let n = nat (hundredths x) in dec_of_nat (n div 100) @ ''.'' @ pad2 (n mod 100))"

section \<open>How far rounding goes\<close>

lemma round_even_near: "\<bar>of_int (round_even y) - y\<bar> \<le> 1 / 2"
proof -
  have "of_int \<lfloor>y\<rfloor> \<le> y" "y < of_int \<lfloor>y\<rfloor> + 1" by linarith+
  then show ?thesis by (auto simp: round_even_def Let_def abs_le_iff field_simps)
qed

lemma round_even_of_int [simp]: "round_even (of_int n) = n"
  by (simp add: round_even_def)

lemma powi_pos [simp]: "(0 :: rat) < 2 powi e"
  by (simp add: zero_less_power_int)

lemma powi_mono: "e \<le> f \<Longrightarrow> (2 :: rat) powi e \<le> 2 powi f"
  by (simp add: power_int_increasing)

lemma powi_nat: "0 \<le> e \<Longrightarrow> (2 :: rat) powi e = 2 ^ nat e"
  by (simp add: power_int_def)

lemma exponent_le:
  assumes "0 < x"
  shows "2 powi exponent x \<le> x"
proof -
  obtain n d where q: "quotient_of x = (n, d)" by (rule prod.exhaust)
  then have x: "x = of_int n / of_int d" and d: "0 < d" by (simp_all add: quotient_of_div quotient_of_denom_pos)
  with assms have n: "0 < n" by (simp add: zero_less_divide_iff)
  let ?e = "bitlen n - bitlen d"
  show ?thesis
  proof (cases "2 powi ?e \<le> x")
    case True
    with q show ?thesis by (simp add: exponent_def)
  next
    case False
    have nb: "(2 :: rat) powi (bitlen n - 1) \<le> of_int n"
    proof -
      have "bitlen n \<ge> 1" using n by (simp add: bitlen_alt_def)
      then have "(2 :: rat) powi (bitlen n - 1) = of_int (2 ^ nat (bitlen n - 1))" by (simp add: powi_nat)
      also have "\<dots> \<le> of_int n" using bitlen_bounds [OF n] by (simp only: of_int_le_iff)
      finally show ?thesis .
    qed
    have db: "of_int d \<le> (2 :: rat) powi bitlen d"
    proof -
      have "of_int d \<le> (of_int (2 ^ nat (bitlen d)) :: rat)" using bitlen_bounds [OF d] by (simp only: of_int_le_iff less_imp_le)
      also have "\<dots> = 2 powi bitlen d" by (simp add: powi_nat bitlen_nonneg)
      finally show ?thesis .
    qed
    have "(2 :: rat) powi (?e - 1) = 2 powi (bitlen n - 1) / 2 powi bitlen d"
      by (simp add: power_int_diff [symmetric] algebra_simps)
    also have "\<dots> \<le> of_int n / of_int d"
      using nb db d n by (intro frac_le) auto
    finally show ?thesis using False q x by (simp add: exponent_def)
  qed
qed

lemma dbl_zero [simp]: "dbl 0 = 0"
  by (simp add: dbl_def)

text \<open>The error is at most half a unit in the last place: \<open>2 ^ -53\<close> of the value, or of the smallest double.\<close>

lemma unit_le:
  assumes "0 < x"
  shows "unit_last_place x \<le> x / 2 ^ 52 + 2 powi (- 1074)"
proof -
  have "(2 :: rat) powi (exponent x - 52) = 2 powi exponent x / 2 powi 52" by (simp add: power_int_diff)
  then have "2 powi (exponent x - 52) \<le> x / 2 ^ 52"
    using exponent_le [OF assms] by (simp add: powi_nat divide_right_mono)
  moreover have "0 \<le> x / 2 ^ 52" using assms by simp
  moreover have "(0 :: rat) \<le> 2 powi (- 1074)" using powi_pos by (rule less_imp_le)
  moreover have "unit_last_place x = 2 powi (exponent x - 52) \<or> unit_last_place x = 2 powi (- 1074)"
    unfolding unit_last_place_def max_def by (cases "exponent x - 52 \<le> - 1074") (simp_all only: if_True if_False simp_thms)
  ultimately show ?thesis by linarith
qed

lemma dbl_near:
  assumes "0 \<le> x"
  shows "\<bar>dbl x - x\<bar> \<le> (x / 2 ^ 52 + 2 powi (- 1074)) / 2"
proof (cases "x = 0")
  case True
  have "(0 :: rat) \<le> 2 powi (- 1074)" using powi_pos by (rule less_imp_le)
  with True show ?thesis by (simp only: dbl_zero) simp
next
  case False
  with assms have x: "0 < x" by simp
  let ?u = "unit_last_place x"
  have u: "0 < ?u" unfolding unit_last_place_def by (rule powi_pos)
  have "dbl x - x = (of_int (round_even (x / ?u)) - x / ?u) * ?u"
    using x u by (simp add: dbl_def left_diff_distrib)
  then have "\<bar>dbl x - x\<bar> = \<bar>of_int (round_even (x / ?u)) - x / ?u\<bar> * ?u"
    using u by (simp add: abs_mult)
  also have "\<dots> \<le> 1 / 2 * ?u" using round_even_near u by (intro mult_right_mono) auto
  also have "\<dots> \<le> 1 / 2 * (x / 2 ^ 52 + 2 powi (- 1074))"
    using unit_le [OF x] by (intro mult_left_mono) simp_all
  finally show ?thesis by simp
qed

lemma powi_52: "(2 :: rat) powi (- 52) = 1 / 2 ^ 52"
  by (simp only: power_int_minus powi_nat nat_numeral inverse_eq_divide zero_le_numeral)

lemma smallest_double: "(2 :: rat) powi (- 1074) \<le> 1 / 2 ^ 52"
proof -
  have "(- 1074 :: int) \<le> - 52" by simp
  from powi_mono [OF this] show ?thesis unfolding powi_52 .
qed

text \<open>The error bound the users of this theory need.\<close>

lemma dbl_close:
  assumes "0 \<le> x"
  shows "\<bar>dbl x - x\<bar> \<le> (x + 1) / 2 ^ 53"
proof -
  have "(x / 2 ^ 52 + 2 powi (- 1074)) / 2 \<le> (x / 2 ^ 52 + 1 / 2 ^ 52) / 2"
    by (intro divide_right_mono add_left_mono smallest_double) simp
  also have "\<dots> = (x + 1) / 2 ^ 53" by (simp add: field_simps)
  finally show ?thesis using dbl_near [OF assms] by linarith
qed

lemma dbl_nonneg: "0 \<le> dbl x"
proof (cases "x \<le> 0")
  case False
  let ?u = "unit_last_place x"
  have u: "0 < ?u" unfolding unit_last_place_def by (rule powi_pos)
  have "- 1 < round_even (x / ?u)"
  proof -
    have "0 < x / ?u" using False u by simp
    with round_even_near [of "x / ?u"] have "- 1 < (of_int (round_even (x / ?u)) :: rat)" by linarith
    then show ?thesis by linarith
  qed
  with False u show ?thesis by (simp add: dbl_def)
qed (simp add: dbl_def)

lemma hundredths_near: "\<bar>of_int (hundredths x) - 100 * x\<bar> \<le> 1 / 2"
  unfolding hundredths_def by linarith

end
