(* ===== verification/Sdk_Offramp.thy ===== *)
theory Sdk_Offramp
  imports Js_Number Js_Base64 Sdk_Encoding
begin

text \<open>
  The off-ramp and on-ramp helpers (\<open>sdk/src/offramp.ts\<close>): widget URLs of four providers, the MoonPay URL
  signature, the comparison of the providers, and the deposit memo.  Texts are their UTF-8 bytes.  The URL
  object is what the code uses of it: an origin and the list of search parameters; HMAC-SHA256 is a parameter.
\<close>

section \<open>Search parameters\<close>

definition is_alnum :: "char \<Rightarrow> bool" where
  "is_alnum c =
     (let n = of_char c :: nat in (48 \<le> n \<and> n \<le> 57) \<or> (65 \<le> n \<and> n \<le> 90) \<or> (97 \<le> n \<and> n \<le> 122))"

definition upper_hex_char :: "nat \<Rightarrow> char" where
  "upper_hex_char d = char_of (if d < 10 then 48 + d else 55 + d)"

definition percent_byte :: "char \<Rightarrow> string" where
  "percent_byte c = [CHR ''%'', upper_hex_char (of_char c div 16), upper_hex_char (of_char c mod 16)]"

text \<open>The serializer of \<open>URLSearchParams\<close>, and \<open>encodeURIComponent\<close>.\<close>

definition form_byte :: "char \<Rightarrow> string" where
  "form_byte c =
     (if is_alnum c \<or> c \<in> set ''*-._'' then [c] else if c = CHR '' '' then ''+'' else percent_byte c)"

definition form_encode :: "string \<Rightarrow> string" where
  "form_encode s = concat (map form_byte s)"

definition component_byte :: "char \<Rightarrow> string" where
  "component_byte c = (if is_alnum c \<or> c \<in> set ''-_.!~*()'' \<or> c = CHR 0x27 then [c] else percent_byte c)"

definition encodeURIComponent :: "string \<Rightarrow> string" where
  "encodeURIComponent s = concat (map component_byte s)"

abbreviation join_amp :: "string list \<Rightarrow> string" where
  "join_amp \<equiv> join_with ''&''"

definition form_serialize :: "(string \<times> string) list \<Rightarrow> string" where
  "form_serialize ps = join_amp (map (\<lambda>(k, v). form_encode k @ ''='' @ form_encode v) ps)"

text \<open>The parser a provider reads the query with.\<close>

fun form_decode :: "string \<Rightarrow> string" where
  "form_decode [] = []"
| "form_decode (c # s) =
     (if c = CHR ''+'' then CHR '' '' # form_decode s
      else if c = CHR ''%'' then
        (case s of
           a # b # s' \<Rightarrow>
             (case (hex_val a, hex_val b) of
                (Some x, Some y) \<Rightarrow> char_of (16 * x + y) # form_decode (drop 2 s)
              | _ \<Rightarrow> c # form_decode s)
         | _ \<Rightarrow> c # form_decode s)
      else c # form_decode s)"

definition form_pair :: "string \<Rightarrow> string \<times> string" where
  "form_pair piece =
     (form_decode (takeWhile (\<lambda>c. c \<noteq> CHR ''='') piece), form_decode (tl (dropWhile (\<lambda>c. c \<noteq> CHR ''='') piece)))"

definition form_parse :: "string \<Rightarrow> (string \<times> string) list" where
  "form_parse q = map form_pair (filter (\<lambda>p. p \<noteq> []) (split_on CHR ''&'' q))"

record widget_url =
  wu_origin :: string
  wu_params :: "(string \<times> string) list"

definition new_url :: "string \<Rightarrow> widget_url" where
  "new_url origin = \<lparr>wu_origin = origin, wu_params = []\<rparr>"

text \<open>\<open>url.searchParams.set(name, value)\<close>: the first parameter of that name is replaced, the others dropped.\<close>

fun params_set :: "string \<Rightarrow> string \<Rightarrow> (string \<times> string) list \<Rightarrow> (string \<times> string) list" where
  "params_set k v [] = [(k, v)]"
| "params_set k v ((k', v') # ps) =
     (if k' = k then (k, v) # filter (\<lambda>p. fst p \<noteq> k) ps else (k', v') # params_set k v ps)"

definition set_param :: "string \<Rightarrow> string \<Rightarrow> widget_url \<Rightarrow> widget_url" where
  "set_param k v u = u\<lparr>wu_params := params_set k v (wu_params u)\<rparr>"

definition url_text :: "widget_url \<Rightarrow> string" where
  "url_text u = wu_origin u @ ''/'' @ (if wu_params u = [] then [] else ''?'' @ form_serialize (wu_params u))"

text \<open>A builder: the origin, then the parameters in the order they are set.\<close>

definition build_url :: "string \<Rightarrow> (string \<times> string) list \<Rightarrow> string" where
  "build_url origin ps = url_text (fold (\<lambda>(k, v). set_param k v) ps (new_url origin))"

section \<open>Configuration and parameters\<close>

record offramp_config =
  oc_moonpayApiKey :: "string option"
  oc_transakApiKey :: "string option"
  oc_rampApiKey :: "string option"
  oc_banxaApiKey :: "string option"
  oc_testMode :: "bool option"

record on_ramp_params =
  on_provider :: string
  on_amount :: string
  on_fiatCurrency :: string
  on_asset :: string
  on_cAddress :: string
  on_signer :: "(string \<Rightarrow> thrown + string) option"

record off_ramp_params =
  of_provider :: string
  of_amount :: string
  of_asset :: string
  of_fiatCurrency :: string
  of_gAddress :: string

definition test_mode :: "offramp_config \<Rightarrow> bool" where
  "test_mode cfg = (oc_testMode cfg = Some True)"

text \<open>\<open>key || ''\<close>, and the parameter that is set only when the key is not empty.\<close>

definition key_text :: "string option \<Rightarrow> string" where
  "key_text k = or_else k []"

definition key_param :: "string \<Rightarrow> string option \<Rightarrow> (string \<times> string) list" where
  "key_param name k = (if key_text k = [] then [] else [(name, key_text k)])"

section \<open>Widget URLs\<close>

definition getMoonpayOnRampUrl :: "offramp_config \<Rightarrow> on_ramp_params \<Rightarrow> string" where
  "getMoonpayOnRampUrl cfg p =
     build_url (if test_mode cfg then ''https://buy-staging.moonpay.com'' else ''https://buy.moonpay.com'')
       [(''apiKey'', key_text (oc_moonpayApiKey cfg)), (''currencyCode'', on_asset p),
        (''baseCurrencyAmount'', on_amount p), (''baseCurrencyCode'', on_fiatCurrency p),
        (''walletAddress'', on_cAddress p), (''showWalletAddressForm'', ''false'')]"

definition getMoonpayOffRampUrl :: "offramp_config \<Rightarrow> off_ramp_params \<Rightarrow> string" where
  "getMoonpayOffRampUrl cfg p =
     build_url (if test_mode cfg then ''https://sell-staging.moonpay.com'' else ''https://sell.moonpay.com'')
       [(''apiKey'', key_text (oc_moonpayApiKey cfg)), (''cryptoCurrencyCode'', of_asset p),
        (''baseCurrencyCode'', of_fiatCurrency p), (''walletAddress'', of_gAddress p),
        (''refundWalletAddress'', of_gAddress p)]"

definition getTransakOnRampUrl :: "offramp_config \<Rightarrow> on_ramp_params \<Rightarrow> string" where
  "getTransakOnRampUrl cfg p =
     build_url (if test_mode cfg then ''https://global-staging.transak.com'' else ''https://global.transak.com'')
       [(''apiKey'', key_text (oc_transakApiKey cfg)), (''defaultCryptoCurrency'', on_asset p),
        (''walletAddress'', on_cAddress p), (''defaultFiatAmount'', on_amount p),
        (''fiatCurrency'', on_fiatCurrency p), (''network'', ''stellar'')]"

definition getTransakOffRampUrl :: "offramp_config \<Rightarrow> off_ramp_params \<Rightarrow> string" where
  "getTransakOffRampUrl cfg p =
     build_url (if test_mode cfg then ''https://global-staging.transak.com'' else ''https://global.transak.com'')
       [(''apiKey'', key_text (oc_transakApiKey cfg)), (''defaultCryptoCurrency'', of_asset p),
        (''walletAddress'', of_gAddress p), (''fiatCurrency'', of_fiatCurrency p), (''network'', ''stellar''),
        (''isSellMode'', ''true'')]"

definition getRampOnRampUrl :: "offramp_config \<Rightarrow> on_ramp_params \<Rightarrow> string" where
  "getRampOnRampUrl cfg p =
     build_url ''https://buy.ramp.network''
       ([(''userAddress'', on_cAddress p), (''assetCode'', on_asset p @ ''_stellar''),
         (''fiatCurrency'', on_fiatCurrency p), (''fiatAmount'', on_amount p)]
        @ key_param ''hostApiKey'' (oc_rampApiKey cfg))"

definition getRampOffRampUrl :: "offramp_config \<Rightarrow> off_ramp_params \<Rightarrow> string" where
  "getRampOffRampUrl cfg p =
     build_url ''https://sell.ramp.network''
       ([(''userAddress'', of_gAddress p), (''assetCode'', of_asset p @ ''_stellar''),
         (''fiatCurrency'', of_fiatCurrency p)]
        @ key_param ''hostApiKey'' (oc_rampApiKey cfg))"

definition getBanxaOnRampUrl :: "offramp_config \<Rightarrow> on_ramp_params \<Rightarrow> string" where
  "getBanxaOnRampUrl cfg p =
     build_url ''https://app.banxa.com''
       ([(''walletAddress'', on_cAddress p), (''blockchain'', ''stellar''), (''cryptoCurrency'', on_asset p),
         (''fiatType'', on_fiatCurrency p), (''fiatAmount'', on_amount p)]
        @ key_param ''apiKey'' (oc_banxaApiKey cfg))"

definition getBanxaOffRampUrl :: "offramp_config \<Rightarrow> off_ramp_params \<Rightarrow> string" where
  "getBanxaOffRampUrl cfg p =
     build_url ''https://app.banxa.com''
       ([(''walletAddress'', of_gAddress p), (''blockchain'', ''stellar''), (''cryptoCurrency'', of_asset p),
         (''fiatType'', of_fiatCurrency p), (''isSellMode'', ''true'')]
        @ key_param ''apiKey'' (oc_banxaApiKey cfg))"

definition getOnRampUrl :: "stellar \<Rightarrow> offramp_config \<Rightarrow> on_ramp_params \<Rightarrow> thrown + string" where
  "getOnRampUrl st cfg p =
     bind_sum (assertContractAddress st (on_cAddress p) ''cAddress'') (\<lambda>_.
     bind_sum
       (if on_provider p = ''moonpay'' then Inr (getMoonpayOnRampUrl cfg p)
        else if on_provider p = ''transak'' then Inr (getTransakOnRampUrl cfg p)
        else if on_provider p = ''ramp'' then Inr (getRampOnRampUrl cfg p)
        else if on_provider p = ''banxa'' then Inr (getBanxaOnRampUrl cfg p)
        else Inl (error_of (''Unsupported provider: '' @ on_provider p)))
       (\<lambda>url. case on_signer p of None \<Rightarrow> Inr url | Some sign \<Rightarrow> sign url))"

definition getOffRampUrl :: "stellar \<Rightarrow> offramp_config \<Rightarrow> off_ramp_params \<Rightarrow> thrown + string" where
  "getOffRampUrl st cfg p =
     bind_sum (assertAccountAddress st (of_gAddress p) ''gAddress'') (\<lambda>_.
       if of_provider p = ''moonpay'' then Inr (getMoonpayOffRampUrl cfg p)
       else if of_provider p = ''transak'' then Inr (getTransakOffRampUrl cfg p)
       else if of_provider p = ''ramp'' then Inr (getRampOffRampUrl cfg p)
       else if of_provider p = ''banxa'' then Inr (getBanxaOffRampUrl cfg p)
       else Inl (error_of (''Unsupported provider: '' @ of_provider p)))"

text \<open>The deprecated builders check nothing.\<close>

definition text_or :: "string option \<Rightarrow> string \<Rightarrow> string" where
  "text_or x d = (if key_text x = [] then d else key_text x)"

definition getMoonpayUrl :: "offramp_config \<Rightarrow> string \<Rightarrow> string \<Rightarrow> string \<Rightarrow> string option \<Rightarrow> string" where
  "getMoonpayUrl cfg targetCAddress amount currency assetCode =
     getMoonpayOnRampUrl cfg \<lparr>on_provider = ''moonpay'', on_amount = amount, on_fiatCurrency = currency,
       on_asset = text_or assetCode ''XLM'', on_cAddress = targetCAddress, on_signer = None\<rparr>"

definition getTransakUrl :: "offramp_config \<Rightarrow> string \<Rightarrow> string \<Rightarrow> string \<Rightarrow> string option \<Rightarrow> string" where
  "getTransakUrl cfg targetCAddress amount currency fiatCurrency =
     getTransakOnRampUrl cfg \<lparr>on_provider = ''transak'', on_amount = amount,
       on_fiatCurrency = text_or fiatCurrency ''USD'', on_asset = text_or (Some currency) ''XLM'',
       on_cAddress = targetCAddress, on_signer = None\<rparr>"

text \<open>\<open>signUrl\<close>: the signature covers the query.\<close>

definition query_of :: "string \<Rightarrow> string option" where
  "query_of url = (case dropWhile (\<lambda>c. c \<noteq> CHR ''?'') url of [] \<Rightarrow> None | _ # q \<Rightarrow> Some q)"

definition signUrl :: "(string \<Rightarrow> string \<Rightarrow> byte list) \<Rightarrow> string \<Rightarrow> string \<Rightarrow> string" where
  "signUrl hmac url secretKey =
     (let query = or_else (query_of url) []; signature = base64_encode (hmac secretKey query) in
      url @ (if query_of url = None then ''?'' else ''&'') @ ''signature='' @ encodeURIComponent signature)"

section \<open>Comparing the providers\<close>

record provider_config =
  pc_provider :: string
  pc_supportedAssets :: "string list"
  pc_supportedFiatCurrencies :: "string list"
  pc_supportedCountries :: "string list"
  pc_minAmount :: string
  pc_maxAmount :: string
  pc_feePercentage :: string
  pc_testModeAvailable :: bool

definition provider_configs :: "(string \<times> provider_config) list" where
  "provider_configs =
     [(''moonpay'',
       \<lparr>pc_provider = ''moonpay'', pc_supportedAssets = [''XLM'', ''USDC'', ''ETH'', ''BTC''],
        pc_supportedFiatCurrencies = [''USD'', ''EUR'', ''GBP'', ''AUD'', ''CAD'', ''CHF'', ''SGD'', ''HKD'', ''JPY''],
        pc_supportedCountries = [''US'', ''GB'', ''DE'', ''FR'', ''IT'', ''ES'', ''NL'', ''BE'', ''AT'', ''CH'',
          ''SE'', ''NO'', ''DK'', ''FI'', ''PL'', ''AU'', ''NZ'', ''CA'', ''SG'', ''HK'', ''JP'', ''KR'', ''BR'', ''MX''],
        pc_minAmount = ''20'', pc_maxAmount = ''50000'', pc_feePercentage = ''4.5'', pc_testModeAvailable = True\<rparr>),
      (''transak'',
       \<lparr>pc_provider = ''transak'', pc_supportedAssets = [''XLM'', ''USDC'', ''ETH'', ''BTC'', ''MATIC'', ''SOL''],
        pc_supportedFiatCurrencies = [''USD'', ''EUR'', ''GBP'', ''AUD'', ''CAD'', ''INR'', ''MXN'', ''BRL''],
        pc_supportedCountries = [''US'', ''GB'', ''DE'', ''FR'', ''IT'', ''ES'', ''NL'', ''AT'', ''CH'', ''SE'',
          ''AU'', ''CA'', ''IN'', ''MX'', ''BR'', ''SG'', ''HK'', ''AE'', ''SA''],
        pc_minAmount = ''25'', pc_maxAmount = ''100000'', pc_feePercentage = ''3.9'', pc_testModeAvailable = True\<rparr>),
      (''ramp'',
       \<lparr>pc_provider = ''ramp'', pc_supportedAssets = [''XLM'', ''USDC'', ''ETH'', ''BTC'', ''DAI'', ''USDT''],
        pc_supportedFiatCurrencies = [''USD'', ''EUR'', ''GBP'', ''SEK'', ''NOK'', ''DKK'', ''CHF'', ''PLN'', ''CZK''],
        pc_supportedCountries = [''US'', ''GB'', ''DE'', ''FR'', ''IT'', ''ES'', ''NL'', ''BE'', ''AT'', ''CH'',
          ''SE'', ''NO'', ''DK'', ''FI'', ''PL'', ''CZ'', ''SK'', ''HU'', ''RO''],
        pc_minAmount = ''15'', pc_maxAmount = ''20000'', pc_feePercentage = ''2.9'', pc_testModeAvailable = False\<rparr>),
      (''banxa'',
       \<lparr>pc_provider = ''banxa'', pc_supportedAssets = [''XLM'', ''USDC'', ''ETH'', ''BTC'', ''ADA'', ''DOGE''],
        pc_supportedFiatCurrencies = [''USD'', ''EUR'', ''GBP'', ''AUD'', ''CAD'', ''NZD'', ''SGD'', ''ZAR''],
        pc_supportedCountries = [''US'', ''GB'', ''DE'', ''FR'', ''AU'', ''NZ'', ''CA'', ''SG'', ''ZA'', ''NL'',
          ''BE'', ''AT'', ''IT'', ''ES'', ''IE''],
        pc_minAmount = ''10'', pc_maxAmount = ''75000'', pc_feePercentage = ''3.5'', pc_testModeAvailable = False\<rparr>)]"

definition getProviderConfig :: "string \<Rightarrow> provider_config option" where
  "getProviderConfig provider = map_of provider_configs provider"

record provider_comparison =
  cmp_feeAmount :: string
  cmp_feePercentage :: string
  cmp_netAmount :: string
  cmp_settlementTime :: nat

definition settlement_time :: "string \<Rightarrow> nat" where
  "settlement_time provider =
     (if provider = ''moonpay'' then 2 else if provider = ''transak'' then 3 else if provider = ''ramp'' then 1 else 4)"

text \<open>\<open>(amountNum * feePercentage) / 100\<close> and \<open>amountNum - feeAmount\<close>, rounded after every operation.\<close>

definition fee_of :: "rat \<Rightarrow> rat \<Rightarrow> rat" where
  "fee_of amount percentage = dbl (dbl (amount * percentage) / 100)"

definition net_of :: "rat \<Rightarrow> rat \<Rightarrow> rat" where
  "net_of amount percentage = dbl (amount - fee_of amount percentage)"

definition compare_one :: "rat \<Rightarrow> string \<Rightarrow> string \<Rightarrow> string \<Rightarrow> provider_comparison option" where
  "compare_one amountNum asset fiatCurrency provider =
     Option.bind (getProviderConfig provider) (\<lambda>config.
       if asset \<notin> set (pc_supportedAssets config) then None
       else if fiatCurrency \<notin> set (pc_supportedFiatCurrencies config) then None
       else if amountNum < parse_float (pc_minAmount config) \<or> amountNum > parse_float (pc_maxAmount config) then None
       else
         let percentage = parse_float (pc_feePercentage config) in
         Some \<lparr>cmp_feeAmount = to_fixed2 (fee_of amountNum percentage), cmp_feePercentage = pc_feePercentage config,
               cmp_netAmount = to_fixed2 (net_of amountNum percentage), cmp_settlementTime = settlement_time provider\<rparr>)"

definition providers :: "string list" where
  "providers = [''moonpay'', ''transak'', ''ramp'', ''banxa'']"

definition compareProviders :: "string \<Rightarrow> string \<Rightarrow> string option \<Rightarrow> thrown + (string \<times> provider_comparison) list" where
  "compareProviders amount asset fiatCurrency =
     (if \<not> is_decimal amount \<or> parse_float amount \<le> 0
      then Inl (error_of (''amount must be a well-formed positive numeric string, got: '' @ json_text amount))
      else Inr (List.map_filter
        (\<lambda>p. map_option (Pair p) (compare_one (parse_float amount) asset (or_else fiatCurrency ''USD'') p)) providers))"

section \<open>Deposit memos\<close>

definition generateCEXDepositMemo :: "string \<Rightarrow> string" where
  "generateCEXDepositMemo targetCAddress = ''bridge:'' @ targetCAddress"

definition decodeCEXDepositMemo :: "string \<Rightarrow> string option" where
  "decodeCEXDepositMemo memo = (if prefix ''bridge:'' memo then Some (drop 7 memo) else None)"

lemma memo_roundtrip: "decodeCEXDepositMemo memo = Some a \<longleftrightarrow> memo = generateCEXDepositMemo a"
  by (auto simp: decodeCEXDepositMemo_def generateCEXDepositMemo_def prefix_def)

section \<open>Reading a query back\<close>

lemma hex_val_upper [simp]: "d < 16 \<Longrightarrow> hex_val (upper_hex_char d) = Some d"
  by (auto simp: upper_hex_char_def hex_val_def Let_def)

lemma of_char_less: "(of_char c :: nat) < 256"
  by (metis nat_of_char_less_256)

lemma decode_percent_byte: "form_decode (percent_byte c @ r) = c # form_decode r"
proof -
  have "(of_char c :: nat) div 16 < 16" using of_char_less [of c] by simp
  moreover have "char_of (16 * (of_char c div 16) + of_char c mod 16 :: nat) = c" by simp
  ultimately show ?thesis by (simp add: percent_byte_def)
qed

lemma alnum_plain: "is_alnum c \<Longrightarrow> c \<noteq> CHR ''+'' \<and> c \<noteq> CHR ''%'' \<and> c \<noteq> CHR ''&'' \<and> c \<noteq> CHR ''='' \<and> c \<noteq> CHR ''?''"
  by (auto simp: is_alnum_def)

lemma decode_form_byte: "form_decode (form_byte c @ r) = c # form_decode r"
  using alnum_plain [of c] decode_percent_byte [of c r] by (auto simp: form_byte_def)

lemma decode_form_encode: "form_decode (form_encode s) = s"
proof -
  have "form_decode (form_encode s @ r) = s @ form_decode r" for r
    by (induction s) (simp_all add: form_encode_def decode_form_byte)
  from this [of "[]"] show ?thesis by simp
qed

lemma decode_component: "form_decode (encodeURIComponent s) = s"
proof -
  have "form_decode (component_byte c @ r) = c # form_decode r" for c r
    using alnum_plain [of c] decode_percent_byte [of c r] by (auto simp: component_byte_def)
  then have "form_decode (encodeURIComponent s @ r) = s @ form_decode r" for r
    by (induction s) (simp_all add: encodeURIComponent_def)
  from this [of "[]"] show ?thesis by simp
qed

lemma upper_hex_plain: "d < 16 \<Longrightarrow> upper_hex_char d \<noteq> CHR ''&'' \<and> upper_hex_char d \<noteq> CHR ''='' \<and> upper_hex_char d \<noteq> CHR ''?''"
  using hex_val_upper [of d] by (auto simp: hex_val_def)

definition form_plain :: "string \<Rightarrow> bool" where
  "form_plain s = list_all (\<lambda>c. c \<noteq> CHR ''&'' \<and> c \<noteq> CHR ''='' \<and> c \<noteq> CHR ''?'') s"

lemma plain_bytes: "form_plain (percent_byte c)" "form_plain (form_byte c)" "form_plain (component_byte c)"
proof -
  have "(of_char c :: nat) div 16 < 16" "(of_char c :: nat) mod 16 < 16" using of_char_less [of c] by simp_all
  then show percent: "form_plain (percent_byte c)" by (simp add: percent_byte_def form_plain_def upper_hex_plain)
  from percent show "form_plain (form_byte c)" "form_plain (component_byte c)"
    using alnum_plain [of c] by (auto simp: form_byte_def component_byte_def form_plain_def)
qed

lemma plain_concat: "(\<And>c. form_plain (f c)) \<Longrightarrow> form_plain (concat (map f s))"
  by (induction s) (simp_all add: form_plain_def)

lemma plain_texts [simp]: "form_plain (form_encode s)" "form_plain (encodeURIComponent s)"
  by (simp_all add: form_encode_def encodeURIComponent_def plain_concat plain_bytes)

lemma plain_not_in: "form_plain s \<Longrightarrow> CHR ''&'' \<notin> set s \<and> CHR ''='' \<notin> set s \<and> CHR ''?'' \<notin> set s"
  by (auto simp: form_plain_def list_all_iff)

definition piece :: "string \<times> string \<Rightarrow> string" where
  "piece p = form_encode (fst p) @ ''='' @ form_encode (snd p)"

lemma form_pair_piece:
  assumes "form_plain k" "form_plain v" "form_decode k = a" "form_decode v = b"
  shows "form_pair (k @ ''='' @ v) = (a, b)"
proof -
  have "takeWhile (\<lambda>c. c \<noteq> CHR ''='') (k @ ''='' @ v) = k" "dropWhile (\<lambda>c. c \<noteq> CHR ''='') (k @ ''='' @ v) = ''='' @ v"
    using plain_not_in [OF assms(1)] by (auto simp: takeWhile_append dropWhile_append)
  with assms show ?thesis by (simp add: form_pair_def)
qed

lemma parse_pieces:
  assumes "list_all2 (\<lambda>s p. form_pair s = p \<and> s \<noteq> [] \<and> CHR ''&'' \<notin> set s) ss ps" "ss \<noteq> []"
  shows "form_parse (join_amp ss) = ps"
proof -
  have "\<forall>s \<in> set ss. CHR ''&'' \<notin> set s" "filter (\<lambda>p. p \<noteq> []) ss = ss" "map form_pair ss = ps"
    using assms(1) by (induction rule: list_all2_induct) auto
  with assms(2) show ?thesis by (simp add: form_parse_def split_join_with [of _ "CHR ''&''"])
qed

lemma parse_serialize_append:
  assumes "form_plain k" "form_plain v" "k \<noteq> []"
  shows "form_parse (join_amp (map piece ps @ [k @ ''='' @ v])) = ps @ [(form_decode k, form_decode v)]"
proof (rule parse_pieces)
  have "list_all2 (\<lambda>s p. form_pair s = p \<and> s \<noteq> [] \<and> CHR ''&'' \<notin> set s) (map piece ps) ps"
    using plain_not_in by (induction ps) (auto simp: piece_def form_pair_piece [simplified] decode_form_encode)
  moreover have "form_pair (k @ ''='' @ v) = (form_decode k, form_decode v)" using assms by (intro form_pair_piece) auto
  ultimately show "list_all2 (\<lambda>s p. form_pair s = p \<and> s \<noteq> [] \<and> CHR ''&'' \<notin> set s) (map piece ps @ [k @ ''='' @ v])
      (ps @ [(form_decode k, form_decode v)])"
    using plain_not_in assms by (auto intro!: list_all2_appendI)
qed simp

lemma form_serialize_pieces: "form_serialize ps = join_amp (map piece ps)"
  by (simp add: form_serialize_def piece_def [abs_def] case_prod_unfold)

lemma form_parse_serialize:
  assumes "ps \<noteq> []"
  shows "form_parse (form_serialize ps) = ps"
  unfolding form_serialize_pieces
proof (rule parse_pieces)
  show "list_all2 (\<lambda>s p. form_pair s = p \<and> s \<noteq> [] \<and> CHR ''&'' \<notin> set s) (map piece ps) ps"
    using plain_not_in by (induction ps) (auto simp: piece_def form_pair_piece [simplified] decode_form_encode)
qed (use assms in simp)

lemma form_parse_pieces: "ps \<noteq> [] \<Longrightarrow> form_parse (join_amp (map piece ps)) = ps"
  using form_parse_serialize by (simp add: form_serialize_pieces)

lemma params_set_new: "k \<notin> fst ` set ps \<Longrightarrow> params_set k v ps = ps @ [(k, v)]"
  by (induction ps) auto

lemma fold_set_param:
  "distinct (map fst (wu_params u @ ps)) \<Longrightarrow>
     fold (\<lambda>(k, v). set_param k v) ps u = u\<lparr>wu_params := wu_params u @ ps\<rparr>"
proof (induction ps arbitrary: u)
  case (Cons p ps)
  obtain k v where p: "p = (k, v)" by force
  with Cons.prems have "set_param k v u = u\<lparr>wu_params := wu_params u @ [(k, v)]\<rparr>"
    by (auto simp: set_param_def params_set_new)
  with Cons p show ?case by simp
qed simp

lemma build_url_text:
  "distinct (map fst ps) \<Longrightarrow> ps \<noteq> [] \<Longrightarrow> build_url host ps = host @ ''/?'' @ form_serialize ps"
  by (simp add: build_url_def new_url_def fold_set_param url_text_def)

section \<open>What the widgets read\<close>

text \<open>The names the providers give the destination, the amount, the asset and the currency.\<close>

definition address_name :: "string \<Rightarrow> string" where
  "address_name provider = (if provider = ''ramp'' then ''userAddress'' else ''walletAddress'')"

definition amount_name :: "string \<Rightarrow> string" where
  "amount_name provider =
     (if provider = ''moonpay'' then ''baseCurrencyAmount'' else if provider = ''transak'' then ''defaultFiatAmount''
      else ''fiatAmount'')"

definition fiat_name :: "string \<Rightarrow> string" where
  "fiat_name provider =
     (if provider = ''moonpay'' then ''baseCurrencyCode'' else if provider = ''banxa'' then ''fiatType'' else ''fiatCurrency'')"

text \<open>The builders with their lists of parameters.\<close>

lemma on_ramp_shape:
  assumes "getOnRampUrl st cfg (p\<lparr>on_signer := None\<rparr>) = Inr url"
  shows "st_is_contract st (on_cAddress p) \<and> on_provider p \<in> set providers
    \<and> (\<exists>host ps. url = build_url host ps \<and> CHR ''?'' \<notin> set host \<and> distinct (map fst ps) \<and> ps \<noteq> []
         \<and> map_of ps (address_name (on_provider p)) = Some (on_cAddress p)
         \<and> map_of ps (amount_name (on_provider p)) = Some (on_amount p)
         \<and> map_of ps (fiat_name (on_provider p)) = Some (on_fiatCurrency p))"
proof -
  have contract: "st_is_contract st (on_cAddress p)"
    using assms by (auto simp: getOnRampUrl_def bind_sum_eq_Inr assertContractAddress_def require_def split: if_splits)
  from assms consider
      (moonpay) "on_provider p = ''moonpay''" "url = getMoonpayOnRampUrl cfg (p\<lparr>on_signer := None\<rparr>)"
    | (transak) "on_provider p = ''transak''" "url = getTransakOnRampUrl cfg (p\<lparr>on_signer := None\<rparr>)"
    | (ramp) "on_provider p = ''ramp''" "url = getRampOnRampUrl cfg (p\<lparr>on_signer := None\<rparr>)"
    | (banxa) "on_provider p = ''banxa''" "url = getBanxaOnRampUrl cfg (p\<lparr>on_signer := None\<rparr>)"
    by (auto simp: getOnRampUrl_def bind_sum_eq_Inr split: if_splits)
  then show ?thesis
  proof cases
    case moonpay
    show ?thesis unfolding moonpay(2) getMoonpayOnRampUrl_def
      by (rule conjI [OF contract], rule conjI, simp add: moonpay(1) providers_def, rule exI, rule exI, rule conjI, rule refl)
        (simp add: moonpay(1) address_name_def amount_name_def fiat_name_def)
  next
    case transak
    show ?thesis unfolding transak(2) getTransakOnRampUrl_def
      by (rule conjI [OF contract], rule conjI, simp add: transak(1) providers_def, rule exI, rule exI, rule conjI, rule refl)
        (simp add: transak(1) address_name_def amount_name_def fiat_name_def)
  next
    case ramp
    show ?thesis unfolding ramp(2) getRampOnRampUrl_def
      by (rule conjI [OF contract], rule conjI, simp add: ramp(1) providers_def, rule exI, rule exI, rule conjI, rule refl)
        (simp add: ramp(1) address_name_def amount_name_def fiat_name_def key_param_def)
  next
    case banxa
    show ?thesis unfolding banxa(2) getBanxaOnRampUrl_def
      by (rule conjI [OF contract], rule conjI, simp add: banxa(1) providers_def, rule exI, rule exI, rule conjI, rule refl)
        (simp add: banxa(1) address_name_def amount_name_def fiat_name_def key_param_def)
  qed
qed

lemma query_of_url: "CHR ''?'' \<notin> set host \<Longrightarrow> query_of (host @ ''/?'' @ q) = Some q"
  by (simp add: query_of_def dropWhile_append2 dropWhile_append)

text \<open>The off-ramp URLs do not depend on the amount to sell.\<close>

lemma off_ramp_ignores_amount: "getOffRampUrl st cfg (p\<lparr>of_amount := a\<rparr>) = getOffRampUrl st cfg p"
  by (simp add: getOffRampUrl_def getMoonpayOffRampUrl_def getTransakOffRampUrl_def getRampOffRampUrl_def getBanxaOffRampUrl_def)

section \<open>What is quoted\<close>

lemma split_dot_digits:
  assumes "matches_digits a" "matches_digits b"
  shows "split_on CHR ''.'' (a @ ''.'' @ b) = [a, b]" "split_on CHR ''.'' a = [a]"
proof -
  have "CHR ''.'' \<notin> set a" "CHR ''.'' \<notin> set b"
    using assms by (auto simp: matches_digits_def list_all_iff is_dec_def)
  then show "split_on CHR ''.'' (a @ ''.'' @ b) = [a, b]" "split_on CHR ''.'' a = [a]"
    by (simp_all add: split_on_append_sep split_on_no_sep)
qed

lemma pad2_digits:
  assumes "n < 100"
  shows "matches_digits (pad2 n) \<and> length (pad2 n) = 2 \<and> num_of_string 10 (pad2 n) = n"
proof (cases "n < 10")
  case True
  then have "pad2 n = [CHR ''0'', hex_char n]" by (simp add: pad2_def string_of_num_def to_digits.simps [of 10 n])
  with True show ?thesis
    by (simp add: matches_digits_def num_of_string_def digit_vals_def from_digits_def) (simp add: is_dec_def hex_val_def)
next
  case False
  with assms have "length (to_digits 10 n) = 2"
    by (simp add: to_digits.simps [of 10 n] to_digits.simps [of 10 "n div 10"])
  with False show ?thesis by (simp add: pad2_def) (simp add: string_of_num_def)
qed

lemma to_fixed2_value:
  assumes "0 \<le> x"
  shows "decimal_value (to_fixed2 x) = of_int (hundredths x) / 100"
proof -
  let ?n = "nat (hundredths x)"
  have "0 \<le> hundredths x" using assms by (simp add: hundredths_def)
  have "decimal_value (to_fixed2 x) = of_nat (?n div 100) + of_nat (?n mod 100) / 100"
    using pad2_digits [of "?n mod 100"]
    by (simp add: to_fixed2_def Let_def decimal_value_def split_dot_digits(1) [simplified] del: of_nat_div of_nat_mod)
  also have "\<dots> = of_nat ?n / 100"
  proof -
    have "(of_nat ?n :: rat) = of_nat (?n div 100 * 100 + ?n mod 100)" by (simp only: div_mult_mod_eq)
    then show ?thesis by (simp only: of_nat_add of_nat_mult of_nat_numeral) simp
  qed
  also have "(of_nat ?n :: rat) = of_int (hundredths x)" using \<open>0 \<le> hundredths x\<close> by simp
  finally show ?thesis .
qed

lemma fixed_near: "0 \<le> x \<Longrightarrow> \<bar>decimal_value (to_fixed2 x) - x\<bar> \<le> 1 / 200"
  unfolding to_fixed2_value using hundredths_near [of x] by linarith

text \<open>The limits and percentages of the table.\<close>

lemma table_values:
  "decimal_value ''20'' = 20" "decimal_value ''50000'' = 50000" "decimal_value ''4.5'' = 9 / 2"
  "decimal_value ''25'' = 25" "decimal_value ''100000'' = 100000" "decimal_value ''3.9'' = 39 / 10"
  "decimal_value ''15'' = 15" "decimal_value ''20000'' = 20000" "decimal_value ''2.9'' = 29 / 10"
  "decimal_value ''10'' = 10" "decimal_value ''75000'' = 75000" "decimal_value ''3.5'' = 7 / 2"
  by (simp_all add: decimal_value_def num_of_string_def digit_vals_def hex_val_def from_digits_def)

lemma config_values:
  assumes "getProviderConfig provider = Some c"
  shows "0 \<le> decimal_value (pc_feePercentage c) \<and> decimal_value (pc_feePercentage c) \<le> 5
    \<and> decimal_value (pc_maxAmount c) \<le> 100000 \<and> 0 \<le> decimal_value (pc_maxAmount c)
    \<and> 10 \<le> decimal_value (pc_minAmount c) \<and> provider \<in> set providers"
proof -
  from assms consider (moonpay) "provider = ''moonpay''" | (transak) "provider = ''transak''"
    | (ramp) "provider = ''ramp''" | (banxa) "provider = ''banxa''"
    by (auto simp: getProviderConfig_def provider_configs_def split: if_splits)
  then show ?thesis
    using assms by cases (auto simp: getProviderConfig_def provider_configs_def table_values providers_def)
qed

lemma rounded_le:
  assumes "0 \<le> x" "x \<le> b"
  shows "dbl x \<le> b + (b + 1) / 2 ^ 53"
proof -
  have "(x + 1) / 2 ^ 53 \<le> (b + 1) / 2 ^ 53" using assms(2) by (simp add: divide_right_mono)
  with dbl_close [OF assms(1)] assms(2) show ?thesis by linarith
qed

text \<open>The arithmetic: two roundings for the fee, one for the net amount.\<close>

lemma fee_close:
  assumes "0 \<le> a" "a \<le> 100001" "0 \<le> q" "q \<le> 6"
  shows "\<bar>fee_of a q - a * q / 100\<bar> \<le> 1 / 1000000 \<and> 0 \<le> fee_of a q"
proof -
  have aq: "0 \<le> a * q" "a * q \<le> 600006"
    using assms mult_mono [of a 100001 q 6] by simp_all
  let ?m = "dbl (a * q)"
  have "(a * q + 1) / 2 ^ 53 \<le> 600007 / 2 ^ 53" using aq(2) by (intro divide_right_mono) simp_all
  with dbl_close [OF aq(1)] have m: "\<bar>?m - a * q\<bar> \<le> 600007 / 2 ^ 53" by (rule order.trans)
  have "0 \<le> ?m" by (rule dbl_nonneg)
  then have f: "\<bar>dbl (?m / 100) - ?m / 100\<bar> \<le> (?m / 100 + 1) / 2 ^ 53" by (intro dbl_close) simp
  have "\<bar>x - a * q / 100\<bar> \<le> 1 / 1000000" if "\<bar>x - y / 100\<bar> \<le> (y / 100 + 1) / 2 ^ 53" "\<bar>y - a * q\<bar> \<le> 600007 / 2 ^ 53" for x y
  proof -
    have "(600007 :: rat) / 2 ^ 53 \<le> 1" by simp
    with that(2) aq(2) have "y \<le> 600007" unfolding abs_le_iff by linarith
    then have "(y / 100 + 1) / 2 ^ 53 \<le> 6002 / 2 ^ 53" by (intro divide_right_mono) simp_all
    moreover have "(6002 :: rat) / 2 ^ 53 \<le> 1 / 10000000" "(600007 :: rat) / 2 ^ 53 \<le> 1 / 10000000" by simp_all
    ultimately show ?thesis using that unfolding abs_le_iff by linarith
  qed
  from this [OF f m] show ?thesis by (simp only: fee_of_def dbl_nonneg simp_thms)
qed

lemma net_close:
  assumes "0 \<le> a" "a \<le> 100001" "0 \<le> f" "f \<le> a"
  shows "\<bar>dbl (a - f) - (a - f)\<bar> \<le> 1 / 1000000"
  using dbl_close [of "a - f"] assms by (simp add: abs_le_iff field_simps)

lemma fee_below:
  assumes "1 / 1000 \<le> a" "a \<le> 100001" "0 \<le> q" "q \<le> 6"
  shows "fee_of a q \<le> a"
proof -
  have "a * q \<le> a * 6" using assms by (intro mult_left_mono) auto
  with fee_close [of a q] assms show ?thesis unfolding abs_le_iff by linarith
qed

section \<open>Properties\<close>

text \<open>C33: An on-ramp URL is made only for a contract address and a supported provider, and the provider reads its
  query back as parameters of distinct names among which the destination, the amount and the fiat currency are
  the texts the caller gave, whatever characters they contain.\<close>

theorem on_ramp_url_reads_back:
  assumes "getOnRampUrl st cfg p = Inr url" "on_signer p = None"
  shows "st_is_contract st (on_cAddress p) \<and> on_provider p \<in> set providers
    \<and> (\<exists>q. query_of url = Some q \<and> distinct (map fst (form_parse q))
         \<and> map_of (form_parse q) (address_name (on_provider p)) = Some (on_cAddress p)
         \<and> map_of (form_parse q) (amount_name (on_provider p)) = Some (on_amount p)
         \<and> map_of (form_parse q) (fiat_name (on_provider p)) = Some (on_fiatCurrency p))"
proof -
  from assms have "getOnRampUrl st cfg (p\<lparr>on_signer := None\<rparr>) = Inr url" by (cases p) simp
  from on_ramp_shape [OF this] obtain host ps where shape: "url = build_url host ps" "CHR ''?'' \<notin> set host"
      "distinct (map fst ps)" "ps \<noteq> []"
    and named: "st_is_contract st (on_cAddress p)" "on_provider p \<in> set providers"
      "map_of ps (address_name (on_provider p)) = Some (on_cAddress p)"
      "map_of ps (amount_name (on_provider p)) = Some (on_amount p)"
      "map_of ps (fiat_name (on_provider p)) = Some (on_fiatCurrency p)"
    by blast
  from shape have "query_of url = Some (form_serialize ps)" by (metis build_url_text query_of_url)
  moreover have "form_parse (form_serialize ps) = ps" using shape(4) by (rule form_parse_serialize)
  ultimately show ?thesis using shape named by auto
qed

lemma signature_plain: "form_plain ''signature''"
  by (simp add: form_plain_def)

text \<open>Signing a widget URL leaves every parameter as it was and adds one, the signature of exactly the query
  the provider sees before it.\<close>

theorem signature_covers_query:
  assumes "getOnRampUrl st cfg (p\<lparr>on_signer := None\<rparr>) = Inr url"
  shows "getOnRampUrl st cfg (p\<lparr>on_signer := Some (\<lambda>u. Inr (signUrl hmac u key))\<rparr>) = Inr (signUrl hmac url key)
    \<and> (\<exists>q q'. query_of url = Some q \<and> query_of (signUrl hmac url key) = Some q'
         \<and> form_parse q' = form_parse q @ [(''signature'', base64_encode (hmac key q))])"
proof -
  from on_ramp_shape [OF assms] obtain host ps where shape: "url = build_url host ps" "CHR ''?'' \<notin> set host"
      "distinct (map fst ps)" "ps \<noteq> []"
    by blast
  let ?q = "form_serialize ps" let ?sig = "base64_encode (hmac key ?q)"
  have url: "url = host @ ''/?'' @ ?q" unfolding shape(1) by (rule build_url_text [OF shape(3,4)])
  then have q: "query_of url = Some ?q" by (simp only: query_of_url [OF shape(2)])
  have "signUrl hmac url key = host @ ''/?'' @ (?q @ ''&'' @ ''signature='' @ encodeURIComponent ?sig)"
    by (simp add: signUrl_def q or_else_def) (simp add: url)
  then have "query_of (signUrl hmac url key) = Some (?q @ ''&'' @ ''signature='' @ encodeURIComponent ?sig)"
    by (simp only: query_of_url [OF shape(2)])
  moreover have "form_parse (?q @ ''&'' @ ''signature='' @ encodeURIComponent ?sig) = form_parse ?q @ [(''signature'', ?sig)]"
    using parse_serialize_append [OF signature_plain plain_texts(2), of ps ?sig] shape(4)
    by (simp add: form_serialize_pieces join_with_snoc decode_component form_parse_pieces)
  moreover have "getOnRampUrl st cfg (p\<lparr>on_signer := Some (\<lambda>u. Inr (signUrl hmac u key))\<rparr>) = Inr (signUrl hmac url key)"
    using assms by (auto simp: getOnRampUrl_def bind_sum_eq_Inr getMoonpayOnRampUrl_def getTransakOnRampUrl_def
        getRampOnRampUrl_def getBanxaOnRampUrl_def split: if_splits)
  ultimately show ?thesis using q by blast
qed

text \<open>The quotes: what a listed provider is quoted with, against the exact amounts.\<close>

lemma decimal_value_nonneg [simp]: "0 \<le> decimal_value s"
  by (auto simp: decimal_value_def split: list.splits)

lemma dbl_near_decimal:
  assumes "0 \<le> x"
  shows "\<bar>dbl x - x\<bar> \<le> x / 10000000000000 + 1 / 10000000000000"
proof -
  have "(x + 1) / 2 ^ 53 \<le> (x + 1) / 10000000000000" using assms by (intro divide_left_mono) simp_all
  with dbl_close [OF assms] show ?thesis by (simp only: add_divide_distrib)
qed

lemma product_close:
  fixes a :: rat
  assumes "\<bar>a - x\<bar> \<le> e" "\<bar>q - y\<bar> \<le> d" "0 \<le> a" "a \<le> 100001" "0 \<le> y" "y \<le> 5"
  shows "\<bar>a * q - x * y\<bar> \<le> 100001 * d + 5 * e"
proof -
  have "0 \<le> d" "0 \<le> e" using assms(1,2) by linarith+
  have "a * q - x * y = a * (q - y) + (a - x) * y" by (simp add: algebra_simps)
  then have "\<bar>a * q - x * y\<bar> \<le> \<bar>a\<bar> * \<bar>q - y\<bar> + \<bar>a - x\<bar> * \<bar>y\<bar>"
    by (simp only: abs_mult [symmetric] abs_triangle_ineq)
  also have "\<dots> \<le> 100001 * d + e * 5"
    using assms \<open>0 \<le> d\<close> \<open>0 \<le> e\<close> by (intro add_mono mult_mono) auto
  finally show ?thesis by simp
qed

text \<open>What is left of the limits after they are read as numbers.\<close>

lemma amount_in_limits:
  assumes "getProviderConfig provider = Some c" "parse_float (pc_minAmount c) \<le> a" "a \<le> parse_float (pc_maxAmount c)"
  shows "1 \<le> a" "a \<le> 100001"
proof -
  note v = config_values [OF assms(1)]
  from dbl_near_decimal [OF decimal_value_nonneg [of "pc_minAmount c"]] v assms(2) show "1 \<le> a"
    unfolding parse_float_def abs_le_iff by linarith
  have "dbl (decimal_value (pc_maxAmount c)) \<le> 100000 + (100000 + 1) / 2 ^ 53" using v by (intro rounded_le) auto
  with assms(3) show "a \<le> 100001" by (simp add: parse_float_def)
qed

lemma quote_close:
  assumes c: "getProviderConfig provider = Some c"
    and a: "parse_float (pc_minAmount c) \<le> parse_float amount" "parse_float amount \<le> parse_float (pc_maxAmount c)"
  defines "q \<equiv> parse_float (pc_feePercentage c)"
  shows "\<bar>decimal_value (to_fixed2 (fee_of (parse_float amount) q)) - decimal_value amount * decimal_value (pc_feePercentage c) / 100\<bar>
      \<le> 51 / 10000"
    and "\<bar>decimal_value (to_fixed2 (fee_of (parse_float amount) q)) + decimal_value (to_fixed2 (net_of (parse_float amount) q))
      - decimal_value amount\<bar> \<le> 101 / 10000"
proof -
  let ?a = "parse_float amount" and ?x = "decimal_value amount" and ?y = "decimal_value (pc_feePercentage c)"
  note la = amount_in_limits [OF c a] and v = config_values [OF c]
  have ax: "\<bar>?a - ?x\<bar> \<le> 1 / 10000000"
  proof -
    have "\<bar>?a - ?x\<bar> \<le> ?x / 10000000000000 + 1 / 10000000000000" unfolding parse_float_def by (rule dbl_near_decimal) simp
    with la(2) show ?thesis unfolding abs_le_iff by linarith
  qed
  have qy: "\<bar>q - ?y\<bar> \<le> 6 / 2 ^ 53"
  proof -
    have bound: "(?y + 1) / 2 ^ 53 \<le> 6 / 2 ^ 53" using v by (intro divide_right_mono) auto
    show ?thesis unfolding q_def parse_float_def
      by (rule order.trans [OF dbl_close [OF decimal_value_nonneg] bound])
  qed
  have "0 \<le> q" by (simp add: q_def parse_float_def dbl_nonneg)
  moreover have "(6 :: rat) / 2 ^ 53 \<le> 1" by simp
  with qy v have "q \<le> 6" unfolding abs_le_iff by linarith
  ultimately have q: "0 \<le> q" "q \<le> 6" by simp_all
  let ?f = "fee_of ?a q"
  have fa: "\<bar>?f - ?a * q / 100\<bar> \<le> 1 / 1000000" "0 \<le> ?f" using fee_close [of ?a q] la q by simp_all
  have fle: "?f \<le> ?a" using la q by (intro fee_below) simp_all
  have "\<bar>?a * q - ?x * ?y\<bar> \<le> 100001 * (6 / 2 ^ 53) + 5 * (1 / 10000000)"
    using la v by (intro product_close ax qy) simp_all
  moreover have "(100001 :: rat) * (6 / 2 ^ 53) + 5 * (1 / 10000000) \<le> 1 / 100000" by simp
  ultimately have p: "\<bar>?a * q / 100 - ?x * ?y / 100\<bar> \<le> 1 / 10000000" unfolding abs_le_iff by linarith
  have near: "\<bar>decimal_value (to_fixed2 ?f) - ?f\<bar> \<le> 1 / 200" by (rule fixed_near [OF fa(2)])
  with fa(1) p show "\<bar>decimal_value (to_fixed2 ?f) - ?x * ?y / 100\<bar> \<le> 51 / 10000" unfolding abs_le_iff by linarith
  have "\<bar>net_of ?a q - (?a - ?f)\<bar> \<le> 1 / 1000000" unfolding net_of_def using la fa fle by (intro net_close) simp_all
  moreover have "\<bar>decimal_value (to_fixed2 (net_of ?a q)) - net_of ?a q\<bar> \<le> 1 / 200"
    unfolding net_of_def by (rule fixed_near [OF dbl_nonneg])
  ultimately show "\<bar>decimal_value (to_fixed2 ?f) + decimal_value (to_fixed2 (net_of ?a q)) - ?x\<bar> \<le> 101 / 10000"
    using near ax unfolding abs_le_iff by linarith
qed

lemma compare_one_Some:
  "compare_one a asset fiat provider = Some c \<longleftrightarrow>
     (\<exists>config. getProviderConfig provider = Some config \<and> asset \<in> set (pc_supportedAssets config)
        \<and> fiat \<in> set (pc_supportedFiatCurrencies config)
        \<and> parse_float (pc_minAmount config) \<le> a \<and> a \<le> parse_float (pc_maxAmount config)
        \<and> c = \<lparr>cmp_feeAmount = to_fixed2 (fee_of a (parse_float (pc_feePercentage config))),
              cmp_feePercentage = pc_feePercentage config,
              cmp_netAmount = to_fixed2 (net_of a (parse_float (pc_feePercentage config))),
              cmp_settlementTime = settlement_time provider\<rparr>)"
  by (cases "getProviderConfig provider") (auto simp: compare_one_def Let_def)

lemma compared_providers:
  "set (List.map_filter (\<lambda>p. map_option (Pair p) (f p)) ps) = {(p, c). p \<in> set ps \<and> f p = Some c}"
  "map fst (List.map_filter (\<lambda>p. map_option (Pair p) (f p)) ps) = filter (\<lambda>p. f p \<noteq> None) ps"
  by (induction ps) (auto simp: List.map_filter_simps split: option.splits)

text \<open>C34: The comparison lists exactly the providers that offer the asset and the currency and whose limits
  include the amount, each once; the fee quoted is within 0.0051 of the percentage of the amount, and fee and net
  amount add up to the amount within 0.0101, so the rounding of the double arithmetic and of the two texts never
  costs more than a cent.\<close>

theorem quotes_add_up:
  assumes "compareProviders amount asset fiat = Inr r"
  shows "distinct (map fst r)
    \<and> (\<forall>p. p \<in> fst ` set r \<longleftrightarrow>
         (case getProviderConfig p of
            None \<Rightarrow> False
          | Some c \<Rightarrow> asset \<in> set (pc_supportedAssets c) \<and> or_else fiat ''USD'' \<in> set (pc_supportedFiatCurrencies c)
              \<and> parse_float (pc_minAmount c) \<le> parse_float amount \<and> parse_float amount \<le> parse_float (pc_maxAmount c)))
    \<and> list_all (\<lambda>(p, q).
         \<bar>decimal_value (cmp_feeAmount q) - decimal_value amount * decimal_value (cmp_feePercentage q) / 100\<bar> \<le> 51 / 10000
         \<and> \<bar>decimal_value (cmp_feeAmount q) + decimal_value (cmp_netAmount q) - decimal_value amount\<bar> \<le> 101 / 10000) r"
proof -
  let ?f = "compare_one (parse_float amount) asset (or_else fiat ''USD'')"
  have r: "r = List.map_filter (\<lambda>p. map_option (Pair p) (?f p)) providers"
    using assms by (simp add: compareProviders_def split: if_splits)
  have each_once: "distinct (map fst r)" unfolding r compared_providers by (simp add: providers_def)
  have "?f p \<noteq> None \<Longrightarrow> p \<in> set providers" for p by (auto simp: compare_one_Some dest: config_values)
  then have listed: "p \<in> fst ` set r \<longleftrightarrow> (\<exists>q. ?f p = Some q)" for p
    unfolding r compared_providers by (auto simp: image_iff)
  have close: "\<bar>decimal_value (cmp_feeAmount q) - decimal_value amount * decimal_value (cmp_feePercentage q) / 100\<bar> \<le> 51 / 10000
      \<and> \<bar>decimal_value (cmp_feeAmount q) + decimal_value (cmp_netAmount q) - decimal_value amount\<bar> \<le> 101 / 10000"
    if q: "?f p = Some q" for p q
  proof -
    from q obtain config where "getProviderConfig p = Some config"
        "parse_float (pc_minAmount config) \<le> parse_float amount" "parse_float amount \<le> parse_float (pc_maxAmount config)"
      and q: "cmp_feeAmount q = to_fixed2 (fee_of (parse_float amount) (parse_float (pc_feePercentage config)))"
        "cmp_netAmount q = to_fixed2 (net_of (parse_float amount) (parse_float (pc_feePercentage config)))"
        "cmp_feePercentage q = pc_feePercentage config"
      unfolding compare_one_Some by auto
    from quote_close [OF this(1-3)] show ?thesis unfolding q by (rule conjI)
  qed
  have quoted: "(p, q) \<in> set r \<Longrightarrow> ?f p = Some q" for p q unfolding r compared_providers by simp
  show ?thesis
  proof (intro conjI allI)
    show "distinct (map fst r)" by (rule each_once)
    show "p \<in> fst ` set r \<longleftrightarrow>
        (case getProviderConfig p of
           None \<Rightarrow> False
         | Some c \<Rightarrow> asset \<in> set (pc_supportedAssets c) \<and> or_else fiat ''USD'' \<in> set (pc_supportedFiatCurrencies c)
             \<and> parse_float (pc_minAmount c) \<le> parse_float amount \<and> parse_float amount \<le> parse_float (pc_maxAmount c))" for p
      unfolding listed by (auto simp: compare_one_Some split: option.splits)
  qed (use close quoted in \<open>unfold list_all_iff, blast\<close>)
qed

section \<open>Examples\<close>

definition widget_stellar :: stellar where
  "widget_stellar =
     \<lparr>st_is_account = prefix ''G'', st_is_contract = prefix ''C'', st_address = (\<lambda>_. None),
      st_typed = (\<lambda>_ _. Inr ScVoid), st_native = (\<lambda>_. Inr ScVoid), st_toNative = (\<lambda>_. Inr NNull)\<rparr>"

definition sample_offramp :: offramp_config where
  "sample_offramp = \<lparr>oc_moonpayApiKey = Some ''k'', oc_transakApiKey = None, oc_rampApiKey = Some ''r'',
     oc_banxaApiKey = None, oc_testMode = Some True\<rparr>"

definition sample_on_ramp :: on_ramp_params where
  "sample_on_ramp = \<lparr>on_provider = ''ramp'', on_amount = ''1&hostApiKey=0'', on_fiatCurrency = ''USD'', on_asset = ''XLM'',
     on_cAddress = ''C 1'', on_signer = None\<rparr>"

lemma sample_url: "getOnRampUrl widget_stellar sample_offramp (sample_on_ramp\<lparr>on_signer := None\<rparr>)
    = Inr (getRampOnRampUrl sample_offramp sample_on_ramp)"
  by (simp add: getOnRampUrl_def assertContractAddress_def sample_on_ramp_def widget_stellar_def)

lemma sample_on_ramp_unsigned: "sample_on_ramp\<lparr>on_signer := None\<rparr> = sample_on_ramp" "on_signer sample_on_ramp = None"
  by (simp_all add: sample_on_ramp_def)

lemma on_ramp_url_reads_back_witness:
  "\<exists>q. query_of (getRampOnRampUrl sample_offramp sample_on_ramp) = Some q
     \<and> map_of (form_parse q) ''fiatAmount'' = Some ''1&hostApiKey=0'' \<and> map_of (form_parse q) ''userAddress'' = Some ''C 1''"
  using on_ramp_url_reads_back [OF sample_url [unfolded sample_on_ramp_unsigned(1)] sample_on_ramp_unsigned(2)]
  by (auto simp: address_name_def amount_name_def fiat_name_def sample_on_ramp_def)

lemma signature_covers_query_witness:
  "\<exists>q q'. query_of (getRampOnRampUrl sample_offramp sample_on_ramp) = Some q
     \<and> query_of (signUrl (\<lambda>k m. rev (k @ m)) (getRampOnRampUrl sample_offramp sample_on_ramp) ''key'') = Some q'
     \<and> form_parse q' = form_parse q @ [(''signature'', base64_encode (rev (''key'' @ q)))]"
  using signature_covers_query [OF sample_url, of "\<lambda>k m. rev (k @ m)" "''key''"] by blast

lemma sample_doubles: "dbl 100 = 100" "dbl 20 = 20" "dbl 50000 = 50000" "dbl (9 / 2) = 9 / 2" "dbl 450 = 450" "dbl (191 / 2) = 191 / 2"
  by code_simp+

lemma sample_numerals: "dec_of_nat 4 = ''4''" "dec_of_nat 50 = ''50''" "dec_of_nat 95 = ''95''"
  by code_simp+

lemma sample_hundredths: "hundredths (9 / 2) = 450" "hundredths (191 / 2) = 9550"
  by (simp_all add: hundredths_def floor_eq_iff)

lemma sample_texts: "to_fixed2 (9 / 2) = ''4.50''" "to_fixed2 (191 / 2) = ''95.50''" "decimal_value ''100'' = 100" "is_decimal ''100''"
  by (simp_all add: to_fixed2_def sample_hundredths pad2_def sample_numerals Let_def decimal_value_def is_decimal_def
      matches_digits_def is_dec_def num_of_string_def digit_vals_def hex_val_def from_digits_def)

lemma sample_quotes: "compareProviders ''100'' ''XLM'' (Some ''JPY'') =
    Inr [(''moonpay'', \<lparr>cmp_feeAmount = ''4.50'', cmp_feePercentage = ''4.5'', cmp_netAmount = ''95.50'', cmp_settlementTime = 2\<rparr>)]"
  by (simp add: compareProviders_def parse_float_def sample_doubles sample_texts or_else_def providers_def compare_one_def
      getProviderConfig_def provider_configs_def table_values fee_of_def net_of_def settlement_time_def List.map_filter_simps)

lemma quotes_add_up_witness:
  "list_all (\<lambda>(p, q). \<bar>decimal_value (cmp_feeAmount q) + decimal_value (cmp_netAmount q) - decimal_value ''100''\<bar> \<le> 101 / 10000)
     [(''moonpay'', \<lparr>cmp_feeAmount = ''4.50'', cmp_feePercentage = ''4.5'', cmp_netAmount = ''95.50'', cmp_settlementTime = 2\<rparr>)]"
  using quotes_add_up [OF sample_quotes] by (simp only: list.pred_inject prod.case simp_thms)

end
