(* ===== verification/Sdk_Observability.thy ===== *)
theory Sdk_Observability
  imports Sdk_Mutations
begin

text \<open>
  The hooks that \<open>sdk/src/observability.ts\<close> provides: the console logger, the adapter to an OpenTelemetry
  tracer, and the composition of several hooks; and what they record of the submitting methods.  The tracer
  is third-party: it is the record of the calls it gets, a new span for every \<open>startSpan\<close>.
\<close>

section \<open>JSON of what hooks are given\<close>

text \<open>\<open>JSON.stringify\<close> leaves out a field that is \<open>undefined\<close>, writes \<open>NaN\<close> as \<open>null\<close>, and throws at a bigint.\<close>

definition bigint_error :: string where
  "bigint_error = ''TypeError: Do not know how to serialize a BigInt''"

definition json_value :: "js_value \<Rightarrow> string + string option" where
  "json_value v =
     (case v of
        VUndefined \<Rightarrow> Inr None
      | VString s \<Rightarrow> Inr (Some (json_text s))
      | VNumber n \<Rightarrow> Inr (Some (dec_of_int n))
      | VNaN \<Rightarrow> Inr (Some ''null'')
      | VBigInt n \<Rightarrow> Inl bigint_error)"

definition json_fields :: "hook_params \<Rightarrow> string + string option list" where
  "json_fields ps =
     map_sum_list (\<lambda>(k, v). bind_sum (json_value v) (\<lambda>t. Inr (map_option (\<lambda>t. json_text k @ '':'' @ t) t))) ps"

definition json_object :: "hook_params \<Rightarrow> string + string" where
  "json_object ps =
     bind_sum (json_fields ps) (\<lambda>fs. Inr (''{'' @ join_with '','' (List.map_filter id fs) @ ''}''))"

definition status_text :: "tx_status \<Rightarrow> string" where
  "status_text s = (case s of Pending \<Rightarrow> ''pending'' | Failed \<Rightarrow> ''failed'')"

definition result_fields :: "tx_result \<Rightarrow> hook_params" where
  "result_fields r =
     [(''hash'', VString (tr_hash r)), (''status'', VString (status_text (tr_status r))),
      (''error'', js_of_opt_string (tr_error r))]"

definition json_result :: "hook_result \<Rightarrow> string + string" where
  "json_result r =
     (case r of
        OneResult one \<Rightarrow> json_object (result_fields one)
      | ManyResults rs \<Rightarrow>
          bind_sum (map_sum_list (\<lambda>one. json_object (result_fields one)) rs) (\<lambda>ts. Inr (''['' @ join_with '','' ts @ '']'')))"

definition message_text :: "thrown \<Rightarrow> string" where
  "message_text error =
     (case error of None \<Rightarrow> ''undefined'' | Some err \<Rightarrow> (case er_message err of Some m \<Rightarrow> m | None \<Rightarrow> er_text err))"

section \<open>The console logger\<close>

text \<open>Lines of \<open>console.log\<close> and \<open>console.error\<close> with their arguments.\<close>

datatype console_line = LogLine "string list" | ErrorLine "string list"

definition print_line :: "console_line \<Rightarrow> (console_line list, string, unit) op" where
  "print_line l ls = (Inr (), ls @ [l])"

definition millis :: "int \<Rightarrow> string" where
  "millis d = dec_of_int d @ ''ms''"

definition ConsoleLogger :: "console_line list hooks" where
  "ConsoleLogger =
     \<lparr>hk_start = Some (\<lambda>m params. case json_object params of
        Inl e \<Rightarrow> throw e | Inr j \<Rightarrow> print_line (LogLine [''[bridge-sdk] tx:start  '' @ m, j])),
      hk_success = Some (\<lambda>m result d. case json_result result of
        Inl e \<Rightarrow> throw e | Inr j \<Rightarrow> print_line (LogLine [''[bridge-sdk] tx:ok     '' @ m, j, millis d])),
      hk_error = Some (\<lambda>m error d. print_line (ErrorLine [''[bridge-sdk] tx:error  '' @ m, message_text error, millis d])),
      hk_rpc = Some (\<lambda>m params d. case json_object params of
        Inl e \<Rightarrow> throw e | Inr j \<Rightarrow> print_line (LogLine [''[bridge-sdk] rpc:call  '' @ m, j, millis d]))\<rparr>"

section \<open>OpenTelemetry\<close>

datatype attribute = AttrText string | AttrNumber int

datatype span_status = SpanOk | SpanError string

text \<open>A span: its name, the attributes in the order they were set, the status last set, the exceptions
  recorded, and how often it was ended.\<close>

record span =
  sp_name :: string
  sp_attributes :: "(string \<times> attribute) list"
  sp_status :: "span_status option"
  sp_exceptions :: "string list"
  sp_ended :: nat

text \<open>The tracer's spans, and \<open>activeSpans\<close>: the number of the span of a method.\<close>

record otel =
  ot_spans :: "span list"
  ot_active :: "string \<Rightarrow> nat option"

definition new_span :: "string \<Rightarrow> span" where
  "new_span name = \<lparr>sp_name = name, sp_attributes = [], sp_status = None, sp_exceptions = [], sp_ended = 0\<rparr>"

definition set_attribute :: "string \<Rightarrow> attribute \<Rightarrow> span \<Rightarrow> span" where
  "set_attribute k v sp = sp\<lparr>sp_attributes := sp_attributes sp @ [(k, v)]\<rparr>"

definition set_status :: "span_status \<Rightarrow> span \<Rightarrow> span" where
  "set_status st sp = sp\<lparr>sp_status := Some st\<rparr>"

definition record_exception :: "string \<Rightarrow> span \<Rightarrow> span" where
  "record_exception m sp = sp\<lparr>sp_exceptions := sp_exceptions sp @ [m]\<rparr>"

definition end_span :: "span \<Rightarrow> span" where
  "end_span sp = sp\<lparr>sp_ended := Suc (sp_ended sp)\<rparr>"

definition change_span :: "nat \<Rightarrow> (span \<Rightarrow> span) \<Rightarrow> otel \<Rightarrow> otel" where
  "change_span i f s = s\<lparr>ot_spans := (ot_spans s)[i := f (ot_spans s ! i)]\<rparr>"

record otel_options =
  oh_traceRpcCalls :: "bool option"
  oh_spanPrefix :: "string option"

definition span_prefix :: "otel_options \<Rightarrow> string" where
  "span_prefix opts = or_else (oh_spanPrefix opts) ''bridge-sdk''"

definition params_attribute :: "hook_params \<Rightarrow> attribute" where
  "params_attribute params = AttrText (case json_object params of Inr j \<Rightarrow> j | Inl _ \<Rightarrow> ''[unserializable]'')"

definition otel_start :: "otel_options \<Rightarrow> string \<Rightarrow> hook_params \<Rightarrow> otel \<Rightarrow> otel" where
  "otel_start opts m params s =
     (let sp = set_attribute ''bridge.params'' (params_attribute params)
                 (set_attribute ''bridge.method'' (AttrText m) (new_span (span_prefix opts @ ''/'' @ m)))
      in s\<lparr>ot_spans := ot_spans s @ [sp], ot_active := (ot_active s)(m \<mapsto> length (ot_spans s))\<rparr>)"

text \<open>The attributes of a result or of the results of a batch.\<close>

definition result_attributes :: "hook_result \<Rightarrow> span \<Rightarrow> span" where
  "result_attributes result sp =
     (case result of
        ManyResults rs \<Rightarrow>
          set_attribute ''bridge.tx.status''
            (AttrText (if list_ex (\<lambda>r. tr_status r = Failed) rs then ''partial_failure'' else ''pending''))
            (set_attribute ''bridge.tx.hashes'' (AttrText (join_with '','' (filter (\<lambda>h. h \<noteq> []) (map tr_hash rs)))) sp)
      | OneResult r \<Rightarrow>
          (let sp1 = set_attribute ''bridge.tx.status'' (AttrText (status_text (tr_status r)))
                       (set_attribute ''bridge.tx.hash'' (AttrText (tr_hash r)) sp)
           in case tr_error r of None \<Rightarrow> sp1 | Some e \<Rightarrow> set_attribute ''bridge.tx.error'' (AttrText e) sp1))"

definition otel_success :: "string \<Rightarrow> hook_result \<Rightarrow> int \<Rightarrow> otel \<Rightarrow> otel" where
  "otel_success m result d s =
     (case ot_active s m of
        None \<Rightarrow> s
      | Some i \<Rightarrow>
          change_span i (\<lambda>sp. end_span (set_status SpanOk (result_attributes result
              (set_attribute ''bridge.duration_ms'' (AttrNumber d) sp))))
            (s\<lparr>ot_active := (ot_active s)(m := None)\<rparr>))"

definition otel_error :: "string \<Rightarrow> thrown \<Rightarrow> int \<Rightarrow> otel \<Rightarrow> otel" where
  "otel_error m error d s =
     (case ot_active s m of
        None \<Rightarrow> s
      | Some i \<Rightarrow>
          change_span i (\<lambda>sp. end_span (record_exception (message_text error) (set_status (SpanError (message_text error))
              (set_attribute ''bridge.duration_ms'' (AttrNumber d) sp))))
            (s\<lparr>ot_active := (ot_active s)(m := None)\<rparr>))"

definition otel_rpc :: "otel_options \<Rightarrow> string \<Rightarrow> hook_params \<Rightarrow> int \<Rightarrow> otel \<Rightarrow> otel" where
  "otel_rpc opts m params d s =
     (if \<not> or_else (oh_traceRpcCalls opts) True then s
      else s\<lparr>ot_spans := ot_spans s @
             [end_span (set_status SpanOk (set_attribute ''rpc.params'' (params_attribute params)
               (set_attribute ''rpc.duration_ms'' (AttrNumber d)
               (set_attribute ''rpc.method'' (AttrText m) (new_span (span_prefix opts @ ''/rpc/'' @ m))))))]\<rparr>)"

text \<open>No step of the adapter throws.\<close>

definition createOpenTelemetryHooks :: "otel_options \<Rightarrow> otel hooks" where
  "createOpenTelemetryHooks opts =
     \<lparr>hk_start = Some (\<lambda>m params s. (Inr (), otel_start opts m params s)),
      hk_success = Some (\<lambda>m result d s. (Inr (), otel_success m result d s)),
      hk_error = Some (\<lambda>m error d s. (Inr (), otel_error m error d s)),
      hk_rpc = Some (\<lambda>m params d s. (Inr (), otel_rpc opts m params d s))\<rparr>"

section \<open>Composition\<close>

text \<open>The composed hook reports a throwing member itself: its state is its console beside the members' state.\<close>

definition invoke_member :: "string \<Rightarrow> ('u, string, unit) op \<Rightarrow> string list \<times> 'u \<Rightarrow> string list \<times> 'u" where
  "invoke_member hookName fn cu =
     (case fn (snd cu) of
        (Inr _, u) \<Rightarrow> (fst cu, u)
      | (Inl err, u) \<Rightarrow> (fst cu @ [''[bridge-sdk] observability hook \"'' @ hookName @ ''\" threw: '' @ err], u))"

definition invoke_members :: "string \<Rightarrow> ('u, string, unit) op option list \<Rightarrow> (string list \<times> 'u, string, unit) op" where
  "invoke_members hookName fns cu = (Inr (), fold (invoke_member hookName) (List.map_filter id fns) cu)"

definition composeHooks :: "'u hooks list \<Rightarrow> (string list \<times> 'u) hooks" where
  "composeHooks hs =
     \<lparr>hk_start = Some (\<lambda>m params. invoke_members ''onTransactionStart'' (map (\<lambda>h. map_option (\<lambda>f. f m params) (hk_start h)) hs)),
      hk_success = Some (\<lambda>m result d. invoke_members ''onTransactionSuccess''
        (map (\<lambda>h. map_option (\<lambda>f. f m result d) (hk_success h)) hs)),
      hk_error = Some (\<lambda>m error d. invoke_members ''onTransactionError''
        (map (\<lambda>h. map_option (\<lambda>f. f m error d) (hk_error h)) hs)),
      hk_rpc = Some (\<lambda>m params d. invoke_members ''onRpcCall'' (map (\<lambda>h. map_option (\<lambda>f. f m params d) (hk_rpc h)) hs))\<rparr>"

section \<open>What a run does to the state of the hooks\<close>

text \<open>One delivery to \<open>onRpcCall\<close>, and any number of them.\<close>

definition rpc_delivery :: "'u hooks option \<Rightarrow> 'u \<Rightarrow> 'u \<Rightarrow> bool" where
  "rpc_delivery hs u u' \<longleftrightarrow> (\<exists>h f m params d. hs = Some h \<and> hk_rpc h = Some f \<and> u' = snd (f m params d u))"

abbreviation rpc_deliveries :: "'u hooks option \<Rightarrow> 'u \<Rightarrow> 'u \<Rightarrow> bool" where
  "rpc_deliveries hs \<equiv> rtranclp (rpc_delivery hs)"

definition rpc_only :: "('p, 'u) sdk \<Rightarrow> ('p, 'u, 'a) sdk_op \<Rightarrow> bool" where
  "rpc_only sdk m \<longleftrightarrow> (\<forall>w. rpc_deliveries (sd_hooks sdk) (wd_user w) (wd_user (snd (m w))))"

named_theorems rpc_intros

lemma rpc_basic [rpc_intros]: "rpc_only sdk (checked x)" "rpc_only sdk (give a)" "rpc_only sdk (throw e)"
  by (simp_all add: rpc_only_def checked_def split: sum.splits)

lemma rpc_and_then [rpc_intros]:
  assumes "rpc_only sdk m" "\<And>a. rpc_only sdk (f a)"
  shows "rpc_only sdk (and_then m f)"
  unfolding rpc_only_def
proof
  fix w
  obtain r w1 where m: "m w = (r, w1)" by (rule prod.exhaust)
  with assms(1) have first: "rpc_deliveries (sd_hooks sdk) (wd_user w) (wd_user w1)" by (auto simp: rpc_only_def) (metis snd_conv)
  show "rpc_deliveries (sd_hooks sdk) (wd_user w) (wd_user (snd (and_then m f w)))"
  proof (cases r)
    case (Inr a)
    from assms(2) [of a] have "rpc_deliveries (sd_hooks sdk) (wd_user w1) (wd_user (snd (f a w1)))" by (simp add: rpc_only_def)
    with first m Inr show ?thesis by (simp add: and_then_def)
  qed (use first m in \<open>simp add: and_then_def\<close>)
qed

lemma rpc_catching [rpc_intros]:
  assumes "rpc_only sdk m" "\<And>e. rpc_only sdk (h e)"
  shows "rpc_only sdk (catching m h)"
  unfolding rpc_only_def
proof
  fix w
  obtain r w1 where m: "m w = (r, w1)" by (rule prod.exhaust)
  with assms(1) have first: "rpc_deliveries (sd_hooks sdk) (wd_user w) (wd_user w1)" by (auto simp: rpc_only_def) (metis snd_conv)
  show "rpc_deliveries (sd_hooks sdk) (wd_user w) (wd_user (snd (catching m h w)))"
  proof (cases r)
    case (Inl e)
    from assms(2) [of e] have "rpc_deliveries (sd_hooks sdk) (wd_user w1) (wd_user (snd (h e w1)))" by (simp add: rpc_only_def)
    with first m Inl show ?thesis by (simp add: catching_def)
  qed (use first m in \<open>simp add: catching_def\<close>)
qed

text \<open>Hooks act on the user's state through \<open>safeInvoke\<close>, throwing or not.\<close>

lemma fire_user:
  "wd_user (fire sdk n iv w) = (case Option.bind (sd_hooks sdk) iv of None \<Rightarrow> wd_user w | Some fn \<Rightarrow> snd (fn (wd_user w)))"
  by (auto simp: fire_def safeInvoke_def split: option.splits prod.splits sum.splits)

lemma rpc_hooked [rpc_intros]:
  assumes "rpc_only sdk m"
  shows "rpc_only sdk (withRpcHook sdk n params m)"
  unfolding rpc_only_def
proof
  fix w
  obtain r w1 where m: "m w = (r, w1)" by (rule prod.exhaust)
  with assms have first: "rpc_deliveries (sd_hooks sdk) (wd_user w) (wd_user w1)" by (auto simp: rpc_only_def) (metis snd_conv)
  have "rpc_deliveries (sd_hooks sdk) (wd_user w1) (wd_user (fireRpcCall sdk n params d w1))" for d
    by (auto simp: fireRpcCall_def fire_user rpc_delivery_def bind_eq_Some_conv intro!: r_into_rtranclp split: option.splits) blast
  with first m show "rpc_deliveries (sd_hooks sdk) (wd_user w) (wd_user (snd (withRpcHook sdk n params m w)))"
    by (auto simp: withRpcHook_def intro: rtranclp_trans)
qed

text \<open>The retry logger leaves the state of the hooks alone.\<close>

definition tracer_untouched :: "('p, 'u) sdk \<Rightarrow> bool" where
  "tracer_untouched sdk \<longleftrightarrow> (\<forall>a. keeps_seen wd_user (or_else (rr_onRetry (sd_retry sdk)) (\<lambda>_. give ()) a))"

lemma keeps_seen_and_then: "keeps_seen seen m \<Longrightarrow> (\<And>a. keeps_seen seen (f a)) \<Longrightarrow> keeps_seen seen (and_then m f)"
  unfolding keeps_seen_def and_then_def by (auto split: prod.splits sum.splits) (metis snd_conv)+

lemma keeps_seen_catching: "keeps_seen seen m \<Longrightarrow> (\<And>e. keeps_seen seen (h e)) \<Longrightarrow> keeps_seen seen (catching m h)"
  unfolding keeps_seen_def catching_def by (auto split: prod.splits sum.splits) (metis snd_conv)+

lemma keeps_seen_check: "keeps_seen seen (check_abort pr)"
  by (auto simp: keeps_seen_def check_abort_def split: option.splits)

lemma keeps_seen_sleep:
  assumes "\<And>ms. keeps_seen seen (rp_sleep pr ms)"
  shows "keeps_seen seen (abortableSleep pr ms)"
  unfolding abortableSleep_def
proof (rule keeps_seen_and_then [OF keeps_seen_check])
  show "keeps_seen seen (\<lambda>s. case rp_sleep pr ms s of (res, s') \<Rightarrow>
       (case rp_aborted pr s' of Some reason \<Rightarrow> (Inl reason, s') | None \<Rightarrow> (res, s')))"
    using assms [of ms] by (auto simp: keeps_seen_def split: prod.splits option.splits) (metis snd_conv)+
qed

lemma keeps_seen_retry:
  assumes "keeps_seen seen fn" "\<And>ms. keeps_seen seen (rp_sleep pr ms)" "\<And>a. keeps_seen seen (rp_onRetry pr a)"
  shows "seen (snd (retry_loop pr fn attempt left s)) = seen s"
proof (induction left arbitrary: attempt s)
  case (Suc left)
  have loop: "keeps_seen seen (retry_loop pr fn k left)" for k using Suc.IH by (simp add: keeps_seen_def)
  have last: "keeps_seen seen (\<lambda>s2. if c then (Inl error, s2) else let delayMs = g s2 in and_then (rp_onRetry pr (a delayMs))
      (\<lambda>_. and_then (abortableSleep pr delayMs) (\<lambda>_ s3. retry_loop pr fn (attempt + 1) left s3)) s2)" for c g error a
  proof -
    have "keeps_seen seen (and_then (rp_onRetry pr (a delayMs))
      (\<lambda>_. and_then (abortableSleep pr delayMs) (\<lambda>_ s3. retry_loop pr fn (attempt + 1) left s3)))" for delayMs
      by (intro keeps_seen_and_then keeps_seen_sleep assms loop)
    then show ?thesis by (simp add: keeps_seen_def Let_def)
  qed
  have "keeps_seen seen (retry_loop pr fn attempt (Suc left))"
    unfolding retry_loop.simps by (intro keeps_seen_and_then keeps_seen_catching keeps_seen_check assms(1) last)
  then show ?case by (simp only: keeps_seen_def)
qed simp

lemma rpc_provider [rpc_intros]:
  fixes sdk :: "('p, 'u) sdk" and answer :: "'p activity list \<Rightarrow> thrown + 'a"
  assumes "tracer_untouched sdk"
  shows "rpc_only sdk (provider_call sdk name answer c)"
proof -
  have raw: "keeps_seen wd_user (raw_call answer c :: ('p, 'u, 'a) sdk_op)" by (simp add: keeps_seen_def raw_call_def)
  have "keeps_seen wd_user (withRetry (sdk_surroundings sdk) (policy_options k (sd_retry sdk)) (raw_call answer c))" for k
    using keeps_seen_retry [OF raw, of "retry_params_of (sdk_surroundings sdk) (policy_options k (sd_retry sdk))"] assms
    by (simp add: keeps_seen_def withRetry_def Let_def retry_params_of_def sdk_surroundings_def policy_options_def sleeping_def
        tracer_untouched_def)
  with raw have "keeps_seen wd_user (provider_call sdk name answer c)"
    by (simp add: provider_call_def withRpcRetry_def rpc_policy_def resolveViewOptions_def resolveStateOptions_def Let_def
        split: option.splits)
  then show ?thesis by (simp add: rpc_only_def keeps_seen_def)
qed

text \<open>A submitting method delivers the start, then calls of the RPC hook, then the success or the error.\<close>

lemma rpc_submit:
  assumes "tracer_untouched sdk"
  shows "rpc_only sdk (catch_failed (and_then (checked x) (\<lambda>_. submit_call sdk params address m args authorize key)))"
proof -
  have handler: "rpc_only sdk (\<lambda>s. (case message_or ''Unknown error'' e of Inl te \<Rightarrow> throw te | Inr msg \<Rightarrow> give (failed_result msg)) s)" for e
    by (cases "message_or ''Unknown error'' e") (simp_all add: rpc_only_def)
  show ?thesis
    unfolding catch_failed_def submit_call_def getAccount_def prepareTransaction_def sendTransaction_def
    by (intro rpc_intros handler assms)
qed

lemma mutation_deliveries:
  assumes "tracer_untouched sdk" "sd_hooks sdk = Some h"
    and "hk_start h = Some fs" "hk_success h = Some fo" "hk_error h = Some fe"
    and "mutation sdk name params checks address m args authorize key w = (r, w')"
  shows "\<exists>u. rpc_deliveries (Some h) (snd (fs name params (wd_user w))) u
    \<and> (case r of
         Inr res \<Rightarrow> (\<exists>d. wd_user w' = snd (fo name (OneResult res) d u))
       | Inl e \<Rightarrow> (\<exists>e d. wd_user w' = snd (fe name e d u)))"
proof -
  let ?fn = "catch_failed (and_then (checked (first_error checks)) (\<lambda>_. submit_call sdk (contract_method m) address m args authorize key))"
  let ?w1 = "fireTransactionStart sdk name params w"
  obtain r1 w2 where run: "?fn ?w1 = (r1, w2)" by (rule prod.exhaust)
  have "wd_user ?w1 = snd (fs name params (wd_user w))"
    using assms(2,3) by (simp add: fireTransactionStart_def fire_user)
  moreover have "rpc_deliveries (Some h) (wd_user ?w1) (wd_user w2)"
    using rpc_submit [OF assms(1)] run assms(2) unfolding rpc_only_def by (metis snd_conv)
  moreover have "case r of
         Inr res \<Rightarrow> (\<exists>d. wd_user w' = snd (fo name (OneResult res) d (wd_user w2)))
       | Inl e \<Rightarrow> (\<exists>e d. wd_user w' = snd (fe name e d (wd_user w2)))"
    using assms(2,4,5,6) run
    by (cases r1) (auto simp: mutation_def withTransactionHooks_def Let_def fireTransactionSuccess_def
        fireTransactionError_def fire_user, blast)
  ultimately show ?thesis by auto
qed

section \<open>Spans\<close>

definition transaction_span :: "span \<Rightarrow> bool" where
  "transaction_span sp = list_ex (\<lambda>(k, v). k = ''bridge.method'') (sp_attributes sp)"

definition finished :: "span \<Rightarrow> bool" where
  "finished sp = (sp_ended sp = 1 \<and> sp_status sp \<noteq> None)"

definition idle :: "otel \<Rightarrow> bool" where
  "idle s \<longleftrightarrow> (\<forall>m. ot_active s m = None) \<and> list_all finished (ot_spans s)"

definition transactions :: "otel \<Rightarrow> nat" where
  "transactions s = length (filter transaction_span (ot_spans s))"

text \<open>During a method, its span is the only one that is active and not ended.\<close>

definition busy :: "string \<Rightarrow> nat \<Rightarrow> otel \<Rightarrow> bool" where
  "busy m n s \<longleftrightarrow> (\<exists>before sp later. ot_spans s = before @ [sp] @ later
     \<and> (\<forall>m'. ot_active s m' = (if m' = m then Some (length before) else None))
     \<and> list_all finished (before @ later) \<and> transaction_span sp \<and> sp_ended sp = 0 \<and> transactions s = n)"

lemma start_busy: "idle s \<Longrightarrow> busy m (Suc (transactions s)) (otel_start opts m params s)"
  unfolding busy_def idle_def
  by (rule exI [of _ "ot_spans s"], rule exI, rule exI [of _ "[]"])
    (auto simp: otel_start_def Let_def transactions_def transaction_span_def set_attribute_def new_span_def)

lemma rpc_busy:
  assumes "busy m n s"
  shows "busy m n (otel_rpc opts name params d s)"
proof -
  from assms obtain before sp later where s: "ot_spans s = before @ [sp] @ later"
      "\<forall>m'. ot_active s m' = (if m' = m then Some (length before) else None)"
      "list_all finished (before @ later)" "transaction_span sp" "sp_ended sp = 0" "transactions s = n"
    unfolding busy_def by blast
  show ?thesis
  proof (cases "or_else (oh_traceRpcCalls opts) True")
    case True
    obtain new where new: "ot_spans (otel_rpc opts name params d s) = ot_spans s @ [new]" "finished new" "\<not> transaction_span new"
      "ot_active (otel_rpc opts name params d s) = ot_active s"
      using True by (simp add: otel_rpc_def finished_def transaction_span_def set_attribute_def set_status_def end_span_def new_span_def)
    show ?thesis unfolding busy_def
      by (rule exI [of _ before], rule exI [of _ sp], rule exI [of _ "later @ [new]"])
        (use s new in \<open>simp add: transactions_def\<close>)
  qed (use assms in \<open>simp add: otel_rpc_def\<close>)
qed

lemma deliveries_busy:
  assumes "rpc_deliveries (Some (createOpenTelemetryHooks opts)) s s'" "busy m n s"
  shows "busy m n s'"
  using assms
  by (induction rule: rtranclp_induct) (auto simp: rpc_delivery_def createOpenTelemetryHooks_def rpc_busy)

text \<open>What ends the span.\<close>

lemma change_busy:
  assumes "busy m n s" "ot_active s m = Some i"
    and "\<And>sp. sp_ended (f sp) = Suc (sp_ended sp)" "\<And>sp. sp_status (f sp) \<noteq> None"
    and "\<And>sp. transaction_span sp \<Longrightarrow> transaction_span (f sp)"
  shows "idle (change_span i f (s\<lparr>ot_active := (ot_active s)(m := None)\<rparr>))
    \<and> transactions (change_span i f (s\<lparr>ot_active := (ot_active s)(m := None)\<rparr>)) = n"
proof -
  from assms(1) obtain before sp later where s: "ot_spans s = before @ [sp] @ later"
      "\<forall>m'. ot_active s m' = (if m' = m then Some (length before) else None)"
      "list_all finished (before @ later)" "transaction_span sp" "sp_ended sp = 0" "transactions s = n"
    unfolding busy_def by blast
  with assms(2) have i: "i = length before" by simp
  with s(1) have "ot_spans (change_span i f (s\<lparr>ot_active := (ot_active s)(m := None)\<rparr>)) = before @ [f sp] @ later"
    by (simp add: change_span_def nth_append list_update_append)
  moreover have "finished (f sp)" using assms(3,4) s(5) by (simp add: finished_def)
  moreover have "ot_active (change_span i f (s\<lparr>ot_active := (ot_active s)(m := None)\<rparr>)) m' = None" for m'
    using s(2) by (simp add: change_span_def)
  ultimately show ?thesis
    using s assms(5) [OF s(4)] by (simp add: idle_def transactions_def)
qed

lemma result_attributes_simps [simp]:
  "sp_ended (result_attributes r sp) = sp_ended sp"
  "transaction_span sp \<Longrightarrow> transaction_span (result_attributes r sp)"
  by (auto simp: result_attributes_def set_attribute_def transaction_span_def Let_def split: hook_result.splits option.splits)

lemma span_simps [simp]:
  "sp_ended (end_span sp) = Suc (sp_ended sp)" "sp_ended (set_status st sp) = sp_ended sp"
  "sp_ended (set_attribute k v sp) = sp_ended sp" "sp_ended (record_exception x sp) = sp_ended sp"
  "sp_status (end_span sp) = sp_status sp" "sp_status (set_status st sp) = Some st"
  "sp_status (set_attribute k v sp) = sp_status sp" "sp_status (record_exception x sp) = sp_status sp"
  "sp_attributes (end_span sp) = sp_attributes sp" "sp_attributes (set_status st sp) = sp_attributes sp"
  "sp_attributes (set_attribute k v sp) = sp_attributes sp @ [(k, v)]" "sp_attributes (record_exception x sp) = sp_attributes sp"
  by (simp_all add: end_span_def set_status_def set_attribute_def record_exception_def)

lemma transaction_span_simps [simp]:
  "transaction_span (end_span sp) = transaction_span sp" "transaction_span (set_status st sp) = transaction_span sp"
  "transaction_span (record_exception x sp) = transaction_span sp"
  "transaction_span sp \<Longrightarrow> transaction_span (set_attribute k v sp)"
  by (simp_all add: transaction_span_def)

lemma ended_idle:
  assumes "busy m n s"
  shows "idle (otel_success m r d s) \<and> transactions (otel_success m r d s) = n"
    "idle (otel_error m e d s) \<and> transactions (otel_error m e d s) = n"
proof -
  from assms obtain i where i: "ot_active s m = Some i" unfolding busy_def by auto
  show "idle (otel_success m r d s) \<and> transactions (otel_success m r d s) = n"
    unfolding otel_success_def i option.case by (rule change_busy [OF assms i]) simp_all
  show "idle (otel_error m e d s) \<and> transactions (otel_error m e d s) = n"
    unfolding otel_error_def i option.case by (rule change_busy [OF assms i]) simp_all
qed

text \<open>Methods one after the other.\<close>

definition perform_all :: "('p, 'u) sdk \<Rightarrow> 'p bridge_call list \<Rightarrow> ('p, 'u) sdk_world \<Rightarrow> ('p, 'u) sdk_world" where
  "perform_all sdk cs w = fold (\<lambda>c w. snd (perform sdk c w)) cs w"

lemma perform_idle:
  assumes "tracer_untouched sdk" "sd_hooks sdk = Some (createOpenTelemetryHooks opts)" "idle (wd_user w)"
  shows "idle (wd_user (snd (perform sdk call w)))
    \<and> transactions (wd_user (snd (perform sdk call w))) = Suc (transactions (wd_user w))"
proof -
  obtain name params checks address m args authorize where
    call: "perform sdk call = mutation sdk name params checks address m args authorize (signer_of call)"
    using perform_mutation by blast
  obtain r w' where run: "perform sdk call w = (r, w')" by (rule prod.exhaust)
  let ?h = "createOpenTelemetryHooks opts"
  have "hk_start ?h = Some (\<lambda>m params s. (Inr (), otel_start opts m params s))"
    "hk_success ?h = Some (\<lambda>m result d s. (Inr (), otel_success m result d s))"
    "hk_error ?h = Some (\<lambda>m error d s. (Inr (), otel_error m error d s))"
    by (simp_all add: createOpenTelemetryHooks_def)
  from mutation_deliveries [OF assms(1,2) this run [unfolded call]] obtain u where
    u: "rpc_deliveries (Some ?h) (otel_start opts name params (wd_user w)) u"
      "case r of Inr res \<Rightarrow> (\<exists>d. wd_user w' = otel_success name (OneResult res) d u)
         | Inl e \<Rightarrow> (\<exists>e d. wd_user w' = otel_error name e d u)"
    by (cases r) auto
  have "busy name (Suc (transactions (wd_user w))) u"
    by (rule deliveries_busy [OF u(1) start_busy [OF assms(3)]])
  from ended_idle [OF this] u(2) have "idle (wd_user w') \<and> transactions (wd_user w') = Suc (transactions (wd_user w))"
    by (cases r) auto
  with run show ?thesis by simp
qed

section \<open>Members of a composition\<close>

text \<open>The four callbacks as one function of an event; what a delivery does to the hooks' state.\<close>

datatype hook_event =
    StartEvent string hook_params
  | SuccessEvent string hook_result int
  | ErrorEvent string thrown int
  | RpcEvent string hook_params int

fun handler :: "'u hooks \<Rightarrow> hook_event \<Rightarrow> ('u, string, unit) op option" where
  "handler h (StartEvent m params) = map_option (\<lambda>f. f m params) (hk_start h)"
| "handler h (SuccessEvent m result d) = map_option (\<lambda>f. f m result d) (hk_success h)"
| "handler h (ErrorEvent m error d) = map_option (\<lambda>f. f m error d) (hk_error h)"
| "handler h (RpcEvent m params d) = map_option (\<lambda>f. f m params d) (hk_rpc h)"

definition deliver :: "'u hooks \<Rightarrow> hook_event \<Rightarrow> 'u \<Rightarrow> 'u" where
  "deliver h ev u = (case handler h ev of None \<Rightarrow> u | Some fn \<Rightarrow> snd (fn u))"

text \<open>A hook with a state of its own, the \<open>i\<close>-th of a list.\<close>

definition member_op :: "nat \<Rightarrow> ('a, string, unit) op \<Rightarrow> ('a list, string, unit) op" where
  "member_op i fn us = (case fn (us ! i) of (r, u) \<Rightarrow> (r, us[i := u]))"

definition on_member :: "nat \<Rightarrow> 'a hooks \<Rightarrow> 'a list hooks" where
  "on_member i h =
     \<lparr>hk_start = map_option (\<lambda>f m params. member_op i (f m params)) (hk_start h),
      hk_success = map_option (\<lambda>f m result d. member_op i (f m result d)) (hk_success h),
      hk_error = map_option (\<lambda>f m error d. member_op i (f m error d)) (hk_error h),
      hk_rpc = map_option (\<lambda>f m params d. member_op i (f m params d)) (hk_rpc h)\<rparr>"

lemma handler_on_member: "handler (on_member i h) ev = map_option (member_op i) (handler h ev)"
  by (cases ev) (simp_all add: on_member_def option.map_comp comp_def)

text \<open>Members run one after the other; the others' states are not touched.\<close>

lemma invoke_member_state: "snd (invoke_member n fn cu) = snd (fn (snd cu))"
  by (auto simp: invoke_member_def split: prod.splits sum.splits)

lemma invoke_all:
  "snd (snd (invoke_members n (map g hs) cu)) = fold (\<lambda>h u. case g h of None \<Rightarrow> u | Some fn \<Rightarrow> snd (fn u)) hs (snd cu)"
  unfolding invoke_members_def
  by (induction hs arbitrary: cu) (auto simp: List.map_filter_simps invoke_member_state split: option.split)

lemma deliver_composed: "snd (deliver (composeHooks hs) ev cu) = fold (\<lambda>h. deliver h ev) hs (snd cu)"
  by (cases ev) (simp_all only: deliver_def [abs_def] composeHooks_def hooks.simps handler.simps option.map option.case invoke_all)

lemma deliver_on_member: "i < length us \<Longrightarrow> deliver (on_member i h) ev us = us[i := deliver h ev (us ! i)]"
  by (auto simp: deliver_def handler_on_member member_op_def split: option.splits prod.splits)

lemma fold_members:
  assumes "n \<le> length us"
  shows "fold (\<lambda>i. deliver (on_member i (hs ! i)) ev) [0..<n] us
    = map (\<lambda>i. if i < n then deliver (hs ! i) ev (us ! i) else us ! i) [0..<length us]"
  using assms
proof (induction n)
  case 0
  then show ?case by (simp add: map_nth)
next
  case (Suc n)
  let ?us = "map (\<lambda>i. if i < n then deliver (hs ! i) ev (us ! i) else us ! i) [0..<length us]"
  have "deliver (on_member n (hs ! n)) ev ?us = ?us[n := deliver (hs ! n) ev (us ! n)]"
    using Suc.prems by (simp add: deliver_on_member)
  also have "\<dots> = map (\<lambda>i. if i < Suc n then deliver (hs ! i) ev (us ! i) else us ! i) [0..<length us]"
    using Suc.prems by (intro nth_equalityI) (auto simp: nth_list_update less_Suc_eq)
  finally show ?case using Suc by simp
qed

lemma deliver_all_members:
  assumes "length us = length hs"
  shows "snd (deliver (composeHooks (map (\<lambda>i. on_member i (hs ! i)) [0..<length hs])) ev (con, us))
    = map (\<lambda>i. deliver (hs ! i) ev (us ! i)) [0..<length hs]"
proof -
  have "snd (deliver (composeHooks (map (\<lambda>i. on_member i (hs ! i)) [0..<length hs])) ev (con, us))
      = fold (\<lambda>i. deliver (on_member i (hs ! i)) ev) [0..<length us] us"
    by (simp add: deliver_composed fold_map comp_def assms)
  also have "\<dots> = map (\<lambda>i. deliver (hs ! i) ev (us ! i)) [0..<length hs]"
    using assms by (simp add: fold_members)
  finally show ?thesis .
qed

section \<open>What the logger can print\<close>

fun is_bigint :: "js_value \<Rightarrow> bool" where
  "is_bigint (VBigInt n) = True"
| "is_bigint v = False"

definition has_bigint :: "hook_params \<Rightarrow> bool" where
  "has_bigint ps = list_ex (is_bigint \<circ> snd) ps"

lemma json_value_bigint:
  "is_bigint v \<Longrightarrow> json_value v = Inl bigint_error"
  "\<not> is_bigint v \<Longrightarrow> \<exists>t. json_value v = Inr t"
  by (cases v; simp add: json_value_def)+

lemma json_fields_total:
  "if has_bigint ps then json_fields ps = Inl bigint_error else \<exists>fs. json_fields ps = Inr fs"
proof (induction ps)
  case (Cons p ps)
  obtain k v where p: "p = (k, v)" by force
  show ?case
  proof (cases "is_bigint v")
    case True
    with p json_value_bigint(1) [OF True] show ?thesis by (simp add: json_fields_def has_bigint_def)
  next
    case False
    with p json_value_bigint(2) [OF False] Cons show ?thesis by (auto simp: json_fields_def has_bigint_def split: if_splits)
  qed
qed (simp add: json_fields_def has_bigint_def)

lemma json_object_total:
  "\<not> has_bigint ps \<Longrightarrow> \<exists>j. json_object ps = Inr j"
  "has_bigint ps \<Longrightarrow> json_object ps = Inl bigint_error"
  using json_fields_total [of ps] by (auto simp: json_object_def split: if_splits)

section \<open>Properties\<close>

text \<open>C36: Every span is ended: however many submitting methods run one after the other with the OpenTelemetry
  hooks, whatever the server answers and whether they succeed, fail or throw, afterwards no span is active,
  every span the tracer started was ended exactly once with a status, and there is exactly one more
  transaction span per call.\<close>

theorem every_span_is_ended:
  assumes "tracer_untouched sdk" "sd_hooks sdk = Some (createOpenTelemetryHooks opts)" "idle (wd_user w)"
  shows "idle (wd_user (perform_all sdk cs w))
    \<and> transactions (wd_user (perform_all sdk cs w)) = transactions (wd_user w) + length cs"
  using assms(3)
proof (induction cs arbitrary: w)
  case (Cons c cs)
  from perform_idle [OF assms(1,2) Cons.prems, of c] Cons.IH [of "snd (perform sdk c w)"]
  show ?case by (simp add: perform_all_def)
qed (simp add: perform_all_def)

text \<open>Two overlapping calls of one method: the span of the first is never ended, and what the first call
  returned is written to the span of the second.\<close>

theorem overlapping_calls_lose_a_span:
  "let s2 = otel_start opts m p2 (otel_start opts m p1 s);
       s' = otel_success m (OneResult r2) d2 (otel_success m (OneResult r1) d1 s2) in
      length (ot_spans s') = length (ot_spans s) + 2
      \<and> sp_ended (ot_spans s' ! length (ot_spans s)) = 0 \<and> sp_status (ot_spans s' ! length (ot_spans s)) = None
      \<and> sp_ended (ot_spans s' ! Suc (length (ot_spans s))) = 1
      \<and> (''bridge.tx.hash'', AttrText (tr_hash r1)) \<in> set (sp_attributes (ot_spans s' ! Suc (length (ot_spans s))))
      \<and> ot_active s' m = None"
proof -
  define s2 where "s2 = otel_start opts m p2 (otel_start opts m p1 s)"
  have active: "ot_active s2 m = Some (Suc (length (ot_spans s)))"
    by (simp add: s2_def otel_start_def Let_def)
  have len: "length (ot_spans s2) = length (ot_spans s) + 2"
    by (simp add: s2_def otel_start_def Let_def)
  have first: "sp_ended (ot_spans s2 ! length (ot_spans s)) = 0" "sp_status (ot_spans s2 ! length (ot_spans s)) = None"
    "sp_ended (ot_spans s2 ! Suc (length (ot_spans s))) = 0"
    by (simp_all add: s2_def otel_start_def Let_def nth_append set_attribute_def new_span_def)
  let ?s3 = "otel_success m (OneResult r1) d1 s2"
  have s3: "otel_success m (OneResult r2) d2 ?s3 = ?s3"
    by (simp add: otel_success_def active change_span_def)
  show ?thesis
    unfolding Let_def s2_def [symmetric] s3
    by (simp add: otel_success_def active change_span_def len first)
      (simp add: end_span_def set_status_def result_attributes_def set_attribute_def Let_def first split: option.split)
qed

text \<open>Composed hooks are isolated: when every member has a state of its own, any sequence of events leaves each
  member in the state it would have reached alone, whichever members throw.\<close>

theorem composed_hooks_are_isolated:
  assumes "length us = length hs"
  shows "snd (fold (deliver (composeHooks (map (\<lambda>i. on_member i (hs ! i)) [0..<length hs]))) evs (con, us))
    = map (\<lambda>i. fold (deliver (hs ! i)) evs (us ! i)) [0..<length hs]"
  using assms
proof (induction evs arbitrary: con us)
  case Nil
  with map_nth [of us] show ?case by simp
next
  case (Cons ev evs)
  let ?h = "composeHooks (map (\<lambda>i. on_member i (hs ! i)) [0..<length hs])"
  obtain con' us' where step: "deliver ?h ev (con, us) = (con', us')" by (rule prod.exhaust)
  have us': "us' = map (\<lambda>i. deliver (hs ! i) ev (us ! i)) [0..<length hs]"
    using deliver_all_members [OF Cons.prems, of ev con] step by simp
  with Cons.IH [of us' con'] show ?case by (simp add: step)
qed

text \<open>The console logger prints the start of a call unless one of its parameters is a bigint, as a nonce or a
  deadline may be: then \<open>JSON.stringify\<close> throws, nothing is logged of the call, and the console gets a
  complaint about the hook instead.\<close>

theorem logger_loses_bigint_calls:
  assumes "sd_hooks sdk = Some ConsoleLogger"
  shows "if has_bigint params
    then fireTransactionStart sdk m params w = w\<lparr>wd_console := wd_console w @
        [''[bridge-sdk] observability hook \"onTransactionStart\" threw: '' @ bigint_error]\<rparr>
    else \<exists>j. fireTransactionStart sdk m params w = w\<lparr>wd_user := wd_user w @ [LogLine [''[bridge-sdk] tx:start  '' @ m, j]]\<rparr>"
proof (cases "has_bigint params")
  case True
  with json_object_total(2) [OF True] assms show ?thesis
    by (simp add: fireTransactionStart_def fire_def safeInvoke_def ConsoleLogger_def)
next
  case False
  then obtain j where "json_object params = Inr j" using json_object_total(1) by blast
  then have "fireTransactionStart sdk m params w = w\<lparr>wd_user := wd_user w @ [LogLine [''[bridge-sdk] tx:start  '' @ m, j]]\<rparr>"
    using assms by (simp add: fireTransactionStart_def fire_def safeInvoke_def ConsoleLogger_def print_line_def)
  with False show ?thesis by auto
qed

section \<open>Examples\<close>

definition traced_sdk :: "(transaction, otel) sdk" where
  "traced_sdk =
     \<lparr>sd_stellar = sample_stellar, sd_contractId = ''CB'', sd_networkPassphrase = ''net'', sd_timeout = None,
      sd_retry = no_options, sd_hooks = Some (createOpenTelemetryHooks \<lparr>oh_traceRpcCalls = None, oh_spanPrefix = None\<rparr>),
      sd_baseReserve = None, sd_provider = sample_provider, sd_now = (\<lambda>_. 0), sd_pick = (\<lambda>_ _. 0), sd_BASE_FEE = ''100''\<rparr>"

definition no_spans :: otel where
  "no_spans = \<lparr>ot_spans = [], ot_active = (\<lambda>_. None)\<rparr>"

lemma every_span_is_ended_witness:
  "transactions (wd_user (perform_all traced_sdk [FundCAddress sample_fund ''GA'', SetFee 5 ''GA'' (Some (IntBig 3))]
     \<lparr>wd_log = [], wd_console = [], wd_user = no_spans\<rparr>)) = 2"
proof -
  have "tracer_untouched traced_sdk" by (simp add: tracer_untouched_def traced_sdk_def no_options_def keeps_seen_def)
  moreover have "sd_hooks traced_sdk = Some (createOpenTelemetryHooks \<lparr>oh_traceRpcCalls = None, oh_spanPrefix = None\<rparr>)"
    by (simp add: traced_sdk_def)
  ultimately show ?thesis
    using every_span_is_ended [of traced_sdk "\<lparr>oh_traceRpcCalls = None, oh_spanPrefix = None\<rparr>"
        "\<lparr>wd_log = [], wd_console = [], wd_user = no_spans\<rparr>"
        "[FundCAddress sample_fund ''GA'', SetFee 5 ''GA'' (Some (IntBig 3))]"]
    by (simp add: idle_def no_spans_def transactions_def)
qed

lemma composed_hooks_are_isolated_witness:
  "snd (deliver (composeHooks [on_member 0 ConsoleLogger, on_member 1 ConsoleLogger])
      (RpcEvent ''m'' [(''nonce'', VBigInt 1)] 2) ([], [[], [LogLine [''x'']]])) = [[], [LogLine [''x'']]]"
proof -
  have "snd (fold (deliver (composeHooks (map (\<lambda>i. on_member i ([ConsoleLogger, ConsoleLogger] ! i)) [0..<length [ConsoleLogger, ConsoleLogger]])))
      [RpcEvent ''m'' [(''nonce'', VBigInt 1)] 2] ([], [[], [LogLine [''x'']]]))
    = map (\<lambda>i. fold (deliver ([ConsoleLogger, ConsoleLogger] ! i)) [RpcEvent ''m'' [(''nonce'', VBigInt 1)] 2]
        ([[], [LogLine [''x'']]] ! i)) [0..<length [ConsoleLogger, ConsoleLogger]]"
    by (rule composed_hooks_are_isolated) simp
  moreover have "json_object [(''nonce'', VBigInt 1)] = Inl bigint_error"
    by (simp add: json_object_total has_bigint_def)
  ultimately show ?thesis by (simp add: deliver_def ConsoleLogger_def)
qed

definition logged_sdk :: "(transaction, console_line list) sdk" where
  "logged_sdk =
     \<lparr>sd_stellar = sample_stellar, sd_contractId = ''CB'', sd_networkPassphrase = ''net'', sd_timeout = None,
      sd_retry = no_options, sd_hooks = Some ConsoleLogger, sd_baseReserve = None, sd_provider = sample_provider,
      sd_now = (\<lambda>_. 0), sd_pick = (\<lambda>_ _. 0), sd_BASE_FEE = ''100''\<rparr>"

lemma logger_loses_bigint_calls_witness:
  "wd_user (fireTransactionStart logged_sdk ''setFee'' [(''feeBps'', VNumber 5), (''nonce'', VBigInt 3)]
     \<lparr>wd_log = [], wd_console = [], wd_user = []\<rparr>) = []"
proof -
  have "sd_hooks logged_sdk = Some ConsoleLogger" by (simp add: logged_sdk_def)
  moreover have "has_bigint [(''feeBps'', VNumber 5), (''nonce'', VBigInt 3)]" by (simp add: has_bigint_def)
  ultimately show ?thesis
    using logger_loses_bigint_calls [of logged_sdk "[(''feeBps'', VNumber 5), (''nonce'', VBigInt 3)]" "''setFee''"
        "\<lparr>wd_log = [], wd_console = [], wd_user = []\<rparr>"]
    by (simp only: if_True simp_thms) simp
qed

end
