(* ===== verification/Deploy.thy ===== *)
theory Deploy
  imports Sdk_Submit
begin

text \<open>
  The deployment script (\<open>scripts/deploy.ts\<close>): flags, configuration files, the upload of the WASM, the creation
  of the contract with its constructor arguments, the bounded wait for a transaction, and the entry point.  The
  RPC server answers from the history of the requests; keys, hashing, random bytes, XDR and the network
  passphrases are the parameter \<open>deploy_platform\<close>.  A file holds the text of a configuration or other bytes;
  a configuration is the object \<open>JSON.parse\<close> makes of the text.  Files do not change during a run.  Console
  lines are without their ornaments (ellipsis, check mark, blank lines).
\<close>

section \<open>Configuration and the outside world\<close>

datatype network_name = Mainnet | Testnet | Dev

text \<open>\<open>Partial<DeployConfig>\<close>: what a file holds.  The network of the file is never read.\<close>

record raw_config =
  rw_rpcUrl :: "string option"
  rw_networkPassphrase :: "string option"
  rw_adminSecretKey :: "string option"
  rw_feeCollectorPublicKey :: "string option"
  rw_feeBps :: "int option"
  rw_wasmPath :: "string option"

record deploy_config =
  dc_network :: network_name
  dc_rpcUrl :: string
  dc_networkPassphrase :: string
  dc_adminSecretKey :: string
  dc_feeCollectorPublicKey :: string
  dc_feeBps :: int
  dc_wasmPath :: string

datatype deploy_file = ConfigText raw_config | OtherBytes "byte list"

datatype deploy_operation =
    UploadContractWasm "byte list"
  | CreateCustomContract string "byte list" "byte list" "scval list"
  | CallContract string string "scval list"

record deploy_tx =
  dt_account :: account
  dt_fee :: string
  dt_passphrase :: string
  dt_operation :: deploy_operation
  dt_timeout :: int

text \<open>\<open>signed\<close> transactions carry the public key of the signer.\<close>

datatype 'p deploy_call =
    AskAccount string
  | AskPrepare deploy_tx
  | AskSend 'p string
  | AskTransaction string

datatype 'p deploy_activity = Asked "'p deploy_call" | Waited int

text \<open>\<open>resultXdr\<close> and \<open>resultMetaXdr\<close> as base64 texts.\<close>

record deploy_reply =
  dr_status :: string
  dr_resultXdr :: "string option"
  dr_resultMetaXdr :: "string option"

record 'p deploy_server =
  ds_getAccount :: "'p deploy_activity list \<Rightarrow> string \<Rightarrow> thrown + account"
  ds_prepareTransaction :: "'p deploy_activity list \<Rightarrow> deploy_tx \<Rightarrow> thrown + 'p"
  ds_sendTransaction :: "'p deploy_activity list \<Rightarrow> 'p \<Rightarrow> string \<Rightarrow> thrown + string"
  ds_getTransaction :: "'p deploy_activity list \<Rightarrow> string \<Rightarrow> thrown + deploy_reply"

text \<open>\<open>dp_sorobanMeta\<close> decodes the metadata up to \<open>sorobanMeta().returnValue()\<close>, either of which may be absent.\<close>

record 'p deploy_platform =
  dp_stellar :: stellar
  dp_passphrase :: "network_name \<Rightarrow> string"
  dp_publicKey :: "string \<Rightarrow> thrown + string"
  dp_Contract :: "string \<Rightarrow> thrown option"
  dp_connect :: "string \<Rightarrow> bool \<Rightarrow> thrown + 'p deploy_server"
  dp_sha256 :: "byte list \<Rightarrow> byte list"
  dp_randomBytes :: "byte list"
  dp_sorobanMeta :: "string \<Rightarrow> thrown + scval option option"
  dp_addressText :: "scval \<Rightarrow> thrown + string"
  dp_stringify :: "deploy_reply \<Rightarrow> string"
  dp_configText :: "raw_config \<Rightarrow> byte list"
  dp_BASE_FEE :: string

record 'p deploy_world =
  dw_log :: "'p deploy_activity list"
  dw_console :: "string list"
  dw_files :: "string \<Rightarrow> deploy_file option"

text \<open>\<open>process.exit(code)\<close> ends the run, a throw rejects it.\<close>

datatype stop = Exited int | Rejected thrown

type_synonym ('p, 'a) script = "('p deploy_world, stop, 'a) op"

definition say :: "string \<Rightarrow> ('p, unit) script" where
  "say line w = (Inr (), w\<lparr>dw_console := dw_console w @ [line]\<rparr>)"

definition exit_with :: "int \<Rightarrow> ('p, 'a) script" where
  "exit_with code = throw (Exited code)"

definition attempt :: "thrown + 'a \<Rightarrow> ('p, 'a) script" where
  "attempt x = (case x of Inl e \<Rightarrow> throw (Rejected e) | Inr a \<Rightarrow> give a)"

definition asking :: "('p deploy_activity list \<Rightarrow> thrown + 'a) \<Rightarrow> 'p deploy_call \<Rightarrow> ('p, 'a) script" where
  "asking answer c w =
     (case answer (dw_log w) of
        Inl e \<Rightarrow> (Inl (Rejected e), w\<lparr>dw_log := dw_log w @ [Asked c]\<rparr>)
      | Inr a \<Rightarrow> (Inr a, w\<lparr>dw_log := dw_log w @ [Asked c]\<rparr>))"

definition deploy_sleep :: "int \<Rightarrow> ('p, unit) script" where
  "deploy_sleep ms w = (Inr (), w\<lparr>dw_log := dw_log w @ [Waited ms]\<rparr>)"

text \<open>\<open>fs.readFileSync\<close>.\<close>

definition read_bytes :: "'p deploy_platform \<Rightarrow> string \<Rightarrow> ('p, byte list) script" where
  "read_bytes K file w =
     (case dw_files w file of
        None \<Rightarrow> (Inl (Rejected (error_of (''ENOENT: no such file or directory, open '' @ file))), w)
      | Some (OtherBytes bs) \<Rightarrow> (Inr bs, w)
      | Some (ConfigText c) \<Rightarrow> (Inr (dp_configText K c), w))"

section \<open>Flags and configuration\<close>

text \<open>The value after the first occurrence of a flag, unless it is missing or empty.\<close>

fun flag_value :: "string \<Rightarrow> string list \<Rightarrow> string option" where
  "flag_value flag [] = None"
| "flag_value flag (a # args) =
     (if a = flag then (case args of v # _ \<Rightarrow> if v = [] then None else Some v | [] \<Rightarrow> None)
      else flag_value flag args)"

definition network_text :: "network_name \<Rightarrow> string" where
  "network_text n = (case n of Mainnet \<Rightarrow> ''mainnet'' | Testnet \<Rightarrow> ''testnet'' | Dev \<Rightarrow> ''dev'')"

definition parseNetworkArg :: "string list \<Rightarrow> ('p, network_name) script" where
  "parseNetworkArg argv =
     (case flag_value ''--network'' argv of
        None \<Rightarrow> give Testnet
      | Some n \<Rightarrow>
          if n = ''mainnet'' then give Mainnet else if n = ''testnet'' then give Testnet else if n = ''dev'' then give Dev
          else and_then (say (''Unknown network \"'' @ n @ ''\". Valid options: mainnet, testnet, dev'')) (\<lambda>_. exit_with 1))"

definition parseSaltArg :: "'p deploy_platform \<Rightarrow> string list \<Rightarrow> ('p, byte list) script" where
  "parseSaltArg K argv =
     (case flag_value ''--salt'' argv of
        None \<Rightarrow> give (dp_randomBytes K)
      | Some hex \<Rightarrow>
          if matches_hex 64 hex then give (bytes_of_hex hex)
          else and_then (say ''Invalid --salt: expected 64 hex characters (32 bytes).'') (\<lambda>_. exit_with 1))"

definition default_rpcUrl :: "network_name \<Rightarrow> string" where
  "default_rpcUrl n =
     (case n of Mainnet \<Rightarrow> ''https://mainnet.sorobanrpc.com'' | Testnet \<Rightarrow> ''https://soroban-testnet.stellar.org''
      | Dev \<Rightarrow> ''http://localhost:8000/soroban/rpc'')"

definition default_wasmPath :: string where
  "default_wasmPath = ''./target/wasm32-unknown-unknown/release/onboarding_bridge.wasm''"

definition config_of :: "'p deploy_platform \<Rightarrow> network_name \<Rightarrow> raw_config \<Rightarrow> deploy_config" where
  "config_of K n raw =
     \<lparr>dc_network = n, dc_rpcUrl = or_else (rw_rpcUrl raw) (default_rpcUrl n),
      dc_networkPassphrase = or_else (rw_networkPassphrase raw) (dp_passphrase K n),
      dc_adminSecretKey = or_else (rw_adminSecretKey raw) [], dc_feeCollectorPublicKey = or_else (rw_feeCollectorPublicKey raw) [],
      dc_feeBps = or_else (rw_feeBps raw) 50, dc_wasmPath = or_else (rw_wasmPath raw) default_wasmPath\<rparr>"

definition template_config :: "'p deploy_platform \<Rightarrow> network_name \<Rightarrow> raw_config" where
  "template_config K n =
     \<lparr>rw_rpcUrl = Some (default_rpcUrl n), rw_networkPassphrase = Some (dp_passphrase K n),
      rw_adminSecretKey = Some ''S...YOUR_ADMIN_SECRET_KEY'',
      rw_feeCollectorPublicKey = Some ''G...YOUR_FEE_COLLECTOR_PUBLIC_KEY'', rw_feeBps = Some 50,
      rw_wasmPath = Some default_wasmPath\<rparr>"

definition config_path :: "string \<Rightarrow> network_name \<Rightarrow> string" where
  "config_path cwd n = cwd @ ''/deploy-config.'' @ network_text n @ ''.json''"

definition parse_config :: "deploy_file \<Rightarrow> thrown + raw_config" where
  "parse_config f = (case f of ConfigText raw \<Rightarrow> Inr raw | OtherBytes _ \<Rightarrow> Inl (error_of ''Unexpected token in JSON''))"

definition loadConfig :: "'p deploy_platform \<Rightarrow> string \<Rightarrow> network_name \<Rightarrow> ('p, deploy_config) script" where
  "loadConfig K cwd n w =
     (case List.map_filter (dw_files w) [config_path cwd n, cwd @ ''/deploy-config.json''] of
        f # _ \<Rightarrow> and_then (attempt (parse_config f)) (\<lambda>raw. give (config_of K n raw)) w
      | [] \<Rightarrow>
          and_then (say (''No config found. Created template at '' @ config_path cwd n))
            (\<lambda>_. and_then (say ''Edit it with real values and re-run.'') (\<lambda>_. exit_with 0))
            (w\<lparr>dw_files := (dw_files w)(config_path cwd n \<mapsto> ConfigText (template_config K n))\<rparr>))"

section \<open>Transactions\<close>

text \<open>\<open>poll\<close>: \<open>left\<close> counts the iterations that remain of \<open>retries\<close>.\<close>

fun deploy_poll :: "'p deploy_server \<Rightarrow> string \<Rightarrow> nat \<Rightarrow> nat \<Rightarrow> 'p deploy_world \<Rightarrow> (stop + deploy_reply) \<times> 'p deploy_world" where
  "deploy_poll server hash retries 0 w =
     (Inl (Rejected (error_of (''Transaction '' @ hash @ '' was not confirmed after '' @ dec_of_nat (retries * 2) @ ''s''))), w)"
| "deploy_poll server hash retries (Suc left) w =
     and_then (asking (\<lambda>h. ds_getTransaction server h hash) (AskTransaction hash)) (\<lambda>r.
       if dr_status r = ''FAILED'' then
         throw (Rejected (error_of (''Transaction '' @ hash @ '' failed: '' @ or_else (dr_resultXdr r) ''no result XDR'')))
       else if dr_status r \<noteq> ''NOT_FOUND'' then give r
       else and_then (deploy_sleep 2000) (\<lambda>_ w'. deploy_poll server hash retries left w')) w"

definition submitAndConfirm ::
  "'p deploy_platform \<Rightarrow> 'p deploy_server \<Rightarrow> string \<Rightarrow> (account \<Rightarrow> deploy_tx) \<Rightarrow> ('p, deploy_reply) script" where
  "submitAndConfirm K server admin build =
     and_then (asking (\<lambda>h. ds_getAccount server h admin) (AskAccount admin)) (\<lambda>account.
     and_then (asking (\<lambda>h. ds_prepareTransaction server h (build account)) (AskPrepare (build account))) (\<lambda>prepared.
     and_then (asking (\<lambda>h. ds_sendTransaction server h prepared admin) (AskSend prepared admin)) (\<lambda>hash.
     and_then (say (''  Tx: '' @ hash)) (\<lambda>_.
     and_then (deploy_poll server hash 20 20) (\<lambda>result.
       if dr_status result = ''FAILED''
       then throw (Rejected (error_of (''Transaction '' @ hash @ '' failed: '' @ dp_stringify K result)))
       else give result)))))"

definition deploy_transaction :: "'p deploy_platform \<Rightarrow> deploy_config \<Rightarrow> deploy_operation \<Rightarrow> account \<Rightarrow> deploy_tx" where
  "deploy_transaction K cfg operation account =
     \<lparr>dt_account = account, dt_fee = dp_BASE_FEE K, dt_passphrase = dc_networkPassphrase cfg, dt_operation = operation,
      dt_timeout = 30\<rparr>"

text \<open>The arguments of the constructor, and of \<open>initialize_with_wasm_hash\<close>.\<close>

definition constructor_args :: "'p deploy_platform \<Rightarrow> deploy_config \<Rightarrow> string \<Rightarrow> byte list \<Rightarrow> thrown + scval list" where
  "constructor_args K cfg admin wasmHash =
     all_of [addressScVal (dp_stellar K) admin, addressScVal (dp_stellar K) (dc_feeCollectorPublicKey cfg),
             st_typed (dp_stellar K) ''u32'' (ArgInt (dc_feeBps cfg)), st_native (dp_stellar K) ArgNull,
             st_typed (dp_stellar K) ''bytes'' (ArgBytes wasmHash)]"

definition extractContractId :: "'p deploy_platform \<Rightarrow> deploy_reply \<Rightarrow> thrown + string option" where
  "extractContractId K result =
     (if dr_status result \<noteq> ''SUCCESS'' then Inr None
      else case dr_resultMetaXdr result of
        None \<Rightarrow> Inr None
      | Some meta \<Rightarrow>
          if meta = [] then Inr None
          else bind_sum (dp_sorobanMeta K meta) (\<lambda>sorobanMeta.
            case Option.bind sorobanMeta (\<lambda>v. v) of
              None \<Rightarrow> Inr None
            | Some returnValue \<Rightarrow> bind_sum (dp_addressText K returnValue) (\<lambda>a. Inr (Some a))))"

text \<open>\<open>if (!contractId) throw ...\<close>, else the identifier is printed and returned.\<close>

definition report_contract :: "string option \<Rightarrow> ('p, string) script" where
  "report_contract contractId =
     (let cid = or_else contractId [] in
      if cid = [] then throw (Rejected (error_of ''Contract deployment succeeded but returned no contractId''))
      else and_then (say (''  Contract ID: '' @ cid)) (\<lambda>_. give cid))"

definition deployContract ::
  "'p deploy_platform \<Rightarrow> string list \<Rightarrow> 'p deploy_server \<Rightarrow> deploy_config \<Rightarrow> string \<Rightarrow> byte list \<Rightarrow> ('p, string) script" where
  "deployContract K argv server cfg admin wasmHash =
     and_then (read_bytes K (dc_wasmPath cfg)) (\<lambda>wasm.
     and_then (say ''Installing WASM'') (\<lambda>_.
     and_then (submitAndConfirm K server admin (deploy_transaction K cfg (UploadContractWasm wasm))) (\<lambda>_.
     and_then (say ''  WASM installed'') (\<lambda>_.
     and_then (say ''Creating contract instance'') (\<lambda>_.
     and_then (parseSaltArg K argv) (\<lambda>salt.
     and_then (attempt (constructor_args K cfg admin wasmHash)) (\<lambda>args.
     and_then (submitAndConfirm K server admin (deploy_transaction K cfg (CreateCustomContract admin wasmHash salt args))) (\<lambda>createResult.
     and_then (attempt (extractContractId K createResult)) (\<lambda>contractId.
       report_contract contractId)))))))))"

definition initialize ::
  "'p deploy_platform \<Rightarrow> 'p deploy_server \<Rightarrow> deploy_config \<Rightarrow> string \<Rightarrow> string \<Rightarrow> byte list \<Rightarrow> ('p, unit) script" where
  "initialize K server cfg admin contractId wasmHash =
     and_then (say (''Initializing contract '' @ contractId)) (\<lambda>_.
     and_then (attempt (case dp_Contract K contractId of Some e \<Rightarrow> Inl e | None \<Rightarrow> Inr ())) (\<lambda>_.
     and_then (asking (\<lambda>h. ds_getAccount server h admin) (AskAccount admin)) (\<lambda>account.
     and_then (attempt (constructor_args K cfg admin wasmHash)) (\<lambda>args.
     let tx = deploy_transaction K cfg (CallContract contractId ''initialize_with_wasm_hash'' args) account in
     and_then (asking (\<lambda>h. ds_prepareTransaction server h tx) (AskPrepare tx)) (\<lambda>prepared.
     and_then (asking (\<lambda>h. ds_sendTransaction server h prepared admin) (AskSend prepared admin)) (\<lambda>hash.
     and_then (say (''  Init tx: '' @ hash)) (\<lambda>_.
     and_then (deploy_poll server hash 20 20) (\<lambda>_.
     say ''  Initialized successfully''))))))))"

section \<open>The entry point\<close>

definition is_flag :: "string \<Rightarrow> bool" where
  "is_flag a = (a = ''--network'' \<or> a = ''--salt'')"

text \<open>\<open>process.argv.slice(2)\<close> without the flags and whatever follows one.\<close>

fun without_flags :: "bool \<Rightarrow> string list \<Rightarrow> string list" where
  "without_flags after_flag [] = []"
| "without_flags after_flag (a # args) =
     (if after_flag \<or> is_flag a then without_flags (is_flag a) args else a # without_flags False args)"

definition filteredArgv :: "string list \<Rightarrow> string list" where
  "filteredArgv argv = without_flags False (drop 2 argv)"

definition argument :: "nat \<Rightarrow> string list \<Rightarrow> string option" where
  "argument i args = (if i < length args then Some (args ! i) else None)"

text \<open>What \<open>main\<close> does once the key pair and the server are there.\<close>

definition deploy_banner :: "deploy_config \<Rightarrow> string \<Rightarrow> string list" where
  "deploy_banner cfg admin =
     [''=== C-Address Onboarding Bridge Deployment ==='', ''Network:  '' @ network_text (dc_network cfg),
      ''RPC:      '' @ dc_rpcUrl cfg, ''Admin:    '' @ admin, ''FeeBps:   '' @ dec_of_int (dc_feeBps cfg)]"

definition usage :: "('p, unit) script" where
  "usage = and_then (say ''Usage: npx ts-node scripts/deploy.ts init <contract_id> [--network <network>]'') (\<lambda>_. exit_with 1)"

definition run_command ::
  "'p deploy_platform \<Rightarrow> string list \<Rightarrow> 'p deploy_server \<Rightarrow> deploy_config \<Rightarrow> string \<Rightarrow> ('p, unit) script" where
  "run_command K argv server cfg admin =
     (let command = argument 0 (filteredArgv argv); customId = or_else (argument 1 (filteredArgv argv)) [] in
      and_then (\<lambda>w. (Inr (), w\<lparr>dw_console := dw_console w @ deploy_banner cfg admin\<rparr>)) (\<lambda>_.
      if command = Some ''deploy'' \<or> command = Some ''all'' then
        and_then (read_bytes K (dc_wasmPath cfg)) (\<lambda>wasm.
        and_then (deployContract K argv server cfg admin (dp_sha256 K wasm)) (\<lambda>contractId.
        say (''Deployment complete. CONTRACT_ID='' @ contractId)))
      else if command = Some ''init'' then
        if customId = [] then usage
        else and_then (read_bytes K (dc_wasmPath cfg)) (\<lambda>wasm. initialize K server cfg admin customId (dp_sha256 K wasm))
      else
        and_then (say (''Unknown command \"'' @ or_else command ''undefined'' @ ''\". Valid commands: all, deploy, init''))
          (\<lambda>_. exit_with 1)))"

definition deploy_main :: "'p deploy_platform \<Rightarrow> string \<Rightarrow> string list \<Rightarrow> ('p, unit) script" where
  "deploy_main K cwd argv =
     and_then (parseNetworkArg argv) (\<lambda>network.
     and_then (loadConfig K cwd network) (\<lambda>cfg.
     if dc_adminSecretKey cfg = [] \<or> prefix ''S...'' (dc_adminSecretKey cfg) then
       and_then (say ''adminSecretKey is not set in your deploy-config file. Aborting.'') (\<lambda>_. exit_with 1)
     else
       and_then (attempt (dp_publicKey K (dc_adminSecretKey cfg))) (\<lambda>admin.
       and_then (attempt (dp_connect K (dc_rpcUrl cfg) (dc_network cfg = Dev))) (\<lambda>server.
       run_command K argv server cfg admin))))"

text \<open>\<open>main().catch(...)\<close>: the exit code of the process.\<close>

definition exit_code :: "stop + unit \<Rightarrow> int" where
  "exit_code r = (case r of Inr _ \<Rightarrow> 0 | Inl (Exited code) \<Rightarrow> code | Inl (Rejected e) \<Rightarrow> 1)"

section \<open>What a run does, step by step\<close>

lemma and_then_returns:
  "and_then m f w = (Inr b, w') \<longleftrightarrow> (\<exists>a w1. m w = (Inr a, w1) \<and> f a w1 = (Inr b, w'))"
  by (auto simp: and_then_def split: prod.splits sum.splits)

lemma and_then_stops:
  "and_then m f w = (Inl e, w') \<longleftrightarrow> m w = (Inl e, w') \<or> (\<exists>a w1. m w = (Inr a, w1) \<and> f a w1 = (Inl e, w'))"
  by (auto simp: and_then_def split: prod.splits sum.splits)

lemma say_simps [simp]: "say l w = (Inr (), w\<lparr>dw_console := dw_console w @ [l]\<rparr>)"
  by (simp add: say_def)

lemma exit_simps [simp]: "exit_with code w = (Inl (Exited code), w)"
  by (simp add: exit_with_def)

lemma attempt_returns [simp]: "attempt x w = (Inr a, w') \<longleftrightarrow> x = Inr a \<and> w' = w"
  by (auto simp: attempt_def split: sum.splits)

lemma asking_returns [simp]:
  "asking answer c w = (Inr a, w') \<longleftrightarrow> answer (dw_log w) = Inr a \<and> w' = w\<lparr>dw_log := dw_log w @ [Asked c]\<rparr>"
  by (auto simp: asking_def split: sum.splits)

lemma read_bytes_returns: "read_bytes K file w = (Inr bs, w') \<longleftrightarrow> fst (read_bytes K file w) = Inr bs \<and> w' = w"
  by (auto simp: read_bytes_def split: option.splits deploy_file.splits)

lemma report_returns:
  "report_contract x w = (Inr cid, w') \<longleftrightarrow>
     x = Some cid \<and> cid \<noteq> [] \<and> w' = w\<lparr>dw_console := dw_console w @ [''  Contract ID: '' @ cid]\<rparr>"
  by (cases x) (auto simp: report_contract_def Let_def and_then_def)

text \<open>The salt a run may use.\<close>

definition chosen_salt :: "'p deploy_platform \<Rightarrow> string list \<Rightarrow> byte list \<Rightarrow> bool" where
  "chosen_salt K argv salt =
     (case flag_value ''--salt'' argv of None \<Rightarrow> salt = dp_randomBytes K
      | Some hex \<Rightarrow> matches_hex 64 hex \<and> salt = bytes_of_hex hex)"

lemma parse_salt_returns: "parseSaltArg K argv w = (Inr salt, w') \<longleftrightarrow> w' = w \<and> chosen_salt K argv salt"
  by (auto simp: parseSaltArg_def and_then_def chosen_salt_def split: option.splits)

text \<open>The operations prepared and the signatures sent, in order.\<close>

fun operation_of :: "'p deploy_activity \<Rightarrow> deploy_operation option" where
  "operation_of (Asked (AskPrepare tx)) = Some (dt_operation tx)"
| "operation_of a = None"

fun sender_of :: "'p deploy_activity \<Rightarrow> string option" where
  "sender_of (Asked (AskSend p admin)) = Some admin"
| "sender_of a = None"

definition operations :: "'p deploy_world \<Rightarrow> deploy_operation list" where
  "operations w = List.map_filter operation_of (dw_log w)"

definition senders :: "'p deploy_world \<Rightarrow> string list" where
  "senders w = List.map_filter sender_of (dw_log w)"

lemma map_filter_append: "List.map_filter f (xs @ ys) = List.map_filter f xs @ List.map_filter f ys"
  by (simp add: List.map_filter_def)

section \<open>The wait\<close>

text \<open>The history after \<open>j\<close> polls that found nothing, and the answer to the next one.\<close>

definition after_polls :: "'p deploy_activity list \<Rightarrow> string \<Rightarrow> nat \<Rightarrow> 'p deploy_activity list" where
  "after_polls h hash j = h @ concat (replicate j [Asked (AskTransaction hash), Waited 2000])"

definition poll_answer :: "'p deploy_server \<Rightarrow> 'p deploy_activity list \<Rightarrow> string \<Rightarrow> nat \<Rightarrow> thrown + deploy_reply" where
  "poll_answer server h hash j = ds_getTransaction server (after_polls h hash j) hash"

definition not_found :: "thrown + deploy_reply \<Rightarrow> bool" where
  "not_found a = (case a of Inl _ \<Rightarrow> False | Inr r \<Rightarrow> dr_status r = ''NOT_FOUND'')"

definition poll_result :: "string \<Rightarrow> thrown + deploy_reply \<Rightarrow> stop + deploy_reply" where
  "poll_result hash a =
     (case a of
        Inl e \<Rightarrow> Inl (Rejected e)
      | Inr r \<Rightarrow>
          if dr_status r = ''FAILED''
          then Inl (Rejected (error_of (''Transaction '' @ hash @ '' failed: '' @ or_else (dr_resultXdr r) ''no result XDR'')))
          else Inr r)"

lemma after_polls_simps: "after_polls h hash 0 = h"
    "after_polls (h @ [Asked (AskTransaction hash), Waited 2000]) hash j = after_polls h hash (Suc j)"
  by (simp_all add: after_polls_def)

lemma poll_answer_Suc: "poll_answer server (h @ [Asked (AskTransaction hash), Waited 2000]) hash j = poll_answer server h hash (Suc j)"
  by (simp add: poll_answer_def after_polls_simps)

lemma deploy_poll_found:
  assumes "j < left" "\<And>i. i < j \<Longrightarrow> not_found (poll_answer server (dw_log w) hash i)"
    and "\<not> not_found (poll_answer server (dw_log w) hash j)"
  shows "deploy_poll server hash retries left w = (poll_result hash (poll_answer server (dw_log w) hash j),
    w\<lparr>dw_log := after_polls (dw_log w) hash j @ [Asked (AskTransaction hash)]\<rparr>)"
  using assms
proof (induction left arbitrary: w j)
  case (Suc left)
  show ?case
  proof (cases j)
    case 0
    with Suc.prems(3) show ?thesis
      by (auto simp: asking_def and_then_def poll_answer_def after_polls_simps not_found_def poll_result_def throw_def give_def
          split: sum.splits)
  next
    case (Suc k)
    let ?w = "w\<lparr>dw_log := dw_log w @ [Asked (AskTransaction hash), Waited 2000]\<rparr>"
    have first: "not_found (poll_answer server (dw_log w) hash 0)" using Suc.prems(2) Suc by simp
    then have "deploy_poll server hash retries (Suc left) w = deploy_poll server hash retries left ?w"
      by (auto simp: asking_def and_then_def poll_answer_def after_polls_simps not_found_def deploy_sleep_def split: sum.splits)
    moreover have "deploy_poll server hash retries left ?w = (poll_result hash (poll_answer server (dw_log ?w) hash k),
        ?w\<lparr>dw_log := after_polls (dw_log ?w) hash k @ [Asked (AskTransaction hash)]\<rparr>)"
    proof (rule Suc.IH)
      show "k < left" using Suc.prems(1) Suc by simp
      show "not_found (poll_answer server (dw_log ?w) hash i)" if "i < k" for i
        using Suc.prems(2) [of "Suc i"] that Suc by (simp add: poll_answer_Suc)
      show "\<not> not_found (poll_answer server (dw_log ?w) hash k)" using Suc.prems(3) Suc by (simp add: poll_answer_Suc)
    qed
    ultimately show ?thesis using Suc by (simp add: poll_answer_Suc after_polls_simps)
  qed
qed simp

lemma deploy_poll_gives_up:
  assumes "\<And>i. i < left \<Longrightarrow> not_found (poll_answer server (dw_log w) hash i)"
  shows "deploy_poll server hash retries left w =
    (Inl (Rejected (error_of (''Transaction '' @ hash @ '' was not confirmed after '' @ dec_of_nat (retries * 2) @ ''s''))),
     w\<lparr>dw_log := after_polls (dw_log w) hash left\<rparr>)"
  using assms
proof (induction left arbitrary: w)
  case 0
  then show ?case by (simp add: after_polls_simps)
next
  case (Suc left)
  let ?w = "w\<lparr>dw_log := dw_log w @ [Asked (AskTransaction hash), Waited 2000]\<rparr>"
  have "not_found (poll_answer server (dw_log w) hash 0)" using Suc.prems by simp
  then have "deploy_poll server hash retries (Suc left) w = deploy_poll server hash retries left ?w"
    by (auto simp: asking_def and_then_def poll_answer_def after_polls_simps not_found_def deploy_sleep_def split: sum.splits)
  moreover have "not_found (poll_answer server (dw_log ?w) hash i)" if "i < left" for i
    using Suc.prems [of "Suc i"] that by (simp add: poll_answer_Suc)
  ultimately show ?case using Suc.IH [of ?w] by (simp add: after_polls_simps)
qed

text \<open>Either case, for any number of retries.\<close>

lemma deploy_poll_cases:
  assumes "deploy_poll server hash retries left w = (r, w')"
  obtains (found) j where "j < left" "\<And>i. i < j \<Longrightarrow> not_found (poll_answer server (dw_log w) hash i)"
      "\<not> not_found (poll_answer server (dw_log w) hash j)" "r = poll_result hash (poll_answer server (dw_log w) hash j)"
      "w' = w\<lparr>dw_log := after_polls (dw_log w) hash j @ [Asked (AskTransaction hash)]\<rparr>"
  | (gave_up) "\<And>i. i < left \<Longrightarrow> not_found (poll_answer server (dw_log w) hash i)" "\<exists>e. r = Inl (Rejected e)"
      "w' = w\<lparr>dw_log := after_polls (dw_log w) hash left\<rparr>"
proof (cases "\<exists>j < left. \<not> not_found (poll_answer server (dw_log w) hash j)")
  case True
  define j where "j = (LEAST j. j < left \<and> \<not> not_found (poll_answer server (dw_log w) hash j))"
  from True have j: "j < left" "\<not> not_found (poll_answer server (dw_log w) hash j)"
    unfolding j_def by (metis (mono_tags, lifting) LeastI)+
  have before: "not_found (poll_answer server (dw_log w) hash i)" if "i < j" for i
    using not_less_Least [OF that [unfolded j_def]] that j(1) by simp
  from deploy_poll_found [OF j(1) before j(2)] assms found [OF j(1) before j(2)] show thesis by simp
next
  case False
  then have "not_found (poll_answer server (dw_log w) hash i)" if "i < left" for i using that by blast
  with deploy_poll_gives_up [OF this] assms gave_up show thesis by auto
qed

lemma wait_frame:
  assumes "deploy_poll server hash retries left w = (r, w')"
  shows "operations w' = operations w \<and> senders w' = senders w \<and> dw_console w' = dw_console w \<and> dw_files w' = dw_files w"
proof -
  have quiet: "List.map_filter operation_of (after_polls h hash j) = List.map_filter operation_of h"
    "List.map_filter sender_of (after_polls h hash j) = List.map_filter sender_of h" for h :: "'a deploy_activity list" and j
    by (induction j; simp add: after_polls_def map_filter_append List.map_filter_simps)+
  from assms show ?thesis
    by (cases rule: deploy_poll_cases) (simp_all add: operations_def senders_def quiet map_filter_append List.map_filter_simps)
qed

text \<open>What was confirmed is the server's answer for that transaction.\<close>

definition confirmed_reply :: "'p deploy_server \<Rightarrow> string \<Rightarrow> deploy_reply \<Rightarrow> bool" where
  "confirmed_reply server hash reply \<longleftrightarrow> (\<exists>h. ds_getTransaction server h hash = Inr reply)
     \<and> dr_status reply \<noteq> ''FAILED'' \<and> dr_status reply \<noteq> ''NOT_FOUND''"

lemma wait_returns:
  assumes "deploy_poll server hash retries left w = (Inr reply, w')"
  shows "confirmed_reply server hash reply"
  using assms
proof (cases rule: deploy_poll_cases)
  case (found j)
  then obtain h where "ds_getTransaction server h hash = Inr reply" "dr_status reply \<noteq> ''FAILED''" "dr_status reply \<noteq> ''NOT_FOUND''"
    by (auto simp: poll_result_def poll_answer_def not_found_def split: sum.splits if_splits)
  then show ?thesis by (auto simp: confirmed_reply_def)
qed auto

section \<open>One transaction\<close>

lemma submit_returns:
  assumes "submitAndConfirm K server admin build w = (Inr reply, w')"
  shows "\<exists>account prepared hash h1 h2 h3. ds_getAccount server h1 admin = Inr account
    \<and> ds_prepareTransaction server h2 (build account) = Inr prepared \<and> ds_sendTransaction server h3 prepared admin = Inr hash
    \<and> confirmed_reply server hash reply
    \<and> operations w' = operations w @ [dt_operation (build account)] \<and> senders w' = senders w @ [admin] \<and> dw_files w' = dw_files w"
proof -
  from assms obtain account prepared hash w1 where run:
    "ds_getAccount server (dw_log w) admin = Inr account"
    "ds_prepareTransaction server (dw_log w @ [Asked (AskAccount admin)]) (build account) = Inr prepared"
    "ds_sendTransaction server (dw_log w @ [Asked (AskAccount admin), Asked (AskPrepare (build account))]) prepared admin = Inr hash"
    "w1 = w\<lparr>dw_log := dw_log w @ [Asked (AskAccount admin), Asked (AskPrepare (build account)), Asked (AskSend prepared admin)],
            dw_console := dw_console w @ [''  Tx: '' @ hash]\<rparr>"
    "deploy_poll server hash 20 20 w1 = (Inr reply, w')"
    by (auto simp: submitAndConfirm_def and_then_returns split: if_splits)
  have "operations w1 = operations w @ [dt_operation (build account)]" "senders w1 = senders w @ [admin]" "dw_files w1 = dw_files w"
    using run(4) by (simp_all add: operations_def senders_def map_filter_append List.map_filter_simps)
  with wait_frame [OF run(5)] wait_returns [OF run(5)] run(1-3) show ?thesis by metis
qed

lemma operation_of_deployment [simp]: "dt_operation (deploy_transaction K cfg op account) = op"
  by (simp add: deploy_transaction_def)

lemma frame_simps [simp]:
  "operations (w\<lparr>dw_console := c\<rparr>) = operations w" "senders (w\<lparr>dw_console := c\<rparr>) = senders w"
  by (simp_all add: operations_def senders_def)

lemma deploy_contract_returns:
  assumes "deployContract K argv server cfg admin wasmHash w = (Inr cid, w')"
  shows "\<exists>wasm salt args hash reply. fst (read_bytes K (dc_wasmPath cfg) w) = Inr wasm \<and> chosen_salt K argv salt
    \<and> constructor_args K cfg admin wasmHash = Inr args \<and> confirmed_reply server hash reply
    \<and> extractContractId K reply = Inr (Some cid) \<and> cid \<noteq> []
    \<and> operations w' = operations w @ [UploadContractWasm wasm, CreateCustomContract admin wasmHash salt args]
    \<and> senders w' = senders w @ [admin, admin]"
proof -
  from assms obtain wasm reply1 w1 salt args reply w2 where run:
    "fst (read_bytes K (dc_wasmPath cfg) w) = Inr wasm"
    "submitAndConfirm K server admin (deploy_transaction K cfg (UploadContractWasm wasm))
       (w\<lparr>dw_console := dw_console w @ [''Installing WASM'']\<rparr>) = (Inr reply1, w1)"
    "chosen_salt K argv salt" "constructor_args K cfg admin wasmHash = Inr args"
    "submitAndConfirm K server admin (deploy_transaction K cfg (CreateCustomContract admin wasmHash salt args))
       (w1\<lparr>dw_console := (dw_console w1 @ [''  WASM installed'']) @ [''Creating contract instance'']\<rparr>) = (Inr reply, w2)"
    "extractContractId K reply = Inr (Some cid)" "cid \<noteq> []" "w' = w2\<lparr>dw_console := dw_console w2 @ [''  Contract ID: '' @ cid]\<rparr>"
    by (auto simp: deployContract_def and_then_returns parse_salt_returns read_bytes_returns report_returns)
  from submit_returns [OF run(2)] submit_returns [OF run(5)] obtain hash where
    "confirmed_reply server hash reply"
    "operations w1 = operations w @ [UploadContractWasm wasm]" "senders w1 = senders w @ [admin]"
    "operations w2 = operations w1 @ [CreateCustomContract admin wasmHash salt args]" "senders w2 = senders w1 @ [admin]"
    by auto
  with run show ?thesis by (intro exI [of _ wasm] exI [of _ salt] exI [of _ args] exI [of _ hash] exI [of _ reply]) simp
qed

section \<open>Configurations that are used\<close>

text \<open>The file a run reads, the configuration made of it, and whether its key is set.\<close>

definition config_found :: "'p deploy_platform \<Rightarrow> string \<Rightarrow> network_name \<Rightarrow> 'p deploy_world \<Rightarrow> deploy_config \<Rightarrow> bool" where
  "config_found K cwd n w cfg \<longleftrightarrow>
     (\<exists>raw. cfg = config_of K n raw
        \<and> (dw_files w (config_path cwd n) = Some (ConfigText raw)
           \<or> dw_files w (config_path cwd n) = None \<and> dw_files w (cwd @ ''/deploy-config.json'') = Some (ConfigText raw)))"

definition key_set :: "deploy_config \<Rightarrow> bool" where
  "key_set cfg \<longleftrightarrow> dc_adminSecretKey cfg \<noteq> [] \<and> \<not> prefix ''S...'' (dc_adminSecretKey cfg)"

lemma load_returns: "loadConfig K cwd n w = (Inr cfg, w') \<longleftrightarrow> w' = w \<and> config_found K cwd n w cfg"
  by (auto simp: loadConfig_def config_found_def parse_config_def and_then_def attempt_def List.map_filter_simps
      split: option.splits deploy_file.splits sum.splits)

lemma load_log: "loadConfig K cwd n w = (r, w') \<Longrightarrow> dw_log w' = dw_log w"
  by (auto simp: loadConfig_def and_then_def attempt_def give_def throw_def split: list.splits sum.splits)

lemma network_returns: "parseNetworkArg argv w = (Inr n, w') \<longleftrightarrow> w' = w
    \<and> flag_value ''--network'' argv \<in> {Some (network_text n)} \<union> (if n = Testnet then {None} else {})"
  by (cases n) (auto simp: parseNetworkArg_def network_text_def and_then_def split: option.splits)

lemma network_log: "parseNetworkArg argv w = (r, w') \<Longrightarrow> dw_log w' = dw_log w"
  by (auto simp: parseNetworkArg_def and_then_def split: option.splits if_splits)

section \<open>Properties\<close>

text \<open>Nothing is asked of the server, let alone sent, unless the network flag is absent or one of the three
  names, a configuration file was found and parsed, its key is neither missing nor the template's, and the
  command is one of the three.\<close>

theorem requests_need_configuration:
  assumes "deploy_main K cwd argv w = (r, w')" "dw_log w' \<noteq> dw_log w"
  shows "\<exists>n cfg. flag_value ''--network'' argv \<in> {Some (network_text n)} \<union> (if n = Testnet then {None} else {})
    \<and> config_found K cwd n w cfg \<and> key_set cfg \<and> argument 0 (filteredArgv argv) \<in> {Some ''deploy'', Some ''all'', Some ''init''}"
proof -
  obtain rn w1 where n: "parseNetworkArg argv w = (rn, w1)" by (rule prod.exhaust)
  show ?thesis
  proof (cases rn)
    case (Inl e)
    with assms n network_log [OF n] show ?thesis by (simp add: deploy_main_def Let_def)
  next
    case (Inr n')
    with n have w1: "w1 = w" and net: "flag_value ''--network'' argv \<in> {Some (network_text n')} \<union> (if n' = Testnet then {None} else {})"
      by (simp_all add: network_returns)
    obtain rc w2 where c: "loadConfig K cwd n' w = (rc, w2)" by (rule prod.exhaust)
    show ?thesis
    proof (cases rc)
      case (Inl e)
      with assms n w1 \<open>rn = Inr n'\<close> c load_log [OF c] show ?thesis by (simp add: deploy_main_def Let_def)
    next
      case (Inr cfg)
      with c load_returns have w2: "w2 = w" and found: "config_found K cwd n' w cfg" by blast+
      have key: "key_set cfg"
      proof (rule ccontr)
        assume "\<not> key_set cfg"
        with assms n w1 \<open>rn = Inr n'\<close> c \<open>rc = Inr cfg\<close> w2 show False
          by (auto simp: deploy_main_def Let_def key_set_def and_then_def)
      qed
      have command: "argument 0 (filteredArgv argv) \<in> {Some ''deploy'', Some ''all'', Some ''init''}"
      proof (rule ccontr)
        assume "argument 0 (filteredArgv argv) \<notin> {Some ''deploy'', Some ''all'', Some ''init''}"
        with assms n w1 \<open>rn = Inr n'\<close> c \<open>rc = Inr cfg\<close> w2 key show False
          by (auto simp: deploy_main_def run_command_def Let_def key_set_def and_then_def attempt_def split: sum.splits)
      qed
      from net found key command show ?thesis by blast
    qed
  qed
qed

text \<open>The wait for a transaction is bounded: with \<open>n\<close> retries it asks at most \<open>n\<close> times, two seconds apart and
  only for that transaction; it stops at the first answer other than NOT_FOUND and its outcome is that answer,
  as an error when the transaction failed; after \<open>n\<close> NOT_FOUND it rejects.\<close>

theorem deploy_wait_is_bounded:
  assumes "deploy_poll server hash n n w = (r, w')"
  shows "(if list_all (\<lambda>i. not_found (poll_answer server (dw_log w) hash i)) [0..<n]
     then w' = w\<lparr>dw_log := after_polls (dw_log w) hash n\<rparr>
       \<and> r = Inl (Rejected (error_of (''Transaction '' @ hash @ '' was not confirmed after '' @ dec_of_nat (n * 2) @ ''s'')))
     else \<exists>j < n. list_all (\<lambda>i. not_found (poll_answer server (dw_log w) hash i)) [0..<j]
       \<and> \<not> not_found (poll_answer server (dw_log w) hash j) \<and> r = poll_result hash (poll_answer server (dw_log w) hash j)
       \<and> w' = w\<lparr>dw_log := after_polls (dw_log w) hash j @ [Asked (AskTransaction hash)]\<rparr>)"
  using assms
proof (cases rule: deploy_poll_cases)
  case (found j)
  then have "\<not> list_all (\<lambda>i. not_found (poll_answer server (dw_log w) hash i)) [0..<n]" by (auto simp: list_all_iff)
  with found show ?thesis by (auto simp: list_all_iff intro!: exI [of _ j])
next
  case gave_up
  then have "list_all (\<lambda>i. not_found (poll_answer server (dw_log w) hash i)) [0..<n]" by (auto simp: list_all_iff)
  with deploy_poll_gives_up [OF gave_up(1), where retries = n and left = n] assms show ?thesis by simp
qed

text \<open>C35: A run of \<open>deploy\<close> or \<open>all\<close> that ends normally uploaded the WASM of the configured path and created a
  contract from the hash of that WASM, the admin as deployer and the salt of the flag or a random one, with the
  constructor arguments made of the admin, the fee collector and the fee of the configuration; it sent nothing
  else, each once and signed by the admin; and the identifier it prints is the one the server returned for a
  confirmed transaction.\<close>

theorem deployment_reports_created_contract:
  assumes "deploy_main K cwd argv w = (Inr (), w')" "argument 0 (filteredArgv argv) \<in> {Some ''deploy'', Some ''all''}"
  shows "\<exists>n cfg admin server wasm salt args hash reply cid. config_found K cwd n w cfg \<and> key_set cfg
    \<and> dp_publicKey K (dc_adminSecretKey cfg) = Inr admin \<and> dp_connect K (dc_rpcUrl cfg) (n = Dev) = Inr server
    \<and> fst (read_bytes K (dc_wasmPath cfg) w) = Inr wasm \<and> chosen_salt K argv salt
    \<and> constructor_args K cfg admin (dp_sha256 K wasm) = Inr args
    \<and> operations w' = operations w @ [UploadContractWasm wasm, CreateCustomContract admin (dp_sha256 K wasm) salt args]
    \<and> senders w' = senders w @ [admin, admin]
    \<and> confirmed_reply server hash reply \<and> extractContractId K reply = Inr (Some cid) \<and> cid \<noteq> []
    \<and> last (dw_console w') = ''Deployment complete. CONTRACT_ID='' @ cid"
proof -
  from assms(1) obtain n cfg admin server where run:
    "config_found K cwd n w cfg" "key_set cfg" "dp_publicKey K (dc_adminSecretKey cfg) = Inr admin"
    "dp_connect K (dc_rpcUrl cfg) (dc_network cfg = Dev) = Inr server" "run_command K argv server cfg admin w = (Inr (), w')"
    by (auto simp: deploy_main_def and_then_returns network_returns load_returns key_set_def split: if_splits)
  let ?w = "w\<lparr>dw_console := dw_console w @ deploy_banner cfg admin\<rparr>"
  from run(5) assms(2) obtain wasm cid w1 where deployed: "fst (read_bytes K (dc_wasmPath cfg) ?w) = Inr wasm"
    "deployContract K argv server cfg admin (dp_sha256 K wasm) ?w = (Inr cid, w1)"
    "w' = w1\<lparr>dw_console := dw_console w1 @ [''Deployment complete. CONTRACT_ID='' @ cid]\<rparr>"
    by (auto simp: run_command_def Let_def and_then_returns read_bytes_returns)
  have files: "fst (read_bytes K name ?w) = fst (read_bytes K name w)" for name
    by (auto simp: read_bytes_def split: option.splits deploy_file.splits)
  from deploy_contract_returns [OF deployed(2)] deployed(1) obtain salt args hash reply where
    "chosen_salt K argv salt" "constructor_args K cfg admin (dp_sha256 K wasm) = Inr args" "confirmed_reply server hash reply"
    "extractContractId K reply = Inr (Some cid)" "cid \<noteq> []"
    "operations w' = operations w @ [UploadContractWasm wasm, CreateCustomContract admin (dp_sha256 K wasm) salt args]"
    "senders w' = senders w @ [admin, admin]"
    unfolding deployed(3) by auto
  moreover have "dc_network cfg = n" using run(1) by (auto simp: config_found_def config_of_def)
  moreover have "last (dw_console w') = ''Deployment complete. CONTRACT_ID='' @ cid" unfolding deployed(3) by simp
  ultimately show ?thesis using run(1-4) deployed(1) unfolding files
    by (intro exI [of _ n] exI [of _ cfg] exI [of _ admin] exI [of _ server] exI [of _ wasm] exI [of _ salt] exI [of _ args]
        exI [of _ hash] exI [of _ reply] exI [of _ cid]) simp
qed

text \<open>A salt that is not 64 hexadecimal digits is found out late: the run exits with code 1, but only after the
  transaction that uploads the WASM was signed, sent and confirmed.\<close>

theorem invalid_salt_found_after_upload:
  assumes "flag_value ''--salt'' argv = Some hex" "\<not> matches_hex 64 hex" "fst (read_bytes K (dc_wasmPath cfg) w) = Inr wasm"
    and "submitAndConfirm K server admin (deploy_transaction K cfg (UploadContractWasm wasm))
      (w\<lparr>dw_console := dw_console w @ [''Installing WASM'']\<rparr>) = (Inr reply, w1)"
  shows "\<exists>w'. deployContract K argv server cfg admin wasmHash w = (Inl (Exited 1), w')
    \<and> operations w' = operations w @ [UploadContractWasm wasm] \<and> senders w' = senders w @ [admin]"
proof -
  have "read_bytes K (dc_wasmPath cfg) w = (Inr wasm, w)" using assms(3) by (simp add: read_bytes_returns)
  then have "deployContract K argv server cfg admin wasmHash w = (Inl (Exited 1),
      w1\<lparr>dw_console := dw_console w1 @ [''  WASM installed'', ''Creating contract instance'',
           ''Invalid --salt: expected 64 hex characters (32 bytes).'']\<rparr>)"
    using assms by (simp add: deployContract_def parseSaltArg_def and_then_def)
  moreover from submit_returns [OF assms(4)] have
    "operations w1 = operations w @ [UploadContractWasm wasm] \<and> senders w1 = senders w @ [admin]" by auto
  ultimately show ?thesis by simp
qed

section \<open>Examples\<close>

definition demo_server :: "deploy_tx deploy_server" where
  "demo_server =
     \<lparr>ds_getAccount = (\<lambda>_ a. Inr \<lparr>ac_id = a, ac_sequence = 1\<rparr>), ds_prepareTransaction = (\<lambda>_ tx. Inr tx),
      ds_sendTransaction = (\<lambda>_ tx _. Inr ''h''),
      ds_getTransaction = (\<lambda>h _. if length h = 3
        then Inr \<lparr>dr_status = ''NOT_FOUND'', dr_resultXdr = None, dr_resultMetaXdr = None\<rparr>
        else Inr \<lparr>dr_status = ''SUCCESS'', dr_resultXdr = None, dr_resultMetaXdr = Some ''m''\<rparr>)\<rparr>"

definition demo_platform :: "deploy_tx deploy_platform" where
  "demo_platform =
     \<lparr>dp_stellar = \<lparr>st_is_account = (\<lambda>_. True), st_is_contract = (\<lambda>_. True), st_address = (\<lambda>_. None),
        st_typed = (\<lambda>_ _. Inr ScVoid), st_native = (\<lambda>_. Inr ScVoid), st_toNative = (\<lambda>_. Inr NNull)\<rparr>,
      dp_passphrase = network_text, dp_publicKey = (\<lambda>_. Inr ''GA''), dp_Contract = (\<lambda>_. None),
      dp_connect = (\<lambda>_ _. Inr demo_server), dp_sha256 = rev, dp_randomBytes = ''salt'',
      dp_sorobanMeta = (\<lambda>_. Inr (Some (Some (ScAddress ''CD'')))), dp_addressText = (\<lambda>_. Inr ''CD''),
      dp_stringify = (\<lambda>_. []), dp_configText = (\<lambda>_. []), dp_BASE_FEE = ''100''\<rparr>"

definition demo_config :: raw_config where
  "demo_config = \<lparr>rw_rpcUrl = None, rw_networkPassphrase = None, rw_adminSecretKey = Some ''SA'',
     rw_feeCollectorPublicKey = Some ''GF'', rw_feeBps = None, rw_wasmPath = Some ''w''\<rparr>"

definition demo_world :: "deploy_tx deploy_world" where
  "demo_world = \<lparr>dw_log = [], dw_console = [],
     dw_files = (\<lambda>f. if f = ''w'' then Some (OtherBytes ''code'')
       else if f = ''/d/deploy-config.json'' then Some (ConfigText demo_config) else None)\<rparr>"

definition demo_argv :: "string list" where
  "demo_argv = [''node'', ''deploy.ts'', ''deploy'']"

lemma demo_run: "fst (deploy_main demo_platform ''/d'' demo_argv demo_world) = Inr ()"
  by code_simp

lemma demo_log: "length (dw_log (snd (deploy_main demo_platform ''/d'' demo_argv demo_world))) = 10"
  by code_simp

lemma demo_command: "argument 0 (filteredArgv demo_argv) = Some ''deploy''"
  by code_simp

lemma deployment_reports_created_contract_witness:
  "\<exists>cid. last (dw_console (snd (deploy_main demo_platform ''/d'' demo_argv demo_world))) = ''Deployment complete. CONTRACT_ID='' @ cid
     \<and> cid \<noteq> [] \<and> senders (snd (deploy_main demo_platform ''/d'' demo_argv demo_world)) = [''GA'', ''GA'']"
proof -
  have "deploy_main demo_platform ''/d'' demo_argv demo_world
      = (Inr (), snd (deploy_main demo_platform ''/d'' demo_argv demo_world))"
    using demo_run by (metis prod.collapse)
  from deployment_reports_created_contract [OF this] demo_command show ?thesis
    by (auto simp: demo_platform_def senders_def demo_world_def List.map_filter_simps)
qed

lemma requests_need_configuration_witness:
  "\<exists>n cfg. config_found demo_platform ''/d'' n demo_world cfg \<and> key_set cfg"
proof -
  have "dw_log (snd (deploy_main demo_platform ''/d'' demo_argv demo_world)) \<noteq> dw_log demo_world"
    using demo_log by (auto simp: demo_world_def)
  from requests_need_configuration [OF surjective_pairing this] show ?thesis by blast
qed

lemma deploy_wait_is_bounded_witness:
  "\<exists>j. j < 2 \<and> poll_result ''h'' (poll_answer demo_server [] ''h'' j)
     = fst (deploy_poll demo_server ''h'' 2 2 \<lparr>dw_log = [], dw_console = [], dw_files = (\<lambda>_. None)\<rparr>)"
proof -
  let ?w = "\<lparr>dw_log = [], dw_console = [], dw_files = (\<lambda>_. None)\<rparr>"
  have "\<not> list_all (\<lambda>i. not_found (poll_answer demo_server [] ''h'' i)) [0..<2]"
    by (simp add: poll_answer_def demo_server_def not_found_def after_polls_def upt_rec)
  with deploy_wait_is_bounded [OF surjective_pairing [of "deploy_poll demo_server ''h'' 2 2 ?w"]] show ?thesis by auto
qed

lemma invalid_salt_found_after_upload_witness:
  "\<exists>w'. deployContract demo_platform [''node'', ''deploy.ts'', ''deploy'', ''--salt'', ''xyz''] demo_server
      (config_of demo_platform Testnet demo_config) ''GA'' [] demo_world = (Inl (Exited 1), w')
    \<and> operations w' = [UploadContractWasm ''code''] \<and> senders w' = [''GA'']"
proof -
  let ?cfg = "config_of demo_platform Testnet demo_config"
  let ?run = "submitAndConfirm demo_platform demo_server ''GA'' (deploy_transaction demo_platform ?cfg (UploadContractWasm ''code''))
      (demo_world\<lparr>dw_console := dw_console demo_world @ [''Installing WASM'']\<rparr>)"
  have "fst ?run = Inr \<lparr>dr_status = ''SUCCESS'', dr_resultXdr = None, dr_resultMetaXdr = Some ''m''\<rparr>" by code_simp
  then have "?run = (Inr \<lparr>dr_status = ''SUCCESS'', dr_resultXdr = None, dr_resultMetaXdr = Some ''m''\<rparr>, snd ?run)" by (metis prod.collapse)
  moreover have "flag_value ''--salt'' [''node'', ''deploy.ts'', ''deploy'', ''--salt'', ''xyz''] = Some ''xyz''" by simp
  moreover have "\<not> matches_hex 64 ''xyz''" by (simp add: matches_hex_def)
  moreover have "fst (read_bytes demo_platform (dc_wasmPath ?cfg) demo_world) = Inr ''code''"
    by (simp add: read_bytes_def demo_world_def config_of_def demo_config_def)
  ultimately show ?thesis
    using invalid_salt_found_after_upload [of "[''node'', ''deploy.ts'', ''deploy'', ''--salt'', ''xyz'']" "''xyz''" demo_platform ?cfg
        demo_world "''code''" demo_server "''GA''"]
    by (simp add: operations_def senders_def demo_world_def List.map_filter_simps)
qed

end
