(* ===== verification/Deploy_Cost.thy ===== *)
theory Deploy_Cost
  imports Js_Number Deploy
begin

text \<open>
  The deployment resource report (\<open>scripts/estimate-deploy-cost.ts\<close>): reading the benchmark file, the averages per
  function, the size notes, the report, its formats and the entry point.  Numbers are doubles: rationals rounded
  after every operation.  The report's object of averages is the list of its entries in the order they are made.
  The texts of numbers (\<open>num\<close>) and the collation of \<open>localeCompare\<close> are parameters; console lines are without
  their ornaments and blank lines.
\<close>

section \<open>Numbers in text\<close>

text \<open>\<open>Number(text)\<close> of a text without white space, \<open>None\<close> when it is not finite.\<close>

definition optional_digits :: "string \<Rightarrow> bool" where
  "optional_digits s = (s = [] \<or> matches_digits s)"

definition mantissa :: "string \<Rightarrow> rat option" where
  "mantissa s =
     (case split_on CHR ''.'' s of
        [a] \<Rightarrow> if matches_digits a then Some (of_nat (num_of_string 10 a)) else None
      | [a, b] \<Rightarrow>
          if optional_digits a \<and> optional_digits b \<and> (a \<noteq> [] \<or> b \<noteq> [])
          then Some (of_nat (num_of_string 10 a) + of_nat (num_of_string 10 b) / 10 ^ length b) else None
      | _ \<Rightarrow> None)"

definition exponent_part :: "string \<Rightarrow> int option" where
  "exponent_part s =
     (case split_sign s of (neg, r) \<Rightarrow>
        if matches_digits r then Some (if neg then - int (num_of_string 10 r) else int (num_of_string 10 r)) else None)"

definition decimal_literal :: "string \<Rightarrow> rat option" where
  "decimal_literal s =
     (let m = takeWhile (\<lambda>c. c \<noteq> CHR ''e'' \<and> c \<noteq> CHR ''E'') s; rest = drop (length m) s in
      Option.bind (mantissa m) (\<lambda>v.
        case rest of [] \<Rightarrow> Some v | _ # ex \<Rightarrow> map_option (\<lambda>k. v * 10 powi k) (exponent_part ex)))"

definition prefixed_literal :: "string \<Rightarrow> rat option" where
  "prefixed_literal s =
     (let radix = (if prefix ''0x'' s \<or> prefix ''0X'' s then 16 else if prefix ''0o'' s \<or> prefix ''0O'' s then 8
                   else if prefix ''0b'' s \<or> prefix ''0B'' s then 2 else 0); ds = drop 2 s in
      if radix \<noteq> 0 \<and> ds \<noteq> [] \<and> list_all (is_digit_of radix) ds then Some (of_nat (num_of_string radix ds)) else None)"

definition signed_dbl :: "rat \<Rightarrow> rat" where
  "signed_dbl x = (if x < 0 then - dbl (- x) else dbl x)"

text \<open>The least number that rounds to \<open>Infinity\<close>.\<close>

definition finite_or_none :: "rat \<Rightarrow> rat option" where
  "finite_or_none x = (if \<bar>x\<bar> < 2 ^ 1024 - 2 ^ 970 then Some (signed_dbl x) else None)"

definition js_Number :: "string \<Rightarrow> rat option" where
  "js_Number s =
     (if s = [] then Some 0
      else case prefixed_literal s of
        Some v \<Rightarrow> finite_or_none v
      | None \<Rightarrow>
          (case split_sign s of (neg, r) \<Rightarrow> Option.bind (decimal_literal r) (\<lambda>v. finite_or_none (if neg then - v else v))))"

section \<open>Benchmarks\<close>

record benchmark_entry =
  be_functionName :: string
  be_cpuInstructions :: rat
  be_memoryBytes :: rat

definition normalizeFunctionName :: "string \<Rightarrow> string" where
  "normalizeFunctionName name = hd (split_on CHR ''/'' name)"

text \<open>\<open>text.trim().split(/\r?\n/)\<close> and \<open>line.split(/\s+/)\<close>.\<close>

definition without_cr :: "string \<Rightarrow> string" where
  "without_cr l = (if l \<noteq> [] \<and> last l = CHR 0x0D then butlast l else l)"

definition lines_of :: "string \<Rightarrow> string list" where
  "lines_of t = (let ls = split_on CHR 0x0A (trim t) in map without_cr (butlast ls) @ [last ls])"

lemma trim_start_shorter: "length (trim_start s) \<le> length s"
proof (induction s rule: trim_start.induct)
  case (1 s)
  show ?case
  proof (cases "ws_len s = 0")
    case False
    with 1 show ?thesis by (subst trim_start.simps) (simp add: le_trans)
  qed (subst trim_start.simps, simp)
qed

lemma token_prefix: "token s @ drop (length (token s)) s = s"
  by (induction s) auto

lemma token_stops: "drop (length (token s)) s = c # r \<Longrightarrow> ws_len (c # r) \<noteq> 0"
  by (induction s) (auto split: if_splits)

lemma split_spaces_measure:
  assumes "drop (length (token s)) s \<noteq> []"
  shows "length (trim_start (drop (length (token s)) s)) < length s"
proof -
  let ?rest = "drop (length (token s)) s"
  from assms obtain c r where rest: "?rest = c # r" by (cases ?rest) auto
  with token_stops have "ws_len ?rest \<noteq> 0" by metis
  then have "trim_start ?rest = trim_start (drop (ws_len ?rest) ?rest)" by (subst trim_start.simps) simp
  moreover have "length (trim_start (drop (ws_len ?rest) ?rest)) \<le> length (drop (ws_len ?rest) ?rest)"
    by (rule trim_start_shorter)
  moreover have "length (drop (ws_len ?rest) ?rest) < length ?rest" using \<open>ws_len ?rest \<noteq> 0\<close> rest by simp
  moreover have "length ?rest \<le> length s" by simp
  ultimately show ?thesis by simp
qed

function split_spaces :: "string \<Rightarrow> string list" where
  "split_spaces s =
     (let t = token s; rest = drop (length t) s in
      if rest = [] then [t] else t # split_spaces (trim_start rest))"
  by pat_completeness auto

termination
  by (relation "measure length") (use split_spaces_measure in auto)

declare split_spaces.simps [simp del]

definition entry_of :: "string \<Rightarrow> benchmark_entry option" where
  "entry_of line =
     (case split_spaces line of
        name # cpu # memory # _ \<Rightarrow>
          (case (js_Number cpu, js_Number memory) of
             (Some c, Some m) \<Rightarrow>
               if name = [] then None
               else Some \<lparr>be_functionName = name, be_cpuInstructions = c, be_memoryBytes = m\<rparr>
           | _ \<Rightarrow> None)
      | _ \<Rightarrow> None)"

text \<open>The file may be missing; its first line is the heading.\<close>

definition readBenchmarkEntries :: "string option \<Rightarrow> benchmark_entry list" where
  "readBenchmarkEntries file =
     (case file of None \<Rightarrow> [] | Some t \<Rightarrow> List.map_filter entry_of (drop 1 (lines_of t)))"

text \<open>\<open>grouped\<close>: a map that keeps the order in which its keys were first set.\<close>

fun add_sample :: "string \<Rightarrow> benchmark_entry \<Rightarrow> (string \<times> benchmark_entry list) list \<Rightarrow> (string \<times> benchmark_entry list) list" where
  "add_sample name e [] = [(name, [e])]"
| "add_sample name e ((n, es) # gs) = (if n = name then (n, es @ [e]) # gs else (n, es) # add_sample name e gs)"

definition grouped :: "benchmark_entry list \<Rightarrow> (string \<times> benchmark_entry list) list" where
  "grouped entries = fold (\<lambda>e. add_sample (normalizeFunctionName (be_functionName e)) e) entries []"

record resource_usage =
  ru_averageCpuInstructions :: rat
  ru_averageMemoryBytes :: rat

definition rounded_sum :: "rat list \<Rightarrow> rat" where
  "rounded_sum xs = foldl (\<lambda>sum x. signed_dbl (sum + x)) 0 xs"

definition average :: "rat list \<Rightarrow> rat" where
  "average xs = signed_dbl (rounded_sum xs / of_nat (length xs))"

definition estimateFunctionResourceUsage :: "benchmark_entry list \<Rightarrow> (string \<times> resource_usage) list" where
  "estimateFunctionResourceUsage entries =
     map (\<lambda>(name, samples). (name,
        \<lparr>ru_averageCpuInstructions = average (map be_cpuInstructions samples),
         ru_averageMemoryBytes = average (map be_memoryBytes samples)\<rparr>)) (grouped entries)"

section \<open>The report\<close>

definition SUPPORTED_NETWORKS :: "string list" where "SUPPORTED_NETWORKS = [''mainnet'', ''testnet'', ''sandbox'']"
definition STROOPS_PER_XLM :: rat where "STROOPS_PER_XLM = 10000000"
definition MIN_BASE_FEE_STROOPS :: rat where "MIN_BASE_FEE_STROOPS = 100"
definition MAX_TRANSACTION_SIZE_BYTES :: int where "MAX_TRANSACTION_SIZE_BYTES = 131072"
definition MAX_CONTRACT_CODE_BYTES :: int where "MAX_CONTRACT_CODE_BYTES = 65536"

text \<open>The count and the fee are finite numbers.\<close>

definition calculateMinimumBaseFeeXLM :: "(rat \<Rightarrow> string) \<Rightarrow> rat \<Rightarrow> rat \<Rightarrow> thrown + rat" where
  "calculateMinimumBaseFeeXLM num operationCount baseFeeStroops =
     (if of_int \<lfloor>operationCount\<rfloor> \<noteq> operationCount \<or> operationCount < 0
      then Inl (error_of (''operationCount must be a non-negative integer, got '' @ num operationCount))
      else if baseFeeStroops < MIN_BASE_FEE_STROOPS
      then Inl (error_of (''baseFeeStroops must be at least '' @ num MIN_BASE_FEE_STROOPS @ '', got '' @ num baseFeeStroops))
      else Inr (dbl (dbl (operationCount * baseFeeStroops) / STROOPS_PER_XLM)))"

definition getWasmSizeNotes :: "int \<Rightarrow> thrown + string list" where
  "getWasmSizeNotes wasmSizeBytes =
     (if wasmSizeBytes < 0 then Inl (error_of (''wasmSizeBytes must be a non-negative number, got '' @ dec_of_int wasmSizeBytes))
      else if wasmSizeBytes > MAX_CONTRACT_CODE_BYTES then
        Inr [''WASM size ('' @ dec_of_int wasmSizeBytes @ '' bytes) exceeds the Soroban contract code limit ('' @
             dec_of_int MAX_CONTRACT_CODE_BYTES @ '' bytes).'']
      else Inr [])"

record cost_report =
  cr_wasmSizeBytes :: int
  cr_minimumBaseFeePerOperationXLM :: rat
  cr_functionResourceUsage :: "(string \<times> resource_usage) list"
  cr_maxTransactionSizeBytes :: int
  cr_maxContractCodeBytes :: int
  cr_network :: string
  cr_timestamp :: string
  cr_notes :: "string list"

definition standing_notes :: "string list" where
  "standing_notes =
     [''The base fee is the Stellar protocol minimum of 100 stroops (0.00001 XLM) per operation; the current network fee may be higher.'',
      ''Deployment total is not estimated: obtain the operation count and fee with a transaction simulation against the selected RPC.'',
      ''Soroban resource fees and storage rent are not estimated; they depend on the simulated transaction, entry TTLs, and current network rent configuration.'',
      ''CPU and memory values are local benchmark measurements from bench_baseline.txt, not XLM fee conversions.'']"

definition estimateDeploymentCost :: "(rat \<Rightarrow> string) \<Rightarrow> string \<Rightarrow> int \<Rightarrow> string \<Rightarrow> benchmark_entry list \<Rightarrow> thrown + cost_report" where
  "estimateDeploymentCost num timestamp wasmSizeBytes network benchmarkEntries =
     (let normalizedNetwork = to_lower network in
      if normalizedNetwork \<notin> set SUPPORTED_NETWORKS
      then Inl (error_of (''Unknown network: '' @ network @ ''. Available: '' @ join_with '', '' SUPPORTED_NETWORKS))
      else bind_sum (getWasmSizeNotes wasmSizeBytes) (\<lambda>sizeNotes.
        bind_sum (calculateMinimumBaseFeeXLM num 1 MIN_BASE_FEE_STROOPS) (\<lambda>fee.
        Inr \<lparr>cr_wasmSizeBytes = wasmSizeBytes, cr_minimumBaseFeePerOperationXLM = fee,
             cr_functionResourceUsage = estimateFunctionResourceUsage benchmarkEntries,
             cr_maxTransactionSizeBytes = MAX_TRANSACTION_SIZE_BYTES, cr_maxContractCodeBytes = MAX_CONTRACT_CODE_BYTES,
             cr_network = normalizedNetwork, cr_timestamp = timestamp, cr_notes = standing_notes @ sizeNotes\<rparr>)))"

section \<open>Formats\<close>

text \<open>\<open>x.toFixed(k)\<close> and \<open>toUpperCase\<close> (of ASCII text).\<close>

definition to_fixed :: "(rat \<Rightarrow> string) \<Rightarrow> nat \<Rightarrow> rat \<Rightarrow> string" where
  "to_fixed num k x =
     (if 10 ^ 21 \<le> \<bar>x\<bar> then num x
      else let n = nat \<lfloor>10 ^ k * \<bar>x\<bar> + 1 / 2\<rfloor>; frac = dec_of_nat (n mod 10 ^ k) in
        (if x < 0 then ''-'' else '''') @ dec_of_nat (n div 10 ^ k) @
        (if k = 0 then '''' else ''.'' @ replicate (k - length frac) CHR ''0'' @ frac))"

definition to_upper :: "string \<Rightarrow> string" where
  "to_upper = map (\<lambda>c. if (97 :: nat) \<le> of_char c \<and> of_char c \<le> (122 :: nat) then char_of (of_char c - 32 :: nat) else c)"

definition formatCost :: "(rat \<Rightarrow> string) \<Rightarrow> rat \<Rightarrow> string" where
  "formatCost num xlm =
     (if xlm < dbl (1 / 10000) then to_fixed num 2 (signed_dbl (xlm * 1000000)) @ '' '' @ [CHR 0xCE, CHR 0xBC] @ ''XLM''
      else if xlm < 1 then to_fixed num 4 (dbl (xlm * 1000)) @ '' mXLM''
      else to_fixed num 6 xlm @ '' XLM'')"

definition formatBytes :: "(rat \<Rightarrow> string) \<Rightarrow> rat \<Rightarrow> string" where
  "formatBytes num bytes =
     (if bytes < 1024 then num bytes @ '' B''
      else if bytes < 1024 * 1024 then to_fixed num 2 (dbl (bytes / 1024)) @ '' KB''
      else to_fixed num 2 (dbl (bytes / (1024 * 1024))) @ '' MB'')"

text \<open>\<open>before a b\<close>: \<open>a.localeCompare(b) < 0\<close>; the sort is stable.\<close>

fun insert_usage ::
  "(string \<Rightarrow> string \<Rightarrow> bool) \<Rightarrow> string \<times> resource_usage \<Rightarrow> (string \<times> resource_usage) list \<Rightarrow> (string \<times> resource_usage) list" where
  "insert_usage before u [] = [u]"
| "insert_usage before u (v # vs) = (if before (fst v) (fst u) then v # insert_usage before u vs else u # v # vs)"

definition sorted_usage ::
  "(string \<Rightarrow> string \<Rightarrow> bool) \<Rightarrow> (string \<times> resource_usage) list \<Rightarrow> (string \<times> resource_usage) list" where
  "sorted_usage before us = foldr (insert_usage before) us []"

definition usage_line :: "(rat \<Rightarrow> string) \<Rightarrow> string \<times> resource_usage \<Rightarrow> string" where
  "usage_line num = (\<lambda>(functionName, usage).
     functionName @ '': '' @ to_fixed num 0 (ru_averageCpuInstructions usage) @ '' CPU instructions, '' @
     formatBytes num (ru_averageMemoryBytes usage) @ '' memory'')"

definition printEstimate :: "(rat \<Rightarrow> string) \<Rightarrow> (string \<Rightarrow> string \<Rightarrow> bool) \<Rightarrow> cost_report \<Rightarrow> string list" where
  "printEstimate num before estimate =
     [''C-Address Onboarding Bridge - Deployment Resource Report'',
      ''Contract WASM Size:         '' @ formatBytes num (of_int (cr_wasmSizeBytes estimate)),
      ''Network:                   '' @ to_upper (cr_network estimate),
      ''Reported at:               '' @ cr_timestamp estimate,
      ''Minimum base fee/operation: '' @ formatCost num (cr_minimumBaseFeePerOperationXLM estimate),
      ''Deployment base fee:       Not estimated (requires operation count)'',
      ''Soroban resource fee:      Not estimated (requires transaction simulation)'',
      ''Annual storage rent:       Not estimated (requires ledger-entry TTL/rent data)'',
      ''Total first-year cost:     Not estimated''] @
     (if cr_functionResourceUsage estimate \<noteq> []
      then ''Local benchmark resource usage (not fee estimates):'' #
           map (usage_line num) (sorted_usage before (cr_functionResourceUsage estimate))
      else []) @
     [''Protocol limits: transaction '' @ formatBytes num (of_int (cr_maxTransactionSizeBytes estimate)) @
      '', contract code '' @ formatBytes num (of_int (cr_maxContractCodeBytes estimate))] @
     (if cr_notes estimate \<noteq> [] then ''Notes:'' # cr_notes estimate else []) @
     [''Use Soroban transaction simulation and current network rent configuration for budget estimates.'']"

section \<open>The entry point\<close>

record cost_options =
  co_wasmPath :: "string option"
  co_network :: string
  co_json :: bool

text \<open>The loop over the arguments; \<open>None\<close> when help is printed and the process exits.\<close>

fun parse_cost_args :: "cost_options \<Rightarrow> string list \<Rightarrow> cost_options option" where
  "parse_cost_args opts [] = Some opts"
| "parse_cost_args opts [arg] =
     (if arg = ''--help'' \<or> arg = ''-h'' then None
      else if arg = ''--json'' then Some (opts\<lparr>co_json := True\<rparr>)
      else if \<not> prefix ''--'' arg then Some (opts\<lparr>co_wasmPath := Some arg\<rparr>)
      else Some opts)"
| "parse_cost_args opts (arg # next # args) =
     (if arg = ''--help'' \<or> arg = ''-h'' then None
      else if arg = ''--network'' then parse_cost_args (opts\<lparr>co_network := next\<rparr>) args
      else if arg = ''--json'' then parse_cost_args (opts\<lparr>co_json := True\<rparr>) (next # args)
      else if \<not> prefix ''--'' arg then parse_cost_args (opts\<lparr>co_wasmPath := Some arg\<rparr>) (next # args)
      else parse_cost_args opts (next # args))"

datatype cost_outcome = Help | Failed_run "string list" | Printed "string list" | PrintedJson cost_report

text \<open>\<open>path.resolve(cwd, f)\<close> of an absolute \<open>cwd\<close>.\<close>

definition resolved_path :: "string \<Rightarrow> string \<Rightarrow> string" where
  "resolved_path cwd f =
     (let parts = split_on CHR ''/'' (if prefix ''/'' f then f else cwd @ ''/'' @ f) in
      ''/'' @ join_with ''/'' (foldl (\<lambda>dirs p. if p = [] \<or> p = ''.'' then dirs else if p = ''..'' then butlast dirs else dirs @ [p])
        [] parts))"

text \<open>\<open>sizeOf\<close> gives a file's size, if it exists; \<open>bench\<close> the text of the benchmark file.\<close>

definition cost_main ::
  "(rat \<Rightarrow> string) \<Rightarrow> (string \<Rightarrow> string \<Rightarrow> bool) \<Rightarrow> string \<Rightarrow> string \<Rightarrow> string option \<Rightarrow> (string \<Rightarrow> nat option) \<Rightarrow> string option \<Rightarrow> string list \<Rightarrow> cost_outcome" where
  "cost_main num before timestamp cwd wasmFileEnv sizeOf bench args =
     (case parse_cost_args \<lparr>co_wasmPath = None, co_network = ''mainnet'', co_json = False\<rparr> args of
        None \<Rightarrow> Help
      | Some opts \<Rightarrow>
          (let wasmPath = (if or_else (co_wasmPath opts) [] \<noteq> [] then or_else (co_wasmPath opts) []
                           else if or_else wasmFileEnv [] \<noteq> [] then or_else wasmFileEnv []
                           else ''target/wasm32v1-none/release/address_onboarding_bridge.wasm'');
               normalizedNetwork = to_lower (co_network opts); resolvedPath = resolved_path cwd wasmPath in
           if normalizedNetwork \<notin> set SUPPORTED_NETWORKS then
             Failed_run [''Unknown network: '' @ co_network opts, ''   Available: '' @ join_with '', '' SUPPORTED_NETWORKS]
           else case sizeOf resolvedPath of
             None \<Rightarrow> Failed_run [''WASM file not found: '' @ resolvedPath, ''Please build the contract first:'',
                                ''  cargo build --release --target wasm32v1-none'']
           | Some bytes \<Rightarrow>
               (case estimateDeploymentCost num timestamp (int bytes) normalizedNetwork (readBenchmarkEntries bench) of
                  Inl e \<Rightarrow> Failed_run [''Error: '' @ (case e of Some err \<Rightarrow> or_else (er_message err) (er_text err) | None \<Rightarrow> ''undefined'')]
                | Inr estimate \<Rightarrow> if co_json opts then PrintedJson estimate else Printed (printEstimate num before estimate))))"

section \<open>Grouping\<close>

text \<open>The groups hold every entry under its function's name, in order; the names come in the order they first occur.\<close>

definition name_of :: "benchmark_entry \<Rightarrow> string" where
  "name_of e = normalizeFunctionName (be_functionName e)"

lemma add_sample_keys: "map fst (add_sample n e gs) = (if n \<in> fst ` set gs then map fst gs else map fst gs @ [n])"
  by (induction n e gs rule: add_sample.induct) (auto simp: image_iff)

lemma add_sample_lookup:
  "map_of (add_sample n e gs) k = (if k = n then Some (or_else (map_of gs n) [] @ [e]) else map_of gs k)"
  by (induction gs) (auto simp: or_else_def)

definition grouping :: "benchmark_entry list \<Rightarrow> (string \<times> benchmark_entry list) list \<Rightarrow> bool" where
  "grouping entries gs \<longleftrightarrow> distinct (map fst gs) \<and> fst ` set gs = name_of ` set entries
     \<and> (\<forall>k. or_else (map_of gs k) [] = filter (\<lambda>e. name_of e = k) entries)"

lemma grouping_snoc: "grouping es gs \<Longrightarrow> grouping (es @ [e]) (add_sample (name_of e) e gs)"
proof -
  assume g: "grouping es gs"
  have "fst ` set (add_sample (name_of e) e gs) = insert (name_of e) (fst ` set gs)"
    using add_sample_keys [of "name_of e" e gs] by (metis (no_types, lifting) image_set insert_absorb list.simps(15) rotate1.simps(2) set_map set_rotate1)
  with g show ?thesis
    by (auto simp: grouping_def add_sample_keys add_sample_lookup or_else_def split: option.splits)
qed

lemma grouping_fold: "grouping es gs \<Longrightarrow> grouping (es @ entries) (fold (\<lambda>e. add_sample (name_of e) e) entries gs)"
proof (induction entries arbitrary: es gs)
  case (Cons e entries)
  from Cons.IH [OF grouping_snoc [OF Cons.prems, of e]] show ?case by simp
qed simp

lemma grouped_grouping: "grouping entries (grouped entries)"
proof -
  have "grouping [] []" by (simp add: grouping_def)
  from grouping_fold [OF this, of entries] show ?thesis by (simp add: grouped_def name_of_def [abs_def])
qed

section \<open>Exact integers\<close>

lemma dbl_of_nat:
  assumes "n < 2 ^ 53"
  shows "dbl (of_nat n) = of_nat n"
proof (cases "n = 0")
  case False
  let ?x = "of_nat n :: rat" and ?e = "exponent (of_nat n)"
  have x: "0 < ?x" using False by simp
  have "?x < of_nat (2 ^ 53)" using assms by (simp only: of_nat_less_iff)
  then have "?x < 2 powi 53" by (simp add: powi_nat)
  with exponent_le [OF x] have "(2 :: rat) powi ?e < 2 powi 53" by linarith
  then have e: "?e \<le> 52" using powi_mono [of 53 ?e] by (cases "53 \<le> ?e") auto
  define u where "u = max (?e - 52) (- 1074)"
  have u: "u \<le> 0" using e by (simp add: u_def)
  have unit: "unit_last_place ?x = 2 powi u" by (simp only: unit_last_place_def u_def)
  have "?x / 2 powi u = of_int (int n * 2 ^ nat (- u))"
    using u by (simp add: power_int_def field_simps)
  then have "of_int (round_even (?x / 2 powi u)) * 2 powi u = ?x / 2 powi u * 2 powi u"
    by (simp only: round_even_of_int)
  also have "\<dots> = ?x" by simp
  finally show ?thesis using x by (simp add: dbl_def unit)
qed simp

text \<open>Sums of integers below \<open>2 ^ 53\<close> are exact, and an average is rounded once.\<close>

lemma rounded_sum_exact:
  assumes "sum_list ns < 2 ^ 53"
  shows "rounded_sum (map of_nat ns) = of_nat (sum_list ns)"
proof -
  have "foldl (\<lambda>sum x. signed_dbl (sum + x)) (of_nat a) (map of_nat ns) = of_nat (a + sum_list ns)"
    if "a + sum_list ns < 2 ^ 53" for a
    using that
  proof (induction ns arbitrary: a)
    case (Cons n ns)
    then have "a + n < 2 ^ 53" by simp
    then have "signed_dbl (of_nat a + of_nat n) = of_nat (a + n)"
      using dbl_of_nat [of "a + n"] by (simp add: signed_dbl_def)
    with Cons.IH [of "a + n"] Cons.prems show ?case by (simp add: add.assoc)
  qed simp
  from this [of 0] assms show ?thesis by (simp add: rounded_sum_def)
qed

lemma average_close:
  assumes "sum_list ns < 2 ^ 53"
  shows "\<bar>average (map of_nat ns) - of_nat (sum_list ns) / of_nat (length ns)\<bar>
    \<le> (of_nat (sum_list ns) / of_nat (length ns) + 1) / 2 ^ 53"
proof -
  have "(0 :: rat) \<le> of_nat (sum_list ns) / of_nat (length ns)" by simp
  then have "average (map of_nat ns) = dbl (of_nat (sum_list ns) / of_nat (length ns))"
    unfolding average_def signed_dbl_def rounded_sum_exact [OF assms] length_map by (simp only: not_less [symmetric] if_False)
  then show ?thesis using dbl_close [of "of_nat (sum_list ns) / of_nat (length ns)"] by simp
qed

section \<open>The averages\<close>

text \<open>C37: The resource report lists exactly the functions that occur in the benchmark entries (up to a slash in the name), each
  once.  When the measurements of a function are integers whose sum is below \<open>2 ^ 53\<close>, its average differs
  from the mean of exactly the entries of that function by at most one part in \<open>2 ^ 53\<close> of the mean plus one; the
  order of the entries does not matter to the sum and no entry of another function is counted.\<close>

theorem usage_is_average:
  assumes "es = filter (\<lambda>e. name_of e = f) entries" "es \<noteq> []"
    and "map be_cpuInstructions es = map of_nat cpu" "sum_list cpu < 2 ^ 53"
    and "map be_memoryBytes es = map of_nat mem" "sum_list mem < 2 ^ 53"
  shows "distinct (map fst (estimateFunctionResourceUsage entries)) \<and>
    set (map fst (estimateFunctionResourceUsage entries)) = name_of ` set entries \<and>
    (\<exists>u. map_of (estimateFunctionResourceUsage entries) f = Some u \<and>
      \<bar>ru_averageCpuInstructions u - of_nat (sum_list cpu) / of_nat (length es)\<bar>
        \<le> (of_nat (sum_list cpu) / of_nat (length es) + 1) / 2 ^ 53 \<and>
      \<bar>ru_averageMemoryBytes u - of_nat (sum_list mem) / of_nat (length es)\<bar>
        \<le> (of_nat (sum_list mem) / of_nat (length es) + 1) / 2 ^ 53)"
proof -
  note g = grouped_grouping [of entries, unfolded grouping_def]
  have fst: "map fst (estimateFunctionResourceUsage entries) = map fst (grouped entries)"
    by (simp add: estimateFunctionResourceUsage_def case_prod_beta')
  have "or_else (map_of (grouped entries) f) [] = es" using g assms(1) by simp
  then have "map_of (grouped entries) f = Some es"
    using assms(2) by (auto simp: or_else_def split: option.splits)
  then have u: "map_of (estimateFunctionResourceUsage entries) f = Some \<lparr>ru_averageCpuInstructions = average (map of_nat cpu),
      ru_averageMemoryBytes = average (map of_nat mem)\<rparr>"
    by (simp add: estimateFunctionResourceUsage_def map_of_map assms(3,5))
  have len: "length cpu = length es" "length mem = length es"
    using assms(3,5) by (metis length_map)+
  from g have "distinct (map fst (estimateFunctionResourceUsage entries))"
    "set (map fst (estimateFunctionResourceUsage entries)) = name_of ` set entries" by (simp_all only: fst) simp
  with u average_close [OF assms(4)] average_close [OF assms(6)] show ?thesis
    by (simp add: len)
qed

definition sample_entries :: "benchmark_entry list" where
  "sample_entries =
     [\<lparr>be_functionName = ''f/a'', be_cpuInstructions = 10, be_memoryBytes = 7\<rparr>,
      \<lparr>be_functionName = ''g'', be_cpuInstructions = 5, be_memoryBytes = 5\<rparr>,
      \<lparr>be_functionName = ''f/b'', be_cpuInstructions = 13, be_memoryBytes = 8\<rparr>]"

theorem usage_is_average_witness:
  "\<exists>u. map_of (estimateFunctionResourceUsage sample_entries) ''f'' = Some u
    \<and> \<bar>ru_averageCpuInstructions u - 23 / 2\<bar> \<le> (23 / 2 + 1) / 2 ^ 53"
proof -
  let ?es = "filter (\<lambda>e. name_of e = ''f'') sample_entries"
  have es: "map be_cpuInstructions ?es = [10, 13]" "map be_memoryBytes ?es = [7, 8]" "?es \<noteq> []" "length ?es = 2"
    by (simp_all add: sample_entries_def name_of_def normalizeFunctionName_def)
  have "\<exists>u. map_of (estimateFunctionResourceUsage sample_entries) ''f'' = Some u \<and>
      \<bar>ru_averageCpuInstructions u - of_nat (sum_list [10, 13]) / of_nat (length ?es)\<bar>
        \<le> (of_nat (sum_list [10, 13]) / of_nat (length ?es) + 1) / 2 ^ 53 \<and>
      \<bar>ru_averageMemoryBytes u - of_nat (sum_list [7, 8]) / of_nat (length ?es)\<bar>
        \<le> (of_nat (sum_list [7, 8]) / of_nat (length ?es) + 1) / 2 ^ 53"
    by (rule usage_is_average [THEN conjunct2, THEN conjunct2, OF refl]) (simp_all only: es, simp_all)
  then show ?thesis unfolding es(4) by auto
qed

end
