(* ===== verification/Release.thy ===== *)
theory Release
  imports Deploy_Cost
begin

text \<open>
  The registry of releases: signing a release (\<open>scripts/sign-release.js\<close>) and verifying a WASM file or a deployed
  contract against it (\<open>scripts/verify-release.js\<close>).  Keys, signatures, SHA-256 and the ledger are the parameter
  \<open>release_platform\<close>; WASM files do not change.  The registry file is no JSON (with the message of the parser), another JSON value than an array, or
  an array of objects, whose fields that are missing are \<open>None\<close>.  Console lines are without their ornaments and blank
  lines.
\<close>

section \<open>State\<close>

record release_entry =
  re_version :: "string option"
  re_commit :: "string option"
  re_wasm_hash :: "string option"
  re_signature :: "string option"
  re_signer_public_key :: "string option"
  re_timestamp :: "string option"
  re_is_transient :: bool

datatype registry_file = NoJson string | OtherJson | JsonArray "release_entry list"

record release_world =
  rl_console :: "string list"
  rl_registry :: "registry_file option"
  rl_metadata :: "(string \<times> release_entry) list"

text \<open>What the script reads of the ledger entry under the instance key of a contract, through the library's XDR types: no entry;
  a value whose \<open>arm()\<close> is not \<open>'instance'\<close>; or an executable, with its \<open>arm()\<close> and what \<open>wasmId()\<close> returns or throws.\<close>

datatype ledger_answer = NoEntries | NoInstance | Executable string "thrown + byte list"

record release_platform =
  rp_sha256 :: "byte list \<Rightarrow> byte list"
  rp_fromSecret :: "string \<Rightarrow> thrown + string"
  rp_sign :: "string \<Rightarrow> byte list \<Rightarrow> byte list"
  rp_fromPublicKey :: "string option \<Rightarrow> thrown option"
  rp_verify :: "string \<Rightarrow> byte list \<Rightarrow> byte list \<Rightarrow> thrown + bool"
  rp_server :: "string \<Rightarrow> thrown option"
  rp_instance :: "string \<Rightarrow> string \<Rightarrow> thrown + ledger_answer"
  rp_file :: "string \<Rightarrow> byte list option"
  rp_cwd :: string
  rp_registryDir :: string

record release_env =
  rv_VERSION :: "string option"
  rv_COMMIT_SHA :: "string option"
  rv_RELEASE_SIGNING_KEY :: "string option"

type_synonym 'a release_script = "(release_world, stop, 'a) op"

definition print :: "string \<Rightarrow> unit release_script" where
  "print line w = (Inr (), w\<lparr>rl_console := rl_console w @ [line]\<rparr>)"

definition print_all :: "string list \<Rightarrow> unit release_script" where
  "print_all lines w = (Inr (), w\<lparr>rl_console := rl_console w @ lines\<rparr>)"

definition quit :: "string list \<Rightarrow> int \<Rightarrow> 'a release_script" where
  "quit lines code = and_then (print_all lines) (\<lambda>_. throw (Exited code))"

text \<open>A \<open>catch\<close> that prints \<open>err.message\<close> and exits; reading it of \<open>undefined\<close> throws once more.\<close>

definition give_up :: "string \<Rightarrow> thrown \<Rightarrow> 'a release_script" where
  "give_up label e =
     (case e of None \<Rightarrow> throw (Rejected (error_of ''Cannot read properties of undefined (reading 'message')''))
      | Some err \<Rightarrow> quit [label @ or_else (er_message err) ''undefined''] 1)"

text \<open>\<open>value || default\<close> of texts.\<close>

definition filled_or :: "string option \<Rightarrow> string \<Rightarrow> string" where
  "filled_or x d = (if or_else x [] = [] then d else or_else x [])"

definition registry_path :: "release_platform \<Rightarrow> string" where
  "registry_path K = rp_registryDir K @ ''/releases.json''"

section \<open>Signing\<close>

definition RELEASE_KEY_MISSING :: string where
  "RELEASE_KEY_MISSING = ''Error: RELEASE_SIGNING_KEY is not set. Refusing to sign a release with a random throwaway key -- '' @
     ''set RELEASE_SIGNING_KEY (see .github/workflows/release.yml) before running this script.''"

text \<open>The list the file holds; anything but an array has no \<open>findIndex\<close>.\<close>

definition load_registry :: "string \<Rightarrow> (release_entry list) release_script" where
  "load_registry path w =
     (case rl_registry w of
        None \<Rightarrow> (Inr [], w)
      | Some (NoJson _) \<Rightarrow>
          and_then (print (''Could not parse existing registry at '' @ path @ ''. Starting a new one.'')) (\<lambda>_. give []) w
      | Some OtherJson \<Rightarrow> (Inl (Rejected (error_of ''registry.findIndex is not a function'')), w)
      | Some (JsonArray es) \<Rightarrow> (Inr es, w))"

text \<open>The first entry of the version is replaced, else the entry is appended.\<close>

fun put_release :: "release_entry \<Rightarrow> release_entry list \<Rightarrow> release_entry list" where
  "put_release e [] = [e]"
| "put_release e (x # xs) = (if re_version x = re_version e then e # xs else x # put_release e xs)"

definition write_registry :: "release_entry list \<Rightarrow> unit release_script" where
  "write_registry es w = (Inr (), w\<lparr>rl_registry := Some (JsonArray es)\<rparr>)"

definition write_metadata :: "string \<Rightarrow> release_entry \<Rightarrow> unit release_script" where
  "write_metadata file e w = (Inr (), w\<lparr>rl_metadata := rl_metadata w @ [(file, e)]\<rparr>)"

definition release_record :: "release_platform \<Rightarrow> release_env \<Rightarrow> string \<Rightarrow> string \<Rightarrow> string \<Rightarrow> byte list \<Rightarrow> release_entry" where
  "release_record K env timestamp secret publicKey wasmHash =
     \<lparr>re_version = Some (filled_or (rv_VERSION env) ''v0.0.0-dev''), re_commit = Some (filled_or (rv_COMMIT_SHA env) ''unknown''),
      re_wasm_hash = Some (hex_of_bytes wasmHash), re_signature = Some (hex_of_bytes (rp_sign K secret wasmHash)),
      re_signer_public_key = Some publicKey, re_timestamp = Some timestamp, re_is_transient = False\<rparr>"

text \<open>\<open>path.join\<close> of the directory and a version without slashes.\<close>

definition metadata_file :: "release_platform \<Rightarrow> string \<Rightarrow> string" where
  "metadata_file K version = rp_registryDir K @ ''/address_onboarding_bridge-'' @ version @ ''-verification.json''"

definition publish_release :: "release_platform \<Rightarrow> string \<Rightarrow> release_entry \<Rightarrow> unit release_script" where
  "publish_release K version e =
     and_then (load_registry (registry_path K)) (\<lambda>registry.
     and_then (write_registry (put_release e registry)) (\<lambda>_.
     and_then (print (''Successfully published release '' @ version @ '' to registry: '' @ registry_path K)) (\<lambda>_.
     and_then (write_metadata (metadata_file K version) e) (\<lambda>_.
     print (''Saved standalone verification metadata: '' @ metadata_file K version)))))"

definition sign_release :: "release_platform \<Rightarrow> release_env \<Rightarrow> string \<Rightarrow> string list \<Rightarrow> unit release_script" where
  "sign_release K env timestamp argv =
     (let version = filled_or (rv_VERSION env) ''v0.0.0-dev'';
          wasmArg = (if 2 < length argv then argv ! 2 else []); wasmPath = resolved_path (rp_cwd K) wasmArg in
      if wasmArg = [] then quit [''Usage: node scripts/sign-release.js <wasm-path>''] 1
      else case rp_file K wasmPath of
        None \<Rightarrow> quit [''Error: WASM file not found at: '' @ wasmPath,
                     ''Please run \"cargo build -p onboarding-bridge --release --target wasm32v1-none\" first.''] 1
      | Some wasmBytes \<Rightarrow>
          let wasmHash = rp_sha256 K wasmBytes; secret = or_else (rv_RELEASE_SIGNING_KEY env) [] in
          and_then (print_all [''WASM Path: '' @ wasmPath, ''Computed WASM SHA-256 Hash: '' @ hex_of_bytes wasmHash]) (\<lambda>_.
          if secret = [] then quit [RELEASE_KEY_MISSING] 1
          else case rp_fromSecret K secret of
            Inl e \<Rightarrow> give_up ''Error parsing RELEASE_SIGNING_KEY: '' e
          | Inr publicKey \<Rightarrow>
              let entry = release_record K env timestamp secret publicKey wasmHash in
              and_then (print_all [''Signed by Public Key: '' @ publicKey,
                                   ''Signature (Hex):      '' @ hex_of_bytes (rp_sign K secret wasmHash)]) (\<lambda>_.
              publish_release K version entry)))"

section \<open>Verifying\<close>

fun getArgValue :: "string \<Rightarrow> string list \<Rightarrow> string option" where
  "getArgValue flag [] = None"
| "getArgValue flag (a # args) = (if a = flag then (case args of [] \<Rightarrow> None | v # _ \<Rightarrow> Some v) else getArgValue flag args)"

definition hasFlag :: "string \<Rightarrow> string list \<Rightarrow> bool" where
  "hasFlag flag argv \<longleftrightarrow> flag \<in> set argv"

text \<open>\<open>getArgValue(a) || getArgValue(b)\<close>; an empty text counts as none.\<close>

definition option_of :: "string \<Rightarrow> string \<Rightarrow> string list \<Rightarrow> string" where
  "option_of a b argv = filled_or (getArgValue a argv) (or_else (getArgValue b argv) [])"

definition printUsage :: "unit release_script" where
  "printUsage = print_all
     [''Usage: node scripts/verify-release.js [options]'', ''Options:'',
      ''  -c, --contract <CONTRACT_ID>    Verify a deployed on-chain contract'',
      ''  -w, --wasm <WASM_PATH>          Verify a local compiled WASM file'',
      ''  -n, --network <network>         Stellar network: 'testnet', 'public', 'standalone' (default: 'testnet')'',
      ''  --rpc-url <URL>                 Custom Soroban RPC URL'',
      ''  -k, --public-key <PUB_KEY>      Override/specify the expected release signer public key'',
      ''  -h, --help                      Show this help message'']"

definition rpc_url :: "string \<Rightarrow> string \<Rightarrow> string option" where
  "rpc_url override network =
     (if override \<noteq> [] then Some override
      else if network = ''public'' \<or> network = ''mainnet'' then Some ''https://mainnet.sorobanrpc.com''
      else if network = ''testnet'' then Some ''https://soroban-testnet.stellar.org''
      else if network = ''standalone'' \<or> network = ''local'' then Some ''http://localhost:8000/soroban/rpc''
      else None)"

definition contract_hash :: "release_platform \<Rightarrow> string \<Rightarrow> string \<Rightarrow> string \<Rightarrow> (byte list \<times> string) release_script" where
  "contract_hash K contractId override network =
     (case rpc_url override network of
        None \<Rightarrow> quit [''Error: Unknown network '' @ [CHR 0x27] @ network @ [CHR 0x27] @ ''. Please specify --rpc-url.''] 1
      | Some url \<Rightarrow>
          and_then (print_all [''Connecting to Soroban RPC: '' @ url, ''Fetching ledger entry for contract: '' @ contractId]) (\<lambda>_.
          case rp_server K url of
            Some e \<Rightarrow> throw (Rejected e)
          | None \<Rightarrow>
              (case rp_instance K url contractId of
                 Inl e \<Rightarrow> give_up ''Error fetching contract from blockchain: '' e
               | Inr NoEntries \<Rightarrow> quit [''Error: Contract '' @ contractId @ '' not found on-chain.''] 1
               | Inr NoInstance \<Rightarrow> quit [''Error: Ledger entry is not a contract instance.''] 1
               | Inr (Executable arm wasmId) \<Rightarrow>
                   if arm \<noteq> ''wasm'' then quit [''Error: Contract executable is not WASM (type: '' @ arm @ '').''] 1
                   else (case wasmId of
                      Inl e \<Rightarrow> give_up ''Error fetching contract from blockchain: '' e
                    | Inr hash \<Rightarrow> give (hash, ''On-chain contract ('' @ contractId @ '' on '' @ network @ '')'')))))"

definition file_hash :: "release_platform \<Rightarrow> string \<Rightarrow> (byte list \<times> string) release_script" where
  "file_hash K wasmPath =
     (case rp_file K (resolved_path (rp_cwd K) wasmPath) of
        None \<Rightarrow> quit [''Error: Local WASM file not found at '' @ wasmPath] 1
      | Some wasmBytes \<Rightarrow> give (rp_sha256 K wasmBytes, ''Local WASM file ('' @ wasmPath @ '')''))"

text \<open>\<open>fromPublicKey\<close>, the bytes of the signature and the check, in this order.\<close>

definition check_signature :: "release_platform \<Rightarrow> string option \<Rightarrow> string option \<Rightarrow> byte list \<Rightarrow> thrown + bool" where
  "check_signature K signerPubKey signature hash =
     (case rp_fromPublicKey K signerPubKey of
        Some e \<Rightarrow> Inl e
      | None \<Rightarrow>
          (case signature of
             None \<Rightarrow> Inl (error_of ''The first argument must be of type string or an instance of Buffer'')
           | Some s \<Rightarrow> rp_verify K (or_else signerPubKey []) hash (bytes_of_hex s)))"

definition verify_entry :: "release_platform \<Rightarrow> string \<Rightarrow> byte list \<Rightarrow> release_entry \<Rightarrow> unit release_script" where
  "verify_entry K expectedPublicKey hash e =
     (let signer = (if expectedPublicKey \<noteq> [] then Some expectedPublicKey else re_signer_public_key e);
          shown = (\<lambda>x. or_else x ''undefined'') in
      and_then (print_all
        ([''Hash found in registry!'', ''  Release Version: '' @ shown (re_version e), ''  Commit SHA:      '' @ shown (re_commit e),
          ''  Timestamp:       '' @ shown (re_timestamp e)] @
         (if expectedPublicKey \<noteq> [] \<and> Some expectedPublicKey \<noteq> re_signer_public_key e
          then [''WARNING: Overriding registry signer public key with user-supplied key: '' @ expectedPublicKey] else []))) (\<lambda>_.
      case check_signature K signer (re_signature e) hash of
        Inl err \<Rightarrow> give_up ''Error verifying signature: '' err
      | Inr True \<Rightarrow>
          print_all [''Cryptographic signature is VALID!'', ''  Signed by: '' @ shown signer,
            (if re_is_transient e then ''NOTE: This release was signed with a transient development key.''
             else ''SUCCESS: The contract is VERIFIED against audited release '' @ shown (re_version e) @ ''!'')]
      | Inr False \<Rightarrow>
          quit [''SIGNATURE VERIFICATION FAILED!'',
                ''The signature in the registry does not match the public key: '' @ shown signer] 1))"

definition check_hash :: "release_platform \<Rightarrow> string \<Rightarrow> registry_file \<Rightarrow> byte list \<Rightarrow> string \<Rightarrow> unit release_script" where
  "check_hash K expectedPublicKey registry hash source =
     and_then (print_all [''Verification Source: '' @ source, ''SHA-256 WASM Hash:   '' @ hex_of_bytes hash]) (\<lambda>_.
     case registry of
       JsonArray es \<Rightarrow>
         (case find (\<lambda>e. re_wasm_hash e = Some (hex_of_bytes hash)) es of
            None \<Rightarrow> quit [''VERIFICATION FAILED: The WASM hash is NOT present in the registry.'',
                         ''This means the contract code does not match any official, audited release.''] 1
          | Some e \<Rightarrow> verify_entry K expectedPublicKey hash e)
     | _ \<Rightarrow> throw (Rejected (error_of ''registry.find is not a function'')))"

definition verify_release :: "release_platform \<Rightarrow> string list \<Rightarrow> unit release_script" where
  "verify_release K argv w =
     (if hasFlag ''--help'' argv \<or> hasFlag ''-h'' argv \<or> length argv = 2 then and_then printUsage (\<lambda>_. throw (Exited 0)) w
      else let contractId = option_of ''--contract'' ''-c'' argv; wasmPath = option_of ''--wasm'' ''-w'' argv;
               network = filled_or (Some (option_of ''--network'' ''-n'' argv)) ''testnet'';
               rpcUrlOverride = or_else (getArgValue ''--rpc-url'' argv) []; expectedPublicKey = option_of ''--public-key'' ''-k'' argv in
        (case rl_registry w of
           None \<Rightarrow> quit [''Error: Verification registry not found at '' @ registry_path K] 1 w
         | Some (NoJson message) \<Rightarrow> quit [''Error parsing registry: '' @ message] 1 w
         | Some registry \<Rightarrow>
             and_then
               (if contractId \<noteq> [] then contract_hash K contractId rpcUrlOverride network
                else if wasmPath \<noteq> [] then file_hash K wasmPath
                else and_then (print ''Error: You must specify either --contract or --wasm to verify.'') (\<lambda>_.
                     and_then printUsage (\<lambda>_. throw (Exited 1))))
               (\<lambda>(hash, source). check_hash K expectedPublicKey registry hash source) w))"

section \<open>What a run does\<close>

lemma print_simps [simp]:
  "print l w = (Inr (), w\<lparr>rl_console := rl_console w @ [l]\<rparr>)" "print_all ls w = (Inr (), w\<lparr>rl_console := rl_console w @ ls\<rparr>)"
  "quit ls c w = (Inl (Exited c), w\<lparr>rl_console := rl_console w @ ls\<rparr>)"
  by (simp_all add: print_def print_all_def quit_def and_then_def)

text \<open>Everything before a step that needs no printing leaves the files alone; \<open>quiet_run\<close> says so of an outcome.\<close>

definition files_of :: "release_world \<Rightarrow> registry_file option \<times> (string \<times> release_entry) list" where
  "files_of w = (rl_registry w, rl_metadata w)"

definition entries_of :: "release_world \<Rightarrow> release_entry list" where
  "entries_of w = (case rl_registry w of Some (JsonArray es) \<Rightarrow> es | _ \<Rightarrow> [])"

lemma files_of_console [simp]: "files_of (w\<lparr>rl_console := c\<rparr>) = files_of w"
  by (simp add: files_of_def)

lemma give_up_files: "files_of (snd (give_up l e w)) = files_of w" "exit_code (fst (give_up l e w)) \<noteq> 0"
  by (cases e; simp add: give_up_def exit_code_def)+

lemma give_up_not_Inr [simp]: "give_up l e w \<noteq> (Inr a, w')"
  by (cases e) (auto simp: give_up_def)

text \<open>Publication, given the list the registry held.\<close>

lemma publish_release_runs:
  assumes "rl_registry w \<noteq> Some OtherJson"
  shows "fst (publish_release K version e w) = Inr ()"
    "rl_registry (snd (publish_release K version e w)) = Some (JsonArray (put_release e (entries_of w)))"
    "rl_metadata (snd (publish_release K version e w)) = rl_metadata w @ [(metadata_file K version, e)]"
  using assms by (auto simp: publish_release_def load_registry_def write_registry_def write_metadata_def entries_of_def and_then_def
      split: option.splits registry_file.splits)

lemma publish_release_refuses:
  "rl_registry w = Some OtherJson \<Longrightarrow> publish_release K version e w = (Inl (Rejected (error_of ''registry.findIndex is not a function'')), w)"
  by (simp add: publish_release_def load_registry_def and_then_def)

text \<open>A signing run ends in one of two ways.\<close>

definition signing_input :: "release_platform \<Rightarrow> release_env \<Rightarrow> string \<Rightarrow> string list \<Rightarrow> byte list \<Rightarrow> string \<Rightarrow> string \<Rightarrow> bool" where
  "signing_input K env ts argv bytes sk pk \<longleftrightarrow> 2 < length argv \<and> argv ! 2 \<noteq> [] \<and> rp_file K (resolved_path (rp_cwd K) (argv ! 2)) = Some bytes
     \<and> rv_RELEASE_SIGNING_KEY env = Some sk \<and> sk \<noteq> [] \<and> rp_fromSecret K sk = Inr pk"

lemma sign_release_outcome:
  fixes K env ts argv w
  defines "run \<equiv> sign_release K env ts argv w"
  shows "exit_code (fst run) \<noteq> 0 \<and> files_of (snd run) = files_of w \<or>
    (\<exists>bytes sk pk. signing_input K env ts argv bytes sk pk \<and> fst run = Inr () \<and>
       rl_registry (snd run) = Some (JsonArray (put_release (release_record K env ts sk pk (rp_sha256 K bytes)) (entries_of w))) \<and>
       rl_metadata (snd run) = rl_metadata w @
         [(metadata_file K (filled_or (rv_VERSION env) ''v0.0.0-dev''), release_record K env ts sk pk (rp_sha256 K bytes))])"
    (is "?refused \<or> ?published")
proof -
  define path where "path = resolved_path (rp_cwd K) (if 2 < length argv then argv ! 2 else [])"
  define secret where "secret = or_else (rv_RELEASE_SIGNING_KEY env) []"
  consider "(if 2 < length argv then argv ! 2 else []) = []"
    | "(if 2 < length argv then argv ! 2 else []) \<noteq> []" "rp_file K path = None"
    | bytes where "(if 2 < length argv then argv ! 2 else []) \<noteq> []" "rp_file K path = Some bytes"
    by (cases "rp_file K path") auto
  then show ?thesis
  proof cases
    case 1
    then show ?thesis by (simp add: run_def sign_release_def exit_code_def)
  next
    case 2
    then show ?thesis by (simp add: run_def sign_release_def exit_code_def path_def Let_def)
  next
    case (3 bytes)
    let ?w1 = "w\<lparr>rl_console := rl_console w @ [''WASM Path: '' @ path, ''Computed WASM SHA-256 Hash: '' @ hex_of_bytes (rp_sha256 K bytes)]\<rparr>"
    have run: "run = (if secret = [] then quit [RELEASE_KEY_MISSING] 1 ?w1
      else case rp_fromSecret K secret of Inl e \<Rightarrow> give_up ''Error parsing RELEASE_SIGNING_KEY: '' e ?w1
        | Inr pk \<Rightarrow> publish_release K (filled_or (rv_VERSION env) ''v0.0.0-dev'') (release_record K env ts secret pk (rp_sha256 K bytes))
            (?w1\<lparr>rl_console := rl_console ?w1 @ [''Signed by Public Key: '' @ pk,
               ''Signature (Hex):      '' @ hex_of_bytes (rp_sign K secret (rp_sha256 K bytes))]\<rparr>))"
      using 3 unfolding run_def sign_release_def path_def secret_def Let_def
      by (auto simp: and_then_def simp del: append.simps split: sum.splits)
    consider "secret = []" | e where "secret \<noteq> []" "rp_fromSecret K secret = Inl e"
      | pk where "secret \<noteq> []" "rp_fromSecret K secret = Inr pk" by (cases "rp_fromSecret K secret") auto
    then show ?thesis
    proof cases
      case 1
      then show ?thesis by (simp add: run exit_code_def)
    next
      case (2 e)
      then show ?thesis by (simp add: run give_up_files)
    next
      case (3 pk)
      have key: "signing_input K env ts argv bytes secret pk"
        using \<open>rp_file K path = Some bytes\<close> \<open>(if 2 < length argv then argv ! 2 else []) \<noteq> []\<close> 3
        by (cases "rv_RELEASE_SIGNING_KEY env") (auto simp: signing_input_def path_def secret_def split: if_splits)
      show ?thesis
      proof (cases "rl_registry w = Some OtherJson")
        case True
        with 3 show ?thesis by (simp add: run publish_release_refuses exit_code_def)
      next
        case False
        with 3 key show ?thesis
          by (intro disjI2 exI [of _ bytes] exI [of _ secret] exI [of _ pk]) (simp add: run publish_release_runs entries_of_def)
      qed
    qed
  qed
qed

lemma put_release_others: "filter (\<lambda>x. re_version x \<noteq> re_version e) (put_release e es) = filter (\<lambda>x. re_version x \<noteq> re_version e) es"
  by (induction es) auto

lemma put_release_versions:
  "map re_version (put_release e es) = (if re_version e \<in> set (map re_version es) then map re_version es else map re_version es @ [re_version e])"
  by (induction es) auto

lemma find_put_release:
  assumes "P e"
  shows "\<exists>x. find P (put_release e es) = Some x \<and> (x = e \<or> x \<in> set es \<and> re_version x \<noteq> re_version e \<and> P x)"
  using assms by (induction es) auto

lemma put_release_new: "re_version e \<notin> set (map re_version es) \<Longrightarrow> put_release e es = es @ [e]"
  by (induction es) auto

lemma set_put_release: "e \<in> set (put_release e es)"
  by (induction es) auto

text \<open>A verifying run, from its last step to its first.\<close>

definition release_signer :: "string \<Rightarrow> release_entry \<Rightarrow> string option" where
  "release_signer expected e = (if expected \<noteq> [] then Some expected else re_signer_public_key e)"

lemma check_signature_valid:
  "check_signature K signer sg h = Inr True \<longleftrightarrow>
     rp_fromPublicKey K signer = None \<and> (\<exists>s. sg = Some s \<and> rp_verify K (or_else signer []) h (bytes_of_hex s) = Inr True)"
  by (auto simp: check_signature_def split: option.splits)

lemma verify_entry_exit:
  "exit_code (fst (verify_entry K expected h e w)) = 0 \<longleftrightarrow> check_signature K (release_signer expected e) (re_signature e) h = Inr True"
proof -
  let ?c = "check_signature K (release_signer expected e) (re_signature e) h"
  have "?c = Inr True \<or> ?c = Inr False \<or> (\<exists>err. ?c = Inl err)" by (cases ?c) auto
  then show ?thesis
    unfolding verify_entry_def Let_def release_signer_def [symmetric]
    by (auto simp: and_then_def exit_code_def give_up_def split: option.splits)
qed

lemma verify_entry_prints:
  assumes "check_signature K (release_signer expected e) (re_signature e) h = Inr True" "\<not> re_is_transient e" "re_version e = Some v"
  shows "''SUCCESS: The contract is VERIFIED against audited release '' @ v @ ''!'' \<in> set (rl_console (snd (verify_entry K expected h e w)))"
    "files_of (snd (verify_entry K expected h e w)) = files_of w"
  using assms(2,3) unfolding verify_entry_def Let_def release_signer_def [symmetric] assms(1)
  by (simp_all add: and_then_def files_of_def del: append.simps)

lemma check_hash_exit:
  assumes "exit_code (fst (check_hash K expected registry h src w)) = 0"
  shows "\<exists>es e. registry = JsonArray es \<and> e \<in> set es \<and> re_wasm_hash e = Some (hex_of_bytes h)
    \<and> check_signature K (release_signer expected e) (re_signature e) h = Inr True"
  using assms
  by (auto simp: check_hash_def and_then_def exit_code_def [of "Inl _"] verify_entry_exit find_Some_iff
      split: registry_file.splits option.splits simp del: append.simps) (metis nth_mem)+

text \<open>Where the verified hash comes from.\<close>

definition source_hash :: "release_platform \<Rightarrow> string list \<Rightarrow> byte list \<Rightarrow> bool" where
  "source_hash K argv h \<longleftrightarrow>
     (let c = option_of ''--contract'' ''-c'' argv; f = option_of ''--wasm'' ''-w'' argv in
      if c \<noteq> [] then
        \<exists>url. rpc_url (or_else (getArgValue ''--rpc-url'' argv) []) (filled_or (Some (option_of ''--network'' ''-n'' argv)) ''testnet'') = Some url
          \<and> rp_instance K url c = Inr (Executable ''wasm'' (Inr h))
      else f \<noteq> [] \<and> map_option (rp_sha256 K) (rp_file K (resolved_path (rp_cwd K) f)) = Some h)"

definition read_hash :: "release_platform \<Rightarrow> string list \<Rightarrow> (byte list \<times> string) release_script" where
  "read_hash K argv =
     (let contractId = option_of ''--contract'' ''-c'' argv; wasmPath = option_of ''--wasm'' ''-w'' argv in
      if contractId \<noteq> []
      then contract_hash K contractId (or_else (getArgValue ''--rpc-url'' argv) []) (filled_or (Some (option_of ''--network'' ''-n'' argv)) ''testnet'')
      else if wasmPath \<noteq> [] then file_hash K wasmPath
      else and_then (print ''Error: You must specify either --contract or --wasm to verify.'') (\<lambda>_.
           and_then printUsage (\<lambda>_. throw (Exited 1))))"

lemma printUsage_apply: "printUsage w = (Inr (), snd (printUsage w))"
  by (simp add: printUsage_def)

lemma contract_hash_outcome:
  "case contract_hash K c override network w of
     (Inr (h, src), w') \<Rightarrow> \<exists>url. rpc_url override network = Some url \<and> rp_instance K url c = Inr (Executable ''wasm'' (Inr h))
   | (Inl e, w') \<Rightarrow> exit_code (Inl e :: stop + unit) \<noteq> 0"
proof (cases "rpc_url override network")
  case None
  then show ?thesis by (simp add: contract_hash_def exit_code_def)
next
  case (Some url)
  then show ?thesis
    by (cases "rp_server K url"; cases "rp_instance K url c")
       (auto simp: contract_hash_def and_then_def exit_code_def give_up_def simp del: append.simps
        split: option.splits ledger_answer.splits sum.splits)
qed

lemma read_hash_outcome:
  "case read_hash K argv w of
     (Inr (h, src), w') \<Rightarrow> source_hash K argv h
   | (Inl e, w') \<Rightarrow> exit_code (Inl e :: stop + unit) \<noteq> 0"
proof (cases "option_of ''--contract'' ''-c'' argv = []")
  case True
  then show ?thesis
    by (auto simp: read_hash_def source_hash_def Let_def file_hash_def and_then_def printUsage_def exit_code_def simp del: append.simps
        split: option.splits)
next
  case False
  with contract_hash_outcome [where K = K and c = "option_of ''--contract'' ''-c'' argv" and w = w
      and override = "or_else (getArgValue ''--rpc-url'' argv) []"
      and network = "filled_or (Some (option_of ''--network'' ''-n'' argv)) ''testnet''"]
  show ?thesis by (simp add: read_hash_def source_hash_def Let_def split: prod.splits sum.splits) blast
qed

lemma verify_release_run:
  assumes "\<not> (hasFlag ''--help'' argv \<or> hasFlag ''-h'' argv \<or> length argv = 2)" "rl_registry w = Some registry" "\<forall>m. registry \<noteq> NoJson m"
  shows "verify_release K argv w =
    and_then (read_hash K argv) (\<lambda>(h, src). check_hash K (option_of ''--public-key'' ''-k'' argv) registry h src) w"
  using assms by (cases registry) (auto simp: verify_release_def read_hash_def Let_def)

lemma verify_needs_registry:
  assumes "rl_registry w = None \<or> rl_registry w = Some (NoJson m)" "\<not> (hasFlag ''--help'' argv \<or> hasFlag ''-h'' argv \<or> length argv = 2)"
  shows "exit_code (fst (verify_release K argv w)) \<noteq> 0"
  using assms by (auto simp: verify_release_def Let_def exit_code_def)

section \<open>Properties\<close>

text \<open>A platform on which a signature is the secret followed by the message.\<close>

definition sample_release :: release_platform where
  "sample_release = \<lparr>rp_sha256 = (\<lambda>bs. bs), rp_fromSecret = (\<lambda>sk. Inr (CHR ''G'' # sk)), rp_sign = (\<lambda>sk m. sk @ m),
     rp_fromPublicKey = (\<lambda>pk. case pk of None \<Rightarrow> Some (error_of ''invalid'') | Some _ \<Rightarrow> None),
     rp_verify = (\<lambda>pk m sg. Inr (sg = tl pk @ m)), rp_server = (\<lambda>_. None), rp_instance = (\<lambda>_ _. Inr NoEntries),
     rp_file = (\<lambda>f. if f = ''/repo/a.wasm'' then Some ''wasm'' else None), rp_cwd = ''/repo'', rp_registryDir = ''/repo/registry''\<rparr>"

definition sample_release_env :: release_env where
  "sample_release_env = \<lparr>rv_VERSION = Some ''v1'', rv_COMMIT_SHA = None, rv_RELEASE_SIGNING_KEY = Some ''S''\<rparr>"

definition no_release :: release_world where
  "no_release = \<lparr>rl_console = [], rl_registry = None, rl_metadata = []\<rparr>"

definition signed_world :: release_world where
  "signed_world = snd (sign_release sample_release sample_release_env ''now'' [''node'', ''sign'', ''a.wasm''] no_release)"

lemma sample_path: "resolved_path ''/repo'' ''a.wasm'' = ''/repo/a.wasm''"
  by code_simp

lemma sample_signing: "exit_code (fst (sign_release sample_release sample_release_env ''now'' [''node'', ''sign'', ''a.wasm''] no_release)) = 0"
  by code_simp

text \<open>C39: A release verifies only when it was signed: a run of the verifying script that does not just print its help and ends
  with exit code 0 took the hash from the WASM file or from the ledger, found it in an entry of the registry, and the
  signature of that entry verifies over this hash, under the key given on the command line, or
  else under the one the entry names.\<close>

theorem verified_release_is_signed:
  assumes "\<not> (hasFlag ''--help'' argv \<or> hasFlag ''-h'' argv \<or> length argv = 2)" "exit_code (fst (verify_release K argv w)) = 0"
  shows "\<exists>h e s. source_hash K argv h \<and> e \<in> set (entries_of w) \<and> re_wasm_hash e = Some (hex_of_bytes h) \<and> re_signature e = Some s
    \<and> rp_fromPublicKey K (release_signer (option_of ''--public-key'' ''-k'' argv) e) = None
    \<and> rp_verify K (or_else (release_signer (option_of ''--public-key'' ''-k'' argv) e) []) h (bytes_of_hex s) = Inr True"
proof -
  from assms obtain registry where registry: "rl_registry w = Some registry" "\<forall>m. registry \<noteq> NoJson m"
    using verify_needs_registry [where w = w and K = K and argv = argv] by (cases "rl_registry w") auto
  note run = verify_release_run [OF assms(1) registry]
  obtain x w1 where read: "read_hash K argv w = (x, w1)" by fastforce
  from read_hash_outcome [of K argv w] assms(2) obtain h src where h: "x = Inr (h, src)" "source_hash K argv h"
    unfolding run by (cases x) (auto simp: read and_then_def exit_code_def [of "Inl _"])
  with assms(2) have "exit_code (fst (check_hash K (option_of ''--public-key'' ''-k'' argv) registry h src w1)) = 0"
    unfolding run by (simp add: read and_then_def)
  from check_hash_exit [OF this] obtain es e where "registry = JsonArray es" "e \<in> set es" "re_wasm_hash e = Some (hex_of_bytes h)"
    "check_signature K (release_signer (option_of ''--public-key'' ''-k'' argv) e) (re_signature e) h = Inr True" by blast
  with h(2) registry(1) show ?thesis by (auto simp: entries_of_def check_signature_valid)
qed

theorem verified_release_is_signed_witness:
  "\<exists>h e s. source_hash sample_release [''node'', ''verify'', ''-w'', ''a.wasm''] h \<and> e \<in> set (entries_of signed_world)
     \<and> re_wasm_hash e = Some (hex_of_bytes h) \<and> re_signature e = Some s"
proof -
  have "exit_code (fst (verify_release sample_release [''node'', ''verify'', ''-w'', ''a.wasm''] signed_world)) = 0"
    "\<not> (hasFlag ''--help'' [''node'', ''verify'', ''-w'', ''a.wasm''] \<or> hasFlag ''-h'' [''node'', ''verify'', ''-w'', ''a.wasm'']
        \<or> length [''node'', ''verify'', ''-w'', ''a.wasm''] = 2)"
    by code_simp+
  from verified_release_is_signed [OF this(2,1)] show ?thesis by blast
qed

text \<open>Documented behaviour of key pairs: the public key of a secret is accepted, and verifies what the secret signs.\<close>

definition release_keys :: "release_platform \<Rightarrow> bool" where
  "release_keys K \<longleftrightarrow> (\<forall>sk pk m. rp_fromSecret K sk = Inr pk \<longrightarrow>
     rp_fromPublicKey K (Some pk) = None \<and> rp_verify K pk m (rp_sign K sk m) = Inr True)"

lemma no_dash: "\<not> prefix ''-'' a \<Longrightarrow> a \<noteq> CHR ''-'' # x"
  by auto

lemma option_of_first:
  assumes "\<not> prefix ''-'' node" "\<not> prefix ''-'' script" "\<not> prefix ''-'' f" "f \<noteq> []" "\<not> prefix ''-'' pk"
    and argv: "argv = node # script # ''--wasm'' # f # (if expect then [''--public-key'', pk] else [])"
  shows "option_of ''--contract'' ''-c'' argv = []" "option_of ''--wasm'' ''-w'' argv = f"
    "option_of ''--public-key'' ''-k'' argv = (if expect then pk else [])"
    "\<not> (hasFlag ''--help'' argv \<or> hasFlag ''-h'' argv \<or> length argv = 2)"
proof -
  note no = no_dash [OF assms(1)] no_dash [OF assms(2)] no_dash [OF assms(3)] no_dash [OF assms(5)]
  note [simp] = no no [symmetric]
  show "option_of ''--contract'' ''-c'' argv = []" by (cases expect) (simp_all add: argv option_of_def filled_or_def)
  show "option_of ''--wasm'' ''-w'' argv = f" using assms(4) by (cases expect) (simp_all add: argv option_of_def filled_or_def)
  show "option_of ''--public-key'' ''-k'' argv = (if expect then pk else [])"
    by (cases expect) (simp_all add: argv option_of_def filled_or_def)
  show "\<not> (hasFlag ''--help'' argv \<or> hasFlag ''-h'' argv \<or> length argv = 2)"
    by (cases expect) (simp_all add: argv hasFlag_def)
qed

text \<open>An entry a run of the signing script made with a given key for a given hash.\<close>

definition signed_with :: "release_platform \<Rightarrow> string \<Rightarrow> string \<Rightarrow> byte list \<Rightarrow> release_entry \<Rightarrow> bool" where
  "signed_with K sk pk h e \<longleftrightarrow> re_signer_public_key e = Some pk \<and> re_signature e = Some (hex_of_bytes (rp_sign K sk h))
     \<and> \<not> re_is_transient e \<and> re_version e \<noteq> None"

lemma release_record_signed_with:
  "signed_with K sk pk h (release_record K env ts sk pk h)" "re_wasm_hash (release_record K env ts sk pk h) = Some (hex_of_bytes h)"
  "re_version (release_record K env ts sk pk h) = Some (filled_or (rv_VERSION env) ''v0.0.0-dev'')"
  by (simp_all add: signed_with_def release_record_def)

lemma signed_with_valid:
  assumes "release_keys K" "rp_fromSecret K sk = Inr pk" "signed_with K sk pk h e"
  shows "check_signature K (release_signer (if expect then pk else []) e) (re_signature e) h = Inr True"
  using assms by (simp add: check_signature_valid release_keys_def signed_with_def release_signer_def)

text \<open>Verifying a file whose hash an entry of the registry has, with the flags of \<open>option_of_first\<close>.\<close>

lemma verify_file_run:
  assumes "list_all (\<lambda>a. \<not> prefix ''-'' a) [node, script, f, pk]" "f \<noteq> []"
    and "argv = node # script # ''--wasm'' # f # (if expect then [''--public-key'', pk] else [])"
    and "rl_registry w = Some (JsonArray es)" "rp_file K (resolved_path (rp_cwd K) f) = Some bytes"
    and "find (\<lambda>x. re_wasm_hash x = Some (hex_of_bytes (rp_sha256 K bytes))) es = Some e"
  shows "\<exists>u. files_of u = files_of w
    \<and> verify_release K argv w = verify_entry K (if expect then pk else []) (rp_sha256 K bytes) e u"
proof -
  from assms(1) have flags: "\<not> prefix ''-'' node" "\<not> prefix ''-'' script" "\<not> prefix ''-'' f" "\<not> prefix ''-'' pk" by simp_all
  note args = option_of_first [OF flags(1-3) assms(2) flags(4) assms(3)]
  have read: "read_hash K argv w = (Inr (rp_sha256 K bytes, ''Local WASM file ('' @ f @ '')''), w)"
    unfolding read_hash_def args(1,2) Let_def using assms(2,5) by (simp add: file_hash_def)
  let ?u = "snd (print_all [''Verification Source: '' @ ''Local WASM file ('' @ f @ '')'',
      ''SHA-256 WASM Hash:   '' @ hex_of_bytes (rp_sha256 K bytes)] w)"
  have "verify_release K argv w = verify_entry K (if expect then pk else []) (rp_sha256 K bytes) e ?u"
    unfolding verify_release_run [OF args(4) assms(4), simplified] and_then_def read args(3)
    by (simp add: check_hash_def and_then_def assms(6) del: append.simps)
  then show ?thesis by (intro exI [of _ ?u]) simp
qed

text \<open>C38: Signing and verifying fit while the signing key stays the same: after a run of the signing script that ends with
  exit code 0, the registry holds the signed entry of its version, and verifying the same WASM file ends with exit code 0 and reports success, whether the
  signer's public key is passed or the one in the registry is used (no argument being mistaken for an option); the verification changes no file.  Earlier versions may
  have the same file, as when every tag signs one pinned build, provided their entries were signed with this key; the version
  reported is then that of the first of them, and the one just signed when there is none.  After a change of the key this
  fails (\<open>rotated_key_fails_verification\<close>).\<close>

theorem signed_release_verifies:
  assumes "release_keys K" "exit_code (fst (sign_release K env ts argv w)) = 0" "w' = snd (sign_release K env ts argv w)"
    and "list_all (\<lambda>a. \<not> prefix ''-'' a) [node, script, argv ! 2, pk]"
    and "rv_RELEASE_SIGNING_KEY env = Some sk" "rp_fromSecret K sk = Inr pk"
    and "version = filled_or (rv_VERSION env) ''v0.0.0-dev''"
    and "rp_file K (resolved_path (rp_cwd K) (argv ! 2)) = Some bytes" "h = rp_sha256 K bytes"
    and "list_all (\<lambda>x. re_version x \<noteq> Some version \<and> re_wasm_hash x = Some (hex_of_bytes h) \<longrightarrow> signed_with K sk pk h x) (entries_of w)"
    and "argv' = node # script # ''--wasm'' # argv ! 2 # (if expect then [''--public-key'', pk] else [])"
  shows "(\<exists>e \<in> set (entries_of w'). re_version e = Some version \<and> re_wasm_hash e = Some (hex_of_bytes h) \<and> signed_with K sk pk h e)
    \<and> exit_code (fst (verify_release K argv' w')) = 0
    \<and> (\<exists>v. ''SUCCESS: The contract is VERIFIED against audited release '' @ v @ ''!'' \<in> set (rl_console (snd (verify_release K argv' w')))
         \<and> (v = version \<or> (\<exists>x \<in> set (entries_of w). re_version x = Some v \<and> re_wasm_hash x = Some (hex_of_bytes h))))
    \<and> files_of (snd (verify_release K argv' w')) = files_of w'"
proof -
  let ?e = "release_record K env ts sk pk h" and ?P = "\<lambda>x. re_wasm_hash x = Some (hex_of_bytes (rp_sha256 K bytes))"
  from sign_release_outcome [of K env ts argv w] assms(2) obtain bytes' sk' pk' where
    key: "signing_input K env ts argv bytes' sk' pk'" and
    registry: "rl_registry w' = Some (JsonArray (put_release (release_record K env ts sk' pk' (rp_sha256 K bytes')) (entries_of w)))"
    unfolding assms(3) by auto
  then have "bytes' = bytes" "sk' = sk" "pk' = pk" "argv ! 2 \<noteq> []"
    using assms(5,6,8) by (auto simp: signing_input_def)
  with registry have registry: "rl_registry w' = Some (JsonArray (put_release ?e (entries_of w)))" and f: "argv ! 2 \<noteq> []"
    by (simp_all add: assms(9))
  note e = release_record_signed_with [where K = K and sk = sk and pk = pk and h = h and env = env and ts = ts, folded assms(7)]
  have "?P ?e" using e(2) by (simp add: assms(9))
  from find_put_release [of ?P, OF this] obtain x where
    x: "find ?P (put_release ?e (entries_of w)) = Some x"
      "x = ?e \<or> x \<in> set (entries_of w) \<and> re_version x \<noteq> Some version \<and> ?P x" unfolding e(3) by blast
  have signed: "signed_with K sk pk h x"
    using x(2) e(1) assms(10) unfolding assms(9) list_all_iff by blast
  then obtain v where v: "re_version x = Some v" "\<not> re_is_transient x" by (auto simp: signed_with_def)
  from verify_file_run [OF assms(4) f assms(11) registry assms(8) x(1)] obtain u where
    u: "files_of u = files_of w'" "verify_release K argv' w' = verify_entry K (if expect then pk else []) h x u"
    unfolding assms(9) by blast
  note valid = signed_with_valid [OF assms(1,6) signed, of expect]
  have "v = version \<or> (\<exists>x \<in> set (entries_of w). re_version x = Some v \<and> re_wasm_hash x = Some (hex_of_bytes h))"
    using x(2) v(1) e(3) by (auto simp: assms(9))
  moreover have "?e \<in> set (entries_of w')" using registry set_put_release by (simp add: entries_of_def)
  moreover have "exit_code (fst (verify_release K argv' w')) = 0" unfolding u(2) by (simp only: verify_entry_exit valid)
  ultimately show ?thesis
    using verify_entry_prints [OF valid v(2,1), of u] e u(1) unfolding u(2) by auto
qed

text \<open>After a change of the key: a file that an earlier version with another key has is found there, under a new tag too, and the run
  that names the new key fails, because the old signature does not verify under it.\<close>

lemma rotated_key_fails_verification:
  assumes "rl_registry w = Some (JsonArray (put_release e es))" "re_version e \<notin> set (map re_version es)"
    and "list_all (\<lambda>a. \<not> prefix ''-'' a) [node, script, f, pk]" "f \<noteq> []" "pk \<noteq> []"
    and "rp_file K (resolved_path (rp_cwd K) f) = Some bytes"
    and "find (\<lambda>x. re_wasm_hash x = Some (hex_of_bytes (rp_sha256 K bytes))) es = Some old" "re_signature old = Some s"
    and "rp_verify K pk (rp_sha256 K bytes) (bytes_of_hex s) \<noteq> Inr True"
  shows "exit_code (fst (verify_release K [node, script, ''--wasm'', f, ''--public-key'', pk] w)) \<noteq> 0"
proof -
  have "find (\<lambda>x. re_wasm_hash x = Some (hex_of_bytes (rp_sha256 K bytes))) (put_release e es) = Some old"
    unfolding put_release_new [OF assms(2)] using assms(7) by (induction es) auto
  from verify_file_run [OF assms(3,4) refl assms(1,6) this, of True] obtain u where
    "verify_release K [node, script, ''--wasm'', f, ''--public-key'', pk] w = verify_entry K pk (rp_sha256 K bytes) old u" by auto
  with assms(5,8,9) show ?thesis by (simp add: verify_entry_exit check_signature_valid release_signer_def)
qed

text \<open>Two tags that sign one file with one key.\<close>

definition second_env :: release_env where
  "second_env = sample_release_env\<lparr>rv_VERSION := Some ''v2''\<rparr>"

definition twice_signed :: release_world where
  "twice_signed = snd (sign_release sample_release second_env ''later'' [''node'', ''sign'', ''a.wasm''] signed_world)"

theorem signed_release_verifies_witness:
  "exit_code (fst (verify_release sample_release [''node'', ''verify'', ''--wasm'', ''a.wasm'', ''--public-key'', ''GS''] twice_signed)) = 0
   \<and> length (entries_of twice_signed) = 2"
proof -
  let ?argv = "[''node'', ''sign'', ''a.wasm'']"
  have keys: "release_keys sample_release" by (simp add: release_keys_def sample_release_def)
  have signing: "exit_code (fst (sign_release sample_release second_env ''later'' ?argv signed_world)) = 0" by code_simp
  have key: "rv_RELEASE_SIGNING_KEY second_env = Some ''S''" "rp_fromSecret sample_release ''S'' = Inr ''GS''"
    by (simp_all add: sample_release_def sample_release_env_def second_env_def)
  have version: "''v2'' = filled_or (rv_VERSION second_env) ''v0.0.0-dev''" by (simp add: second_env_def filled_or_def)
  have wasm: "rp_file sample_release (resolved_path (rp_cwd sample_release) (?argv ! 2)) = Some ''wasm''" by code_simp
  have hash: "''wasm'' = rp_sha256 sample_release ''wasm''" by (simp add: sample_release_def)
  have others: "list_all (\<lambda>x. re_version x \<noteq> Some ''v2'' \<and> re_wasm_hash x = Some (hex_of_bytes ''wasm'') \<longrightarrow>
      signed_with sample_release ''S'' ''GS'' ''wasm'' x) (entries_of signed_world)" by code_simp
  have flags: "list_all (\<lambda>a. \<not> prefix ''-'' a) [''node'', ''verify'', ?argv ! 2, ''GS'']" by simp
  have argv: "[''node'', ''verify'', ''--wasm'', ''a.wasm'', ''--public-key'', ''GS''] =
    ''node'' # ''verify'' # ''--wasm'' # ?argv ! 2 # (if True then [''--public-key'', ''GS''] else [])" by simp
  have "length (entries_of twice_signed) = 2" by code_simp
  with signed_release_verifies [OF keys signing twice_signed_def flags key version wasm hash others argv] show ?thesis by blast
qed

text \<open>Signing touches the entry of its version only; a run that fails touches no file.\<close>

lemma signing_changes_only_its_version:
  assumes "exit_code (fst (sign_release K env ts argv w)) = 0" "w' = snd (sign_release K env ts argv w)"
    and "version = Some (filled_or (rv_VERSION env) ''v0.0.0-dev'')"
  shows "filter (\<lambda>e. re_version e \<noteq> version) (entries_of w') = filter (\<lambda>e. re_version e \<noteq> version) (entries_of w)"
    "version \<in> set (map re_version (entries_of w'))"
    "distinct (map re_version (entries_of w)) \<Longrightarrow> distinct (map re_version (entries_of w'))"
proof -
  from sign_release_outcome [of K env ts argv w] assms(1) obtain bytes sk pk where
    "rl_registry w' = Some (JsonArray (put_release (release_record K env ts sk pk (rp_sha256 K bytes)) (entries_of w)))"
    unfolding assms(2) by auto
  then have w': "entries_of w' = put_release (release_record K env ts sk pk (rp_sha256 K bytes)) (entries_of w)"
    and v: "re_version (release_record K env ts sk pk (rp_sha256 K bytes)) = version"
    by (simp_all add: entries_of_def release_record_def assms(3))
  show "filter (\<lambda>e. re_version e \<noteq> version) (entries_of w') = filter (\<lambda>e. re_version e \<noteq> version) (entries_of w)"
    unfolding w' v [symmetric] by (rule put_release_others)
  show "version \<in> set (map re_version (entries_of w'))" unfolding w' put_release_versions v by auto
  show "distinct (map re_version (entries_of w))  \<Longrightarrow> distinct (map re_version (entries_of w'))"
    unfolding w' put_release_versions v by simp
qed

lemma failed_signing_changes_nothing:
  "exit_code (fst (sign_release K env ts argv w)) \<noteq> 0 \<Longrightarrow> files_of (snd (sign_release K env ts argv w)) = files_of w"
  using sign_release_outcome [of K env ts argv w] by (auto simp: exit_code_def)

text \<open>Without a key on the command line the registry vouches for itself: whoever writes it passes with a key of their own.\<close>

lemma registry_vouches_for_itself:
  assumes "release_keys K" "rp_fromSecret K sk = Inr pk" "re_wasm_hash e = Some (hex_of_bytes h)" "re_signer_public_key e = Some pk"
    "re_signature e = Some (hex_of_bytes (rp_sign K sk h))"
  shows "exit_code (fst (verify_entry K [] h e w)) = 0"
  using assms by (simp add: verify_entry_exit check_signature_valid release_signer_def release_keys_def)

end
