(* ===== verification/Crosschain_Contract.thy ===== *)
theory Crosschain_Contract
  imports Bridge_Event
begin

text \<open>
  The cross-chain part of the Soroban contract (\<open>contracts/onboarding-bridge/src/lib.rs\<close>): the liquidity reserve,
  the registry of relayers and its threshold, \<open>fund_c_address_crosschain\<close>, and the administration that decides
  whether a payout passes its checks.  The state holds the storage entries these functions read.  A call that fails
  or traps leaves no change behind, as the host rolls back; extending the life of an entry changes no value and is
  left out.  The signature check of \<open>ed25519-dalek\<close>, the token contracts and their ledger \<open>'l\<close> are the parameter
  \<open>host\<close>; the digest is that of \<open>platform\<close>.  Amounts are \<open>i128\<close> values as integers, counters \<open>u32\<close> and
  \<open>u64\<close> values as naturals, with the overflow checks the build turns on.
\<close>

section \<open>State\<close>

datatype contract_error =
    NotInitialized | AlreadyInitialized | InvalidAmount | FeeTooHigh | ContractPaused | AddressBlocked
  | AddressNotAllowlisted | AssetNotWhitelisted | DuplicateNonce | ReplayedNonce | NotRelayer | BelowThreshold
  | ThresholdExceedsRelayers | Overflow | MetaTxInvalidSignature | ContractDeactivated | InvalidAddress
  | Reentrant | DuplicateRelayerSignature | InsufficientCrossChainReserve
  | Trap

text \<open>What the functions publish.\<close>

datatype contract_event =
    Initialized string string nat
  | CrossChainFunded string nat "byte list" int int string
  | CrossChainReserveFunded string string int
  | CrossChainReserveWithdrawn string string int
  | RelayerAdded string "byte list"
  | RelayerRemoved string "byte list"
  | RelayerThresholdChanged string nat nat
  | LoyaltyMintSkipped string int int
  | PausedBy string
  | UnpausedBy string
  | FeeBpsChanged nat nat string
  | AssetFeeCapChanged nat nat string string
  | MinimumAmountChanged int int string
  | AssetAdded string string bool
  | AssetRemoved string string bool
  | AddressBlocklisted string string
  | AddressUnblocklisted string string
  | AddressAllowlisted string string
  | AddressUnallowlisted string string
  | AllowlistModeChanged bool bool string
  | OtherEvent string

record asset_counters =
  ac_accrued_fees :: int
  ac_total_bridged :: int
  ac_total_fees_collected :: int
  ac_locked_timelock :: int

record 'l contract_state =
  cs_initialized :: bool
  cs_admin :: "string option"
  cs_fee_collector :: string
  cs_fee_bps :: nat
  cs_paused :: bool
  cs_allowlist_mode :: bool
  cs_deactivated :: bool
  cs_entered :: bool
  cs_minimum :: int
  cs_blocked :: "string \<Rightarrow> bool"
  cs_allowlisted :: "string \<Rightarrow> bool"
  cs_whitelist :: "string \<Rightarrow> bool"
  cs_fee_cap :: "string \<Rightarrow> nat option"
  cs_counters :: "string \<Rightarrow> asset_counters"
  cs_reserve :: "string \<Rightarrow> int"
  cs_nonces :: "string \<Rightarrow> nat"
  cs_relayer :: "byte list \<Rightarrow> bool"
  cs_relayer_set :: "byte list list"
  cs_relayer_count :: nat
  cs_threshold :: "nat option"
  cs_nonce_used :: "byte list \<Rightarrow> bool"
  cs_loyalty_token :: "string option"
  cs_loyalty_amount :: int
  cs_ledger :: 'l
  cs_events :: "contract_event list"

text \<open>\<open>ho_verify_strict\<close>: \<open>VerifyingKey::from_bytes\<close> succeeds and \<open>verify_strict\<close> accepts.  A transfer that
  the token contract refuses traps.\<close>

record 'l host =
  ho_platform :: platform
  ho_verify_strict :: "byte list \<Rightarrow> byte list \<Rightarrow> byte list \<Rightarrow> bool"
  ho_transfer :: "'l \<Rightarrow> string \<Rightarrow> string \<Rightarrow> string \<Rightarrow> int \<Rightarrow> 'l option"
  ho_balance :: "'l \<Rightarrow> string \<Rightarrow> string \<Rightarrow> int"
  ho_self :: string

type_synonym 'l contract_op = "'l contract_state \<Rightarrow> contract_error + 'l contract_state"

definition MAX_FEE_BPS :: nat where "MAX_FEE_BPS = 1000"
definition FEE_DENOMINATOR :: int where "FEE_DENOMINATOR = 10000"
definition MAX_STRKEY_LEN :: nat where "MAX_STRKEY_LEN = 64"

text \<open>\<open>checked_add\<close> and the like: \<open>i128\<close> division cannot overflow with this divisor and rounds towards zero.\<close>

definition i128 :: "int \<Rightarrow> contract_error + int" where
  "i128 x = (if - (2 ^ 127) \<le> x \<and> x < 2 ^ 127 then Inr x else Inl Overflow)"

definition safe_add :: "int \<Rightarrow> int \<Rightarrow> contract_error + int" where "safe_add a b = i128 (a + b)"
definition safe_sub :: "int \<Rightarrow> int \<Rightarrow> contract_error + int" where "safe_sub a b = i128 (a - b)"
definition safe_mul :: "int \<Rightarrow> int \<Rightarrow> contract_error + int" where "safe_mul a b = i128 (a * b)"

definition saturating_sub :: "int \<Rightarrow> int \<Rightarrow> int" where
  "saturating_sub a b = max (- (2 ^ 127)) (min (2 ^ 127 - 1) (a - b))"

definition calculate_fee :: "int \<Rightarrow> nat \<Rightarrow> contract_error + int" where
  "calculate_fee amount fee_bps =
     (if fee_bps = 0 then Inr 0
      else bind_sum (safe_mul amount (int fee_bps)) (\<lambda>product.
        Inr (sgn product * (\<bar>product\<bar> div FEE_DENOMINATOR))))"

section \<open>Checks\<close>

definition unwrap_or :: "'a option \<Rightarrow> 'a \<Rightarrow> 'a" where
  "unwrap_or x d = (case x of None \<Rightarrow> d | Some a \<Rightarrow> a)"

definition ensure :: "bool \<Rightarrow> contract_error \<Rightarrow> contract_error + unit" where
  "ensure b e = (if b then Inr () else Inl e)"

lemma ensure_eq_Inr [simp]: "ensure b e = Inr u \<longleftrightarrow> b"
  by (simp add: ensure_def)

lemma ensure_eq_Inl [simp]: "ensure b e = Inl e' \<longleftrightarrow> \<not> b \<and> e' = e"
  by (auto simp: ensure_def)

lemma ensure_True [simp]: "b \<Longrightarrow> ensure b e = Inr ()"
  by simp

definition check_not_paused :: "'l contract_state \<Rightarrow> contract_error + unit" where
  "check_not_paused s =
     first_error [ensure (\<not> cs_deactivated s) ContractDeactivated, ensure (\<not> cs_paused s) ContractPaused]"

definition check_access :: "'l contract_state \<Rightarrow> string \<Rightarrow> contract_error + unit" where
  "check_access s target =
     first_error [ensure (\<not> cs_blocked s target) AddressBlocked,
                  ensure (\<not> (cs_allowlist_mode s \<and> \<not> cs_allowlisted s target)) AddressNotAllowlisted]"

definition relayer_threshold :: "'l contract_state \<Rightarrow> nat" where
  "relayer_threshold s = unwrap_or (cs_threshold s) 1"

definition get_effective_fee_bps :: "'l contract_state \<Rightarrow> string \<Rightarrow> nat \<Rightarrow> nat" where
  "get_effective_fee_bps s asset global_fee_bps =
     (if global_fee_bps = 0 then 0 else min global_fee_bps (unwrap_or (cs_fee_cap s asset) MAX_FEE_BPS))"

text \<open>The guard against a call inside a call.\<close>

definition guarded :: "'l contract_op \<Rightarrow> 'l contract_op" where
  "guarded f s =
     (if cs_entered s then Inl Reentrant
      else bind_sum (f (s\<lparr>cs_entered := True\<rparr>)) (\<lambda>s'. Inr (s'\<lparr>cs_entered := False\<rparr>)))"

definition publish :: "contract_event \<Rightarrow> 'l contract_state \<Rightarrow> 'l contract_state" where
  "publish ev s = s\<lparr>cs_events := cs_events s @ [ev]\<rparr>"

definition consume_nonce :: "string \<Rightarrow> nat option \<Rightarrow> 'l contract_op" where
  "consume_nonce caller nonce s =
     (case nonce of None \<Rightarrow> Inr s
      | Some n \<Rightarrow> if n \<noteq> cs_nonces s caller then Inl DuplicateNonce
                 else if cs_nonces s caller + 1 \<ge> 2 ^ 64 then Inl Trap
                 else Inr (s\<lparr>cs_nonces := (cs_nonces s)(caller := cs_nonces s caller + 1)\<rparr>))"

text \<open>\<open>read_admin\<close> and \<open>require_auth\<close>: \<open>auth\<close> are the addresses that authorised the call.\<close>

definition with_admin :: "(string \<Rightarrow> bool) \<Rightarrow> (string \<Rightarrow> 'l contract_op) \<Rightarrow> 'l contract_op" where
  "with_admin auth f s = (case cs_admin s of None \<Rightarrow> Inl Trap | Some admin \<Rightarrow> if auth admin then f admin s else Inl Trap)"

definition token_transfer :: "'l host \<Rightarrow> string \<Rightarrow> string \<Rightarrow> string \<Rightarrow> int \<Rightarrow> 'l contract_op" where
  "token_transfer ho asset src dst amount s =
     (case ho_transfer ho (cs_ledger s) asset src dst amount of None \<Rightarrow> Inl Trap | Some l \<Rightarrow> Inr (s\<lparr>cs_ledger := l\<rparr>))"

section \<open>The reserve\<close>

definition write_crosschain_reserve :: "string \<Rightarrow> int \<Rightarrow> 'l contract_state \<Rightarrow> 'l contract_state" where
  "write_crosschain_reserve asset amount s = s\<lparr>cs_reserve := (cs_reserve s)(asset := amount)\<rparr>"

definition increment_crosschain_reserve :: "string \<Rightarrow> int \<Rightarrow> 'l contract_op" where
  "increment_crosschain_reserve asset amount s =
     bind_sum (safe_add (cs_reserve s asset) amount) (\<lambda>reserve. Inr (write_crosschain_reserve asset reserve s))"

definition decrement_crosschain_reserve :: "string \<Rightarrow> int \<Rightarrow> 'l contract_op" where
  "decrement_crosschain_reserve asset amount s =
     (if amount > cs_reserve s asset then Inl InsufficientCrossChainReserve
      else bind_sum (safe_sub (cs_reserve s asset) amount) (\<lambda>reserve. Inr (write_crosschain_reserve asset reserve s)))"

definition fund_crosschain_reserve :: "'l host \<Rightarrow> (string \<Rightarrow> bool) \<Rightarrow> string \<Rightarrow> int \<Rightarrow> 'l contract_op" where
  "fund_crosschain_reserve ho auth asset amount = guarded (\<lambda>s.
     bind_sum (first_error [ensure (cs_initialized s) NotInitialized, ensure (0 < amount) InvalidAmount,
                            ensure (cs_whitelist s asset) AssetNotWhitelisted]) (\<lambda>_.
     with_admin auth (\<lambda>admin s.
       bind_sum (token_transfer ho asset admin (ho_self ho) amount s) (\<lambda>s.
       bind_sum (increment_crosschain_reserve asset amount s) (\<lambda>s.
       Inr (publish (CrossChainReserveFunded asset admin amount) s)))) s))"

definition withdraw_crosschain_reserve :: "'l host \<Rightarrow> (string \<Rightarrow> bool) \<Rightarrow> string \<Rightarrow> int \<Rightarrow> 'l contract_op" where
  "withdraw_crosschain_reserve ho auth asset amount = guarded (\<lambda>s.
     bind_sum (first_error [ensure (cs_initialized s) NotInitialized, ensure (0 < amount) InvalidAmount]) (\<lambda>_.
     with_admin auth (\<lambda>admin s.
       bind_sum (decrement_crosschain_reserve asset amount s) (\<lambda>s.
       bind_sum (token_transfer ho asset (ho_self ho) admin amount s) (\<lambda>s.
       Inr (publish (CrossChainReserveWithdrawn asset admin amount) s)))) s))"

section \<open>Payouts\<close>

fun check_sigs ::
  "'l host \<Rightarrow> 'l contract_state \<Rightarrow> byte list \<Rightarrow> byte list list \<Rightarrow> (byte list \<times> byte list) list \<Rightarrow> contract_error + byte list list" where
  "check_sigs ho s payload_hash seen [] = Inr seen"
| "check_sigs ho s payload_hash seen ((pubkey, signature) # sigs) =
     (if \<not> cs_relayer s pubkey then Inl NotRelayer
      else if pubkey \<in> set seen then Inl DuplicateRelayerSignature
      else if \<not> ho_verify_strict ho pubkey payload_hash signature then Inl MetaTxInvalidSignature
      else check_sigs ho s payload_hash (seen @ [pubkey]) sigs)"

definition update_asset_counters_split :: "string \<Rightarrow> int \<Rightarrow> int \<Rightarrow> int \<Rightarrow> 'l contract_op" where
  "update_asset_counters_split asset accrued_fees total_fees bridged s =
     (let c = cs_counters s asset in
      bind_sum (safe_add (ac_accrued_fees c) accrued_fees) (\<lambda>a.
      bind_sum (safe_add (ac_total_bridged c) bridged) (\<lambda>b.
      bind_sum (safe_add (ac_total_fees_collected c) total_fees) (\<lambda>f.
      Inr (s\<lparr>cs_counters := (cs_counters s)(asset :=
        c\<lparr>ac_accrued_fees := a, ac_total_bridged := b, ac_total_fees_collected := f\<rparr>)\<rparr>)))))"

definition mint_loyalty_tokens :: "'l host \<Rightarrow> string \<Rightarrow> 'l contract_op" where
  "mint_loyalty_tokens ho recipient s =
     (case cs_loyalty_token s of None \<Rightarrow> Inr s
      | Some tok \<Rightarrow>
          let amount = cs_loyalty_amount s in
          if amount > 0 then
            let balance = ho_balance ho (cs_ledger s) tok (ho_self ho); counters = cs_counters s tok;
                reserve = saturating_sub (saturating_sub balance (ac_accrued_fees counters)) (ac_locked_timelock counters) in
            if reserve < amount then Inr (publish (LoyaltyMintSkipped recipient amount reserve) s)
            else token_transfer ho tok (ho_self ho) recipient amount s
          else Inr s)"

text \<open>\<open>fund_c_address_crosschain\<close> in its two halves: what it checks, and what it changes.\<close>

definition crosschain_checks ::
  "'l host \<Rightarrow> nat \<Rightarrow> byte list \<Rightarrow> string \<Rightarrow> string \<Rightarrow> int \<Rightarrow> (byte list \<times> byte list) list \<Rightarrow> 'l contract_state \<Rightarrow> contract_error + unit" where
  "crosschain_checks ho chain_id tx_hash target asset amount sigs s =
     bind_sum (first_error [ensure (cs_initialized s) NotInitialized, check_not_paused s,
         ensure (0 < amount \<and> cs_minimum s \<le> amount) InvalidAmount, check_access s target,
         ensure (cs_whitelist s asset) AssetNotWhitelisted,
         ensure (0 < relayer_threshold s \<and> 0 < cs_relayer_count s) BelowThreshold,
         ensure (\<not> cs_nonce_used s (onchain_nonce (ho_platform ho) chain_id tx_hash)) ReplayedNonce,
         ensure (length target \<le> MAX_STRKEY_LEN) InvalidAddress, ensure (length asset \<le> MAX_STRKEY_LEN) InvalidAddress]) (\<lambda>_.
     bind_sum (check_sigs ho s (onchain_payload_hash (ho_platform ho) chain_id tx_hash target asset amount) [] sigs) (\<lambda>seen.
     ensure (relayer_threshold s \<le> length seen) BelowThreshold))"

definition mark_nonce_used :: "byte list \<Rightarrow> 'l contract_state \<Rightarrow> 'l contract_state" where
  "mark_nonce_used nonce s = s\<lparr>cs_nonce_used := (cs_nonce_used s)(nonce := True)\<rparr>"

definition crosschain_payout ::
  "'l host \<Rightarrow> nat \<Rightarrow> byte list \<Rightarrow> string \<Rightarrow> string \<Rightarrow> int \<Rightarrow> 'l contract_op" where
  "crosschain_payout ho chain_id tx_hash target asset amount s =
     bind_sum (calculate_fee amount (get_effective_fee_bps s asset (cs_fee_bps s))) (\<lambda>fee.
     bind_sum (safe_sub amount fee) (\<lambda>net_amount.
     bind_sum (decrement_crosschain_reserve asset net_amount s) (\<lambda>s.
     let s = mark_nonce_used (onchain_nonce (ho_platform ho) chain_id tx_hash) s in
     bind_sum (if net_amount > 0 then token_transfer ho asset (ho_self ho) target net_amount s else Inr s) (\<lambda>s.
     bind_sum (update_asset_counters_split asset 0 0 net_amount s) (\<lambda>s.
     bind_sum (mint_loyalty_tokens ho target s) (\<lambda>s.
     Inr (publish (CrossChainFunded target chain_id tx_hash amount fee asset) s)))))))"

definition fund_c_address_crosschain ::
  "'l host \<Rightarrow> nat \<Rightarrow> byte list \<Rightarrow> string \<Rightarrow> string \<Rightarrow> int \<Rightarrow> (byte list \<times> byte list) list \<Rightarrow> 'l contract_op" where
  "fund_c_address_crosschain ho chain_id tx_hash target asset amount sigs = guarded (\<lambda>s.
     bind_sum (crosschain_checks ho chain_id tx_hash target asset amount sigs s) (\<lambda>_.
     crosschain_payout ho chain_id tx_hash target asset amount s))"

section \<open>The registry of relayers\<close>

definition register_relayer :: "byte list \<Rightarrow> 'l contract_op" where
  "register_relayer pubkey s =
     (if cs_relayer s pubkey then Inr s
      else if cs_relayer_count s + 1 \<ge> 2 ^ 32 then Inl Trap
      else Inr (s\<lparr>cs_relayer := (cs_relayer s)(pubkey := True), cs_relayer_set := cs_relayer_set s @ [pubkey],
                  cs_relayer_count := cs_relayer_count s + 1\<rparr>))"

definition unregister_relayer :: "byte list \<Rightarrow> 'l contract_state \<Rightarrow> 'l contract_state" where
  "unregister_relayer pubkey s =
     (if cs_relayer s pubkey then
        let relayers = remove1 pubkey (cs_relayer_set s) in
        s\<lparr>cs_relayer := (cs_relayer s)(pubkey := False), cs_relayer_set := relayers, cs_relayer_count := length relayers\<rparr>
      else s)"

text \<open>What every call of the administration starts with.\<close>

definition as_admin :: "(string \<Rightarrow> bool) \<Rightarrow> nat option \<Rightarrow> (string \<Rightarrow> 'l contract_op) \<Rightarrow> 'l contract_op" where
  "as_admin auth nonce f s =
     bind_sum (ensure (cs_initialized s) NotInitialized) (\<lambda>_.
     with_admin auth (\<lambda>admin s. bind_sum (consume_nonce admin nonce s) (f admin)) s)"

definition add_relayer :: "(string \<Rightarrow> bool) \<Rightarrow> byte list \<Rightarrow> nat option \<Rightarrow> 'l contract_op" where
  "add_relayer auth pubkey nonce = guarded (as_admin auth nonce (\<lambda>admin s.
     bind_sum (register_relayer pubkey s) (\<lambda>s. Inr (publish (RelayerAdded admin pubkey) s))))"

text \<open>The source publishes the event under a variable \<open>was_registered\<close> that it does not declare: its value is an argument.\<close>

definition remove_relayer :: "bool \<Rightarrow> (string \<Rightarrow> bool) \<Rightarrow> byte list \<Rightarrow> nat option \<Rightarrow> 'l contract_op" where
  "remove_relayer was_registered auth pubkey nonce = as_admin auth nonce (\<lambda>admin s.
     if cs_relayer s pubkey \<and> (cs_relayer_count s \<le> 1 \<or> cs_relayer_count s - 1 < relayer_threshold s)
     then Inl BelowThreshold
     else let s = unregister_relayer pubkey s in
       Inr (if was_registered then publish (RelayerRemoved admin pubkey) s else s))"

definition set_relayer_threshold :: "(string \<Rightarrow> bool) \<Rightarrow> nat \<Rightarrow> nat option \<Rightarrow> 'l contract_op" where
  "set_relayer_threshold auth threshold nonce = as_admin auth nonce (\<lambda>admin s.
     if threshold = 0 \<or> threshold > cs_relayer_count s then Inl ThresholdExceedsRelayers
     else Inr (publish (RelayerThresholdChanged admin (relayer_threshold s) threshold) (s\<lparr>cs_threshold := Some threshold\<rparr>)))"

section \<open>Administration\<close>

text \<open>The hash of the running code, which \<open>initialize\<close> also stores, is not part of this state.\<close>

definition initialize_inner :: "(string \<Rightarrow> bool) \<Rightarrow> string \<Rightarrow> string \<Rightarrow> nat \<Rightarrow> nat option \<Rightarrow> 'l contract_op" where
  "initialize_inner auth admin fee_collector fee_bps nonce = guarded (\<lambda>s.
     bind_sum (first_error [ensure (\<not> cs_initialized s) AlreadyInitialized, ensure (fee_bps \<le> MAX_FEE_BPS) FeeTooHigh,
                            ensure (auth admin) Trap]) (\<lambda>_.
     bind_sum (consume_nonce admin nonce s) (\<lambda>s.
     Inr (publish (Initialized admin fee_collector fee_bps)
       (s\<lparr>cs_admin := Some admin, cs_fee_collector := fee_collector, cs_fee_bps := fee_bps, cs_paused := False,
          cs_allowlist_mode := False, cs_initialized := True\<rparr>)))))"

definition set_paused :: "bool \<Rightarrow> (string \<Rightarrow> bool) \<Rightarrow> nat option \<Rightarrow> 'l contract_op" where
  "set_paused paused auth nonce = as_admin auth nonce (\<lambda>admin s.
     Inr (publish (if paused then PausedBy admin else UnpausedBy admin) (s\<lparr>cs_paused := paused\<rparr>)))"

definition set_fee_bps :: "(string \<Rightarrow> bool) \<Rightarrow> nat \<Rightarrow> nat option \<Rightarrow> 'l contract_op" where
  "set_fee_bps auth new_fee_bps nonce s =
     bind_sum (first_error [ensure (cs_initialized s) NotInitialized, check_not_paused s,
                            ensure (new_fee_bps \<le> MAX_FEE_BPS) FeeTooHigh]) (\<lambda>_.
     as_admin auth nonce (\<lambda>admin s.
       Inr (publish (FeeBpsChanged (cs_fee_bps s) new_fee_bps admin) (s\<lparr>cs_fee_bps := new_fee_bps\<rparr>))) s)"

definition set_asset_fee_cap :: "(string \<Rightarrow> bool) \<Rightarrow> string \<Rightarrow> nat \<Rightarrow> nat option \<Rightarrow> 'l contract_op" where
  "set_asset_fee_cap auth asset max_fee_bps nonce s =
     bind_sum (first_error [ensure (cs_initialized s) NotInitialized, ensure (max_fee_bps \<le> MAX_FEE_BPS) FeeTooHigh]) (\<lambda>_.
     as_admin auth nonce (\<lambda>admin s.
       Inr (publish (AssetFeeCapChanged (unwrap_or (cs_fee_cap s asset) MAX_FEE_BPS) max_fee_bps admin asset)
         (s\<lparr>cs_fee_cap := (cs_fee_cap s)(asset \<mapsto> max_fee_bps)\<rparr>))) s)"

definition set_minimum_amount :: "(string \<Rightarrow> bool) \<Rightarrow> int \<Rightarrow> nat option \<Rightarrow> 'l contract_op" where
  "set_minimum_amount auth amount nonce s =
     bind_sum (first_error [ensure (cs_initialized s) NotInitialized, ensure (0 \<le> amount) InvalidAmount]) (\<lambda>_.
     as_admin auth nonce (\<lambda>admin s.
       Inr (publish (MinimumAmountChanged (cs_minimum s) amount admin) (s\<lparr>cs_minimum := amount\<rparr>))) s)"

definition add_asset :: "(string \<Rightarrow> bool) \<Rightarrow> string \<Rightarrow> nat option \<Rightarrow> 'l contract_op" where
  "add_asset auth asset nonce = guarded (as_admin auth nonce (\<lambda>admin s.
     Inr (publish (AssetAdded admin asset (cs_whitelist s asset)) (s\<lparr>cs_whitelist := (cs_whitelist s)(asset := True)\<rparr>))))"

definition remove_asset :: "(string \<Rightarrow> bool) \<Rightarrow> string \<Rightarrow> nat option \<Rightarrow> 'l contract_op" where
  "remove_asset auth asset nonce = guarded (as_admin auth nonce (\<lambda>admin s.
     Inr (publish (AssetRemoved admin asset (cs_whitelist s asset)) (s\<lparr>cs_whitelist := (cs_whitelist s)(asset := False)\<rparr>))))"

definition set_blocked :: "bool \<Rightarrow> (string \<Rightarrow> bool) \<Rightarrow> string \<Rightarrow> nat option \<Rightarrow> 'l contract_op" where
  "set_blocked blocked auth address nonce = as_admin auth nonce (\<lambda>admin s.
     Inr (publish (if blocked then AddressBlocklisted address admin else AddressUnblocklisted address admin)
       (s\<lparr>cs_blocked := (cs_blocked s)(address := blocked)\<rparr>)))"

definition set_allowlisted :: "bool \<Rightarrow> (string \<Rightarrow> bool) \<Rightarrow> string \<Rightarrow> nat option \<Rightarrow> 'l contract_op" where
  "set_allowlisted allowed auth address nonce = as_admin auth nonce (\<lambda>admin s.
     Inr (publish (if allowed then AddressAllowlisted address admin else AddressUnallowlisted address admin)
       (s\<lparr>cs_allowlisted := (cs_allowlisted s)(address := allowed)\<rparr>)))"

definition set_allowlist_mode :: "(string \<Rightarrow> bool) \<Rightarrow> bool \<Rightarrow> nat option \<Rightarrow> 'l contract_op" where
  "set_allowlist_mode auth enabled nonce = as_admin auth nonce (\<lambda>admin s.
     Inr (publish (AllowlistModeChanged (cs_allowlist_mode s) enabled admin) (s\<lparr>cs_allowlist_mode := enabled\<rparr>)))"

section \<open>Calls\<close>

datatype contract_call =
    Initialize string string nat "nat option"
  | FundReserve string int
  | WithdrawReserve string int
  | FundCrosschain nat "byte list" string string int "(byte list \<times> byte list) list"
  | AddRelayer "byte list" "nat option"
  | RemoveRelayer bool "byte list" "nat option"
  | SetRelayerThreshold nat "nat option"
  | SetPaused bool "nat option"
  | SetFeeBps nat "nat option"
  | SetAssetFeeCap string nat "nat option"
  | SetMinimumAmount int "nat option"
  | AddAsset string "nat option"
  | RemoveAsset string "nat option"
  | SetBlocked bool string "nat option"
  | SetAllowlisted bool string "nat option"
  | SetAllowlistMode bool "nat option"

fun call_op :: "'l host \<Rightarrow> (string \<Rightarrow> bool) \<Rightarrow> contract_call \<Rightarrow> 'l contract_op" where
  "call_op ho auth (Initialize admin collector fee nonce) = initialize_inner auth admin collector fee nonce"
| "call_op ho auth (FundReserve asset amount) = fund_crosschain_reserve ho auth asset amount"
| "call_op ho auth (WithdrawReserve asset amount) = withdraw_crosschain_reserve ho auth asset amount"
| "call_op ho auth (FundCrosschain chain_id tx_hash target asset amount sigs) =
     fund_c_address_crosschain ho chain_id tx_hash target asset amount sigs"
| "call_op ho auth (AddRelayer pubkey nonce) = add_relayer auth pubkey nonce"
| "call_op ho auth (RemoveRelayer was_registered pubkey nonce) = remove_relayer was_registered auth pubkey nonce"
| "call_op ho auth (SetRelayerThreshold threshold nonce) = set_relayer_threshold auth threshold nonce"
| "call_op ho auth (SetPaused paused nonce) = set_paused paused auth nonce"
| "call_op ho auth (SetFeeBps fee nonce) = set_fee_bps auth fee nonce"
| "call_op ho auth (SetAssetFeeCap asset fee nonce) = set_asset_fee_cap auth asset fee nonce"
| "call_op ho auth (SetMinimumAmount amount nonce) = set_minimum_amount auth amount nonce"
| "call_op ho auth (AddAsset asset nonce) = add_asset auth asset nonce"
| "call_op ho auth (RemoveAsset asset nonce) = remove_asset auth asset nonce"
| "call_op ho auth (SetBlocked blocked address nonce) = set_blocked blocked auth address nonce"
| "call_op ho auth (SetAllowlisted allowed address nonce) = set_allowlisted allowed auth address nonce"
| "call_op ho auth (SetAllowlistMode enabled nonce) = set_allowlist_mode auth enabled nonce"

text \<open>The host keeps the changes of a call that returns normally only.\<close>

definition invoke :: "'l host \<Rightarrow> (string \<Rightarrow> bool) \<Rightarrow> contract_call \<Rightarrow> 'l contract_state \<Rightarrow> 'l contract_state" where
  "invoke ho auth c s = (case call_op ho auth c s of Inl e \<Rightarrow> s | Inr s' \<Rightarrow> s')"

definition new_contract :: "'l \<Rightarrow> 'l contract_state" where
  "new_contract l =
     \<lparr>cs_initialized = False, cs_admin = None, cs_fee_collector = [], cs_fee_bps = 0, cs_paused = False, cs_allowlist_mode = False,
      cs_deactivated = False, cs_entered = False, cs_minimum = 0, cs_blocked = (\<lambda>_. False), cs_allowlisted = (\<lambda>_. False),
      cs_whitelist = (\<lambda>_. False), cs_fee_cap = (\<lambda>_. None),
      cs_counters = (\<lambda>_. \<lparr>ac_accrued_fees = 0, ac_total_bridged = 0, ac_total_fees_collected = 0, ac_locked_timelock = 0\<rparr>),
      cs_reserve = (\<lambda>_. 0), cs_nonces = (\<lambda>_. 0), cs_relayer = (\<lambda>_. False), cs_relayer_set = [], cs_relayer_count = 0,
      cs_threshold = None, cs_nonce_used = (\<lambda>_. False), cs_loyalty_token = None, cs_loyalty_amount = 0, cs_ledger = l,
      cs_events = []\<rparr>"

text \<open>The entries only the functions above write, and the events only they publish.\<close>

definition crosschain_part ::
  "'l contract_state \<Rightarrow> (byte list \<Rightarrow> bool) \<times> (byte list \<Rightarrow> bool) \<times> byte list list \<times> nat \<times> nat option \<times> (string \<Rightarrow> int)" where
  "crosschain_part s =
     (cs_nonce_used s, cs_relayer s, cs_relayer_set s, cs_relayer_count s, cs_threshold s, cs_reserve s)"

fun about_reserve :: "contract_event \<Rightarrow> bool" where
  "about_reserve (CrossChainFunded _ _ _ _ _ _) = True"
| "about_reserve (CrossChainReserveFunded _ _ _) = True"
| "about_reserve (CrossChainReserveWithdrawn _ _ _) = True"
| "about_reserve _ = False"

text \<open>The life of the contract: the calls above by anyone in any order, and anything else that happens to it or to the
  ledger of the tokens between them (other functions of the contract included) that leaves those entries alone.\<close>

inductive contract_run :: "'l host \<Rightarrow> 'l contract_state \<Rightarrow> bool" for ho where
  Deployed: "contract_run ho (new_contract l)"
| Called: "contract_run ho s \<Longrightarrow> contract_run ho (invoke ho auth c s)"
| Elsewhere: "contract_run ho s \<Longrightarrow> crosschain_part s' = crosschain_part s \<Longrightarrow> \<not> cs_entered s' \<Longrightarrow>
    cs_events s' = cs_events s @ evs \<Longrightarrow> list_all (\<lambda>ev. \<not> about_reserve ev) evs \<Longrightarrow> contract_run ho s'"

inductive_cases contract_runE: "contract_run ho s"

section \<open>Effects of the calls\<close>

definition leaves_alone :: "'l contract_state \<Rightarrow> 'l contract_state \<Rightarrow> bool" where
  "leaves_alone s s' \<longleftrightarrow> crosschain_part s' = crosschain_part s \<and> cs_entered s' = cs_entered s \<and>
     (\<exists>evs. cs_events s' = cs_events s @ evs \<and> list_all (\<lambda>ev. \<not> about_reserve ev) evs)"

lemma quiet_refl [simp, intro]: "leaves_alone s s"
  by (simp add: leaves_alone_def)

lemma quiet_trans [trans]: "leaves_alone s t \<Longrightarrow> leaves_alone t u \<Longrightarrow> leaves_alone s u"
  unfolding leaves_alone_def by (metis (no_types, lifting) append.assoc list_all_append)

lemma quietI:
  assumes "crosschain_part s' = crosschain_part s" "cs_entered s' = cs_entered s"
    and "cs_events s' = cs_events s @ evs" "list_all (\<lambda>ev. \<not> about_reserve ev) evs"
  shows "leaves_alone s s'"
  using assms by (auto simp: leaves_alone_def)

lemma publish_quiet: "crosschain_part t = crosschain_part s \<Longrightarrow> cs_entered t = cs_entered s \<Longrightarrow> cs_events t = cs_events s \<Longrightarrow>
    \<not> about_reserve ev \<Longrightarrow> leaves_alone s (publish ev t)"
  by (rule quietI [of _ _ "[ev]"]) (simp_all add: publish_def crosschain_part_def)

lemma consume_nonce_quiet: "consume_nonce c n s = Inr s' \<Longrightarrow> leaves_alone s s'"
  by (rule quietI [of _ _ "[]"]) (auto simp: consume_nonce_def crosschain_part_def split: option.splits if_splits)

lemma token_transfer_quiet: "token_transfer ho a src dst n s = Inr s' \<Longrightarrow> leaves_alone s s'"
  by (rule quietI [of _ _ "[]"]) (auto simp: token_transfer_def crosschain_part_def split: option.splits)

lemma update_asset_counters_quiet: "update_asset_counters_split a x y z s = Inr s' \<Longrightarrow> leaves_alone s s'"
  by (rule quietI [of _ _ "[]"])
     (auto simp: update_asset_counters_split_def Let_def bind_sum_eq_Inr crosschain_part_def)

lemma mint_loyalty_tokens_quiet: "mint_loyalty_tokens ho r s = Inr s' \<Longrightarrow> leaves_alone s s'"
  by (auto simp: mint_loyalty_tokens_def Let_def split: option.splits if_splits
      intro: token_transfer_quiet publish_quiet)

lemma guarded_eq_Inr:
  "guarded f s = Inr s' \<longleftrightarrow> \<not> cs_entered s \<and> (\<exists>t. f (s\<lparr>cs_entered := True\<rparr>) = Inr t \<and> s' = t\<lparr>cs_entered := False\<rparr>)"
  by (auto simp: guarded_def bind_sum_eq_Inr)

lemma with_admin_eq_Inr: "with_admin auth f s = Inr s' \<longleftrightarrow> (\<exists>admin. cs_admin s = Some admin \<and> auth admin \<and> f admin s = Inr s')"
  by (auto simp: with_admin_def split: option.splits if_splits)

lemma as_admin_eq_Inr:
  "as_admin auth nonce f s = Inr s' \<longleftrightarrow> cs_initialized s \<and>
     (\<exists>admin t. cs_admin s = Some admin \<and> auth admin \<and> consume_nonce admin nonce s = Inr t \<and> f admin t = Inr s')"
  by (auto simp: as_admin_def with_admin_eq_Inr bind_sum_eq_Inr)

lemma as_admin_quiet:
  assumes "as_admin auth nonce f s = Inr s'" "\<And>admin t t'. f admin t = Inr t' \<Longrightarrow> leaves_alone t t'"
  shows "leaves_alone s s'"
  using assms consume_nonce_quiet quiet_trans unfolding as_admin_eq_Inr by blast

text \<open>The guard is open again after every call.\<close>

lemma guarded_quiet:
  assumes "guarded f s = Inr s'" "\<And>t t'. f t = Inr t' \<Longrightarrow> leaves_alone t t'"
  shows "leaves_alone s s'"
proof -
  from assms(1) obtain t where t: "f (s\<lparr>cs_entered := True\<rparr>) = Inr t" "s' = t\<lparr>cs_entered := False\<rparr>" "\<not> cs_entered s"
    by (auto simp: guarded_eq_Inr)
  from assms(2) [OF t(1)] t(2,3) show ?thesis by (auto simp: leaves_alone_def crosschain_part_def)
qed

fun administrative :: "contract_call \<Rightarrow> bool" where
  "administrative (FundReserve _ _) = False"
| "administrative (WithdrawReserve _ _) = False"
| "administrative (FundCrosschain _ _ _ _ _ _) = False"
| "administrative (AddRelayer _ _) = False"
| "administrative (RemoveRelayer _ _ _) = False"
| "administrative (SetRelayerThreshold _ _) = False"
| "administrative _ = True"

lemma administrative_quiet:
  assumes "administrative c" "call_op ho auth c s = Inr s'"
  shows "leaves_alone s s'"
proof (cases c)
  case (Initialize admin collector fee nonce)
  with assms(2) have "guarded (\<lambda>s.
     bind_sum (first_error [ensure (\<not> cs_initialized s) AlreadyInitialized, ensure (fee \<le> MAX_FEE_BPS) FeeTooHigh,
                            ensure (auth admin) Trap]) (\<lambda>_.
     bind_sum (consume_nonce admin nonce s) (\<lambda>s.
     Inr (publish (Initialized admin collector fee)
       (s\<lparr>cs_admin := Some admin, cs_fee_collector := collector, cs_fee_bps := fee, cs_paused := False,
          cs_allowlist_mode := False, cs_initialized := True\<rparr>))))) s = Inr s'"
    by (simp add: initialize_inner_def)
  then show ?thesis
  proof (rule guarded_quiet, goal_cases)
    case (1 t t')
    then show ?case
      by (auto simp: bind_sum_eq_Inr crosschain_part_def intro: quiet_trans [OF consume_nonce_quiet publish_quiet])
  qed
next
  case (SetPaused paused nonce)
  with assms(2) show ?thesis
    by (auto simp: set_paused_def crosschain_part_def elim!: as_admin_quiet intro!: publish_quiet split: if_splits)
next
  case (SetFeeBps fee nonce)
  with assms(2) show ?thesis
    by (auto simp: set_fee_bps_def bind_sum_eq_Inr crosschain_part_def elim!: as_admin_quiet intro!: publish_quiet)
next
  case (SetAssetFeeCap asset fee nonce)
  with assms(2) show ?thesis
    by (auto simp: set_asset_fee_cap_def bind_sum_eq_Inr crosschain_part_def elim!: as_admin_quiet intro!: publish_quiet)
next
  case (SetMinimumAmount amount nonce)
  with assms(2) show ?thesis
    by (auto simp: set_minimum_amount_def bind_sum_eq_Inr crosschain_part_def elim!: as_admin_quiet intro!: publish_quiet)
next
  case (AddAsset asset nonce)
  with assms(2) show ?thesis
    by (auto simp: add_asset_def crosschain_part_def elim!: guarded_quiet as_admin_quiet intro!: publish_quiet)
next
  case (RemoveAsset asset nonce)
  with assms(2) show ?thesis
    by (auto simp: remove_asset_def crosschain_part_def elim!: guarded_quiet as_admin_quiet intro!: publish_quiet)
next
  case (SetBlocked blocked address nonce)
  with assms(2) show ?thesis
    by (auto simp: set_blocked_def crosschain_part_def elim!: as_admin_quiet intro!: publish_quiet split: if_splits)
next
  case (SetAllowlisted allowed address nonce)
  with assms(2) show ?thesis
    by (auto simp: set_allowlisted_def crosschain_part_def elim!: as_admin_quiet intro!: publish_quiet split: if_splits)
next
  case (SetAllowlistMode enabled nonce)
  with assms(2) show ?thesis
    by (auto simp: set_allowlist_mode_def crosschain_part_def elim!: as_admin_quiet intro!: publish_quiet)
qed (use assms(1) in simp_all)

text \<open>The calls that change the cross-chain entries.\<close>

lemma fund_crosschain_reserve_effect:
  assumes "fund_crosschain_reserve ho auth asset amount s = Inr s'"
  shows "\<exists>admin t. 0 < amount \<and> leaves_alone (s\<lparr>cs_entered := True\<rparr>) t \<and> - (2 ^ 127) \<le> cs_reserve s asset + amount
    \<and> cs_reserve s asset + amount < 2 ^ 127
    \<and> s' = publish (CrossChainReserveFunded asset admin amount)
             (write_crosschain_reserve asset (cs_reserve s asset + amount) t\<lparr>cs_entered := False\<rparr>)"
proof -
  from assms obtain admin t r where t: "0 < amount" "token_transfer ho asset admin (ho_self ho) amount (s\<lparr>cs_entered := True\<rparr>) = Inr t"
    "safe_add (cs_reserve t asset) amount = Inr r"
    "s' = (publish (CrossChainReserveFunded asset admin amount) (write_crosschain_reserve asset r t))\<lparr>cs_entered := False\<rparr>"
    by (auto simp: fund_crosschain_reserve_def guarded_eq_Inr with_admin_eq_Inr bind_sum_eq_Inr first_error_Inr_iff increment_crosschain_reserve_def)
  from token_transfer_quiet [OF t(2)] have "cs_reserve t = cs_reserve s" by (simp add: leaves_alone_def crosschain_part_def)
  with t token_transfer_quiet [OF t(2)] show ?thesis
    by (intro exI [of _ admin] exI [of _ t])
       (auto simp: safe_add_def i128_def publish_def write_crosschain_reserve_def split: if_splits)
qed

lemma withdraw_crosschain_reserve_effect:
  assumes "withdraw_crosschain_reserve ho auth asset amount s = Inr s'"
  shows "\<exists>admin t. 0 < amount \<and> amount \<le> cs_reserve s asset
    \<and> leaves_alone (write_crosschain_reserve asset (cs_reserve s asset - amount) (s\<lparr>cs_entered := True\<rparr>)) t
    \<and> s' = publish (CrossChainReserveWithdrawn asset admin amount) t\<lparr>cs_entered := False\<rparr>"
proof -
  from assms obtain admin t where t: "0 < amount" "amount \<le> cs_reserve s asset"
    "token_transfer ho asset (ho_self ho) admin amount
       (write_crosschain_reserve asset (cs_reserve s asset - amount) (s\<lparr>cs_entered := True\<rparr>)) = Inr t"
    "s' = (publish (CrossChainReserveWithdrawn asset admin amount) t)\<lparr>cs_entered := False\<rparr>"
    by (auto simp: withdraw_crosschain_reserve_def guarded_eq_Inr with_admin_eq_Inr bind_sum_eq_Inr first_error_Inr_iff
        decrement_crosschain_reserve_def safe_sub_def i128_def split: if_splits)
  with token_transfer_quiet [OF t(3)] show ?thesis
    by (intro exI [of _ admin] exI [of _ t]) (simp add: publish_def)
qed

lemma check_sigs_entered [simp]:
  "check_sigs ho (s\<lparr>cs_entered := b\<rparr>) h seen sigs = check_sigs ho s h seen sigs"
  by (induction ho s h seen sigs rule: check_sigs.induct) auto

lemma entered_irrelevant [simp]:
  "relayer_threshold (s\<lparr>cs_entered := b\<rparr>) = relayer_threshold s"
  "get_effective_fee_bps (s\<lparr>cs_entered := b\<rparr>) a g = get_effective_fee_bps s a g"
  "check_not_paused (s\<lparr>cs_entered := b\<rparr>) = check_not_paused s"
  "check_access (s\<lparr>cs_entered := b\<rparr>) target = check_access s target"
  by (simp_all add: relayer_threshold_def get_effective_fee_bps_def check_not_paused_def check_access_def)

lemma checks_entered [simp]:
  "crosschain_checks ho c h tg a n sigs (s\<lparr>cs_entered := b\<rparr>) = crosschain_checks ho c h tg a n sigs s"
  by (simp add: crosschain_checks_def)

lemma decrement_eq_Inr:
  "decrement_crosschain_reserve asset amount s = Inr t \<longleftrightarrow> amount \<le> cs_reserve s asset \<and>
     cs_reserve s asset - amount < 2 ^ 127 \<and> - (2 ^ 127) \<le> cs_reserve s asset - amount \<and>
     t = write_crosschain_reserve asset (cs_reserve s asset - amount) s"
  by (auto simp: decrement_crosschain_reserve_def safe_sub_def i128_def bind_sum_eq_Inr)

lemma safe_sub_eq_Inr: "safe_sub a b = Inr c \<longleftrightarrow> - (2 ^ 127) \<le> a - b \<and> a - b < 2 ^ 127 \<and> c = a - b"
  by (auto simp: safe_sub_def i128_def)

lemma crosschain_checks_eq_Inr:
  "crosschain_checks ho chain_id tx_hash target asset amount sigs s = Inr u \<longleftrightarrow>
     cs_initialized s \<and> check_not_paused s = Inr () \<and> 0 < amount \<and> cs_minimum s \<le> amount
     \<and> check_access s target = Inr () \<and> cs_whitelist s asset \<and> 0 < relayer_threshold s \<and> 0 < cs_relayer_count s
     \<and> \<not> cs_nonce_used s (onchain_nonce (ho_platform ho) chain_id tx_hash)
     \<and> length target \<le> MAX_STRKEY_LEN \<and> length asset \<le> MAX_STRKEY_LEN
     \<and> (\<exists>seen. check_sigs ho s (onchain_payload_hash (ho_platform ho) chain_id tx_hash target asset amount) [] sigs = Inr seen
          \<and> relayer_threshold s \<le> length seen)"
  by (auto simp: crosschain_checks_def bind_sum_eq_Inr first_error_Inr_iff)

text \<open>A payout as the composition of its effects.\<close>

lemma bind_sumE: "bind_sum m f = Inr b \<Longrightarrow> (\<And>a. m = Inr a \<Longrightarrow> f a = Inr b \<Longrightarrow> P) \<Longrightarrow> P"
  by (auto simp: bind_sum_eq_Inr)

lemma crosschain_payout_effect:
  assumes "crosschain_payout ho chain_id tx_hash target asset amount s = Inr s'"
  shows "\<exists>fee t. calculate_fee amount (get_effective_fee_bps s asset (cs_fee_bps s)) = Inr fee \<and> amount - fee \<le> cs_reserve s asset
    \<and> leaves_alone (mark_nonce_used (onchain_nonce (ho_platform ho) chain_id tx_hash)
               (write_crosschain_reserve asset (cs_reserve s asset - (amount - fee)) s)) t
    \<and> s' = publish (CrossChainFunded target chain_id tx_hash amount fee asset) t"
  using assms unfolding crosschain_payout_def Let_def
proof (elim bind_sumE, goal_cases)
  case (1 fee net t0 t1 t2 t)
  let ?t0 = "mark_nonce_used (onchain_nonce (ho_platform ho) chain_id tx_hash) t0"
  have net: "net = amount - fee" using 1(2) by (simp add: safe_sub_eq_Inr)
  have t0: "amount - fee \<le> cs_reserve s asset" "t0 = write_crosschain_reserve asset (cs_reserve s asset - (amount - fee)) s"
    using 1(3) by (simp_all add: decrement_eq_Inr net)
  have "leaves_alone ?t0 t1" using 1(4) by (auto split: if_splits intro: token_transfer_quiet)
  also have "leaves_alone t1 t2" using 1(5) by (rule update_asset_counters_quiet)
  also have "leaves_alone t2 t" using 1(6) by (rule mint_loyalty_tokens_quiet)
  finally have "leaves_alone ?t0 t" .
  with 1(1,7) t0 show ?case by (intro exI [of _ fee] exI [of _ t]) simp
qed

lemma fund_c_address_crosschain_effect:
  assumes "fund_c_address_crosschain ho chain_id tx_hash target asset amount sigs s = Inr s'"
  shows "\<exists>fee t. crosschain_checks ho chain_id tx_hash target asset amount sigs s = Inr ()
    \<and> calculate_fee amount (get_effective_fee_bps s asset (cs_fee_bps s)) = Inr fee \<and> amount - fee \<le> cs_reserve s asset
    \<and> leaves_alone (mark_nonce_used (onchain_nonce (ho_platform ho) chain_id tx_hash)
               (write_crosschain_reserve asset (cs_reserve s asset - (amount - fee)) (s\<lparr>cs_entered := True\<rparr>))) t
    \<and> s' = (publish (CrossChainFunded target chain_id tx_hash amount fee asset) t)\<lparr>cs_entered := False\<rparr>"
proof -
  from assms obtain t' where "crosschain_checks ho chain_id tx_hash target asset amount sigs s = Inr ()"
    "crosschain_payout ho chain_id tx_hash target asset amount (s\<lparr>cs_entered := True\<rparr>) = Inr t'" "s' = t'\<lparr>cs_entered := False\<rparr>"
    by (auto simp: fund_c_address_crosschain_def guarded_eq_Inr bind_sum_eq_Inr)
  with crosschain_payout_effect [OF this(2)] show ?thesis by auto
qed

section \<open>Invariants\<close>

fun source_of :: "contract_event \<Rightarrow> (nat \<times> byte list) option" where
  "source_of (CrossChainFunded _ chain_id tx_hash _ _ _) = Some (chain_id, tx_hash)"
| "source_of _ = None"

text \<open>The source transactions paid out, in order.\<close>

definition paid_sources :: "contract_event list \<Rightarrow> (nat \<times> byte list) list" where
  "paid_sources = List.map_filter source_of"

fun reserve_change :: "string \<Rightarrow> contract_event \<Rightarrow> int" where
  "reserve_change a (CrossChainReserveFunded asset _ amount) = (if asset = a then amount else 0)"
| "reserve_change a (CrossChainReserveWithdrawn asset _ amount) = (if asset = a then - amount else 0)"
| "reserve_change a (CrossChainFunded _ _ _ amount fee asset) = (if asset = a then - (amount - fee) else 0)"
| "reserve_change a _ = 0"

definition reserve_balance :: "string \<Rightarrow> contract_event list \<Rightarrow> int" where
  "reserve_balance a evs = sum_list (map (reserve_change a) evs)"

lemma not_about_reserve [simp]:
  "\<not> about_reserve ev \<Longrightarrow> source_of ev = None" "\<not> about_reserve ev \<Longrightarrow> reserve_change a ev = 0"
  by (cases ev; simp)+

lemma paid_sources_append [simp]: "paid_sources (xs @ ys) = paid_sources xs @ paid_sources ys"
  by (simp add: paid_sources_def List.map_filter_def)

lemma reserve_balance_append [simp]: "reserve_balance a (xs @ ys) = reserve_balance a xs + reserve_balance a ys"
  by (simp add: reserve_balance_def)

lemma silent_events: "list_all (\<lambda>ev. \<not> about_reserve ev) evs \<Longrightarrow> paid_sources evs = [] \<and> reserve_balance a evs = 0"
  by (induction evs) (simp_all add: paid_sources_def reserve_balance_def List.map_filter_def)

definition registry_ok :: "'l contract_state \<Rightarrow> bool" where
  "registry_ok s \<longleftrightarrow> distinct (cs_relayer_set s) \<and> (\<forall>pk. cs_relayer s pk \<longleftrightarrow> pk \<in> set (cs_relayer_set s)) \<and>
     cs_relayer_count s = length (cs_relayer_set s) \<and> 0 < relayer_threshold s \<and>
     relayer_threshold s \<le> max 1 (cs_relayer_count s)"

definition payouts_ok :: "'l host \<Rightarrow> 'l contract_state \<Rightarrow> bool" where
  "payouts_ok ho s \<longleftrightarrow> distinct (paid_sources (cs_events s)) \<and>
     (\<forall>(c, h) \<in> set (paid_sources (cs_events s)). cs_nonce_used s (onchain_nonce (ho_platform ho) c h))"

definition reserve_ok :: "'l contract_state \<Rightarrow> bool" where
  "reserve_ok s \<longleftrightarrow> (\<forall>a. cs_reserve s a = reserve_balance a (cs_events s) \<and> 0 \<le> reserve_balance a (cs_events s))"

definition contract_inv :: "'l host \<Rightarrow> 'l contract_state \<Rightarrow> bool" where
  "contract_inv ho s \<longleftrightarrow> payouts_ok ho s \<and> reserve_ok s \<and> registry_ok s \<and> \<not> cs_entered s"

lemmas contract_inv_defs = payouts_ok_def reserve_ok_def registry_ok_def crosschain_part_def relayer_threshold_def

lemma same_part:
  assumes "crosschain_part s' = crosschain_part s" "cs_events s' = cs_events s @ evs" "list_all (\<lambda>ev. \<not> about_reserve ev) evs"
  shows "payouts_ok ho s' = payouts_ok ho s" "reserve_ok s' = reserve_ok s" "registry_ok s' = registry_ok s"
  using assms silent_events [OF assms(3)] by (simp_all add: contract_inv_defs)

lemma quiet_inv:
  assumes "leaves_alone s s'"
  shows "payouts_ok ho s' = payouts_ok ho s" "reserve_ok s' = reserve_ok s" "registry_ok s' = registry_ok s"
    "cs_entered s' = cs_entered s"
  using assms same_part unfolding leaves_alone_def by blast+

lemma entered_inv [simp]:
  "payouts_ok ho (s\<lparr>cs_entered := b\<rparr>) = payouts_ok ho s" "reserve_ok (s\<lparr>cs_entered := b\<rparr>) = reserve_ok s"
  "registry_ok (s\<lparr>cs_entered := b\<rparr>) = registry_ok s"
  by (simp_all add: contract_inv_defs)

lemma write_reserve_inv [simp]:
  "payouts_ok ho (write_crosschain_reserve a r s) = payouts_ok ho s" "registry_ok (write_crosschain_reserve a r s) = registry_ok s"
  "cs_entered (write_crosschain_reserve a r s) = cs_entered s"
  by (simp_all add: contract_inv_defs write_crosschain_reserve_def)

text \<open>One publication that moves the reserve.\<close>

lemma publish_inv [simp]:
  "registry_ok (publish ev s) = registry_ok s" "cs_entered (publish ev s) = cs_entered s"
  "cs_events (publish ev s) = cs_events s @ [ev]" "crosschain_part (publish ev s) = crosschain_part s"
  by (simp_all add: publish_def contract_inv_defs)

lemma quiet_reserve:
  assumes "leaves_alone s t"
  shows "cs_reserve t = cs_reserve s" "cs_nonce_used t = cs_nonce_used s" "reserve_balance a (cs_events t) = reserve_balance a (cs_events s)"
    "paid_sources (cs_events t) = paid_sources (cs_events s)"
  using assms silent_events by (fastforce simp: leaves_alone_def crosschain_part_def)+

lemma single_event [simp]:
  "paid_sources [ev] = (case source_of ev of None \<Rightarrow> [] | Some p \<Rightarrow> [p])" "reserve_balance a [ev] = reserve_change a ev"
  by (simp_all add: paid_sources_def List.map_filter_def reserve_balance_def split: option.splits)

lemma entered_fields [simp]:
  "cs_reserve (s\<lparr>cs_entered := b\<rparr>) = cs_reserve s" "cs_nonce_used (s\<lparr>cs_entered := b\<rparr>) = cs_nonce_used s"
  "cs_events (s\<lparr>cs_entered := b\<rparr>) = cs_events s" "cs_entered (s\<lparr>cs_entered := b\<rparr>) = b"
  by simp_all

lemma publish_fields [simp]:
  "cs_reserve (publish ev s) = cs_reserve s" "cs_nonce_used (publish ev s) = cs_nonce_used s"
  by (simp_all add: publish_def)

lemma write_fields [simp]:
  "cs_reserve (write_crosschain_reserve a r s) = (cs_reserve s)(a := r)"
  "cs_nonce_used (write_crosschain_reserve a r s) = cs_nonce_used s" "cs_events (write_crosschain_reserve a r s) = cs_events s"
  by (simp_all add: write_crosschain_reserve_def)

lemma mark_fields [simp]:
  "cs_reserve (mark_nonce_used n s) = cs_reserve s" "cs_nonce_used (mark_nonce_used n s) = (cs_nonce_used s)(n := True)"
  "cs_events (mark_nonce_used n s) = cs_events s" "registry_ok (mark_nonce_used n s) = registry_ok s"
  by (simp_all add: mark_nonce_used_def registry_ok_def relayer_threshold_def)

text \<open>An event that moves the reserve by its amount, and the accounts stay right.\<close>

lemma moved_reserve:
  assumes "reserve_ok s" "cs_events s' = cs_events s @ [ev]" "cs_reserve s' = (cs_reserve s)(asset := cs_reserve s asset + d)"
    and "\<And>a. reserve_change a ev = (if asset = a then d else 0)" "0 \<le> cs_reserve s asset + d"
  shows "reserve_ok s'"
  using assms by (auto simp: reserve_ok_def)

lemma fund_reserve_inv:
  assumes "contract_inv ho s" "fund_crosschain_reserve ho auth asset amount s = Inr s'"
  shows "contract_inv ho s'"
proof -
  from fund_crosschain_reserve_effect [OF assms(2)] obtain admin t where t: "0 < amount" "leaves_alone (s\<lparr>cs_entered := True\<rparr>) t"
    "s' = publish (CrossChainReserveFunded asset admin amount)
             (write_crosschain_reserve asset (cs_reserve s asset + amount) t\<lparr>cs_entered := False\<rparr>)"
    by blast
  have ok: "reserve_ok s" "payouts_ok ho s" "registry_ok s" using assms(1) by (simp_all add: contract_inv_def)
  note q = quiet_inv [OF t(2), unfolded entered_inv] quiet_reserve(1) [OF t(2), unfolded entered_fields]
  have pos: "0 \<le> cs_reserve s asset" using ok(1) by (simp add: reserve_ok_def)
  have "reserve_ok t" using ok(1) q(2) by simp
  then have "reserve_ok s'"
  proof (rule moved_reserve [where d = amount and asset = asset and ev = "CrossChainReserveFunded asset admin amount"])
    show "0 \<le> cs_reserve t asset + amount" using pos t(1) q(5) by simp
  qed (simp_all add: t(3) q(5))
  moreover have "payouts_ok ho s'" using ok(2) q(1) by (simp add: t(3) payouts_ok_def)
  moreover have "registry_ok s'" "\<not> cs_entered s'" using ok(3) q(3) by (simp_all add: t(3))
  ultimately show ?thesis by (simp add: contract_inv_def)
qed

lemma withdraw_reserve_inv:
  assumes "contract_inv ho s" "withdraw_crosschain_reserve ho auth asset amount s = Inr s'"
  shows "contract_inv ho s'"
proof -
  let ?s = "write_crosschain_reserve asset (cs_reserve s asset - amount) (s\<lparr>cs_entered := True\<rparr>)"
  from withdraw_crosschain_reserve_effect [OF assms(2)] obtain admin t where t: "0 < amount" "amount \<le> cs_reserve s asset"
    "leaves_alone ?s t" "s' = publish (CrossChainReserveWithdrawn asset admin amount) t\<lparr>cs_entered := False\<rparr>"
    by blast
  have ok: "reserve_ok s" "payouts_ok ho s" "registry_ok s" using assms(1) by (simp_all add: contract_inv_def)
  note q = quiet_inv [OF t(3)] quiet_reserve [OF t(3)]
  have "reserve_ok s'" using ok(1) t(2) q(5,7) by (auto simp: reserve_ok_def t(4))
  moreover have "payouts_ok ho s'" using ok(2) q(1) by (simp add: t(4) payouts_ok_def)
  moreover have "registry_ok s'" "\<not> cs_entered s'" using ok(3) q(3) by (simp_all add: t(4))
  ultimately show ?thesis by (simp add: contract_inv_def)
qed

lemma payout_inv:
  assumes "contract_inv ho s" "fund_c_address_crosschain ho c h target asset amount sigs s = Inr s'"
  shows "contract_inv ho s'"
proof -
  let ?s = "\<lambda>net. mark_nonce_used (onchain_nonce (ho_platform ho) c h)
    (write_crosschain_reserve asset (cs_reserve s asset - net) (s\<lparr>cs_entered := True\<rparr>))"
  from fund_c_address_crosschain_effect [OF assms(2)] obtain fee t where t:
    "crosschain_checks ho c h target asset amount sigs s = Inr ()" "amount - fee \<le> cs_reserve s asset"
    "leaves_alone (?s (amount - fee)) t" "s' = (publish (CrossChainFunded target c h amount fee asset) t)\<lparr>cs_entered := False\<rparr>"
    by blast
  have ok: "reserve_ok s" "payouts_ok ho s" "registry_ok s" using assms(1) by (simp_all add: contract_inv_def)
  have new: "(c, h) \<notin> set (paid_sources (cs_events s))"
    using t(1) ok(2) by (auto simp: crosschain_checks_eq_Inr payouts_ok_def)
  note q = quiet_reserve [OF t(3)] quiet_inv(3) [OF t(3)]
  have "payouts_ok ho s'" using ok(2) new q(2,4) unfolding t(4) by (auto simp: payouts_ok_def)
  moreover have "reserve_ok s'" using ok(1) t(2) q(1,3) unfolding t(4) by (auto simp: reserve_ok_def)
  moreover have "registry_ok s'" "\<not> cs_entered s'" using ok(3) q(5) unfolding t(4) by simp_all
  ultimately show ?thesis by (simp add: contract_inv_def)
qed

text \<open>The registry.\<close>

lemma register_fields:
  assumes "register_relayer pk s = Inr s'"
  shows "cs_events s' = cs_events s" "cs_reserve s' = cs_reserve s" "cs_nonce_used s' = cs_nonce_used s" "cs_entered s' = cs_entered s"
  using assms by (auto simp: register_relayer_def split: if_splits)

lemma register_relayer_inv:
  assumes "register_relayer pk s = Inr s'" "registry_ok s"
  shows "registry_ok s'"
proof (cases "cs_relayer s pk")
  case True
  with assms show ?thesis by (simp add: register_relayer_def)
next
  case False
  with assms(1) have s': "s' = s\<lparr>cs_relayer := (cs_relayer s)(pk := True), cs_relayer_set := cs_relayer_set s @ [pk],
      cs_relayer_count := cs_relayer_count s + 1\<rparr>"
    by (simp add: register_relayer_def split: if_splits)
  from assms(2) False have "pk \<notin> set (cs_relayer_set s)" by (simp add: registry_ok_def)
  moreover have "relayer_threshold s \<le> cs_relayer_count s + 1"
    using assms(2) unfolding registry_ok_def by linarith
  moreover have "relayer_threshold s' = relayer_threshold s" by (simp add: s' relayer_threshold_def)
  ultimately show ?thesis using assms(2) by (auto simp: s' registry_ok_def)
qed

lemma unregister_relayer_inv:
  assumes "registry_ok s" "\<not> (cs_relayer s pk \<and> (cs_relayer_count s \<le> 1 \<or> cs_relayer_count s - 1 < relayer_threshold s))"
  shows "registry_ok (unregister_relayer pk s)"
  using assms by (auto simp: registry_ok_def relayer_threshold_def unregister_relayer_def Let_def length_remove1)

lemma unregister_fields [simp]:
  "cs_events (unregister_relayer pk s) = cs_events s" "cs_reserve (unregister_relayer pk s) = cs_reserve s"
  "cs_nonce_used (unregister_relayer pk s) = cs_nonce_used s" "cs_entered (unregister_relayer pk s) = cs_entered s"
  by (simp_all add: unregister_relayer_def Let_def)

text \<open>A call of the administration that leaves payouts and reserve alone and publishes no event about them.\<close>

definition same_money :: "'l contract_state \<Rightarrow> 'l contract_state \<Rightarrow> bool" where
  "same_money s s' \<longleftrightarrow> cs_reserve s' = cs_reserve s \<and> cs_nonce_used s' = cs_nonce_used s \<and> cs_entered s' = cs_entered s \<and>
     (\<exists>evs. cs_events s' = cs_events s @ evs \<and> list_all (\<lambda>ev. \<not> about_reserve ev) evs)"

lemma same_money_inv:
  assumes "same_money s s'" "contract_inv ho s" "registry_ok s'"
  shows "contract_inv ho s'"
  using assms silent_events by (fastforce simp: same_money_def contract_inv_def payouts_ok_def reserve_ok_def)

lemma as_admin_inv:
  assumes "contract_inv ho s" "as_admin auth nonce f s = Inr s'"
    and "\<And>admin t t'. f admin t = Inr t' \<Longrightarrow> registry_ok t \<Longrightarrow> same_money t t' \<and> registry_ok t'"
  shows "contract_inv ho s'"
proof -
  from assms(2) obtain admin t where t: "consume_nonce admin nonce s = Inr t" "f admin t = Inr s'"
    by (auto simp: as_admin_eq_Inr)
  note q = quiet_inv [OF consume_nonce_quiet [OF t(1)]]
  have inv: "contract_inv ho t" using assms(1) q by (simp add: contract_inv_def)
  with assms(3) [OF t(2)] same_money_inv show ?thesis by (auto simp: contract_inv_def)
qed

lemma same_moneyI:
  assumes "cs_reserve s' = cs_reserve s" "cs_nonce_used s' = cs_nonce_used s" "cs_entered s' = cs_entered s"
    and "cs_events s' = cs_events s @ evs" "list_all (\<lambda>ev. \<not> about_reserve ev) evs"
  shows "same_money s s'"
  using assms by (auto simp: same_money_def)

lemma add_relayer_inv:
  assumes "contract_inv ho s" "add_relayer auth pk nonce s = Inr s'"
  shows "contract_inv ho s'"
proof -
  from assms(2) obtain t where t: "as_admin auth nonce (\<lambda>admin s. bind_sum (register_relayer pk s) (\<lambda>s.
      Inr (publish (RelayerAdded admin pk) s))) (s\<lparr>cs_entered := True\<rparr>) = Inr t" "s' = t\<lparr>cs_entered := False\<rparr>"
    by (auto simp: add_relayer_def guarded_eq_Inr)
  from t(1) obtain admin u v where u: "consume_nonce admin nonce (s\<lparr>cs_entered := True\<rparr>) = Inr u"
    "register_relayer pk u = Inr v" "t = publish (RelayerAdded admin pk) v"
    by (auto simp: as_admin_eq_Inr bind_sum_eq_Inr)
  have ok: "registry_ok s" "payouts_ok ho s" "reserve_ok s" using assms(1) by (simp_all add: contract_inv_def)
  note q = quiet_inv [OF consume_nonce_quiet [OF u(1)], unfolded entered_inv] and
    r = register_fields [OF u(2)]
  from q(3) ok(1) register_relayer_inv [OF u(2)] have "registry_ok s'" by (simp add: t(2) u(3))
  moreover have "payouts_ok ho s'" "reserve_ok s'" using q(1) [of ho] q(2) ok(2,3) r
    by (simp_all add: t(2) u(3)) (simp_all add: payouts_ok_def reserve_ok_def)
  ultimately show ?thesis by (simp add: contract_inv_def t(2))
qed

lemma remove_relayer_inv:
  assumes "contract_inv ho s" "remove_relayer was auth pk nonce s = Inr s'"
  shows "contract_inv ho s'"
  using assms(2) unfolding remove_relayer_def
proof (rule as_admin_inv [OF assms(1)], goal_cases)
  case (1 admin t t')
  then have guard: "\<not> (cs_relayer t pk \<and> (cs_relayer_count t \<le> 1 \<or> cs_relayer_count t - 1 < relayer_threshold t))"
    and t': "t' = (if was then publish (RelayerRemoved admin pk) (unregister_relayer pk t) else unregister_relayer pk t)"
    by (auto simp: Let_def split: if_splits)
  from unregister_relayer_inv [OF 1(2) guard] show ?case
    by (auto simp: t' intro: same_moneyI [of _ _ "[RelayerRemoved admin pk]"] same_moneyI [of _ _ "[]"])
qed

lemma set_relayer_threshold_inv:
  assumes "contract_inv ho s" "set_relayer_threshold auth n nonce s = Inr s'"
  shows "contract_inv ho s'"
  using assms(2) unfolding set_relayer_threshold_def
proof (rule as_admin_inv [OF assms(1)], goal_cases)
  case (1 admin t t')
  then have n: "0 < n" "n \<le> cs_relayer_count t"
    and t': "t' = publish (RelayerThresholdChanged admin (relayer_threshold t) n) (t\<lparr>cs_threshold := Some n\<rparr>)"
    by (auto split: if_splits)
  have "same_money t t'"
    by (rule same_moneyI [of _ _ "[RelayerThresholdChanged admin (relayer_threshold t) n]"]) (simp_all add: t')
  moreover have "registry_ok t'" using 1(2) n by (simp add: t') (simp add: registry_ok_def relayer_threshold_def unwrap_or_def)
  ultimately show ?case by simp
qed

lemma call_inv:
  assumes "contract_inv ho s" "call_op ho auth c s = Inr s'"
  shows "contract_inv ho s'"
proof (cases "administrative c")
  case True
  with quiet_inv [OF administrative_quiet [OF True assms(2)]] assms(1) show ?thesis by (simp add: contract_inv_def)
next
  case False
  note op = assms(2)
  show ?thesis
  proof (cases c)
    case (FundReserve a n)
    with op show ?thesis using fund_reserve_inv [OF assms(1)] by simp
  next
    case (WithdrawReserve a n)
    with op show ?thesis using withdraw_reserve_inv [OF assms(1)] by simp
  next
    case (FundCrosschain c h tg a n sigs)
    with op show ?thesis using payout_inv [OF assms(1)] by simp
  next
    case (AddRelayer pk n)
    with op show ?thesis using add_relayer_inv [OF assms(1)] by simp
  next
    case (RemoveRelayer was pk n)
    with op show ?thesis using remove_relayer_inv [OF assms(1)] by simp
  next
    case (SetRelayerThreshold t n)
    with op show ?thesis using set_relayer_threshold_inv [OF assms(1)] by simp
  qed (use False in simp_all)
qed

lemma new_contract_inv: "contract_inv ho (new_contract l)"
  by (simp add: contract_inv_def payouts_ok_def reserve_ok_def registry_ok_def relayer_threshold_def unwrap_or_def
      new_contract_def paid_sources_def List.map_filter_def reserve_balance_def)

lemma contract_run_inv: "contract_run ho s \<Longrightarrow> contract_inv ho s"
proof (induction rule: contract_run.induct)
  case (Deployed l)
  show ?case by (rule new_contract_inv)
next
  case (Called s auth c)
  then show ?case by (auto simp: invoke_def split: sum.splits intro: call_inv)
next
  case (Elsewhere s s' evs)
  with same_part [OF Elsewhere.hyps(2,4,5)] show ?case by (simp add: contract_inv_def)
qed

text \<open>The signatures \<open>check_sigs\<close> accepts.\<close>

lemma check_sigs_Inr:
  "check_sigs ho s h seen sigs = Inr ks \<longleftrightarrow> ks = seen @ map fst sigs \<and>
     (\<forall>(pk, sg) \<in> set sigs. cs_relayer s pk \<and> ho_verify_strict ho pk h sg) \<and>
     distinct (map fst sigs) \<and> set (map fst sigs) \<inter> set seen = {}"
  by (induction ho s h seen sigs rule: check_sigs.induct) auto

section \<open>Properties\<close>

text \<open>A token that never refuses, and the verifier of \<open>sample_platform\<close>.\<close>

definition sample_host :: "unit host" where
  "sample_host = \<lparr>ho_platform = sample_platform, ho_verify_strict = (\<lambda>pk h sg. ed_verify sample_platform pk h sg = Inr True),
     ho_transfer = (\<lambda>l _ _ _ _. Some l), ho_balance = (\<lambda>_ _ _. 0), ho_self = ''CB''\<rparr>"

definition sample_key :: "byte list" where "sample_key = replicate 32 CHR ''k''"
definition sample_tx :: "byte list" where "sample_tx = replicate 32 CHR 0xAA"

definition sample_call :: contract_call where
  "sample_call = FundCrosschain 1 sample_tx ''GA'' ''CA'' 1000
     [(sample_key, sample_key @ last_32 (onchain_payload_hash sample_platform 1 sample_tx ''GA'' ''CA'' 1000))]"

definition calls_from :: "'l host \<Rightarrow> (string \<Rightarrow> bool) \<Rightarrow> contract_call list \<Rightarrow> 'l contract_state \<Rightarrow> 'l contract_state" where
  "calls_from ho auth = fold (invoke ho auth)"

lemma calls_from_run: "contract_run ho s \<Longrightarrow> contract_run ho (calls_from ho auth cs s)"
  by (induction cs arbitrary: s) (simp_all add: calls_from_def contract_run.Called)

definition funded_with :: "byte list \<Rightarrow> unit contract_state" where
  "funded_with key = calls_from sample_host (\<lambda>_. True)
     [Initialize ''GX'' ''GC'' 100 None, AddAsset ''CA'' None, FundReserve ''CA'' 5000, AddRelayer key None] (new_contract ())"

abbreviation funded_contract :: "unit contract_state" where
  "funded_contract \<equiv> funded_with sample_key"

definition paid_contract :: "unit contract_state" where
  "paid_contract = invoke sample_host (\<lambda>_. True) sample_call funded_contract"

lemma sample_runs: "contract_run sample_host (funded_with key)" "contract_run sample_host paid_contract"
  by (simp_all add: funded_with_def paid_contract_def contract_run.Deployed contract_run.Called calls_from_run)

lemmas contract_defs = fund_crosschain_reserve_def guarded_def with_admin_def token_transfer_def increment_crosschain_reserve_def
  write_crosschain_reserve_def safe_add_def i128_def publish_def as_admin_def consume_nonce_def register_relayer_def add_relayer_def
  add_asset_def initialize_inner_def ensure_def check_not_paused_def MAX_FEE_BPS_def

definition funded_record :: "byte list \<Rightarrow> unit contract_state" where
  "funded_record key = (new_contract ())\<lparr>cs_initialized := True, cs_admin := Some ''GX'', cs_fee_collector := ''GC'', cs_fee_bps := 100,
     cs_whitelist := (\<lambda>_. False)(''CA'' := True), cs_reserve := (\<lambda>_. 0)(''CA'' := 5000),
     cs_relayer := (\<lambda>_. False)(key := True), cs_relayer_set := [key], cs_relayer_count := 1,
     cs_events := [Initialized ''GX'' ''GC'' 100, AssetAdded ''GX'' ''CA'' False, CrossChainReserveFunded ''CA'' ''GX'' 5000,
                   RelayerAdded ''GX'' key]\<rparr>"

lemma funded_with_eq: "funded_with key = funded_record key"
  by (simp add: funded_with_def calls_from_def invoke_def contract_defs funded_record_def new_contract_def sample_host_def)

lemma sample_call_result:
  "\<exists>s'. call_op sample_host (\<lambda>_. True) sample_call funded_contract = Inr s' \<and> paid_contract = s' \<and>
     cs_events s' = cs_events (funded_record sample_key) @ [CrossChainFunded ''GA'' 1 sample_tx 1000 10 ''CA'']"
proof -
  have sigs: "check_sigs sample_host (funded_record sample_key) (onchain_payload_hash sample_platform 1 sample_tx ''GA'' ''CA'' 1000) []
     [(sample_key, sample_key @ last_32 (onchain_payload_hash sample_platform 1 sample_tx ''GA'' ''CA'' 1000))] = Inr [sample_key]"
    by (simp add: funded_record_def new_contract_def sample_host_def)
  have checks: "crosschain_checks sample_host 1 sample_tx ''GA'' ''CA'' 1000
     [(sample_key, sample_key @ last_32 (onchain_payload_hash sample_platform 1 sample_tx ''GA'' ''CA'' 1000))] (funded_record sample_key) = Inr ()"
    using sigs by (simp add: crosschain_checks_eq_Inr sample_host_def)
      (simp add: funded_record_def new_contract_def check_not_paused_def check_access_def relayer_threshold_def unwrap_or_def
        MAX_STRKEY_LEN_def)
  have "\<exists>s'. crosschain_payout sample_host 1 sample_tx ''GA'' ''CA'' 1000 ((funded_record sample_key)\<lparr>cs_entered := True\<rparr>) = Inr s' \<and>
     cs_events s' = cs_events (funded_record sample_key) @ [CrossChainFunded ''GA'' 1 sample_tx 1000 10 ''CA'']"
    by (simp add: crosschain_payout_def funded_record_def new_contract_def calculate_fee_def get_effective_fee_bps_def unwrap_or_def
        safe_mul_def safe_sub_def safe_add_def i128_def FEE_DENOMINATOR_def MAX_FEE_BPS_def decrement_crosschain_reserve_def
        write_crosschain_reserve_def mark_nonce_used_def token_transfer_def sample_host_def update_asset_counters_split_def
        mint_loyalty_tokens_def publish_def Let_def)
  then show ?thesis
    using checks by (auto simp: sample_call_def fund_c_address_crosschain_def funded_with_eq guarded_def paid_contract_def invoke_def)
      (simp_all add: funded_record_def new_contract_def)
qed

lemma sample_paid:
  "cs_events paid_contract = cs_events (funded_record sample_key) @ [CrossChainFunded ''GA'' 1 sample_tx 1000 10 ''CA'']"
  "paid_sources (cs_events paid_contract) = [(1, sample_tx)]"
proof -
  show ev: "cs_events paid_contract = cs_events (funded_record sample_key) @ [CrossChainFunded ''GA'' 1 sample_tx 1000 10 ''CA'']"
    using sample_call_result by blast
  show "paid_sources (cs_events paid_contract) = [(1, sample_tx)]"
    unfolding ev by (simp add: funded_record_def paid_sources_def List.map_filter_def)
qed

text \<open>C3: However calls of anyone and other changes interleave, the contract pays a source transaction (chain id and
  transaction hash) at most once: no two payouts in its history name the same one, and a further call for a paid one
  changes nothing, whatever it asks for and whoever signed it.\<close>

theorem source_paid_at_most_once:
  assumes "contract_run ho s" "(c, h) \<in> set (paid_sources (cs_events s))"
  shows "distinct (paid_sources (cs_events s)) \<and> invoke ho auth (FundCrosschain c h target asset amount sigs) s = s"
proof -
  have ok: "payouts_ok ho s" using contract_run_inv [OF assms(1)] by (simp add: contract_inv_def)
  then have "cs_nonce_used s (onchain_nonce (ho_platform ho) c h)" using assms(2) by (auto simp: payouts_ok_def)
  then have "fund_c_address_crosschain ho c h target asset amount sigs s \<noteq> Inr s'" for s'
    using fund_c_address_crosschain_effect [of ho c h target asset amount sigs s s'] by (auto simp: crosschain_checks_eq_Inr)
  with ok show ?thesis by (auto simp: invoke_def payouts_ok_def split: sum.splits)
qed

theorem source_paid_at_most_once_witness:
  "distinct (paid_sources (cs_events paid_contract)) \<and> invoke sample_host (\<lambda>_. True) sample_call paid_contract = paid_contract"
  unfolding sample_call_def by (rule source_paid_at_most_once [OF sample_runs(2)]) (simp add: sample_paid(2))

text \<open>C5: The books of the reserve balance: in every history the recorded reserve of an asset is what the administrator
  paid in, less what was withdrawn, less the net amounts of the payouts (the fee of a payout stays in the
  reserve), and it is never negative, so payouts never exceed the liquidity provided for them.\<close>

theorem reserve_accounts:
  assumes "contract_run ho s"
  shows "cs_reserve s a = sum_list [n. CrossChainReserveFunded x _ n \<leftarrow> cs_events s, x = a]
      - sum_list [n. CrossChainReserveWithdrawn x _ n \<leftarrow> cs_events s, x = a]
      - sum_list [n - fee. CrossChainFunded _ _ _ n fee x \<leftarrow> cs_events s, x = a] \<and> 0 \<le> cs_reserve s a"
proof -
  have "reserve_balance a evs = sum_list [n. CrossChainReserveFunded x _ n \<leftarrow> evs, x = a]
      - sum_list [n. CrossChainReserveWithdrawn x _ n \<leftarrow> evs, x = a]
      - sum_list [n - fee. CrossChainFunded _ _ _ n fee x \<leftarrow> evs, x = a]" for evs
  proof (induction evs)
    case (Cons ev evs)
    then show ?case by (cases ev) (simp_all add: reserve_balance_def)
  qed (simp add: reserve_balance_def)
  moreover have "cs_reserve s a = reserve_balance a (cs_events s)" "0 \<le> reserve_balance a (cs_events s)"
    using contract_run_inv [OF assms] by (simp_all add: contract_inv_def reserve_ok_def)
  ultimately show ?thesis by (metis (no_types, lifting))
qed

theorem reserve_accounts_witness: "cs_reserve paid_contract ''CA'' = 5000 - (1000 - 10) \<and> 0 \<le> cs_reserve paid_contract ''CA''"
proof -
  have "[n. CrossChainReserveFunded x _ n \<leftarrow> cs_events paid_contract, x = ''CA''] = [5000]"
    "[n. CrossChainReserveWithdrawn x _ n \<leftarrow> cs_events paid_contract, x = ''CA''] = []"
    "[n - fee. CrossChainFunded _ _ _ n fee x \<leftarrow> cs_events paid_contract, x = ''CA''] = [990]"
    by (simp_all add: sample_paid(1) funded_record_def)
  with reserve_accounts [OF sample_runs(2), of "''CA''"] show ?thesis by simp
qed



text \<open>The loyalty reward is paid from the balance less fees and time locks, but not less the reserve: when the loyalty
  token is also a bridged asset, a reward can leave the contract with less than the reserve it records.\<close>

lemma loyalty_reward_spends_reserve:
  assumes "cs_loyalty_token s = Some a" "0 < cs_loyalty_amount s" "cs_loyalty_amount s \<le> cs_reserve s a" "cs_reserve s a < 2 ^ 127"
    and "ho_balance ho (cs_ledger s) a (ho_self ho) = cs_reserve s a"
    and "ac_accrued_fees (cs_counters s a) = 0" "ac_locked_timelock (cs_counters s a) = 0"
    and "ho_transfer ho (cs_ledger s) a (ho_self ho) recipient (cs_loyalty_amount s) = Some l"
    and "ho_balance ho l a (ho_self ho) = cs_reserve s a - cs_loyalty_amount s"
  shows "\<exists>s'. mint_loyalty_tokens ho recipient s = Inr s' \<and> ho_balance ho (cs_ledger s') a (ho_self ho) < cs_reserve s' a"
  using assms by (simp add: mint_loyalty_tokens_def token_transfer_def saturating_sub_def Let_def)

section \<open>When a payout succeeds\<close>

text \<open>What a payout needs of the contract beside its signatures; \<open>fee\<close> is kept from the amount and \<open>l\<close> is the ledger after
  the transfer of the rest.  No loyalty token is set.\<close>

definition ready_to_pay ::
  "'l host \<Rightarrow> 'l contract_state \<Rightarrow> int \<Rightarrow> 'l \<Rightarrow> nat \<Rightarrow> byte list \<Rightarrow> string \<Rightarrow> string \<Rightarrow> int \<Rightarrow> bool" where
  "ready_to_pay ho s fee l c h target asset amount \<longleftrightarrow>
     cs_initialized s \<and> \<not> cs_deactivated s \<and> \<not> cs_paused s \<and> 0 < amount \<and> cs_minimum s \<le> amount \<and> \<not> cs_blocked s target
     \<and> \<not> (cs_allowlist_mode s \<and> \<not> cs_allowlisted s target) \<and> cs_whitelist s asset
     \<and> \<not> cs_nonce_used s (onchain_nonce (ho_platform ho) c h) \<and> length target \<le> MAX_STRKEY_LEN \<and> length asset \<le> MAX_STRKEY_LEN
     \<and> calculate_fee amount (get_effective_fee_bps s asset (cs_fee_bps s)) = Inr fee
     \<and> 0 \<le> fee \<and> fee < amount \<and> amount < 2 ^ 127 \<and> amount - fee \<le> cs_reserve s asset \<and> cs_reserve s asset < 2 ^ 127
     \<and> ho_transfer ho (cs_ledger s) asset (ho_self ho) target (amount - fee) = Some l
     \<and> (let a = cs_counters s asset in - (2 ^ 127) \<le> ac_accrued_fees a \<and> ac_accrued_fees a < 2 ^ 127
          \<and> 0 \<le> ac_total_bridged a \<and> ac_total_bridged a + amount < 2 ^ 127
          \<and> - (2 ^ 127) \<le> ac_total_fees_collected a \<and> ac_total_fees_collected a < 2 ^ 127)
     \<and> cs_loyalty_token s = None"

lemma payout_succeeds:
  assumes "ready_to_pay ho s fee l c h target asset amount" "\<not> cs_entered s" "0 < relayer_threshold s" "0 < cs_relayer_count s"
    and "check_sigs ho s (onchain_payload_hash (ho_platform ho) c h target asset amount) [] sigs = Inr seen"
    and "relayer_threshold s \<le> length seen"
  shows "\<exists>s'. call_op ho auth (FundCrosschain c h target asset amount sigs) s = Inr s'
    \<and> cs_events s' = cs_events s @ [CrossChainFunded target c h amount fee asset]
    \<and> cs_reserve s' asset = cs_reserve s asset - (amount - fee) \<and> cs_ledger s' = l"
proof -
  note ready = assms(1) [unfolded ready_to_pay_def]
  from ready assms(3-6) have checks: "crosschain_checks ho c h target asset amount sigs s = Inr ()"
    by (auto simp: crosschain_checks_eq_Inr check_not_paused_def check_access_def)
  let ?s = "s\<lparr>cs_entered := True\<rparr>"
  let ?t = "(mark_nonce_used (onchain_nonce (ho_platform ho) c h)
      (write_crosschain_reserve asset (cs_reserve s asset - (amount - fee)) ?s))\<lparr>cs_ledger := l\<rparr>"
  have fields: "cs_counters ?t = cs_counters s" "cs_loyalty_token ?t = None" "cs_events ?t = cs_events s"
    "cs_reserve ?t asset = cs_reserve s asset - (amount - fee)" "cs_ledger ?t = l"
    using ready by (simp_all add: mark_nonce_used_def write_crosschain_reserve_def)
  have ledger: "cs_ledger (mark_nonce_used n (write_crosschain_reserve a r ?s)) = cs_ledger s"
    "cs_loyalty_token (mark_nonce_used n (write_crosschain_reserve a r ?s)) = cs_loyalty_token s" for n a r
    by (simp_all add: mark_nonce_used_def write_crosschain_reserve_def)
  have net: "safe_sub amount fee = Inr (amount - fee)" using ready by (simp add: safe_sub_eq_Inr)
  have dec: "decrement_crosschain_reserve asset (amount - fee) ?s
      = Inr (write_crosschain_reserve asset (cs_reserve s asset - (amount - fee)) ?s)"
    using ready by (simp add: decrement_eq_Inr)
  have "\<exists>u. update_asset_counters_split asset 0 0 (amount - fee) ?t = Inr u \<and> cs_loyalty_token u = None \<and> cs_events u = cs_events s
      \<and> cs_reserve u asset = cs_reserve s asset - (amount - fee) \<and> cs_ledger u = l"
    using ready unfolding update_asset_counters_split_def Let_def fields safe_add_def i128_def
    by (simp add: fields ledger)
  then obtain u where u: "update_asset_counters_split asset 0 0 (amount - fee) ?t = Inr u" "cs_loyalty_token u = None"
    "cs_events u = cs_events s" "cs_reserve u asset = cs_reserve s asset - (amount - fee)" "cs_ledger u = l" by blast
  have "crosschain_payout ho c h target asset amount ?s = Inr (publish (CrossChainFunded target c h amount fee asset) u)"
    using ready u(1,2) by (simp add: crosschain_payout_def net dec Let_def token_transfer_def ledger mint_loyalty_tokens_def)
  with checks assms(2) u show ?thesis
    by (simp add: fund_c_address_crosschain_def guarded_def publish_def)
qed

lemma funded_relayer: "cs_relayer (funded_with key) key"
  by (simp add: funded_with_eq funded_record_def)

lemma funded_threshold: "relayer_threshold (funded_with key) = 1"
  by (simp add: funded_with_eq funded_record_def new_contract_def relayer_threshold_def unwrap_or_def)

lemma funded_ready:
  assumes "length target \<le> MAX_STRKEY_LEN"
  shows "ready_to_pay sample_host (funded_with key) 0 () c h target ''CA'' 5"
  using assms by (simp add: ready_to_pay_def funded_with_eq funded_record_def new_contract_def sample_host_def MAX_STRKEY_LEN_def
      calculate_fee_def get_effective_fee_bps_def unwrap_or_def MAX_FEE_BPS_def safe_mul_def i128_def FEE_DENOMINATOR_def Let_def)

end
