(* ===== verification/Spec2Isabelle.thy ===== *)
theory Spec2Isabelle
  imports Relayer_Recovery Eth_Polling Relayer_Lifecycle Relayer_Env Sdk_Commitment Sdk_Batch Sdk_Cached_Client Sdk_Events Sdk_Offramp Sdk_Observability Release Crosschain_Contract
begin

text \<open>
  A verification library for the C-address onboarding bridge: a relayer (\<open>src/relayer/\<close>) that watches other
  chains, collects signatures of its operators over each funding event and submits it to a Stellar contract,
  and a TypeScript SDK (\<open>src/sdk/src/\<close>) that builds, signs, submits and reads back calls of that contract.

  \<^bold>\<open>Conventions.\<close>  Objects are records, tagged unions datatypes, JavaScript strings lists of bytes (the code only
  compares, slices and hashes ASCII text; UTF-8 is decoded where the code decodes it).  A throw is \<open>Inl\<close> of
  what is thrown, a method that changes state is a function from the state to its outcome and the new state
  (\<open>op\<close> of \<open>Bridge_Prelude\<close>, sequenced by \<open>and_then\<close> and \<open>catching\<close>).  Numbers that hold integers are \<open>int\<close>: they
  are exact, also above \<open>2 ^ 53\<close>, where a JavaScript number would round; conversions that check safe integers,
  \<open>u32\<close>, \<open>u64\<close>, \<open>i128\<close> do it as written.  Code that is not in the repository is a parameter: cryptography and the
  file system (\<open>platform\<close>), the Stellar library (\<open>stellar\<close>), the RPC server (\<open>provider\<close>, which answers from the
  history of the requests), the Ethereum and Solana nodes, the user's callbacks and hooks, clocks and random numbers.

  \<^bold>\<open>Theories.\<close>
  \<^item> \<open>Bridge_Prelude\<close>: results, operations with state, lists and maps the components share, the named collections.
  \<^item> \<open>Js_Runtime\<close>, \<open>Js_Base64\<close>: what the code uses of JavaScript: hexadecimal and decimal text, \<open>parseInt\<close>,
    \<open>BigInt\<close>, \<open>trim\<close>, \<open>split\<close>, buffers, UTF-8, base 64, with round trips.
  \<^item> \<open>Bridge_Event\<close> (\<open>relayer/index.ts\<close>): the event, its validation, the nonce, the preimage and the payload hash;
    the hash the contract recomputes, and that both agree and bind every field.
  \<^item> \<open>Signers\<close> (\<open>relayer/index.ts\<close>, \<open>signer-service.ts\<close>): local and remote signing, the collection of signatures up
    to the threshold, the HTTP handler of the signer service.
  \<^item> \<open>Stores\<close>: \<open>NonceStore\<close>, \<open>DeadLetterQueue\<close>, \<open>BlockStore\<close>, \<open>SolanaSignatureStore\<close> over a file system.
  \<^item> \<open>Relayer_Service\<close>: \<open>RelayerService\<close>: admission, processing, the dead-letter sweep, restart; a step relation
    (\<open>relayer_step\<close>) in \<open>Relayer_Concurrency\<close> interleaves deliveries, the collection of signatures and submissions within one
    run of the process.  A restart is not a step: a submission that is under way at a crash is sent again by the next process, and it is the
    contract that then refuses to pay twice (\<open>source_paid_at_most_once\<close>).  \<open>Relayer_Recovery\<close>: what a service opened on the
    files of such a run finds.
  \<^item> \<open>Relayer_Lifecycle\<close>: starting and stopping the service and its listeners, their timers and connections.
  \<^item> \<open>Eth_Listener\<close>, \<open>Eth_Polling\<close> (its polls, which overlap, as a step relation \<open>polling_step\<close>), \<open>Solana_Listener\<close>: the chain listeners with their cursors, ABI and base 58 decoding, log
    walking, backfill and reconnects.  \<open>Relayer_Env\<close>: \<open>validateEnv\<close>, what \<open>main\<close> builds from it, the health server.
  \<^item> \<open>Sdk_Types\<close> (\<open>types.ts\<close>), \<open>Sdk_Retry\<close> (\<open>retry.ts\<close>), \<open>Sdk_Encoding\<close> (\<open>validate.ts\<close>, \<open>encoding.ts\<close>),
    \<open>Sdk_Submit\<close> (the submitting methods of \<open>bridge.ts\<close> and the hooks of \<open>observability.ts\<close>) and \<open>Sdk_Mutations\<close>
    (what every submitting method does, by cases on \<open>bridge_call\<close>).
  \<^item> \<open>Sdk_Queries\<close> (the reading methods and \<open>estimateCost\<close>), \<open>Sdk_Commitment\<close> (commit and reveal), \<open>Sdk_Confirm\<close>
    (waiting for a transaction), \<open>Sdk_Batch\<close> (\<open>batchFundCAddresses\<close>).
  \<^item> \<open>Sdk_Cache\<close> (\<open>cache.ts\<close>) and \<open>Sdk_Cached_Client\<close> (\<open>cachedBridge.ts\<close>).
  \<^item> \<open>Sdk_Events\<close> (\<open>events.ts\<close>): the polling event subscriber as a step relation (\<open>event_step\<close>) over listeners, the
    timer and the fetches in flight.
  \<^item> \<open>Sdk_Offramp\<close> (\<open>offramp.ts\<close>): widget URLs, their signature, provider quotes, deposit memos; \<open>Js_Number\<close>: the
    rounding of JavaScript numbers that are not integers, which the quotes need.
  \<^item> \<open>Sdk_Observability\<close> (\<open>observability.ts\<close>): the console logger, the OpenTelemetry adapter and the composition of
    hooks, with what they record of the submitting methods.
  \<^item> \<open>Deploy\<close> (\<open>scripts/deploy.ts\<close>): flags, configuration, the transactions of a deployment and their bounded wait.
  \<^item> \<open>Deploy_Cost\<close> (\<open>scripts/estimate-deploy-cost.ts\<close>): benchmark averages, size notes, the report and its formats.
  \<^item> \<open>Release\<close> (\<open>scripts/sign-release.js\<close>, \<open>scripts/verify-release.js\<close>): the registry of signed releases and the
    verification of a file or a deployed contract against it.
  \<^item> \<open>Crosschain_Contract\<close> (\<open>contracts/onboarding-bridge/src/lib.rs\<close>): the part of the contract the relayer drives: the
    liquidity reserve, the registry of relayers and its threshold, the payout, and the administration its checks read.
    \<open>contract_run\<close> are its histories; whatever else happens to the contract is a step that leaves the cross-chain
    entries alone.
  \<^item> This theory: properties that span the relayer, the SDK and the contract.

  \<^bold>\<open>Interfaces.\<close>  \<open>durable\<close> (what a component needs of a store that survives restarts) is interpreted on the four
  stores of the relayer, \<open>signature_source\<close> (what the collection needs of a signing node) on local and remote
  nodes, \<open>expiring_store\<close> (what a read-through needs of a cache) on \<open>InMemoryCache\<close>.

  \<^bold>\<open>What the lemmas show.\<close>  For the relayer: an event is funded at most once under every interleaving, every
  submission carries distinct keys that verify over the hash the contract computes, what was handled survives a
  restart, no restart passes an undelivered log although polls overlap, a stopped service begins nothing more, and the configurations and failures that lose events.  For the
  SDK: attempts and envelopes are bounded, methods do not throw, arguments are what was asked for, readings submit
  nothing, batches stop at the first failure, waits end or do not, caches are bounded and not stale, events are
  dispatched once unless fetches overlap, widget URLs read back, quotes add up, spans end.  For the deployment: it
  sends two transactions and reports the contract they created; averages are right to one rounding.  For releases: what
  was signed verifies, and what verifies was signed.  For the contract: a source transaction is paid at most once, by a
  quorum of registered relayers, out of a reserve whose books balance, and a request of the relayer is
  paid when nothing stands against it.  Where the code falls short of this a lemma shows it: overlapping polls that deliver twice or skip
  the first blocks, a called program that hides a deposit, events missed after \<open>'now'\<close>, a release that no longer verifies
  once the key was changed.

  \<^bold>\<open>Loops and bounds.\<close>  Loops over data are structural; \<open>retry_loop\<close> counts the attempts left, \<open>poll_bounded\<close> and
  \<open>deploy_poll\<close> the polls left, \<open>backfill_pages\<close> has fuel, the number of pages fetched: a history of \<open>n\<close> missed signatures needs
  \<open>n div 1000 + 2\<close>, and \<open>poll_transaction\<close>, which the source does not bound, is a
  \<^theory_text>\<open>partial_function\<close> whose \<open>None\<close> is a promise that never settles.

  \<^bold>\<open>Not modelled.\<close>  The indexer (Rust) and the functions of the contract that do not touch the cross-chain entries
  (the other funding paths, fees, upgrade, migration), except for the reveal hash that a theorem compares with;
  the extension of the life of storage entries; the example \<open>full-integration.ts\<close> and the check of the
  documentation \<open>check-migration-sdk-docs.js\<close>; the end of the function \<open>EventSubscriber.on\<close> returns, which is cut off in the file;
  the self-tests inside \<open>relayer/index.ts\<close> and the test suites; console output; process signals and HTTP
  plumbing around the handlers.  A cached read of \<open>Sdk_Cache\<close> is one step: a load that overlaps an invalidation
  can store an older value, which \<open>cached_reads_boundedly_stale\<close> therefore does not cover.
\<close>

section \<open>From the signatures of the relayer to the arguments of the contract\<close>

text \<open>Two public keys with the same bytes have the same lower-case text.\<close>

lemma hex_char_hex_val: "is_hex c \<Longrightarrow> hex_char (the (hex_val c)) = to_lower_char c"
proof -
  assume h: "is_hex c"
  obtain n :: nat where n: "of_char c = n" "n < 256" by (metis nat_of_char_less_256)
  then have c: "c = char_of n" by (metis char_of_char)
  from h n(1) consider "48 \<le> n" "n \<le> 57" | "97 \<le> n" "n \<le> 102" | "65 \<le> n" "n \<le> 70"
    by (auto simp: is_hex_def hex_val_def Let_def split: if_splits)
  then show ?thesis
  proof cases
    case 1
    with n(1) c show ?thesis by (simp add: hex_val_def hex_char_def to_lower_char_def)
  next
    case 2
    with n(1) c show ?thesis by (simp add: hex_val_def hex_char_def to_lower_char_def)
  next
    case 3
    then have "hex_val c = Some (n - 55)" using n(1) by (simp add: hex_val_def)
    moreover from 3 have "87 + (n - 55) = n + 32" "\<not> n - 55 < 10" by linarith+
    ultimately show ?thesis using 3 n(1) by (simp add: hex_char_def to_lower_char_def)
  qed
qed

lemma hex_of_bytes_of_hex:
  "even (length s) \<Longrightarrow> list_all is_hex s \<Longrightarrow> hex_of_bytes (bytes_of_hex s) = to_lower s"
proof (induction s rule: bytes_of_hex.induct)
  case (1 a b s)
  then obtain x y where xy: "hex_val a = Some x" "hex_val b = Some y" by (auto simp: is_hex_def)
  then have "x < 16" "y < 16" by (auto dest: hex_val_less)
  moreover from xy have "hex_char x = to_lower_char a" "hex_char y = to_lower_char b"
    using hex_char_hex_val [of a] hex_char_hex_val [of b] by (simp_all add: is_hex_def)
  ultimately show ?case using 1 xy by (simp add: to_lower_def)
qed (simp_all add: to_lower_def)

lemma distinct_pubkey_bytes:
  assumes "distinct (map pubkey_key sigs)" "\<And>sg. sg \<in> set sigs \<Longrightarrow> matches_hex 64 (sig_pubkey sg)"
  shows "distinct (map (bytes_of_hex \<circ> sig_pubkey) sigs)"
proof -
  have "pubkey_key sg = hex_of_bytes (bytes_of_hex (sig_pubkey sg))" if "sg \<in> set sigs" for sg
    using assms(2) [OF that] by (simp add: pubkey_key_def matches_hex_def hex_of_bytes_of_hex)
  then have "map pubkey_key sigs = map hex_of_bytes (map (bytes_of_hex \<circ> sig_pubkey) sigs)" by simp
  with assms(1) show ?thesis by (metis distinct_map)
qed

text \<open>The contract value of one signature.\<close>

definition signature_entry :: "byte list \<Rightarrow> byte list \<Rightarrow> scval" where
  "signature_entry pk sg = ScMap [(''pubkey'', ScBytes pk), (''signature'', ScBytes sg)]"

text \<open>The signatures of a request the relayer sent, as the contract receives and checks them.\<close>

definition signature_pairs :: "crosschain_request \<Rightarrow> (byte list \<times> byte list) list" where
  "signature_pairs req = map (\<lambda>s. (bytes_of_hex (sig_pubkey s), bytes_of_hex (sig_signature s))) (cr_sigs req)"

lemma request_hash:
  assumes "validateBridgeEvent K (event_of_request req) = Inr u"
  shows "computePayloadHash K (event_of_request req) = Inr (onchain_payload_hash K (nat (cr_chainId req)) (bytes_of_hex (cr_txHash req))
    (cr_target req) (cr_asset req) (int (num_of_string 10 (cr_amount req))))"
  using payload_preimage_valid [OF assms]
  by (simp add: computePayloadHash_def onchain_payload_hash_def event_of_request_def)

lemma well_signed_pairs:
  assumes "well_signed K cfg req" "validateBridgeEvent K (event_of_request req) = Inr u"
  shows "length (signature_pairs req) = rc_threshold cfg \<and> distinct (map fst (signature_pairs req))
    \<and> (\<forall>(pk, sg) \<in> set (signature_pairs req). length pk = 32 \<and> length sg = 64
        \<and> ed_verify K pk (onchain_payload_hash K (nat (cr_chainId req)) (bytes_of_hex (cr_txHash req))
              (cr_target req) (cr_asset req) (int (num_of_string 10 (cr_amount req)))) sg = Inr True)"
proof -
  let ?h = "onchain_payload_hash K (nat (cr_chainId req)) (bytes_of_hex (cr_txHash req))
              (cr_target req) (cr_asset req) (int (num_of_string 10 (cr_amount req)))"
  from request_hash [OF assms(2)] assms(1) have signed: "verifyRelayerSignature K s ?h" if "s \<in> set (cr_sigs req)" for s
    using that by (auto simp: well_signed_def)
  have "length (signature_pairs req) = rc_threshold cfg" using assms(1) by (simp add: well_signed_def signature_pairs_def)
  moreover have "distinct (map fst (signature_pairs req))"
    using distinct_pubkey_bytes [of "cr_sigs req"] assms(1) verify_shape [OF signed]
    by (simp add: well_signed_def comp_def signature_pairs_def)
  moreover have "length (bytes_of_hex (sig_pubkey s)) = 32 \<and> length (bytes_of_hex (sig_signature s)) = 64
      \<and> ed_verify K (bytes_of_hex (sig_pubkey s)) ?h (bytes_of_hex (sig_signature s)) = Inr True"
    if "s \<in> set (cr_sigs req)" for s
    using signed [OF that] verify_shape [OF signed [OF that]]
    by (auto simp: verifyRelayerSignature_def length_bytes_of_hex matches_hex_def split: if_splits sum.splits)
  ultimately show ?thesis by (auto simp: signature_pairs_def)
qed

lemma well_signed_entries:
  assumes "well_signed K cfg req" "validateBridgeEvent K (event_of_request req) = Inr u"
  shows "\<exists>pairs. map sigScVal (cr_sigs req) = map (\<lambda>(pk, sg). signature_entry pk sg) pairs
    \<and> length pairs = rc_threshold cfg \<and> distinct (map fst pairs)
    \<and> (\<forall>(pk, sg) \<in> set pairs. length pk = 32 \<and> length sg = 64
        \<and> ed_verify K pk (onchain_payload_hash K (nat (cr_chainId req)) (bytes_of_hex (cr_txHash req))
              (cr_target req) (cr_asset req) (int (num_of_string 10 (cr_amount req)))) sg = Inr True)"
  using well_signed_pairs [OF assms]
  by (intro exI [of _ "signature_pairs req"]) (simp add: signature_pairs_def sigScVal_def signature_entry_def)

text \<open>C7: From the relayer to the contract: when the SDK's \<open>fundCrosschain\<close> reports a request of the relayer as
  pending, the server was sent the signed preparation of \<open>fund_c_address_crosschain\<close> whose arguments are
  the event's chain id, transaction hash, addresses and amount, with exactly the threshold number of
  signatures, under pairwise distinct 32-byte public keys, each of which verifies over the hash the
  contract recomputes from those very arguments.\<close>

theorem contract_receives_what_was_signed:
  assumes "reachable_world K cfg wld" "(k, req) \<in> set (wd_sent wld)"
    and "validateBridgeEvent K (event_of_request req) = Inr u"
    and "quiet_sdk sdk" "faithful_stellar (sd_stellar sdk)"
    and "fundCrosschain sdk req key w = (Inr res, w')" "tr_status res = Pending"
  shows "\<exists>account txHash amount pairs p h.
      bytes_of_hex (cr_txHash req) = txHash \<and> bigint_of_string (cr_amount req) = Some amount \<and> 0 < amount
    \<and> pv_prepareTransaction (sd_provider sdk) h (build_tx sdk account ''fund_c_address_crosschain''
        [ScInt ''u32'' (cr_chainId req), ScBytes txHash, ScAddress (cr_target req), ScAddress (cr_asset req),
         ScInt ''i128'' amount, ScVec (map (\<lambda>(pk, sg). signature_entry pk sg) pairs)]) = Inr p
    \<and> SendTransaction \<lparr>en_prepared = p, en_signers = [key]\<rparr> \<in> set (calls w')
    \<and> length pairs = rc_threshold cfg \<and> distinct (map fst pairs)
    \<and> (\<forall>(pk, sg) \<in> set pairs. length pk = 32 \<and> length sg = 64
         \<and> ed_verify K pk (onchain_payload_hash K (nat (cr_chainId req)) txHash (cr_target req) (cr_asset req) amount) sg
             = Inr True)"
proof -
  have valid: "matches_hex 64 (cr_txHash req)" "matches_digits (cr_amount req)" "0 < num_of_string 10 (cr_amount req)"
    using assms(3) by (simp_all add: validateBridgeEvent_Inr_iff) (simp_all add: event_of_request_def)
  from valid(1) have hash: "replace_first ''0x'' [] (cr_txHash req) = cr_txHash req"
    by (simp add: matches_hex_def replace_first_absent)
  from fundCrosschain_pending [OF assms(4-7)] obtain account amount p h where sent:
    "bigint_of_string (cr_amount req) = Some amount"
    "pv_prepareTransaction (sd_provider sdk) h (build_tx sdk account ''fund_c_address_crosschain''
        [ScInt ''u32'' (cr_chainId req), ScBytes (bytes_of_hex (cr_txHash req)), ScAddress (cr_target req),
         ScAddress (cr_asset req), ScInt ''i128'' amount, ScVec (map sigScVal (cr_sigs req))]) = Inr p"
    "SendTransaction \<lparr>en_prepared = p, en_signers = [key]\<rparr> \<in> set (calls w')"
    unfolding hash by metis
  have amount: "amount = int (num_of_string 10 (cr_amount req))"
    using sent(1) bigint_of_digits [OF valid(2)] by simp
  have "well_signed K cfg req"
    using world_inv_reachable [OF assms(1)] assms(2) by (auto simp: world_inv_def)
  from well_signed_entries [OF this assms(3)] obtain pairs where
    "map sigScVal (cr_sigs req) = map (\<lambda>(pk, sg). signature_entry pk sg) pairs"
    "length pairs = rc_threshold cfg" "distinct (map fst pairs)"
    "\<forall>(pk, sg) \<in> set pairs. length pk = 32 \<and> length sg = 64
      \<and> ed_verify K pk (onchain_payload_hash K (nat (cr_chainId req)) (bytes_of_hex (cr_txHash req))
              (cr_target req) (cr_asset req) amount) sg = Inr True"
    unfolding amount by blast
  moreover have "0 < amount" using valid(3) amount by simp
  ultimately show ?thesis
    using sent
    by (intro exI [of _ account] exI [of _ "bytes_of_hex (cr_txHash req)"] exI [of _ amount] exI [of _ pairs]
        exI [of _ p] exI [of _ h]) simp
qed

lemma contract_receives_what_was_signed_witness:
  "\<exists>account txHash amount pairs p h. 0 < amount
    \<and> pv_prepareTransaction sample_provider h (build_tx sample_sdk account ''fund_c_address_crosschain''
        [ScInt ''u32'' 1, ScBytes txHash, ScAddress ''GA'', ScAddress ''CA'',
         ScInt ''i128'' amount, ScVec (map (\<lambda>(pk, sg). signature_entry pk sg) pairs)]) = Inr p
    \<and> length pairs = 1"
proof -
  let ?req = "crosschain_request_of one_key_config sample_event sample_sigs"
  have parts: "cr_chainId ?req = 1" "cr_txHash ?req = replicate 64 CHR ''a''" "cr_target ?req = ''GA''"
    "cr_asset ?req = ''CA''" "cr_amount ?req = ''5''"
    by (simp_all add: crosschain_request_of_def sample_event_def)
  have sigs: "cr_sigs ?req = sample_sigs"
    using sample_sigs(2) by (simp add: crosschain_request_of_def one_key_config_def)
  have sent: "(key_of sample_event, ?req) \<in> set (wd_sent sent_world)"
    by (simp add: sent_world_def send_task_def)
  have "well_signed sample_platform one_key_config ?req"
    using world_inv_reachable [OF sent_world_reachable] sent by (auto simp: world_inv_def)
  then have shape: "matches_hex 64 (sig_pubkey s) \<and> matches_hex 128 (sig_signature s)" if "s \<in> set sample_sigs" for s
    using that verify_shape by (auto simp: well_signed_def sigs)
  have checks: "first_error [check_each sig_checks sample_sigs] = Inr ()"
    using shape by (simp add: first_error_Inr_iff check_each_Inr sig_checks_def)
  have amount: "bigint_of_string ''5'' = Some 5" by code_simp
  have args: "all_of [numberScVal sample_stellar ''u32'' (cr_chainId ?req),
       Inr (ScBytes (bytes_of_hex (replace_first ''0x'' [] (cr_txHash ?req)))),
       addressScVal sample_stellar (cr_target ?req), addressScVal sample_stellar (cr_asset ?req),
       bigIntScVal sample_stellar ''i128'' (IntString (cr_amount ?req)), Inr (ScVec (map sigScVal (cr_sigs ?req)))]
     = Inr [ScInt ''u32'' 1, ScBytes (bytes_of_hex (replace_first ''0x'' [] (replicate 64 CHR ''a''))), ScAddress ''GA'',
            ScAddress ''CA'', ScInt ''i128'' 5, ScVec (map sigScVal sample_sigs)]"
    unfolding parts sigs
    by (simp add: numberScVal_def bigIntScVal_def addressScVal_def to_bigint_def BigInt_def amount sample_stellar_def
        in_range_def del: replace_first.simps)
  have "\<exists>w'. fundCrosschain sample_sdk ?req ''GK'' sample_world
      = (Inr \<lparr>tr_hash = ''h'', tr_status = Pending, tr_error = None\<rparr>, w')"
    unfolding fundCrosschain_def Let_def sample_sdk_simps args
    by (rule exI, rule sample_mutation) (simp only: checks sigs)
  then obtain w' where run: "fundCrosschain sample_sdk ?req ''GK'' sample_world
      = (Inr \<lparr>tr_hash = ''h'', tr_status = Pending, tr_error = None\<rparr>, w')" by blast
  have valid: "validateBridgeEvent sample_platform (event_of_request ?req) = Inr ()"
    by (simp add: sample_event_valid)
  from contract_receives_what_was_signed [OF sent_world_reachable sent valid sample_quiet(2) _ run]
  have "\<exists>account txHash amount pairs p h. 0 < amount
    \<and> pv_prepareTransaction sample_provider h (build_tx sample_sdk account ''fund_c_address_crosschain''
        [ScInt ''u32'' (cr_chainId ?req), ScBytes txHash, ScAddress (cr_target ?req), ScAddress (cr_asset ?req),
         ScInt ''i128'' amount, ScVec (map (\<lambda>(pk, sg). signature_entry pk sg) pairs)]) = Inr p
    \<and> length pairs = rc_threshold one_key_config"
    by (simp add: sample_stellar_faithful) blast
  then show ?thesis unfolding parts by (simp add: one_key_config_def)
qed

text \<open>The two verifiers differ: Node accepts signatures under weak keys that the contract's strict verification refuses.  What is
  documented of the strict one is that it accepts what the signing algorithm makes with the key of a seed; so the seeds of the operators
  matter, and that the signatures of a request were made with them.\<close>

definition strict_for :: "'l host \<Rightarrow> byte list list \<Rightarrow> bool" where
  "strict_for ho seeds \<longleftrightarrow> (\<forall>seed \<in> set seeds. \<forall>pk h. seed_pubkey (ho_platform ho) seed = Inr pk \<longrightarrow>
     ho_verify_strict ho pk h (seed_sign (ho_platform ho) seed h))"

definition made_by :: "platform \<Rightarrow> byte list list \<Rightarrow> byte list \<Rightarrow> (byte list \<times> byte list) list \<Rightarrow> bool" where
  "made_by K seeds h pairs \<longleftrightarrow>
     list_all (\<lambda>(pk, sg). list_ex (\<lambda>seed. seed_pubkey K seed = Inr pk \<and> sg = seed_sign K seed h) seeds) pairs"

lemma made_by_strict:
  "made_by (ho_platform ho) seeds h pairs \<Longrightarrow> strict_for ho seeds \<Longrightarrow> (pk, sg) \<in> set pairs \<Longrightarrow> ho_verify_strict ho pk h sg"
  by (fastforce simp: made_by_def strict_for_def list_all_iff list_ex_iff)

text \<open>For nodes whose keys are in the relayer's own process this is so for every request it sends; a remote signer's answer is its operator's.\<close>

fun local_seed :: "node_config \<Rightarrow> byte list" where
  "local_seed (PrivateKeyNode sk) = bytes_of_hex sk"
| "local_seed (SignerNode url pk) = []"

lemma collected_made_by:
  assumes "\<forall>n \<in> set nodes. \<exists>sk. n = PrivateKeyNode sk" "s \<in> set (collect_signatures K net nodes h)"
  shows "\<exists>seed \<in> set (map local_seed nodes). seed_pubkey K seed = Inr (bytes_of_hex (sig_pubkey s))
    \<and> bytes_of_hex (sig_signature s) = seed_sign K seed h"
proof -
  from assms(2) keep_first_subset have "s \<in> set (List.map_filter (\<lambda>n. node_signature K net n h) nodes)"
    unfolding collect_signatures_def by fastforce
  then obtain n where n: "n \<in> set nodes" "node_signature K net n h = Some s"
    by (auto simp: List.map_filter_def)
  with assms(1) obtain sk where sk: "n = PrivateKeyNode sk" by blast
  from n(2) sk have "signPayload K sk h = Inr s" by (auto simp: node_signature_def split: sum.splits if_splits)
  with n(1) sk show ?thesis
    by (intro bexI [of _ "bytes_of_hex sk"]) (force simp: signPayload_def Let_def bind_sum_eq_Inr)+
qed

lemma local_requests_made_by:
  assumes "reachable_world K cfg wld" "(k, req) \<in> set (wd_sent wld)" "\<forall>n \<in> set (rc_nodes cfg). \<exists>sk. n = PrivateKeyNode sk"
  shows "\<exists>h. computePayloadHash K (event_of_request req) = Inr h \<and> made_by K (map local_seed (rc_nodes cfg)) h (signature_pairs req)"
proof -
  let ?ok = "\<lambda>w. \<forall>(k, req) \<in> set (wd_sent w). \<exists>h. computePayloadHash K (event_of_request req) = Inr h
    \<and> made_by K (map local_seed (rc_nodes cfg)) h (signature_pairs req)"
  from assms(1) obtain st where "rtranclp (relayer_step K cfg) (initial_world st) wld" unfolding reachable_world_def by blast
  then have "?ok wld"
  proof (induction rule: rtranclp_induct)
    case base
    show ?case by (simp add: initial_world_def)
  next
    case (step w w')
    from step.hyps(2) show ?case
    proof (cases rule: relayer_step.cases)
      case (sent e net sigs req)
      then obtain h where h: "computePayloadHash K e = Inr h" "sigs = collect_signatures K net (rc_nodes cfg) h"
        and req: "req = crosschain_request_of cfg e sigs"
        by (auto simp: gather_signatures_def bind_sum_eq_Inr request_for_def split: if_splits)
      have "cr_sigs req = take (rc_threshold cfg) sigs" by (simp add: req crosschain_request_of_def)
      then have "made_by K (map local_seed (rc_nodes cfg)) h (signature_pairs req)"
        using collected_made_by [OF assms(3), of _ K net h] h(2)
        by (fastforce simp: made_by_def signature_pairs_def list_all_iff list_ex_iff dest: in_set_takeD)
      with h req step.IH sent(1) show ?thesis by (auto simp: send_task_def)
    qed (use step.IH in \<open>auto simp: begin_task_def finish_task_def\<close>)
  qed
  with assms(2) show ?thesis by blast
qed

text \<open>C2: From the source chain to the payout: the contract pays a request the relayer sent.  If the contract's threshold is no
  larger than the relayer's, the keys that signed are registered, the signatures of the request were made with the operators' seeds
  (always so for keys in the relayer's process, by \<open>local_requests_made_by\<close>), which the contract's
  strict verifier accepts, and nothing else stands against the payout (\<open>ready_to_pay\<close>: not paused, target and asset
  allowed, the source transaction new, the reserve large enough, the token transfer accepted), then
  the call with the arguments of the request succeeds: the target is sent the amount less the fee, the reserve
  shrinks by as much, the payout is published, and the same request sent again changes nothing.\<close>

theorem contract_pays_relayer_request:
  assumes "reachable_world K cfg wld" "(k, req) \<in> set (wd_sent wld)" "validateBridgeEvent K (event_of_request req) = Inr u"
    and "contract_run ho s" "ho_platform ho = K" "relayer_threshold s \<le> rc_threshold cfg"
    and "strict_for ho seeds" "computePayloadHash K (event_of_request req) = Inr h" "made_by K seeds h (signature_pairs req)"
    and "list_all (\<lambda>(pk, sg). cs_relayer s pk) (signature_pairs req)"
    and "call = FundCrosschain (nat (cr_chainId req)) (bytes_of_hex (cr_txHash req)) (cr_target req) (cr_asset req) amount
                  (signature_pairs req)"
    and "amount = int (num_of_string 10 (cr_amount req))"
    and "ready_to_pay ho s fee l (nat (cr_chainId req)) (bytes_of_hex (cr_txHash req)) (cr_target req) (cr_asset req) amount"
  shows "\<exists>s'. call_op ho auth call s = Inr s'
    \<and> cs_events s' = cs_events s @
        [CrossChainFunded (cr_target req) (nat (cr_chainId req)) (bytes_of_hex (cr_txHash req)) amount fee (cr_asset req)]
    \<and> cs_reserve s' (cr_asset req) = cs_reserve s (cr_asset req) - (amount - fee) \<and> cs_ledger s' = l
    \<and> invoke ho auth' call s' = s'"
proof -
  let ?c = "nat (cr_chainId req)" and ?h = "bytes_of_hex (cr_txHash req)"
  have "well_signed K cfg req" using world_inv_reachable [OF assms(1)] assms(2) by (auto simp: world_inv_def)
  note pairs = well_signed_pairs [OF this assms(3)]
  have inv: "contract_inv ho s" by (rule contract_run_inv [OF assms(4)])
  then have threshold: "0 < relayer_threshold s" by (simp add: contract_inv_def registry_ok_def)
  have sigs: "check_sigs ho s (onchain_payload_hash K ?c ?h (cr_target req) (cr_asset req) amount) [] (signature_pairs req)
      = Inr (map fst (signature_pairs req))"
  proof -
    have "h = onchain_payload_hash K ?c ?h (cr_target req) (cr_asset req) amount"
      using request_hash [OF assms(3)] assms(8) by (simp add: assms(12))
    with made_by_strict [of ho seeds h "signature_pairs req"] assms(5,7,9)
    have "ho_verify_strict ho pk (onchain_payload_hash K ?c ?h (cr_target req) (cr_asset req) amount) sg"
      if "(pk, sg) \<in> set (signature_pairs req)" for pk sg using that by blast
    with pairs assms(10) show ?thesis by (auto simp: check_sigs_Inr list_all_iff)
  qed
  have length: "relayer_threshold s \<le> length (map fst (signature_pairs req))" using pairs assms(6) by simp
  then obtain pk where "cs_relayer s pk"
    using threshold assms(10) by (cases "signature_pairs req") auto
  then have count: "0 < cs_relayer_count s" using inv by (auto simp: contract_inv_def registry_ok_def)
  have "\<not> cs_entered s" using inv by (simp add: contract_inv_def)
  from payout_succeeds [OF assms(13) this threshold count _ length, unfolded assms(5), OF sigs] obtain s' where s':
    "call_op ho auth call s = Inr s'"
    "cs_events s' = cs_events s @ [CrossChainFunded (cr_target req) ?c ?h amount fee (cr_asset req)]"
    "cs_reserve s' (cr_asset req) = cs_reserve s (cr_asset req) - (amount - fee)" "cs_ledger s' = l"
    unfolding assms(11) by blast
  have "contract_inv ho s'" using call_inv [OF inv s'(1)] .
  then have "cs_nonce_used s' (onchain_nonce K ?c ?h)" by (simp add: contract_inv_def payouts_ok_def s'(2) assms(5))
  then have "call_op ho auth' call s' \<noteq> Inr s''" for s''
    using fund_c_address_crosschain_effect [of ho ?c ?h "cr_target req" "cr_asset req" amount "signature_pairs req" s' s'']
    by (auto simp: assms(5,11) crosschain_checks_eq_Inr)
  then have "invoke ho auth' call s' = s'" by (auto simp: invoke_def split: sum.splits)
  with s' show ?thesis by blast
qed

lemma contract_pays_relayer_request_witness:
  "\<exists>sigs key s'. call_op sample_host (\<lambda>_. True) (FundCrosschain 1 (bytes_of_hex (replicate 64 CHR ''a'')) ''GA'' ''CA'' 5 sigs)
        (funded_with key) = Inr s'
    \<and> cs_events s' = cs_events (funded_with key) @ [CrossChainFunded ''GA'' 1 (bytes_of_hex (replicate 64 CHR ''a'')) 5 0 ''CA'']"
proof -
  let ?req = "crosschain_request_of one_key_config sample_event sample_sigs"
  have parts: "cr_chainId ?req = 1" "cr_txHash ?req = replicate 64 CHR ''a''" "cr_target ?req = ''GA''"
    "cr_asset ?req = ''CA''" "cr_amount ?req = ''5''"
    by (simp_all add: crosschain_request_of_def sample_event_def)
  have sent: "(key_of sample_event, ?req) \<in> set (wd_sent sent_world)"
    by (simp add: sent_world_def send_task_def)
  have "length (signature_pairs ?req) = Suc 0"
    using sample_sigs(2) by (simp add: signature_pairs_def crosschain_request_of_def one_key_config_def)
  then obtain key sg where one: "signature_pairs ?req = [(key, sg)]" by (cases "signature_pairs ?req") auto
  have keys: "list_all (\<lambda>(pk, sg). cs_relayer (funded_with key) pk) (signature_pairs ?req)"
    by (simp add: one funded_relayer)
  have valid: "validateBridgeEvent sample_platform (event_of_request ?req) = Inr ()"
    by (simp add: sample_event_valid)
  have ready: "ready_to_pay sample_host (funded_with key) 0 () (nat (cr_chainId ?req)) (bytes_of_hex (cr_txHash ?req))
      (cr_target ?req) (cr_asset ?req) 5"
    unfolding parts by (rule funded_ready) (simp add: MAX_STRKEY_LEN_def)
  have threshold: "relayer_threshold (funded_with key) \<le> rc_threshold one_key_config"
    by (simp add: funded_threshold one_key_config_def)
  have amount: "(5 :: int) = int (num_of_string 10 (cr_amount ?req))" unfolding parts by code_simp
  have host: "ho_platform sample_host = sample_platform" by (simp add: sample_host_def)
  have strict: "strict_for sample_host seeds" for seeds
  proof -
    have "ed_verify sample_platform pk m (seed_sign sample_platform seed m) = Inr True"
      if "seed_pubkey sample_platform seed = Inr pk" for seed pk m
      using sample_signing_sound that unfolding signing_sound_def by blast
    moreover have "ho_verify_strict sample_host pk m sg \<longleftrightarrow> ed_verify sample_platform pk m sg = Inr True" for pk m sg
      by (simp add: sample_host_def)
    ultimately show ?thesis unfolding strict_for_def host by blast
  qed
  have "\<forall>n \<in> set (rc_nodes one_key_config). \<exists>sk. n = PrivateKeyNode sk" by (simp add: one_key_config_def)
  from local_requests_made_by [OF sent_world_reachable sent this] obtain h where
    made: "computePayloadHash sample_platform (event_of_request ?req) = Inr h"
      "made_by sample_platform (map local_seed (rc_nodes one_key_config)) h (signature_pairs ?req)" by blast
  have one_nat: "nat 1 = 1" by simp
  note paid = contract_pays_relayer_request [where auth = "\<lambda>_. True" and auth' = "\<lambda>_. True", OF sent_world_reachable sent
    valid sample_runs(1) host threshold strict made keys refl amount ready, unfolded parts one_nat]
  then show ?thesis by blast
qed

end
